(* ===== verification/Prelude.thy ===== *)
theory Prelude
  imports Complex_Main "HOL-Library.Word" "HOL-Library.AList" "HOL-Library.Sublist"
    "HOL-Library.Code_Target_Nat"
begin

text \<open>
  Shared vocabulary of the development.  Names for the machine types of the source, the
  error values that \<open>std::io::Result\<close> carries, saturating arithmetic on \<open>u64\<close>, the
  reading of a \<open>HashMap\<close> as an association list, and the generic facts on lists,
  association lists and words that the component theories share.

  A \<open>HashMap<K, V>\<close> is an association list with distinct keys.  The order of the list
  stands for the (unspecified) iteration order of the map: the theorems about code that
  iterates over a map quantify over every such list, so they hold for every order.
\<close>

section \<open>Rule collections\<close>

named_theorems split_rules \<open>case and conditional splitting rules of the development\<close>
named_theorems hm_simps \<open>lookup laws of the association-list maps\<close>
named_theorems inv_intros \<open>preservation lemmas, one per operation\<close>

declare if_splits [split_rules] option.splits [split_rules] sum.splits [split_rules]
  prod.splits [split_rules] list.splits [split_rules]

section \<open>Machine types\<close>

type_synonym u8 = "8 word"
type_synonym u16 = "16 word"
type_synonym u32 = "32 word"
type_synonym u64 = "64 word"
type_synonym usize = nat
type_synonym bytes = "u8 list"

text \<open>\<open>u64::saturating_add\<close>, \<open>u64::saturating_mul\<close> and \<open>u64::saturating_sub\<close>.\<close>

definition saturating_add :: "u64 \<Rightarrow> u64 \<Rightarrow> u64" where
  "saturating_add a b = (if unat a + unat b < 2 ^ 64 then a + b else - 1)"

definition saturating_mul :: "u64 \<Rightarrow> u64 \<Rightarrow> u64" where
  "saturating_mul a b = (if unat a * unat b < 2 ^ 64 then a * b else - 1)"

definition saturating_sub :: "u64 \<Rightarrow> u64 \<Rightarrow> u64" where
  "saturating_sub a b = (if b \<le> a then a - b else 0)"

lemma unat_max_u64: "unat (- 1 :: u64) = 2 ^ 64 - 1"
  by (simp add: unsigned_minus_1_eq_mask mask_eq_exp_minus_1)

lemma unat_lt_u64: "unat (x :: u64) < 2 ^ 64"
  using unsigned_less [of x, where 'a = nat] by simp

lemma unat_saturating_add:
  "unat (saturating_add a b) = min (unat a + unat b) (2 ^ 64 - 1)"
proof (cases "unat a + unat b < 2 ^ 64")
  case True
  then show ?thesis
    by (simp add: saturating_add_def unat_word_ariths)
next
  case False
  then show ?thesis
    by (simp add: saturating_add_def unat_max_u64)
qed

lemma unat_saturating_mul:
  "unat (saturating_mul a b) = min (unat a * unat b) (2 ^ 64 - 1)"
proof (cases "unat a * unat b < 2 ^ 64")
  case True
  then show ?thesis
    by (simp add: saturating_mul_def unat_word_ariths)
next
  case False
  then show ?thesis
    by (simp add: saturating_mul_def unat_max_u64)
qed

lemma saturating_add_ge: "a \<le> saturating_add a b"
  using unat_lt_u64 [of a] by (simp add: word_le_nat_alt unat_saturating_add)

lemma saturating_add_0 [simp]: "saturating_add a 0 = a"
  using unat_lt_u64 [of a] by (simp add: saturating_add_def)

section \<open>Errors\<close>

text \<open>The \<open>io::ErrorKind\<close> values the source creates or inspects.\<close>

datatype error_kind =
    NotFound | PermissionDenied | ConnectionReset | NotConnected | AddrInUse
  | AddrNotAvailable | BrokenPipe | InvalidInput | InvalidData | TimedOut
  | WouldBlock | UnexpectedEof | Unsupported | WriteZero | Other

datatype io_error = IoError (err_kind: error_kind) (err_msg: string)

type_synonym 'a io_result = "io_error + 'a"

definition is_ok :: "'e + 'a \<Rightarrow> bool" where
  "is_ok r = (case r of Inl _ \<Rightarrow> False | Inr _ \<Rightarrow> True)"

lemma is_ok_simps [simp]: "is_ok (Inr x)" "\<not> is_ok (Inl e)"
  by (simp_all add: is_ok_def)

lemma is_ok_iff: "is_ok r \<longleftrightarrow> (\<exists>x. r = Inr x)"
  by (cases r) auto

section \<open>Reading from a byte source\<close>

text \<open>
  \<open>Read::read_exact\<close> on a source whose remaining bytes are known: it takes the next
  \<open>n\<close> bytes, or fails with \<open>UnexpectedEof\<close> when the source ends first.
\<close>

definition read_exact :: "nat \<Rightarrow> 'a list \<Rightarrow> ('a list \<times> 'a list) io_result" where
  "read_exact n s =
     (if n \<le> length s then Inr (take n s, drop n s)
      else Inl (IoError UnexpectedEof ''failed to fill whole buffer''))"

lemma read_exact_append [simp]:
  "n = length xs \<Longrightarrow> read_exact n (xs @ s) = Inr (xs, s)"
  by (simp add: read_exact_def)

lemma read_exact_Inr: "read_exact n s = Inr (a, b) \<Longrightarrow> s = a @ b \<and> length a = n"
  by (auto simp: read_exact_def split: if_splits)

section \<open>Association-list maps\<close>

abbreviation hm_get :: "('k \<times> 'v) list \<Rightarrow> 'k \<Rightarrow> 'v option" where
  "hm_get \<equiv> map_of"

abbreviation hm_insert :: "'k \<Rightarrow> 'v \<Rightarrow> ('k \<times> 'v) list \<Rightarrow> ('k \<times> 'v) list" where
  "hm_insert \<equiv> AList.update"

abbreviation hm_remove :: "'k \<Rightarrow> ('k \<times> 'v) list \<Rightarrow> ('k \<times> 'v) list" where
  "hm_remove \<equiv> AList.delete"

definition hm_contains :: "('k \<times> 'v) list \<Rightarrow> 'k \<Rightarrow> bool" where
  "hm_contains m k = (map_of m k \<noteq> None)"

definition hm_values :: "('k \<times> 'v) list \<Rightarrow> 'v list" where
  "hm_values m = map snd m"

definition hm_keys :: "('k \<times> 'v) list \<Rightarrow> 'k list" where
  "hm_keys m = map fst m"

text \<open>The representation invariant of a map: no key occurs twice.\<close>

definition hm_ok :: "('k \<times> 'v) list \<Rightarrow> bool" where
  "hm_ok m = distinct (map fst m)"

lemma hm_get_insert [hm_simps]:
  "hm_get (hm_insert k v m) k' = (if k' = k then Some v else hm_get m k')"
  by (simp add: update_conv)

lemma hm_get_remove [hm_simps]:
  "hm_get (hm_remove k m) k' = (if k' = k then None else hm_get m k')"
  by (simp add: delete_conv)

lemma hm_ok_Nil [simp]: "hm_ok []"
  by (simp add: hm_ok_def)

lemma hm_ok_insert [inv_intros]: "hm_ok m \<Longrightarrow> hm_ok (hm_insert k v m)"
  by (simp add: hm_ok_def distinct_update)

lemma hm_ok_remove [inv_intros]: "hm_ok m \<Longrightarrow> hm_ok (hm_remove k m)"
  by (simp add: hm_ok_def distinct_delete)

lemma hm_remove_dom: "fst ` set (hm_remove k m) = fst ` set m - {k}"
  by (metis delete_keys set_map set_removeAll)

lemma hm_insert_dom: "fst ` set (hm_insert k v m) = insert k (fst ` set m)"
  by (simp add: dom_update)

lemma hm_ok_get: "hm_ok m \<Longrightarrow> (k, v) \<in> set m \<Longrightarrow> hm_get m k = Some v"
  by (simp add: hm_ok_def)

lemma hm_get_values: "hm_get m k = Some v \<Longrightarrow> v \<in> set (hm_values m)"
  by (force simp: hm_values_def dest: map_of_SomeD)

lemma hm_values_get:
  "hm_ok m \<Longrightarrow> v \<in> set (hm_values m) \<Longrightarrow> \<exists>k. hm_get m k = Some v"
  by (force simp: hm_values_def dest: hm_ok_get)

lemma hm_contains_iff: "hm_contains m k \<longleftrightarrow> k \<in> set (hm_keys m)"
  by (auto simp: hm_contains_def hm_keys_def map_of_eq_None_iff)

section \<open>Lists\<close>

text \<open>\<open>Iterator::find\<close>, \<open>find_map\<close> and \<open>position\<close>.\<close>

fun find_map :: "('a \<Rightarrow> 'b option) \<Rightarrow> 'a list \<Rightarrow> 'b option" where
  "find_map f [] = None"
| "find_map f (x # xs) = (case f x of None \<Rightarrow> find_map f xs | Some y \<Rightarrow> Some y)"

fun position :: "('a \<Rightarrow> bool) \<Rightarrow> 'a list \<Rightarrow> nat option" where
  "position p [] = None"
| "position p (x # xs) = (if p x then Some 0 else map_option Suc (position p xs))"

lemma find_map_None_iff: "find_map f xs = None \<longleftrightarrow> (\<forall>x \<in> set xs. f x = None)"
  by (induction xs) (auto split: option.splits)

lemma find_map_SomeD: "find_map f xs = Some y \<Longrightarrow> \<exists>x \<in> set xs. f x = Some y"
  by (induction xs) (auto split: option.splits)

lemma position_SomeD:
  "position p xs = Some i \<Longrightarrow> i < length xs \<and> p (xs ! i) \<and> (\<forall>j < i. \<not> p (xs ! j))"
proof (induction xs arbitrary: i)
  case Nil
  then show ?case by simp
next
  case (Cons x xs)
  show ?case
  proof (cases "p x")
    case True
    with Cons.prems show ?thesis by auto
  next
    case False
    with Cons.prems obtain k where k: "position p xs = Some k" "i = Suc k"
      by auto
    from Cons.IH [OF k(1)] k(2) False show ?thesis
      by (auto simp: less_Suc_eq_0_disj)
  qed
qed

lemma position_None_iff: "position p xs = None \<longleftrightarrow> (\<forall>x \<in> set xs. \<not> p x)"
  by (induction xs) auto

lemma fold_keeps: "(\<And>x s. g (f x s) = g s) \<Longrightarrow> g (fold f xs s) = g s"
  by (induction xs arbitrary: s) auto

lemma suffix_append_iff: "suffix ys xs \<longleftrightarrow> (\<exists>zs. xs = zs @ ys)"
  by (simp add: suffix_def)

end
