(* ===== verification/RustStd.thy ===== *)
theory RustStd
  imports Prelude
begin

text \<open>
  The part of the Rust standard library the source computes with.  A Rust \<open>str\<close> is its
  UTF-8 byte sequence, modelled as \<open>string\<close> (a list of \<open>char\<close>, each one byte), so
  \<open>len\<close> is \<open>length\<close> and slicing at byte offsets is \<open>take\<close> and \<open>drop\<close>.  White
  space is Unicode white space, given by its UTF-8 encodings; the other operations
  (\<open>split\<close>, \<open>find\<close>, \<open>to_ascii_lowercase\<close>, \<open>parse\<close>, \<dots>) look for ASCII
  characters, which in UTF-8 never occur inside another character.
\<close>

section \<open>Trimming\<close>

text \<open>The characters with the Unicode property \<open>White_Space\<close>, in UTF-8.\<close>

definition white_space :: "string list" where
  "white_space =
     map (\<lambda>c. [c]) [CHR 0x09, CHR 0x0A, CHR 0x0B, CHR 0x0C, CHR 0x0D, CHR 0x20]
     @ [[CHR 0xC2, CHR 0x85], [CHR 0xC2, CHR 0xA0], [CHR 0xE1, CHR 0x9A, CHR 0x80]]
     @ map (\<lambda>c. [CHR 0xE2, CHR 0x80, c])
         [CHR 0x80, CHR 0x81, CHR 0x82, CHR 0x83, CHR 0x84, CHR 0x85, CHR 0x86, CHR 0x87,
          CHR 0x88, CHR 0x89, CHR 0x8A, CHR 0xA8, CHR 0xA9, CHR 0xAF]
     @ [[CHR 0xE2, CHR 0x81, CHR 0x9F], [CHR 0xE3, CHR 0x80, CHR 0x80]]"

text \<open>
  Remove from the front every occurrence of one of the given (non-empty) patterns:
  \<open>trim_start\<close> and \<open>trim_start_matches\<close>.
\<close>

function strip_front :: "string list \<Rightarrow> string \<Rightarrow> string" where
  "strip_front ws s =
     (case find (\<lambda>w. w \<noteq> [] \<and> prefix w s) ws of
        None \<Rightarrow> s
      | Some w \<Rightarrow> strip_front ws (drop (length w) s))"
  by pat_completeness auto
termination
proof (relation "measure (\<lambda>(ws, s). length s)")
  fix ws s w
  assume "find (\<lambda>w. w \<noteq> [] \<and> prefix w s) ws = Some w"
  then have "w \<noteq> []" and "prefix w s"
    by (auto simp: find_Some_iff)
  then show "((ws, drop (length w) s), (ws, s)) \<in> measure (\<lambda>(ws, s). length s)"
    by (auto simp: prefix_def)
qed simp

declare strip_front.simps [simp del]

definition strip_back :: "string list \<Rightarrow> string \<Rightarrow> string" where
  "strip_back ws s = rev (strip_front (map rev ws) (rev s))"

definition trim_start :: "string \<Rightarrow> string" where
  "trim_start s = strip_front white_space s"

definition trim_end :: "string \<Rightarrow> string" where
  "trim_end s = strip_back white_space s"

definition trim :: "string \<Rightarrow> string" where
  "trim s = trim_end (trim_start s)"

definition trim_start_matches :: "char \<Rightarrow> string \<Rightarrow> string" where
  "trim_start_matches c s = strip_front [[c]] s"

definition trim_end_matches :: "char \<Rightarrow> string \<Rightarrow> string" where
  "trim_end_matches c s = strip_back [[c]] s"

lemma strip_front_noop:
  "(\<And>w. w \<in> set ws \<Longrightarrow> w \<noteq> [] \<Longrightarrow> \<not> prefix w s) \<Longrightarrow> strip_front ws s = s"
  by (subst strip_front.simps) (auto simp: find_None_iff split: option.splits dest: find_Some_iff [THEN iffD1])

lemma strip_front_clean: "w \<in> set ws \<Longrightarrow> w \<noteq> [] \<Longrightarrow> \<not> prefix w (strip_front ws s)"
proof (induction ws s rule: strip_front.induct)
  case (1 ws s)
  show ?case
  proof (cases "find (\<lambda>w. w \<noteq> [] \<and> prefix w s) ws")
    case None
    then have "strip_front ws s = s"
      by (subst strip_front.simps) simp
    with None 1 show ?thesis
      by (auto simp: find_None_iff)
  next
    case (Some v)
    then have "strip_front ws s = strip_front ws (drop (length v) s)"
      by (subst strip_front.simps) simp
    with 1 Some show ?thesis by simp
  qed
qed

lemma suffix_strip_front: "suffix (strip_front ws s) s"
proof (induction ws s rule: strip_front.induct)
  case (1 ws s)
  show ?case
  proof (cases "find (\<lambda>w. w \<noteq> [] \<and> prefix w s) ws")
    case None
    then show ?thesis by (subst strip_front.simps) simp
  next
    case (Some v)
    then have "suffix (strip_front ws (drop (length v) s)) (drop (length v) s)"
      using 1 by simp
    then have "suffix (strip_front ws (drop (length v) s)) s"
      using suffix_drop suffix_order.trans by blast
    with Some show ?thesis by (subst strip_front.simps) simp
  qed
qed

lemma strip_front_Nil [simp]: "strip_front ws [] = []"
  using suffix_strip_front [of ws "[]"] by simp

lemma prefix_strip_back: "prefix (strip_back ws s) s"
  using suffix_strip_front [of "map rev ws" "rev s"]
  by (simp add: strip_back_def suffix_to_prefix)

lemma prefix_trim_end: "prefix (trim_end s) s"
  by (simp add: trim_end_def prefix_strip_back)

lemma white_space_ne: "w \<in> set white_space \<Longrightarrow> w \<noteq> []"
  by (auto simp: white_space_def)

text \<open>
  A string is \<^emph>\<open>clean\<close> when no white-space character starts or ends it: these are
  exactly the strings \<open>trim\<close> leaves alone, and \<open>trim\<close> always returns one.
\<close>

definition trimmed :: "string \<Rightarrow> bool" where
  "trimmed s = list_all (\<lambda>w. \<not> prefix w s \<and> \<not> suffix w s) white_space"

lemma trim_trimmed:
  assumes "trimmed s"
  shows "trim s = s"
proof -
  have "trim_start s = s"
    unfolding trim_start_def using assms
    by (intro strip_front_noop) (auto simp: trimmed_def list_all_iff)
  moreover have "strip_front (map rev white_space) (rev s) = rev s"
    using assms by (intro strip_front_noop) (auto simp: trimmed_def list_all_iff suffix_to_prefix)
  ultimately show ?thesis
    by (simp add: trim_def trim_end_def strip_back_def)
qed

lemma trimmed_trim: "trimmed (trim s)"
proof -
  have "\<not> prefix w (trim s)" if w: "w \<in> set white_space" for w
  proof
    assume "prefix w (trim s)"
    then have "prefix w (trim_start s)"
      using prefix_trim_end [of "trim_start s"] prefix_order.trans unfolding trim_def by blast
    then show False
      using strip_front_clean [OF w] white_space_ne [OF w] by (simp add: trim_start_def)
  qed
  moreover have "\<not> suffix w (trim s)" if w: "w \<in> set white_space" for w
  proof -
    have "\<not> prefix (rev w) (strip_front (map rev white_space) (rev (trim_start s)))"
      using w white_space_ne [OF w] by (intro strip_front_clean) auto
    then show ?thesis
      by (simp add: trim_def trim_end_def strip_back_def suffix_to_prefix)
  qed
  ultimately show ?thesis
    by (simp add: trimmed_def list_all_iff)
qed

lemma trim_idem [simp]: "trim (trim s) = trim s"
  by (rule trim_trimmed [OF trimmed_trim])

lemma trim_Nil [simp]: "trim [] = []"
  by (simp add: trim_def trim_start_def trim_end_def strip_back_def)

text \<open>A string that begins and ends with a visible ASCII character is left alone.\<close>

definition visible :: "char \<Rightarrow> bool" where
  "visible c = (33 \<le> (of_char c :: nat) \<and> (of_char c :: nat) \<le> 126)"

lemma white_space_invisible: "w \<in> set white_space \<Longrightarrow> \<not> visible (hd w) \<and> \<not> visible (last w)"
proof -
  have "list_all (\<lambda>w. \<not> visible (hd w) \<and> \<not> visible (last w)) white_space"
    by code_simp
  then show "w \<in> set white_space \<Longrightarrow> \<not> visible (hd w) \<and> \<not> visible (last w)"
    by (simp add: list_all_iff)
qed

lemma trim_visible:
  assumes "s \<noteq> []" "visible (hd s)" "visible (last s)"
  shows "trim s = s"
proof (rule trim_trimmed)
  have "\<not> prefix w s \<and> \<not> suffix w s" if w: "w \<in> set white_space" for w
    using white_space_invisible [OF w] white_space_ne [OF w] assms
    by (auto simp: prefix_def suffix_def)
  then show "trimmed s" by (simp add: trimmed_def list_all_iff)
qed

section \<open>ASCII case\<close>

definition code :: "char \<Rightarrow> nat" where
  "code c = of_char c"

definition ascii_lower :: "char \<Rightarrow> char" where
  "ascii_lower c = (if 65 \<le> code c \<and> code c \<le> 90 then char_of (code c + 32) else c)"

definition ascii_upper :: "char \<Rightarrow> char" where
  "ascii_upper c = (if 97 \<le> code c \<and> code c \<le> 122 then char_of (code c - 32) else c)"

definition to_ascii_lowercase :: "string \<Rightarrow> string" where
  "to_ascii_lowercase s = map ascii_lower s"

definition to_ascii_uppercase :: "string \<Rightarrow> string" where
  "to_ascii_uppercase s = map ascii_upper s"

definition eq_ignore_ascii_case :: "string \<Rightarrow> string \<Rightarrow> bool" where
  "eq_ignore_ascii_case a b = (to_ascii_lowercase a = to_ascii_lowercase b)"

lemma code_char_of [simp]: "n < 256 \<Longrightarrow> code (char_of n) = n"
  by (simp add: code_def)

lemma char_of_code [simp]: "char_of (code c) = c"
  by (simp add: code_def)

lemma code_lt [simp]: "code c < 256"
  by (simp add: code_def)

lemma code_inject [simp]: "code a = code b \<longleftrightarrow> a = b"
  by (metis char_of_code)

lemma ascii_lower_idem [simp]: "ascii_lower (ascii_lower c) = ascii_lower c"
  by (simp add: ascii_lower_def)

lemma to_ascii_lowercase_idem [simp]:
  "to_ascii_lowercase (to_ascii_lowercase s) = to_ascii_lowercase s"
  by (simp add: to_ascii_lowercase_def)

lemma to_ascii_lowercase_Nil [simp]: "to_ascii_lowercase [] = []"
  by (simp add: to_ascii_lowercase_def)

lemma length_to_ascii_lowercase [simp]: "length (to_ascii_lowercase s) = length s"
  by (simp add: to_ascii_lowercase_def)

lemma to_ascii_lowercase_append [simp]:
  "to_ascii_lowercase (a @ b) = to_ascii_lowercase a @ to_ascii_lowercase b"
  by (simp add: to_ascii_lowercase_def)

lemma eq_ignore_ascii_case_refl [simp]: "eq_ignore_ascii_case a a"
  by (simp add: eq_ignore_ascii_case_def)

section \<open>Searching and splitting\<close>

fun split_on :: "char \<Rightarrow> string \<Rightarrow> string list" where
  "split_on c [] = [[]]"
| "split_on c (x # s) =
     (if x = c then [] # split_on c s
      else (case split_on c s of [] \<Rightarrow> [[x]] | p # ps \<Rightarrow> (x # p) # ps))"

fun split_once :: "char \<Rightarrow> string \<Rightarrow> (string \<times> string) option" where
  "split_once c [] = None"
| "split_once c (x # s) =
     (if x = c then Some ([], s)
      else (case split_once c s of None \<Rightarrow> None | Some (a, b) \<Rightarrow> Some (x # a, b)))"

definition rsplit_once :: "char \<Rightarrow> string \<Rightarrow> (string \<times> string) option" where
  "rsplit_once c s =
     (case split_once c (rev s) of None \<Rightarrow> None | Some (a, b) \<Rightarrow> Some (rev b, rev a))"

text \<open>\<open>str::find\<close> of a character and of a string, \<open>str::contains\<close>, \<open>strip_prefix\<close>.\<close>

definition find_char :: "char \<Rightarrow> string \<Rightarrow> nat option" where
  "find_char c s = position (\<lambda>x. x = c) s"

fun find_str :: "string \<Rightarrow> string \<Rightarrow> nat option" where
  "find_str p [] = (if p = [] then Some 0 else None)"
| "find_str p (x # s) =
     (if prefix p (x # s) then Some 0 else map_option Suc (find_str p s))"

definition str_contains :: "string \<Rightarrow> string \<Rightarrow> bool" where
  "str_contains s p = (find_str p s \<noteq> None)"

definition strip_prefix :: "string \<Rightarrow> string \<Rightarrow> string option" where
  "strip_prefix p s = (if prefix p s then Some (drop (length p) s) else None)"

definition replace_char :: "char \<Rightarrow> string \<Rightarrow> string \<Rightarrow> string" where
  "replace_char c r s = concat (map (\<lambda>x. if x = c then r else [x]) s)"

text \<open>
  \<open>str::lines\<close>: every line ends at a line feed, which is removed together with one
  carriage return before it; a last piece without a line feed is a line unless it is empty.
\<close>

definition strip_cr :: "string \<Rightarrow> string" where
  "strip_cr s = (if s \<noteq> [] \<and> last s = CHR 0x0D then butlast s else s)"

definition lines :: "string \<Rightarrow> string list" where
  "lines s =
     (let ps = split_on (CHR 0x0A) s
      in map strip_cr (butlast ps) @ (if last ps = [] then [] else [last ps]))"

text \<open>\<open>str::split_whitespace\<close>: the maximal runs without white space.\<close>

function split_ws :: "string \<Rightarrow> string \<Rightarrow> string list" where
  "split_ws acc [] = (if acc = [] then [] else [rev acc])"
| "split_ws acc (x # s) =
     (case find (\<lambda>w. w \<noteq> [] \<and> prefix w (x # s)) white_space of
        None \<Rightarrow> split_ws (x # acc) s
      | Some w \<Rightarrow> (if acc = [] then [] else [rev acc]) @ split_ws [] (drop (length w) (x # s)))"
  by pat_completeness auto
termination
proof (relation "measure (\<lambda>(acc, s). length s)")
  fix acc x s w
  assume "find (\<lambda>w. w \<noteq> [] \<and> prefix w (x # s)) white_space = Some w"
  then have "w \<noteq> []"
    by (auto simp: find_Some_iff)
  then show "(([], drop (length w) (x # s)), (acc, x # s)) \<in> measure (\<lambda>(acc, s). length s)"
    by (cases w) auto
qed auto

definition split_whitespace :: "string \<Rightarrow> string list" where
  "split_whitespace s = split_ws [] s"

lemma split_on_ne [simp]: "split_on c s \<noteq> []"
  by (induction s) (auto split: list.splits)

lemma split_on_no_sep: "p \<in> set (split_on c s) \<Longrightarrow> c \<notin> set p"
proof (induction s arbitrary: p)
  case Nil
  then show ?case by simp
next
  case (Cons x s)
  then show ?case
    by (cases "split_on c s") (auto split: if_splits)
qed

lemma split_on_absent: "c \<notin> set s \<Longrightarrow> split_on c s = [s]"
  by (induction s) auto

lemma split_on_append: "c \<notin> set a \<Longrightarrow> split_on c (a @ c # s) = a # split_on c s"
  by (induction a) auto

lemma split_once_SomeD:
  "split_once c s = Some (a, b) \<Longrightarrow> s = a @ c # b \<and> c \<notin> set a"
  by (induction s arbitrary: a) (auto split: if_splits option.splits)

lemma split_once_None_iff: "split_once c s = None \<longleftrightarrow> c \<notin> set s"
  by (induction s) (auto split: option.splits)

lemma split_once_append: "c \<notin> set a \<Longrightarrow> split_once c (a @ c # b) = Some (a, b)"
  by (induction a) auto

lemma rsplit_once_append: "c \<notin> set b \<Longrightarrow> rsplit_once c (a @ c # b) = Some (a, b)"
  by (simp add: rsplit_once_def split_once_append)

lemma rsplit_once_SomeD:
  "rsplit_once c s = Some (a, b) \<Longrightarrow> s = a @ c # b \<and> c \<notin> set b"
  by (auto simp: rsplit_once_def rev_swap split: option.splits dest!: split_once_SomeD)

lemma rsplit_once_None_iff: "rsplit_once c s = None \<longleftrightarrow> c \<notin> set s"
  using split_once_None_iff [of c "rev s"] by (auto simp: rsplit_once_def split: option.splits)

section \<open>Numbers\<close>

definition is_digit :: "char \<Rightarrow> bool" where
  "is_digit c = (48 \<le> code c \<and> code c \<le> 57)"

fun parse_digits :: "nat \<Rightarrow> string \<Rightarrow> nat option" where
  "parse_digits acc [] = Some acc"
| "parse_digits acc (c # s) =
     (if is_digit c then parse_digits (10 * acc + (code c - 48)) s else None)"

text \<open>
  \<open>str::parse\<close> at an unsigned type of \<open>w\<close> bits: one leading plus sign is allowed,
  then at least one digit and nothing else; a value that does not fit is an error.
\<close>

definition parse_uint :: "nat \<Rightarrow> string \<Rightarrow> nat option" where
  "parse_uint w s =
     (let ds = (if s \<noteq> [] \<and> hd s = CHR ''+'' then tl s else s)
      in if ds = [] then None
         else (case parse_digits 0 ds of
                 None \<Rightarrow> None
               | Some n \<Rightarrow> if n < 2 ^ w then Some n else None))"

definition parse_u8 :: "string \<Rightarrow> u8 option" where
  "parse_u8 s = map_option of_nat (parse_uint 8 s)"

definition parse_u16 :: "string \<Rightarrow> u16 option" where
  "parse_u16 s = map_option of_nat (parse_uint 16 s)"

definition parse_u32 :: "string \<Rightarrow> u32 option" where
  "parse_u32 s = map_option of_nat (parse_uint 32 s)"

definition parse_u64 :: "string \<Rightarrow> u64 option" where
  "parse_u64 s = map_option of_nat (parse_uint 64 s)"

definition parse_usize :: "string \<Rightarrow> usize option" where
  "parse_usize s = parse_uint 64 s"

text \<open>\<open>to_string\<close> of an unsigned integer, and lower-case hexadecimal.\<close>

fun show_nat :: "nat \<Rightarrow> string" where
  "show_nat n =
     (if n < 10 then [char_of (48 + n)]
      else show_nat (n div 10) @ [char_of (48 + n mod 10)])"

declare show_nat.simps [simp del]

definition hex_digit :: "nat \<Rightarrow> char" where
  "hex_digit n = (if n < 10 then char_of (48 + n) else char_of (87 + n))"

fun show_hex :: "nat \<Rightarrow> string" where
  "show_hex n =
     (if n < 16 then [hex_digit n] else show_hex (n div 16) @ [hex_digit (n mod 16)])"

declare show_hex.simps [simp del]

lemma parse_digits_append:
  "parse_digits acc (a @ b) = (case parse_digits acc a of None \<Rightarrow> None | Some n \<Rightarrow> parse_digits n b)"
  by (induction a arbitrary: acc) auto

lemma parse_digits_show_nat: "parse_digits 0 (show_nat n) = Some n"
proof (induction n rule: show_nat.induct)
  case (1 n)
  show ?case
  proof (cases "n < 10")
    case True
    then show ?thesis by (subst show_nat.simps) (simp add: is_digit_def)
  next
    case False
    then have "parse_digits 0 (show_nat (n div 10)) = Some (n div 10)" using 1 by simp
    moreover have "n mod 10 < 10" by simp
    ultimately show ?thesis using False
      by (subst show_nat.simps) (simp add: parse_digits_append is_digit_def)
  qed
qed

lemma show_nat_digits: "c \<in> set (show_nat n) \<Longrightarrow> is_digit c"
proof (induction n rule: show_nat.induct)
  case (1 n)
  have "n mod 10 < 10" by simp
  with 1 show ?case
    by (subst (asm) (2) show_nat.simps) (auto simp: is_digit_def split: if_splits)
qed

lemma show_nat_ne [simp]: "show_nat n \<noteq> []"
  by (subst show_nat.simps) simp

lemma is_digit_plus [simp]: "\<not> is_digit (CHR ''+'')"
  by (simp add: is_digit_def code_def)

lemma parse_uint_show_nat: "n < 2 ^ w \<Longrightarrow> parse_uint w (show_nat n) = Some n"
proof -
  assume n: "n < 2 ^ w"
  have "hd (show_nat n) \<noteq> CHR ''+''"
    using show_nat_digits [of "hd (show_nat n)" n] by auto
  with n show ?thesis
    by (simp add: parse_uint_def parse_digits_show_nat)
qed

lemma parse_u64_show [simp]: "parse_u64 (show_nat (unat (x :: u64))) = Some x"
  using unat_lt_u64 [of x] by (simp add: parse_u64_def parse_uint_show_nat)

lemma parse_u16_show [simp]: "parse_u16 (show_nat (unat (x :: u16))) = Some x"
  using unsigned_less [of x, where 'a = nat] by (simp add: parse_u16_def parse_uint_show_nat)

lemma parse_u16_SomeD: "parse_u16 s = Some p \<Longrightarrow> s \<noteq> []"
  by (auto simp: parse_u16_def parse_uint_def)

section \<open>UTF-8\<close>

text \<open>
  One step of the decoder: whether the string starts with a well-formed character, and
  how many bytes that character, or else the maximal ill-formed prefix, takes.
\<close>

definition byte_at :: "string \<Rightarrow> nat \<Rightarrow> nat" where
  "byte_at s i = (if i < length s then code (s ! i) else 0)"

definition is_cont :: "nat \<Rightarrow> bool" where
  "is_cont b = (128 \<le> b \<and> b < 192)"

definition utf8_second_ok :: "nat \<Rightarrow> nat \<Rightarrow> bool" where
  "utf8_second_ok n b =
     (if n = 0xE0 then 0xA0 \<le> b \<and> b \<le> 0xBF
      else if n = 0xED then 0x80 \<le> b \<and> b \<le> 0x9F
      else if n = 0xF0 then 0x90 \<le> b \<and> b \<le> 0xBF
      else if n = 0xF4 then 0x80 \<le> b \<and> b \<le> 0x8F
      else 0x80 \<le> b \<and> b \<le> 0xBF)"

definition utf8_next :: "string \<Rightarrow> bool \<times> nat" where
  "utf8_next s =
     (let n = byte_at s 0; b1 = byte_at s 1; b2 = byte_at s 2; b3 = byte_at s 3
      in if n < 128 then (True, 1)
         else if 0xC2 \<le> n \<and> n \<le> 0xDF then (if is_cont b1 then (True, 2) else (False, 1))
         else if 0xE0 \<le> n \<and> n \<le> 0xEF then
           (if \<not> utf8_second_ok n b1 then (False, 1)
            else if is_cont b2 then (True, 3) else (False, 2))
         else if 0xF0 \<le> n \<and> n \<le> 0xF4 then
           (if \<not> utf8_second_ok n b1 then (False, 1)
            else if \<not> is_cont b2 then (False, 2)
            else if is_cont b3 then (True, 4) else (False, 3))
         else (False, 1))"

lemma utf8_next_pos: "0 < snd (utf8_next s)"
  by (simp add: utf8_next_def Let_def)

text \<open>\<open>str::from_utf8\<close> succeeds on exactly these byte strings.\<close>

function utf8_valid :: "string \<Rightarrow> bool" where
  "utf8_valid s =
     (if s = [] then True
      else fst (utf8_next s) \<and> utf8_valid (drop (snd (utf8_next s)) s))"
  by pat_completeness auto
termination
  by (relation "measure length") (auto simp: utf8_next_pos)

declare utf8_valid.simps [simp del]

text \<open>\<open>String::from_utf8_lossy\<close>: each maximal ill-formed piece becomes U+FFFD.\<close>

function utf8_lossy :: "string \<Rightarrow> string" where
  "utf8_lossy s =
     (if s = [] then []
      else (if fst (utf8_next s) then take (snd (utf8_next s)) s
            else [CHR 0xEF, CHR 0xBF, CHR 0xBD])
           @ utf8_lossy (drop (snd (utf8_next s)) s))"
  by pat_completeness auto
termination
  by (relation "measure length") (auto simp: utf8_next_pos)

declare utf8_lossy.simps [simp del]

lemma utf8_lossy_valid: "utf8_valid s \<Longrightarrow> utf8_lossy s = s"
proof (induction s rule: utf8_lossy.induct)
  case (1 s)
  show ?case
  proof (cases "s = []")
    case True
    then show ?thesis by (subst utf8_lossy.simps) simp
  next
    case False
    with "1.prems" have "fst (utf8_next s)" and "utf8_valid (drop (snd (utf8_next s)) s)"
      by (auto simp: utf8_valid.simps [of s])
    with 1 False show ?thesis
      by (subst utf8_lossy.simps) simp
  qed
qed

lemma utf8_valid_ascii: "list_all (\<lambda>c. code c < 128) s \<Longrightarrow> utf8_valid s"
proof (induction s)
  case Nil
  then show ?case by (simp add: utf8_valid.simps)
next
  case (Cons c s)
  then have "utf8_next (c # s) = (True, 1)"
    by (simp add: utf8_next_def byte_at_def)
  with Cons show ?case
    by (subst utf8_valid.simps) simp
qed

text \<open>The shapes of a well-formed character.\<close>

lemma utf8_next_shape:
  fixes s
  defines "n \<equiv> byte_at s 0"
  assumes "fst (utf8_next s)"
  obtains (1) "n < 128" "snd (utf8_next s) = 1"
  | (2) "0xC2 \<le> n" "n \<le> 0xDF" "is_cont (byte_at s 1)" "snd (utf8_next s) = 2"
  | (3) "0xE0 \<le> n" "n \<le> 0xEF" "utf8_second_ok n (byte_at s 1)" "is_cont (byte_at s 2)"
      "snd (utf8_next s) = 3"
  | (4) "0xF0 \<le> n" "n \<le> 0xF4" "utf8_second_ok n (byte_at s 1)" "is_cont (byte_at s 2)"
      "is_cont (byte_at s 3)" "snd (utf8_next s) = 4"
  using assms(2) unfolding utf8_next_def Let_def n_def [symmetric] by (simp split: if_splits)

lemma byte_high: "128 \<le> byte_at s i \<Longrightarrow> i < length s \<and> 128 \<le> code (s ! i)"
  by (simp add: byte_at_def split: if_splits)

lemma cont_high: "is_cont x \<Longrightarrow> 128 \<le> x" "utf8_second_ok n x \<Longrightarrow> 128 \<le> x"
  by (auto simp: is_cont_def utf8_second_ok_def split: if_splits)

lemma utf8_next_Some:
  assumes "fst (utf8_next s)" "s \<noteq> []"
  shows "snd (utf8_next s) \<le> length s \<and> (\<forall>i. 0 < i \<and> i < snd (utf8_next s) \<longrightarrow> 128 \<le> code (s ! i))"
  using assms(1)
proof (cases rule: utf8_next_shape)
  case 1
  with assms(2) show ?thesis by (cases s) auto
next
  case 2
  then have "128 \<le> byte_at s 1" using cont_high by blast
  with 2 byte_high [of s 1] show ?thesis by (auto simp: less_2_cases_iff)
next
  case 3
  then have b: "1 < length s \<and> 128 \<le> code (s ! 1)" "2 < length s \<and> 128 \<le> code (s ! 2)"
    using cont_high byte_high by blast+
  have "128 \<le> code (s ! i)" if "0 < i" "i < 3" for i
  proof -
    have "i = 1 \<or> i = 2" using that by linarith
    with b show ?thesis by (elim disjE) simp_all
  qed
  with 3(5) b show ?thesis by simp
next
  case 4
  then have b: "1 < length s \<and> 128 \<le> code (s ! 1)" "2 < length s \<and> 128 \<le> code (s ! 2)"
    "3 < length s \<and> 128 \<le> code (s ! 3)"
    using cont_high byte_high by blast+
  have "128 \<le> code (s ! i)" if "0 < i" "i < 4" for i
  proof -
    have "i = 1 \<or> i = 2 \<or> i = 3" using that by linarith
    with b show ?thesis by (elim disjE) simp_all
  qed
  with 4(6) b show ?thesis by simp
qed

text \<open>A character is recognised from its own bytes alone.\<close>

lemma utf8_next_local:
  assumes "fst (utf8_next s)" "\<And>i. i < snd (utf8_next s) \<Longrightarrow> byte_at t i = byte_at s i"
  shows "utf8_next t = (True, snd (utf8_next s))"
proof -
  have 0: "byte_at t 0 = byte_at s 0" using assms(2) utf8_next_pos by blast
  from assms(1) show ?thesis
  proof (cases rule: utf8_next_shape)
    case 1
    with 0 show ?thesis by (simp add: utf8_next_def Let_def)
  next
    case 2
    with 0 assms(2) [of 1] show ?thesis by (simp add: utf8_next_def Let_def)
  next
    case 3
    with 0 assms(2) [of 1] assms(2) [of 2] show ?thesis by (simp add: utf8_next_def Let_def)
  next
    case 4
    with 0 assms(2) [of 1] assms(2) [of 2] assms(2) [of 3] show ?thesis
      by (simp add: utf8_next_def Let_def)
  qed
qed

lemma utf8_valid_split:
  assumes "utf8_valid (a @ c # b)" "code c < 128"
  shows "utf8_valid a \<and> utf8_valid b"
  using assms(1)
proof (induction "length a" arbitrary: a rule: less_induct)
  case less
  show ?case
  proof (cases "a = []")
    case True
    have "utf8_next (c # b) = (True, 1)"
      using assms(2) by (simp add: utf8_next_def byte_at_def)
    with True less.prems show ?thesis
      by (simp add: utf8_valid.simps [of "c # b"] utf8_valid.simps [of "[]"])
  next
    case False
    let ?s = "a @ c # b" and ?k = "snd (utf8_next (a @ c # b))"
    have s: "fst (utf8_next ?s)" "utf8_valid (drop ?k ?s)"
      using less.prems utf8_valid.simps [of ?s] by auto
    have "?k \<le> length a"
    proof (rule ccontr)
      assume "\<not> ?k \<le> length a"
      then have "128 \<le> code (?s ! length a)"
        using utf8_next_Some [OF s(1)] False by auto
      with assms(2) show False by simp
    qed
    moreover have "utf8_next a = (True, ?k)"
      by (rule utf8_next_local [OF s(1)]) (use \<open>?k \<le> length a\<close> in \<open>auto simp: byte_at_def nth_append\<close>)
    moreover have "utf8_valid (drop ?k a) \<and> utf8_valid b"
      using less.hyps [of "drop ?k a"] s(2) \<open>?k \<le> length a\<close> False utf8_next_pos [of ?s]
      by (simp add: drop_append)
    ultimately show ?thesis
      using s(1) False utf8_valid.simps [of a] by simp
  qed
qed

end
