(* ===== verification/Model.thy ===== *)
theory Model
  imports RustStd
begin

text \<open>
  The data model of \<open>src/model.rs\<close>: one record per struct, one constant per
  \<open>Default\<close> implementation, and \<open>Target::pick\<close>.  Field names carry a prefix for their
  struct because record selectors are global: \<open>sc_\<close> for \<open>ServerConfig\<close>, \<open>cc_\<close> for
  \<open>CommonConfig\<close>, \<open>ci_\<close> for \<open>ClientInfo\<close>, \<open>rc_\<close> for \<open>ClientRuntimeConfig\<close>,
  \<open>tn_\<close> for \<open>Tunnel\<close>, \<open>ho_\<close> for \<open>Host\<close>, \<open>tg_\<close> for \<open>Target\<close>, \<open>hc_\<close> for
  \<open>HealthCheck\<close>, \<open>ls_\<close> for \<open>LocalServer\<close>, \<open>fc_\<close> for \<open>FlowCounter\<close> and
  \<open>gc_\<close> for \<open>GlobalConfig\<close>.
\<close>

text \<open>The versions of \<open>src/lib.rs\<close>.\<close>

definition VERSION :: string where "VERSION = ''0.1.0''"

definition CORE_VERSION :: string where "CORE_VERSION = ''0.1.0''"

section \<open>Server configuration\<close>

record ServerConfig =
  sc_appname :: string
  sc_runmode :: string
  sc_http_proxy_ip :: string
  sc_http_proxy_port :: u16
  sc_https_proxy_port :: u16
  sc_https_just_proxy :: bool
  sc_bridge_type :: string
  sc_bridge_ip :: string
  sc_bridge_port :: u16
  sc_public_vkey :: string
  sc_web_ip :: string
  sc_web_port :: u16
  sc_web_username :: string
  sc_web_password :: string
  sc_web_base_url :: string
  sc_allow_user_login :: bool
  sc_allow_user_register :: bool
  sc_open_captcha :: bool
  sc_allow_user_change_username :: bool
  sc_allow_flow_limit :: bool
  sc_allow_rate_limit :: bool
  sc_allow_tunnel_num_limit :: bool
  sc_allow_connection_num_limit :: bool
  sc_allow_ports :: string
  sc_allow_local_proxy :: bool
  sc_allow_multi_ip :: bool
  sc_http_cache :: bool
  sc_http_cache_length :: usize
  sc_http_add_origin_header :: bool
  sc_ip_limit :: bool
  sc_disconnect_timeout :: u64
  sc_tls_enable :: bool
  sc_tls_bridge_port :: u16
  sc_p2p_ip :: string
  sc_p2p_port :: u16
  sc_log_level :: string
  sc_log_path :: string

definition ServerConfig_default :: ServerConfig where
  "ServerConfig_default =
     \<lparr>sc_appname = ''nps'', sc_runmode = ''dev'', sc_http_proxy_ip = ''0.0.0.0'',
      sc_http_proxy_port = 80, sc_https_proxy_port = 443, sc_https_just_proxy = True,
      sc_bridge_type = ''tcp'', sc_bridge_ip = ''0.0.0.0'', sc_bridge_port = 8024,
      sc_public_vkey = ''123'', sc_web_ip = ''0.0.0.0'', sc_web_port = 8081,
      sc_web_username = ''admin'', sc_web_password = ''123'', sc_web_base_url = [],
      sc_allow_user_login = True, sc_allow_user_register = False, sc_open_captcha = False,
      sc_allow_user_change_username = True, sc_allow_flow_limit = False,
      sc_allow_rate_limit = False, sc_allow_tunnel_num_limit = False,
      sc_allow_connection_num_limit = False, sc_allow_ports = [],
      sc_allow_local_proxy = False, sc_allow_multi_ip = True, sc_http_cache = False,
      sc_http_cache_length = 100, sc_http_add_origin_header = True, sc_ip_limit = False,
      sc_disconnect_timeout = 60, sc_tls_enable = False, sc_tls_bridge_port = 8025,
      sc_p2p_ip = ''127.0.0.1'', sc_p2p_port = 6000, sc_log_level = ''info'',
      sc_log_path = []\<rparr>"

section \<open>Client configuration\<close>

record ClientInfo =
  ci_verify_key :: string
  ci_remark :: string
  ci_status :: bool
  ci_compress :: bool
  ci_crypt :: bool
  ci_basic_username :: string
  ci_basic_password :: string
  ci_web_username :: string
  ci_web_password :: string
  ci_config_conn_allow :: bool
  ci_rate_limit_kb :: u64
  ci_flow_limit_mb :: u64
  ci_max_conn :: usize
  ci_max_tunnel_num :: usize
  ci_black_ip_list :: "string list"
  ci_ip_white :: bool
  ci_ip_white_pass :: string
  ci_ip_white_list :: "string list"

definition ClientInfo_default :: ClientInfo where
  "ClientInfo_default =
     \<lparr>ci_verify_key = [], ci_remark = [], ci_status = True, ci_compress = False,
      ci_crypt = False, ci_basic_username = [], ci_basic_password = [],
      ci_web_username = ''user'', ci_web_password = [], ci_config_conn_allow = True,
      ci_rate_limit_kb = 0, ci_flow_limit_mb = 0, ci_max_conn = 0, ci_max_tunnel_num = 0,
      ci_black_ip_list = [], ci_ip_white = False, ci_ip_white_pass = [],
      ci_ip_white_list = []\<rparr>"

record CommonConfig =
  cc_server_addr :: string
  cc_conn_type :: string
  cc_vkey :: string
  cc_auto_reconnection :: bool
  cc_tls_enable :: bool
  cc_proxy_url :: string
  cc_disconnect_timeout :: u64
  cc_client :: ClientInfo

definition CommonConfig_default :: CommonConfig where
  "CommonConfig_default =
     \<lparr>cc_server_addr = ''127.0.0.1:8024'', cc_conn_type = ''tcp'', cc_vkey = ''123'',
      cc_auto_reconnection = True, cc_tls_enable = False, cc_proxy_url = [],
      cc_disconnect_timeout = 60, cc_client = ClientInfo_default\<rparr>"

section \<open>Targets, tunnels and hosts\<close>

record Target =
  tg_target_str :: string
  tg_local_proxy :: bool

definition Target_default :: Target where
  "Target_default = \<lparr>tg_target_str = [], tg_local_proxy = False\<rparr>"

record Tunnel =
  tn_id :: u64
  tn_mode :: string
  tn_remark :: string
  tn_server_ip :: string
  tn_server_port :: u16
  tn_status :: bool
  tn_run_status :: bool
  tn_ports :: string
  tn_target :: Target
  tn_target_addr :: string
  tn_password :: string
  tn_local_path :: string
  tn_strip_pre :: string
  tn_multi_account :: "(string \<times> string) list"
  tn_proto_version :: string
  tn_client_vkey :: string
  tn_no_store :: bool

definition Tunnel_default :: Tunnel where
  "Tunnel_default =
     \<lparr>tn_id = 0, tn_mode = ''tcp'', tn_remark = [], tn_server_ip = ''0.0.0.0'',
      tn_server_port = 0, tn_status = True, tn_run_status = True, tn_ports = [],
      tn_target = Target_default, tn_target_addr = [], tn_password = [],
      tn_local_path = [], tn_strip_pre = [], tn_multi_account = [],
      tn_proto_version = [], tn_client_vkey = [], tn_no_store = True\<rparr>"

record Host =
  ho_id :: u64
  ho_host :: string
  ho_header_change :: string
  ho_host_change :: string
  ho_location :: string
  ho_remark :: string
  ho_scheme :: string
  ho_cert_file_path :: string
  ho_key_file_path :: string
  ho_target :: Target
  ho_client_vkey :: string
  ho_proto_version :: string
  ho_no_store :: bool
  ho_is_close :: bool
  ho_auto_https :: bool

definition Host_default :: Host where
  "Host_default =
     \<lparr>ho_id = 0, ho_host = [], ho_header_change = [], ho_host_change = [],
      ho_location = ''/'', ho_remark = [], ho_scheme = ''all'', ho_cert_file_path = [],
      ho_key_file_path = [], ho_target = Target_default, ho_client_vkey = [],
      ho_proto_version = [], ho_no_store = True, ho_is_close = False,
      ho_auto_https = False\<rparr>"

record HealthCheck =
  hc_remark :: string
  hc_timeout_secs :: u64
  hc_max_failed :: u32
  hc_interval_secs :: u64
  hc_http_url :: string
  hc_kind :: string
  hc_targets :: "string list"

record LocalServer =
  ls_kind :: string
  ls_ip :: string
  ls_port :: u16
  ls_password :: string
  ls_target :: string

record ClientRuntimeConfig =
  rc_id :: u64
  rc_no_store :: bool
  rc_no_display :: bool
  rc_create_time :: string
  rc_last_online_time :: string
  rc_last_online_addr :: string
  rc_common :: CommonConfig
  rc_hosts :: "Host list"
  rc_tunnels :: "Tunnel list"
  rc_healths :: "HealthCheck list"
  rc_local_servers :: "LocalServer list"

definition ClientRuntimeConfig_default :: ClientRuntimeConfig where
  "ClientRuntimeConfig_default =
     \<lparr>rc_id = 0, rc_no_store = False, rc_no_display = False, rc_create_time = [],
      rc_last_online_time = [], rc_last_online_addr = [],
      rc_common = CommonConfig_default, rc_hosts = [], rc_tunnels = [],
      rc_healths = [], rc_local_servers = []\<rparr>"

record FlowCounter =
  fc_inlet_flow :: u64
  fc_export_flow :: u64

definition FlowCounter_default :: FlowCounter where
  "FlowCounter_default = \<lparr>fc_inlet_flow = 0, fc_export_flow = 0\<rparr>"

record GlobalConfig =
  gc_black_ip_list :: "string list"
  gc_server_url :: string

definition GlobalConfig_default :: GlobalConfig where
  "GlobalConfig_default = \<lparr>gc_black_ip_list = [], gc_server_url = []\<rparr>"

text \<open>Access paths the server writes often: \<open>client.common.client\<close> and \<open>client.common.vkey\<close>.\<close>

abbreviation rc_info :: "ClientRuntimeConfig \<Rightarrow> ClientInfo" where
  "rc_info c \<equiv> cc_client (rc_common c)"

abbreviation rc_vkey :: "ClientRuntimeConfig \<Rightarrow> string" where
  "rc_vkey c \<equiv> cc_vkey (rc_common c)"

definition rc_info_update :: "(ClientInfo \<Rightarrow> ClientInfo) \<Rightarrow> ClientRuntimeConfig \<Rightarrow> ClientRuntimeConfig" where
  "rc_info_update f c = c\<lparr>rc_common := (rc_common c)\<lparr>cc_client := f (rc_info c)\<rparr>\<rparr>"

definition rc_vkey_update :: "string \<Rightarrow> ClientRuntimeConfig \<Rightarrow> ClientRuntimeConfig" where
  "rc_vkey_update v c =
     c\<lparr>rc_common := (rc_common c)\<lparr>cc_vkey := v, cc_client := (rc_info c)\<lparr>ci_verify_key := v\<rparr>\<rparr>\<rparr>"

section \<open>Picking a target\<close>

text \<open>The entries of a target list: one per line, trimmed, empty ones dropped.\<close>

definition target_items :: "string \<Rightarrow> string list" where
  "target_items s = filter (\<lambda>i. i \<noteq> []) (map trim (split_on (CHR 0x0A) s))"

text \<open>
  \<open>Target::pick\<close>: the entry at \<open>cursor % len\<close> and the cursor after it; nothing when
  there is no entry (the division is never reached with a zero length).
\<close>

definition pick_item :: "string list \<Rightarrow> usize \<Rightarrow> (string \<times> usize) option" where
  "pick_item items cursor =
     (if items = [] then None
      else (let index = cursor mod length items in Some (items ! index, index + 1)))"

definition Target_pick :: "Target \<Rightarrow> usize \<Rightarrow> (string \<times> usize) option" where
  "Target_pick t cursor = pick_item (target_items (tg_target_str t)) cursor"

text \<open>The entries drawn by \<open>n\<close> picks in a row, each starting from the cursor the last one left.\<close>

fun picks :: "string list \<Rightarrow> usize \<Rightarrow> nat \<Rightarrow> string list" where
  "picks items cursor 0 = []"
| "picks items cursor (Suc n) =
     (case pick_item items cursor of
        None \<Rightarrow> []
      | Some (x, c) \<Rightarrow> x # picks items c n)"

lemma pick_item_Some:
  "items \<noteq> [] \<Longrightarrow> pick_item items c = Some (items ! (c mod length items), c mod length items + 1)"
  by (simp add: pick_item_def Let_def)

lemma picks_rotation:
  assumes "items \<noteq> []"
  shows "picks items c n = map (\<lambda>i. items ! ((c + i) mod length items)) [0..<n]"
proof (induction n arbitrary: c)
  case 0
  then show ?case by simp
next
  case (Suc n)
  let ?l = "length items"
  have "[0..<Suc n] = 0 # map Suc [0..<n]"
    by (simp add: map_Suc_upt upt_conv_Cons)
  moreover have "(c mod ?l + 1 + i) mod ?l = (c + Suc i) mod ?l" for i
    by (metis Suc_eq_plus1 add.assoc add.commute mod_add_left_eq)
  ultimately show ?case
    using assms Suc.IH [of "c mod ?l + 1"] by (simp add: pick_item_Some)
qed

lemma picks_covers:
  assumes "items \<noteq> []"
  shows "set (picks items c (length items)) = set items"
proof
  let ?l = "length items"
  show "set (picks items c ?l) \<subseteq> set items"
    using assms by (auto simp: picks_rotation)
  show "set items \<subseteq> set (picks items c ?l)"
  proof
    fix x
    assume "x \<in> set items"
    then obtain k where k: "k < ?l" "items ! k = x"
      by (auto simp: in_set_conv_nth)
    define i where "i = (k + (?l - c mod ?l)) mod ?l"
    have cl: "c mod ?l < ?l" using assms by simp
    have "(c + i) mod ?l = (c mod ?l + (k + (?l - c mod ?l))) mod ?l"
      by (simp add: i_def mod_add_left_eq mod_add_right_eq)
    also have "\<dots> = k"
      using k(1) cl by simp
    finally have "items ! ((c + i) mod ?l) = x" using k(2) by simp
    moreover have "i < ?l" using assms by (simp add: i_def)
    ultimately show "x \<in> set (picks items c ?l)"
      using assms by (force simp: picks_rotation)
  qed
qed

lemma target_items_trimmed: "x \<in> set (target_items s) \<Longrightarrow> x \<noteq> [] \<and> trim x = x"
  by (auto simp: target_items_def)

end
