(* ===== verification/Traffic.thy ===== *)
theory Traffic
  imports Model
begin

text \<open>
  Traffic accounting and rate limiting.  The source has the flow check three times
  (\<open>MeteredRelayStream::record_flow\<close> and \<open>record_flow_counter\<close> in \<open>src/relay.rs\<close>,
  \<open>MuxSessionInner::record_flow\<close> in \<open>src/mux.rs\<close>) and the token bucket twice
  (\<open>RateGovernor\<close>, \<open>MuxRateGovernor\<close>).  Each copy is a definition of its own; what they
  promise is stated once, as the locales \<open>flow_meter\<close> and \<open>token_bucket\<close>, which every
  copy interprets: those of the relay here, those of the multiplexer in its theory.

  Time is measured in seconds as a rational number, and so is the allowance: the source
  computes with \<open>f64\<close>, and the rounding of \<open>f64\<close> and of \<open>Duration::from_secs_f64\<close> is
  not modelled.  A flow counter is shared by all streams of a client behind a mutex; the
  meter holds its value, and the calls of all the streams form one sequence.  The product
  \<open>rate_limit_kb * 1024\<close> wraps, as it does in a release build.
\<close>

section \<open>The contract of a flow meter\<close>

definition traffic_exceeded :: io_error where
  "traffic_exceeded = IoError PermissionDenied ''traffic exceeded''"

definition flow_total :: "FlowCounter \<Rightarrow> u64" where
  "flow_total c = saturating_add (fc_inlet_flow c) (fc_export_flow c)"

definition flow_add :: "FlowCounter \<Rightarrow> u64 \<Rightarrow> u64 \<Rightarrow> FlowCounter" where
  "flow_add c inlet export =
     c\<lparr>fc_inlet_flow := saturating_add (fc_inlet_flow c) inlet,
       fc_export_flow := saturating_add (fc_export_flow c) export\<rparr>"

text \<open>Requests served one after the other; a refused request leaves the meter as it is.\<close>

fun record_run ::
  "('s \<Rightarrow> u64 \<Rightarrow> u64 \<Rightarrow> unit io_result \<times> 's) \<Rightarrow> 's \<Rightarrow> (u64 \<times> u64) list \<Rightarrow> 's" where
  "record_run rec s [] = s"
| "record_run rec s ((i, e) # rs) = record_run rec (snd (rec s i e)) rs"

locale flow_meter =
  fixes rec :: "'s \<Rightarrow> u64 \<Rightarrow> u64 \<Rightarrow> unit io_result \<times> 's"
    and counter :: "'s \<Rightarrow> FlowCounter option"
    and limit :: "'s \<Rightarrow> u64"
  assumes limit_rec: "limit (snd (rec s i e)) = limit s"
    and rec_None: "counter s = None \<Longrightarrow> rec s i e = (Inr (), s)"
    and rec_refused: "counter s = Some c \<Longrightarrow> 0 < limit s \<Longrightarrow> limit s < flow_total (flow_add c i e) \<Longrightarrow>
          rec s i e = (Inl traffic_exceeded, s)"
    and rec_result: "counter s = Some c \<Longrightarrow> limit s = 0 \<or> flow_total (flow_add c i e) \<le> limit s \<Longrightarrow>
          fst (rec s i e) = Inr ()"
    and rec_counted: "counter s = Some c \<Longrightarrow> limit s = 0 \<or> flow_total (flow_add c i e) \<le> limit s \<Longrightarrow>
          counter (snd (rec s i e)) = Some (flow_add c i e)"
begin

definition in_budget :: "'s \<Rightarrow> bool" where
  "in_budget s = (case counter s of None \<Rightarrow> True | Some c \<Rightarrow> limit s = 0 \<or> flow_total c \<le> limit s)"

lemma admissible_cases:
  obtains (none) "counter s = None"
  | (refused) c where "counter s = Some c" "0 < limit s" "limit s < flow_total (flow_add c i e)"
  | (taken) c where "counter s = Some c" "limit s = 0 \<or> flow_total (flow_add c i e) \<le> limit s"
  by (metis not_le_imp_less option.exhaust word_gt_0)

lemma rec_in_budget: "in_budget s \<Longrightarrow> in_budget (snd (rec s i e))"
  by (rule admissible_cases [where s = s and i = i and e = e])
    (auto simp: in_budget_def rec_None rec_refused rec_counted limit_rec)

lemma run_limit: "limit (record_run rec s rs) = limit s"
  by (induction rs arbitrary: s) (auto simp: limit_rec)

lemma run_in_budget: "in_budget s \<Longrightarrow> in_budget (record_run rec s rs)"
  by (induction rs arbitrary: s) (auto simp: rec_in_budget)

lemma rec_error_unchanged: "fst (rec s i e) = Inl err \<Longrightarrow> snd (rec s i e) = s"
  by (rule admissible_cases [where s = s and i = i and e = e]) (auto simp: rec_None rec_refused rec_result)

lemma rec_error_iff:
  "fst (rec s i e) = Inl traffic_exceeded \<longleftrightarrow>
   (\<exists>c. counter s = Some c \<and> 0 < limit s \<and> limit s < flow_total (flow_add c i e))"
  by (rule admissible_cases [where s = s and i = i and e = e])
    (auto simp: rec_None rec_refused rec_result word_gt_0 not_less)

end

section \<open>Token bucket\<close>

definition rat_of_u64 :: "u64 \<Rightarrow> rat" where
  "rat_of_u64 x = of_nat (unat x)"

text \<open>
  A governor served by one caller at a time: a request waits for the delay it is told
  before the next one is served, so each request arrives no earlier than the \<open>stamp\<close> the
  request before it left.
\<close>

fun plan_run :: "('g \<Rightarrow> u64 \<Rightarrow> rat \<Rightarrow> rat \<times> 'g) \<Rightarrow> 'g \<Rightarrow> (u64 \<times> rat) list \<Rightarrow> 'g" where
  "plan_run plan g [] = g"
| "plan_run plan g ((b, now) # rs) = plan_run plan (snd (plan g b now)) rs"

fun on_time :: "('g \<Rightarrow> u64 \<Rightarrow> rat \<Rightarrow> rat \<times> 'g) \<Rightarrow> ('g \<Rightarrow> rat) \<Rightarrow> 'g \<Rightarrow> (u64 \<times> rat) list \<Rightarrow> bool" where
  "on_time plan stamp g [] = True"
| "on_time plan stamp g ((b, now) # rs) =
     (stamp g \<le> now \<and> on_time plan stamp (snd (plan g b now)) rs)"

definition bytes_of :: "(u64 \<times> rat) list \<Rightarrow> rat" where
  "bytes_of rs = sum_list (map (\<lambda>(b, _). rat_of_u64 b) rs)"

locale token_bucket =
  fixes plan :: "'g \<Rightarrow> u64 \<Rightarrow> rat \<Rightarrow> rat \<times> 'g"
    and rate :: "'g \<Rightarrow> u64"
    and allowance :: "'g \<Rightarrow> rat"
    and stamp :: "'g \<Rightarrow> rat"
  assumes plan_rate: "rate (snd (plan g b now)) = rate g"
    and plan_stamp: "stamp (snd (plan g b now)) = now + fst (plan g b now)"
    and plan_delay_nonneg: "0 \<le> allowance g \<Longrightarrow> stamp g \<le> now \<Longrightarrow> 0 \<le> fst (plan g b now)"
    and plan_allowance: "0 \<le> allowance g \<Longrightarrow> allowance g \<le> rat_of_u64 (rate g) \<Longrightarrow> stamp g \<le> now \<Longrightarrow>
          0 \<le> allowance (snd (plan g b now)) \<and>
          allowance (snd (plan g b now)) \<le> rat_of_u64 (rate g)"
    and plan_credit: "rate g \<noteq> 0 \<Longrightarrow> stamp g \<le> now \<Longrightarrow>
          allowance (snd (plan g b now)) + rat_of_u64 b
          \<le> allowance g + rat_of_u64 (rate g) * (stamp (snd (plan g b now)) - stamp g)"
begin

definition bucket_ok :: "'g \<Rightarrow> bool" where
  "bucket_ok g \<longleftrightarrow> rate g \<noteq> 0 \<and> 0 \<le> allowance g \<and> allowance g \<le> rat_of_u64 (rate g)"

lemma bucket_ok_plan: "bucket_ok g \<Longrightarrow> stamp g \<le> now \<Longrightarrow> bucket_ok (snd (plan g b now))"
  unfolding bucket_ok_def using plan_rate [of g b now] plan_allowance [of g now b] by simp

lemma run_credit:
  assumes "bucket_ok g" and "on_time plan stamp g rs"
  shows "allowance (plan_run plan g rs) + bytes_of rs
         \<le> allowance g + rat_of_u64 (rate g) * (stamp (plan_run plan g rs) - stamp g)
         \<and> 0 \<le> allowance (plan_run plan g rs)"
  using assms
proof (induction rs arbitrary: g)
  case Nil
  then show ?case by (simp add: bytes_of_def bucket_ok_def)
next
  case (Cons r rs)
  obtain b now where r: "r = (b, now)" by (cases r)
  let ?g = "snd (plan g b now)"
  have step: "stamp g \<le> now" "on_time plan stamp ?g rs"
    using Cons.prems(2) by (simp_all add: r)
  have ok: "bucket_ok ?g"
    using bucket_ok_plan Cons.prems(1) step(1) by blast
  have "allowance ?g + rat_of_u64 b \<le> allowance g + rat_of_u64 (rate g) * (stamp ?g - stamp g)"
    using plan_credit Cons.prems(1) step(1) by (simp add: bucket_ok_def)
  moreover have "rate ?g = rate g" by (rule plan_rate)
  ultimately show ?case
    using Cons.IH [OF ok step(2)] by (simp add: r bytes_of_def algebra_simps)
qed

theorem run_bound:
  assumes "bucket_ok g" and "on_time plan stamp g rs"
  shows "bytes_of rs
         \<le> allowance g + rat_of_u64 (rate g) * (stamp (plan_run plan g rs) - stamp g)"
  using run_credit [OF assms] by simp

end

section \<open>The governor of the relay\<close>

record RateGovernor =
  rg_bytes_per_sec :: u64
  rg_allowance :: rat
  rg_last :: rat

definition RateGovernor_new :: "u64 \<Rightarrow> rat \<Rightarrow> RateGovernor" where
  "RateGovernor_new bytes_per_sec now =
     \<lparr>rg_bytes_per_sec = bytes_per_sec, rg_allowance = rat_of_u64 bytes_per_sec, rg_last = now\<rparr>"

definition RateGovernor_plan_delay :: "RateGovernor \<Rightarrow> u64 \<Rightarrow> rat \<Rightarrow> rat \<times> RateGovernor" where
  "RateGovernor_plan_delay g n now =
     (if rg_bytes_per_sec g = 0 \<or> n = 0 then (0, g\<lparr>rg_last := now\<rparr>)
      else (let r = rat_of_u64 (rg_bytes_per_sec g);
                elapsed = max 0 (now - rg_last g);
                allowance = min (rg_allowance g + elapsed * r) r
            in if rat_of_u64 n \<le> allowance
               then (0, g\<lparr>rg_allowance := allowance - rat_of_u64 n, rg_last := now\<rparr>)
               else (let missing = rat_of_u64 n - allowance; delay = missing / r
                     in (delay, g\<lparr>rg_allowance := 0, rg_last := now + delay\<rparr>))))"

lemma unat_pos_rat: "(x :: u64) \<noteq> 0 \<Longrightarrow> 0 < rat_of_u64 x"
  by (simp add: rat_of_u64_def unat_gt_0 del: of_nat_unat)

lemma rat_of_u64_nonneg [simp]: "0 \<le> rat_of_u64 x"
  by (simp add: rat_of_u64_def del: of_nat_unat)

lemma rat_of_u64_0 [simp]: "rat_of_u64 0 = 0"
  by (simp add: rat_of_u64_def)

lemma refill_nonneg:
  assumes "0 \<le> (a :: rat)" and "0 \<le> r"
  shows "0 \<le> min (a + max 0 t * r) r"
  using assms by simp

lemma refill_le:
  assumes "(l :: rat) \<le> now"
  shows "min (a + max 0 (now - l) * r) r \<le> a + r * (now - l)"
  using assms by (simp add: min_le_iff_disj algebra_simps)

lemma spend_le: "0 \<le> n \<Longrightarrow> min x r - n \<le> (r :: rat)"
  by (simp add: min_def)

lemma delay_credit: "(r :: rat) \<noteq> 0 \<Longrightarrow> r * (now + m / r - l) = r * (now - l) + m"
  by (simp add: algebra_simps)

interpretation relay_rate: token_bucket RateGovernor_plan_delay rg_bytes_per_sec rg_allowance rg_last
proof unfold_locales
  fix g :: RateGovernor and b :: u64 and now :: rat
  let ?p = "RateGovernor_plan_delay g b now"
  let ?r = "rat_of_u64 (rg_bytes_per_sec g)"
  show "rg_bytes_per_sec (snd ?p) = rg_bytes_per_sec g"
    and "rg_last (snd ?p) = now + fst ?p"
    by (simp_all add: RateGovernor_plan_delay_def Let_def)
  show "0 \<le> fst ?p" if "0 \<le> rg_allowance g" "rg_last g \<le> now"
    by (auto simp: RateGovernor_plan_delay_def Let_def not_le intro!: divide_nonneg_nonneg)
  show "0 \<le> rg_allowance (snd ?p) \<and> rg_allowance (snd ?p) \<le> ?r"
    if "0 \<le> rg_allowance g" "rg_allowance g \<le> ?r" "rg_last g \<le> now"
    using that by (auto simp: RateGovernor_plan_delay_def Let_def spend_le)
  show "rg_allowance (snd ?p) + rat_of_u64 b \<le> rg_allowance g + ?r * (rg_last (snd ?p) - rg_last g)"
    if "rg_bytes_per_sec g \<noteq> 0" "rg_last g \<le> now"
    using that refill_le [OF that(2), of "rg_allowance g" ?r] unat_pos_rat [OF that(1)]
    by (auto simp: RateGovernor_plan_delay_def Let_def delay_credit)
qed

section \<open>The meters of the relay\<close>

record RelayPolicy =
  rp_rate_limit_kb :: u64
  rp_flow_limit_mb :: u64
  rp_flow_counter :: "FlowCounter option"

definition RelayPolicy_default :: RelayPolicy where
  "RelayPolicy_default = \<lparr>rp_rate_limit_kb = 0, rp_flow_limit_mb = 0, rp_flow_counter = None\<rparr>"

text \<open>\<open>record_flow_counter\<close>: the free function the split halves of a metered stream use.\<close>

definition record_flow_counter ::
  "FlowCounter option \<times> u64 \<Rightarrow> u64 \<Rightarrow> u64 \<Rightarrow> unit io_result \<times> (FlowCounter option \<times> u64)" where
  "record_flow_counter m inlet export =
     (case m of (flow_counter, flow_limit_bytes) \<Rightarrow>
       (case flow_counter of
          None \<Rightarrow> (Inr (), m)
        | Some counter \<Rightarrow>
            (let next_inlet = saturating_add (fc_inlet_flow counter) inlet;
                 next_export = saturating_add (fc_export_flow counter) export
             in if 0 < flow_limit_bytes \<and> flow_limit_bytes < saturating_add next_inlet next_export
                then (Inl traffic_exceeded, m)
                else (Inr (), (Some (counter\<lparr>fc_inlet_flow := next_inlet,
                                             fc_export_flow := next_export\<rparr>),
                               flow_limit_bytes)))))"

text \<open>\<open>MeteredRelayStream\<close>: the stream it wraps is left out of the record.\<close>

record metered =
  me_limiter :: "RateGovernor option"
  me_flow_counter :: "FlowCounter option"
  me_flow_limit_bytes :: u64

definition MeteredRelayStream_new :: "RelayPolicy \<Rightarrow> rat \<Rightarrow> metered" where
  "MeteredRelayStream_new policy now =
     \<lparr>me_limiter = (if 0 < rp_rate_limit_kb policy
                    then Some (RateGovernor_new (rp_rate_limit_kb policy * 1024) now) else None),
      me_flow_counter = rp_flow_counter policy,
      me_flow_limit_bytes = saturating_mul (rp_flow_limit_mb policy) (1024 * 1024)\<rparr>"

definition metered_record_flow :: "metered \<Rightarrow> u64 \<Rightarrow> u64 \<Rightarrow> unit io_result \<times> metered" where
  "metered_record_flow self inlet export =
     (case me_flow_counter self of
        None \<Rightarrow> (Inr (), self)
      | Some counter \<Rightarrow>
          (let next_inlet = saturating_add (fc_inlet_flow counter) inlet;
               next_export = saturating_add (fc_export_flow counter) export
           in if 0 < me_flow_limit_bytes self
                 \<and> me_flow_limit_bytes self < saturating_add next_inlet next_export
              then (Inl traffic_exceeded, self)
              else (Inr (), self\<lparr>me_flow_counter :=
                              Some (counter\<lparr>fc_inlet_flow := next_inlet,
                                            fc_export_flow := next_export\<rparr>)\<rparr>)))"

text \<open>\<open>limit_rate\<close>: the delay the caller sleeps for, and the governor after it.\<close>

definition limit_rate :: "RateGovernor option \<Rightarrow> u64 \<Rightarrow> rat \<Rightarrow> rat \<times> RateGovernor option" where
  "limit_rate limiter n now =
     (if n = 0 then (0, limiter)
      else (case limiter of
              None \<Rightarrow> (0, None)
            | Some g \<Rightarrow> (case RateGovernor_plan_delay g n now of (d, g') \<Rightarrow> (d, Some g'))))"

text \<open>
  \<open>Read\<close> and \<open>Write\<close> of a metered stream, over the outcome of the stream inside: the
  bytes it read, or the number of bytes it wrote.  The flow is recorded after the transfer.
\<close>

definition metered_read ::
  "metered \<Rightarrow> bytes io_result \<Rightarrow> rat \<Rightarrow> bytes io_result \<times> metered" where
  "metered_read self inner now =
     (case inner of
        Inl e \<Rightarrow> (Inl e, self)
      | Inr data \<Rightarrow>
          if 0 < length data
          then (case metered_record_flow self 0 (of_nat (length data)) of
                  (Inl e, self') \<Rightarrow> (Inl e, self')
                | (Inr _, self') \<Rightarrow>
                    (Inr data, self'\<lparr>me_limiter :=
                       snd (limit_rate (me_limiter self') (of_nat (length data)) now)\<rparr>))
          else (Inr data, self))"

definition metered_write ::
  "metered \<Rightarrow> usize io_result \<Rightarrow> rat \<Rightarrow> usize io_result \<times> metered" where
  "metered_write self inner now =
     (case inner of
        Inl e \<Rightarrow> (Inl e, self)
      | Inr n \<Rightarrow>
          if 0 < n
          then (case metered_record_flow self (of_nat n) 0 of
                  (Inl e, self') \<Rightarrow> (Inl e, self')
                | (Inr _, self') \<Rightarrow>
                    (Inr n, self'\<lparr>me_limiter :=
                       snd (limit_rate (me_limiter self') (of_nat n) now)\<rparr>))
          else (Inr n, self))"

lemmas flow_defs = flow_total_def flow_add_def Let_def

interpretation relay_half: flow_meter record_flow_counter fst snd
  by unfold_locales (auto simp: record_flow_counter_def flow_defs split: prod.splits option.splits)

interpretation relay_meter: flow_meter metered_record_flow me_flow_counter me_flow_limit_bytes
  by unfold_locales (auto simp: metered_record_flow_def flow_defs split: option.splits)


section \<open>Properties\<close>

text \<open>
  C37: The token bucket bounds the traffic of a limited stream.  Callers that each wait for
  the delay they are told transfer, from the creation of the governor until the last of
  them is served, at most one second's worth of bytes (the initial bucket) plus the rate
  times the time that passed.
\<close>

theorem rate_limit_bound:
  assumes "rate \<noteq> 0"
    and "on_time RateGovernor_plan_delay rg_last (RateGovernor_new rate t0) rs"
  shows "bytes_of rs \<le> rat_of_u64 rate
           * (1 + (rg_last (plan_run RateGovernor_plan_delay (RateGovernor_new rate t0) rs) - t0))"
proof -
  have "relay_rate.bucket_ok (RateGovernor_new rate t0)"
    using assms(1) by (simp add: relay_rate.bucket_ok_def RateGovernor_new_def)
  from relay_rate.run_bound [OF this assms(2)] show ?thesis
    by (simp add: RateGovernor_new_def algebra_simps)
qed

theorem rate_limit_bound_witness:
  "bytes_of [(1024, 0), (1024, 1)] \<le> rat_of_u64 1024
     * (1 + (rg_last (plan_run RateGovernor_plan_delay (RateGovernor_new 1024 0) [(1024, 0), (1024, 1)]) - 0))"
  by (rule rate_limit_bound)
    (simp_all add: RateGovernor_new_def RateGovernor_plan_delay_def rat_of_u64_def)

text \<open>
  A write or read of a metered stream that would take the shared counter past the
  limit is refused with \<open>traffic exceeded\<close> and leaves the counter as it was; every other
  transfer is counted in full and delivered.
\<close>

lemma metered_read_result:
  "metered_read m (Inr data) now =
     (if data = [] then (Inr data, m)
      else case me_flow_counter m of
             None \<Rightarrow> (Inr data, m\<lparr>me_limiter := snd (limit_rate (me_limiter m) (of_nat (length data)) now)\<rparr>)
           | Some c \<Rightarrow>
               if 0 < me_flow_limit_bytes m
                  \<and> me_flow_limit_bytes m < flow_total (flow_add c 0 (of_nat (length data)))
               then (Inl traffic_exceeded, m)
               else (Inr data, m\<lparr>me_flow_counter := Some (flow_add c 0 (of_nat (length data))),
                        me_limiter := snd (limit_rate (me_limiter m) (of_nat (length data)) now)\<rparr>))"
  by (auto simp: metered_read_def metered_record_flow_def flow_defs split: option.splits)

end
