(* ===== verification/Frames.thy ===== *)
theory Frames
  imports Prelude
begin

text \<open>
  Length-prefixed framing.  \<open>to_le_bytes\<close>, \<open>from_le_bytes\<close> and their big-endian
  counterparts, and the contract \<open>frame_codec\<close> of a writer and a reader of frames: what
  one frame's reader does on the bytes its writer produced.  From the contract follows,
  once for all framings of the source, that a whole conversation is read back as it was
  written and that two conversations with the same bytes are the same conversation.
\<close>

section \<open>Byte order\<close>

fun le_encode :: "nat \<Rightarrow> nat \<Rightarrow> bytes" where
  "le_encode 0 v = []"
| "le_encode (Suc n) v = of_nat (v mod 256) # le_encode n (v div 256)"

fun le_decode :: "bytes \<Rightarrow> nat" where
  "le_decode [] = 0"
| "le_decode (b # bs) = unat b + 256 * le_decode bs"

definition be_encode :: "nat \<Rightarrow> nat \<Rightarrow> bytes" where
  "be_encode n v = rev (le_encode n v)"

definition be_decode :: "bytes \<Rightarrow> nat" where
  "be_decode bs = le_decode (rev bs)"

lemma length_le_encode [simp]: "length (le_encode n v) = n"
  by (induction n v rule: le_encode.induct) auto

lemma le_encode_ne [simp]: "0 < n \<Longrightarrow> le_encode n v \<noteq> []"
  by (cases n) auto

lemma length_be_encode [simp]: "length (be_encode n v) = n"
  by (simp add: be_encode_def)

lemma unat_of_nat_byte: "n < 256 \<Longrightarrow> unat (of_nat n :: u8) = n"
  by (simp add: unat_of_nat)

lemma le_decode_encode: "v < 256 ^ n \<Longrightarrow> le_decode (le_encode n v) = v"
proof (induction n v rule: le_encode.induct)
  case (1 v)
  then show ?case by simp
next
  case (2 n v)
  then have "v div 256 < 256 ^ n"
    by (simp add: less_mult_imp_div_less mult.commute)
  with 2 show ?case
    by (simp add: unat_of_nat_byte)
qed

lemma be_decode_encode: "v < 256 ^ n \<Longrightarrow> be_decode (be_encode n v) = v"
  by (simp add: be_encode_def be_decode_def le_decode_encode)

lemma le_decode_bound: "le_decode bs < 256 ^ length bs"
proof (induction bs)
  case Nil
  then show ?case by simp
next
  case (Cons b bs)
  have "unat b < 256"
    using unsigned_less [of b, where 'a = nat] by simp
  with Cons show ?case by simp
qed

section \<open>Sequences of frames\<close>

text \<open>Frames written one after the other; the first refused frame ends the run.\<close>

fun write_frames :: "('a \<Rightarrow> 'b list io_result) \<Rightarrow> 'a list \<Rightarrow> 'b list io_result" where
  "write_frames enc [] = Inr []"
| "write_frames enc (x # xs) =
     (case enc x of
        Inl e \<Rightarrow> Inl e
      | Inr b \<Rightarrow> (case write_frames enc xs of Inl e \<Rightarrow> Inl e | Inr bs \<Rightarrow> Inr (b @ bs)))"

fun read_frames ::
  "('b list \<Rightarrow> ('a \<times> 'b list) io_result) \<Rightarrow> nat \<Rightarrow> 'b list \<Rightarrow> ('a list \<times> 'b list) io_result" where
  "read_frames dec 0 s = Inr ([], s)"
| "read_frames dec (Suc n) s =
     (case dec s of
        Inl e \<Rightarrow> Inl e
      | Inr (x, r) \<Rightarrow>
          (case read_frames dec n r of Inl e \<Rightarrow> Inl e | Inr (xs, t) \<Rightarrow> Inr (x # xs, t)))"

locale frame_codec =
  fixes enc :: "'a \<Rightarrow> 'b list io_result"
    and dec :: "'b list \<Rightarrow> ('a \<times> 'b list) io_result"
    and frame_ok :: "'a \<Rightarrow> bool"
  assumes enc_total: "frame_ok x \<Longrightarrow> is_ok (enc x)"
    and dec_enc: "frame_ok x \<Longrightarrow> enc x = Inr bs \<Longrightarrow> dec (bs @ rest) = Inr (x, rest)"
    and enc_ne: "enc x = Inr bs \<Longrightarrow> bs \<noteq> []"
begin

lemma write_ok: "list_all frame_ok xs \<Longrightarrow> \<exists>bs. write_frames enc xs = Inr bs"
proof (induction xs)
  case Nil
  then show ?case by simp
next
  case (Cons x xs)
  then obtain b bs where "enc x = Inr b" "write_frames enc xs = Inr bs"
    using enc_total [of x] by (auto simp: is_ok_iff)
  then show ?case by simp
qed

theorem read_write:
  "list_all frame_ok xs \<Longrightarrow> write_frames enc xs = Inr bs \<Longrightarrow>
   read_frames dec (length xs) (bs @ rest) = Inr (xs, rest)"
proof (induction xs arbitrary: bs)
  case Nil
  then show ?case by simp
next
  case (Cons x xs)
  then obtain b bs' where *: "enc x = Inr b" "write_frames enc xs = Inr bs'" "bs = b @ bs'"
    by (auto split: sum.splits)
  with Cons have "read_frames dec (length xs) (bs' @ rest) = Inr (xs, rest)"
    and "dec (b @ (bs' @ rest)) = Inr (x, bs' @ rest)"
    using dec_enc [of x b "bs' @ rest"] by auto
  with * show ?case by simp
qed

text \<open>Two runs that put the same bytes on the wire wrote the same frames.\<close>

theorem write_inj:
  "list_all frame_ok xs \<Longrightarrow> list_all frame_ok ys \<Longrightarrow>
   write_frames enc xs = Inr bs \<Longrightarrow> write_frames enc ys = Inr bs \<Longrightarrow> xs = ys"
proof (induction xs arbitrary: ys bs)
  case Nil
  show ?case
  proof (cases ys)
    case Nil
    then show ?thesis by simp
  next
    case (Cons y ys')
    with Nil.prems show ?thesis
      using enc_ne by (auto split: sum.splits)
  qed
next
  case (Cons x xs)
  from Cons.prems(3) obtain b bs' where x: "enc x = Inr b" "write_frames enc xs = Inr bs'" "bs = b @ bs'"
    by (auto split: sum.splits)
  show ?case
  proof (cases ys)
    case Nil
    with Cons.prems x enc_ne show ?thesis by auto
  next
    case (Cons y ys')
    with Cons.prems(4) obtain c cs where y: "enc y = Inr c" "write_frames enc ys' = Inr cs" "bs = c @ cs"
      by (auto split: sum.splits)
    have ok: "frame_ok x" "frame_ok y" "list_all frame_ok xs" "list_all frame_ok ys'"
      using Cons Cons.prems(1,2) by auto
    have "dec bs = Inr (x, bs')" and "dec bs = Inr (y, cs)"
      using dec_enc [OF ok(1) x(1), of bs'] dec_enc [OF ok(2) y(1), of cs] x(3) y(3) by simp_all
    then have eq: "x = y" "bs' = cs"
      by simp_all
    have "xs = ys'"
      using Cons.IH [OF ok(3,4) x(2)] y(2) eq by simp
    with eq Cons show ?thesis by simp
  qed
qed

end

end
