(* ===== verification/Protocol.thy ===== *)
theory Protocol
  imports Frames Model
begin

text \<open>
  The bridge protocol of \<open>src/protocol.rs\<close>: the messages, and the two framings, a
  magic number, a little-endian length and a JSON body for control messages, a length and
  raw bytes for datagrams.  The JSON library is a parameter: \<open>to_vec\<close> and
  \<open>from_slice\<close> stand for \<open>serde_json::to_vec\<close> and \<open>serde_json::from_slice\<close>, whose
  errors are their messages.  A stream is the list of bytes still to be read, or the bytes
  written so far; writes to the underlying socket succeed.
\<close>

section \<open>Messages\<close>

datatype LinkKind = LkTcp | LkHttp | LkUdp | LkFile | LkSecret | LkP2p

record FileServe =
  fs_local_path :: string
  fs_strip_pre :: string

record Link =
  lk_kind :: LinkKind
  lk_target :: string
  lk_remote_addr :: string
  lk_crypt :: bool
  lk_compress :: bool
  lk_local_proxy :: bool
  lk_proto_version :: string
  lk_file :: "FileServe option"

definition Link_tcp :: "string \<Rightarrow> string \<Rightarrow> bool \<Rightarrow> bool \<Rightarrow> Link" where
  "Link_tcp target remote_addr crypt compress =
     \<lparr>lk_kind = LkTcp, lk_target = target, lk_remote_addr = remote_addr, lk_crypt = crypt,
      lk_compress = compress, lk_local_proxy = False, lk_proto_version = [], lk_file = None\<rparr>"

datatype BridgeHello =
    HelloControl (hello_vkey: string) string string
  | HelloMux (hello_vkey: string) string string
  | HelloConfig (hello_vkey: string) string string ClientRuntimeConfig
  | HelloHealth (hello_vkey: string) string bool
  | HelloData (hello_vkey: string) u64
  | HelloSecretVisitor string string
  | HelloP2pVisitor string string
  | HelloRegisterIp (hello_vkey: string) u32

datatype ServerMessage =
    MsgOk string
  | MsgError string
  | MsgOpen u64 Link
  | MsgPing
  | MsgStop string

section \<open>Framing\<close>

definition MAGIC :: bytes where
  "MAGIC = [0x52, 0x4E, 0x50, 0x31]"

definition MAX_FRAME :: nat where
  "MAX_FRAME = 16 * 1024 * 1024"

definition invalid_data :: "string \<Rightarrow> io_error" where
  "invalid_data err = IoError InvalidData err"

definition write_message :: "('a \<Rightarrow> string + bytes) \<Rightarrow> 'a \<Rightarrow> bytes io_result" where
  "write_message to_vec value =
     (case to_vec value of
        Inl err \<Rightarrow> Inl (invalid_data err)
      | Inr body \<Rightarrow>
          if MAX_FRAME < length body then Inl (IoError InvalidData ''frame too large'')
          else Inr (MAGIC @ le_encode 4 (length body) @ body))"

definition read_message ::
  "(bytes \<Rightarrow> string + 'a) \<Rightarrow> bytes \<Rightarrow> ('a \<times> bytes) io_result" where
  "read_message from_slice stream =
     (case read_exact 4 stream of
        Inl e \<Rightarrow> Inl e
      | Inr (magic, s1) \<Rightarrow>
          if magic \<noteq> MAGIC then Inl (IoError InvalidData ''bad protocol magic'')
          else
          (case read_exact 4 s1 of
             Inl e \<Rightarrow> Inl e
           | Inr (len_buf, s2) \<Rightarrow>
               let len = le_decode len_buf
               in if MAX_FRAME < len then Inl (IoError InvalidData ''frame too large'')
                  else
                  (case read_exact len s2 of
                     Inl e \<Rightarrow> Inl e
                   | Inr (body, s3) \<Rightarrow>
                       (case from_slice body of
                          Inl err \<Rightarrow> Inl (invalid_data err)
                        | Inr v \<Rightarrow> Inr (v, s3)))))"

definition write_blob :: "bytes \<Rightarrow> bytes io_result" where
  "write_blob data =
     (if MAX_FRAME < length data then Inl (IoError InvalidData ''blob too large'')
      else Inr (le_encode 4 (length data) @ data))"

definition read_blob :: "bytes \<Rightarrow> (bytes \<times> bytes) io_result" where
  "read_blob stream =
     (case read_exact 4 stream of
        Inl e \<Rightarrow> Inl e
      | Inr (len_buf, s1) \<Rightarrow>
          let len = le_decode len_buf
          in if MAX_FRAME < len then Inl (IoError InvalidData ''blob too large'')
             else read_exact len s1)"

text \<open>The message constructors \<open>ok\<close> and \<open>error\<close>.\<close>

definition msg_ok :: "string \<Rightarrow> ServerMessage" where
  "msg_ok message = MsgOk message"

definition msg_error :: "string \<Rightarrow> ServerMessage" where
  "msg_error message = MsgError message"

section \<open>The framings are codecs\<close>

lemma frame_len_fits: "n \<le> MAX_FRAME \<Longrightarrow> n < 256 ^ 4"
  by (simp add: MAX_FRAME_def)

lemma length_MAGIC [simp]: "length MAGIC = 4"
  by (simp add: MAGIC_def)

lemma read_blob_write_blob:
  "length data \<le> MAX_FRAME \<Longrightarrow> read_blob (le_encode 4 (length data) @ data @ rest) = Inr (data, rest)"
  by (simp add: read_blob_def le_decode_encode [OF frame_len_fits])

interpretation blob: frame_codec write_blob read_blob "\<lambda>d. length d \<le> MAX_FRAME"
  by unfold_locales (auto simp: write_blob_def read_blob_write_blob split: if_splits)

text \<open>
  What the code relies on of the JSON library: it can decode what it encoded.  The
  second component of the codec's domain is the size limit of a frame.
\<close>

definition message_ok :: "('a \<Rightarrow> string + bytes) \<Rightarrow> 'a \<Rightarrow> bool" where
  "message_ok to_vec v = (case to_vec v of Inl _ \<Rightarrow> False | Inr body \<Rightarrow> length body \<le> MAX_FRAME)"

lemma read_message_write_message:
  assumes "to_vec v = Inr body" "length body \<le> MAX_FRAME" "from_slice body = Inr v"
  shows "read_message from_slice (MAGIC @ le_encode 4 (length body) @ body @ rest) = Inr (v, rest)"
  using assms by (simp add: read_message_def le_decode_encode [OF frame_len_fits])

lemma message_codec:
  assumes "\<forall>v body. to_vec v = Inr body \<longrightarrow> from_slice body = Inr v"
  shows "frame_codec (write_message to_vec) (read_message from_slice) (message_ok to_vec)"
proof
  fix x bs rest
  show "message_ok to_vec x \<Longrightarrow> is_ok (write_message to_vec x)"
    by (auto simp: message_ok_def write_message_def split: sum.splits)
  show "read_message from_slice (bs @ rest) = Inr (x, rest)"
    if "message_ok to_vec x" "write_message to_vec x = Inr bs"
    using that assms
    by (auto simp: message_ok_def write_message_def read_message_write_message split: sum.splits if_splits)
  show "write_message to_vec x = Inr bs \<Longrightarrow> bs \<noteq> []"
    by (auto simp: write_message_def MAGIC_def split: sum.splits if_splits)
qed

lemma read_message_consumes:
  assumes "read_message from_slice s = Inr (v, rest)"
  shows "\<exists>body. s = MAGIC @ le_encode 4 (length body) @ body @ rest \<and> from_slice body = Inr v
           \<and> length body \<le> MAX_FRAME"
proof -
  from assms obtain s1 len_buf s2 body where
    r: "read_exact 4 s = Inr (MAGIC, s1)" "read_exact 4 s1 = Inr (len_buf, s2)"
    "le_decode len_buf \<le> MAX_FRAME" "read_exact (le_decode len_buf) s2 = Inr (body, rest)"
    "from_slice body = Inr v"
    by (auto simp: read_message_def Let_def not_less split: sum.splits if_splits prod.splits)
  have len: "length len_buf = 4" "length body = le_decode len_buf"
    using r by (auto dest: read_exact_Inr)
  have "le_encode (length bs) (le_decode bs) = bs" for bs
  proof (induction bs)
    case (Cons b bs)
    have "unat b < 256" using unsigned_less [of b, where 'a = nat] by simp
    with Cons show ?case by simp
  qed simp
  then have "le_encode 4 (length body) = len_buf"
    using len by metis
  moreover have "s = MAGIC @ len_buf @ body @ rest"
    using r by (auto dest!: read_exact_Inr)
  ultimately show ?thesis using r len by auto
qed

section \<open>Properties\<close>

text \<open>
  C26: A conversation of control messages is read back as it was written.  If the JSON
  library decodes what it encodes and every message fits into a frame, all the messages
  can be written one after the other, and the reader gets the same messages in the same
  order and leaves the bytes that follow untouched.
\<close>

theorem message_conversation:
  fixes to_vec :: "'a \<Rightarrow> string + bytes"
  assumes "\<forall>v body. to_vec v = Inr body \<longrightarrow> from_slice body = Inr v"
    and "list_all (message_ok to_vec) vs"
  shows "\<exists>bs. write_frames (write_message to_vec) vs = Inr bs
     \<and> read_frames (read_message from_slice) (length vs) (bs @ rest) = Inr (vs, rest)"
  using frame_codec.write_ok [OF message_codec [OF assms(1)] assms(2)]
    frame_codec.read_write [OF message_codec [OF assms(1)] assms(2)] by blast

theorem message_conversation_witness:
  "\<exists>bs. write_frames (write_message Inr) [[123, 125], [110, 117, 108, 108 :: u8]] = Inr bs
     \<and> read_frames (read_message Inr) 2 (bs @ [7]) = Inr ([[123, 125], [110, 117, 108, 108]], [7])"
  using message_conversation [of Inr Inr "[[123, 125], [110, 117, 108, 108]]" "[7]"]
  by (simp add: message_ok_def MAX_FRAME_def numeral_2_eq_2)

text \<open>
  The reader of control messages accepts exactly the well-formed frames: it returns a
  message iff the stream starts with the magic number, the length of a body of at most
  16 MiB and that body, and the JSON library accepts the body; it consumes exactly the frame.
\<close>

lemma read_message_iff:
  "read_message from_slice s = Inr (v, rest) \<longleftrightarrow>
   (\<exists>body. s = MAGIC @ le_encode 4 (length body) @ body @ rest
      \<and> from_slice body = Inr v \<and> length body \<le> MAX_FRAME)"
  using read_message_consumes [of from_slice s v rest]
  by (auto simp: read_message_def le_decode_encode [OF frame_len_fits])

text \<open>
  Datagrams keep their boundaries: a sequence of blobs of at most 16 MiB each is
  written without error and read back as the same sequence, and two sequences that put the
  same bytes on the wire are equal.
\<close>

lemma blob_conversation:
  assumes "list_all (\<lambda>d. length d \<le> MAX_FRAME) ds" "list_all (\<lambda>d. length d \<le> MAX_FRAME) es"
  shows "\<exists>bs. write_frames write_blob ds = Inr bs
     \<and> read_frames read_blob (length ds) (bs @ rest) = Inr (ds, rest)
     \<and> (write_frames write_blob es = Inr bs \<longrightarrow> es = ds)"
  using blob.write_ok [OF assms(1)] blob.read_write [OF assms(1)] blob.write_inj [OF assms] by blast

end
