(* ===== verification/Streams.thy ===== *)
theory Streams
  imports Prelude
begin

text \<open>
  The interface between the relay and the streams it copies.  \<open>byte_reader\<close> is what
  \<open>copy_one_way\<close> (\<open>src/relay.rs\<close>) relies on of a \<open>RelayRead\<close>: a read hands over a
  non-empty piece of what is pending, in order, and reports the end by an empty piece.
  \<open>byte_sink\<close> is what it relies on of a \<open>RelayWrite\<close>.  The copy loop is defined over
  arbitrary operations and proved correct once for every reader and sink; the multiplexer
  interprets both locales.

  A read is \<open>None\<close> when it blocks forever, so the copy loop is \<open>None\<close> when it never returns.
\<close>

section \<open>The copy loop\<close>

type_synonym 's read_op = "nat \<Rightarrow> 's \<Rightarrow> (bytes io_result \<times> 's) option"
type_synonym 'w write_op = "bytes \<Rightarrow> 'w \<Rightarrow> unit io_result \<times> 'w"

definition COPY_BUF :: nat where "COPY_BUF = 16 * 1024"

text \<open>
  \<open>write_all\<close> followed by \<open>flush\<close> is the one operation \<open>wr\<close>; \<open>shut\<close> is
  \<open>shutdown_write\<close>, whose failure is only logged.
\<close>

partial_function (option) copy_one_way ::
  "'s read_op \<Rightarrow> 'w write_op \<Rightarrow> ('w \<Rightarrow> 'w) \<Rightarrow> 's \<Rightarrow> 'w \<Rightarrow> (unit io_result \<times> 's \<times> 'w) option" where
  "copy_one_way rd wr shut reader writer =
     Option.bind (rd COPY_BUF reader) (\<lambda>(res, reader').
       case res of
         Inl e \<Rightarrow> Some (Inl e, reader', writer)
       | Inr buf \<Rightarrow>
           if buf = [] then Some (Inr (), reader', shut writer)
           else (case wr buf writer of
                   (Inl e, writer') \<Rightarrow> Some (Inl e, reader', writer')
                 | (Inr _, writer') \<Rightarrow> copy_one_way rd wr shut reader' writer'))"

declare copy_one_way.simps [code]

section \<open>Readers and sinks\<close>

locale byte_reader =
  fixes rd :: "'s read_op"
    and pending :: "'s \<Rightarrow> bytes"
    and ended :: "'s \<Rightarrow> bool"
  assumes rd_data: "0 < n \<Longrightarrow> pending s \<noteq> [] \<Longrightarrow>
      \<exists>out s'. rd n s = Some (Inr out, s') \<and> out \<noteq> [] \<and> length out \<le> n
        \<and> pending s = out @ pending s' \<and> ended s' = ended s"
    and rd_end: "0 < n \<Longrightarrow> pending s = [] \<Longrightarrow> ended s \<Longrightarrow>
      \<exists>s'. rd n s = Some (Inr [], s') \<and> pending s' = [] \<and> ended s'"

locale byte_sink =
  fixes wr :: "'w write_op"
    and contents :: "'w \<Rightarrow> bytes"
    and sink_ok :: "'w \<Rightarrow> bool"
  assumes wr_append: "sink_ok w \<Longrightarrow> length b \<le> COPY_BUF \<Longrightarrow>
      \<exists>w'. wr b w = (Inr (), w') \<and> sink_ok w' \<and> contents w' = contents w @ b"

locale relay_pair = byte_reader rd pending ended + byte_sink wr contents sink_ok
  for rd :: "'s read_op" and pending and ended
    and wr :: "'w write_op" and contents and sink_ok
begin

theorem copy_all:
  assumes "ended r" and "sink_ok w"
  shows "\<exists>r' w'. copy_one_way rd wr shut r w = Some (Inr (), r', shut w')
           \<and> sink_ok w' \<and> contents w' = contents w @ pending r \<and> pending r' = []"
  using assms
proof (induction "length (pending r)" arbitrary: r w rule: less_induct)
  case less
  show ?case
  proof (cases "pending r = []")
    case True
    with rd_end [of COPY_BUF r] less.prems obtain r' where
      "rd COPY_BUF r = Some (Inr [], r')" "pending r' = []"
      by (auto simp: COPY_BUF_def)
    with True less.prems show ?thesis
      by (subst copy_one_way.simps) auto
  next
    case False
    with rd_data [of COPY_BUF r] less.prems obtain out r' where rd:
      "rd COPY_BUF r = Some (Inr out, r')" "out \<noteq> []" "length out \<le> COPY_BUF"
      "pending r = out @ pending r'" "ended r'"
      by (auto simp: COPY_BUF_def)
    from wr_append [OF less.prems(2) rd(3)] obtain w' where wr:
      "wr out w = (Inr (), w')" "sink_ok w'" "contents w' = contents w @ out" by auto
    have "length (pending r') < length (pending r)"
      using rd by simp
    from less.hyps [OF this rd(5) wr(2)] obtain r2 w2 where
      "copy_one_way rd wr shut r' w' = Some (Inr (), r2, shut w2)" "sink_ok w2"
      "contents w2 = contents w' @ pending r'" "pending r2 = []" by auto
    then show ?thesis
      using rd wr by (subst copy_one_way.simps) auto
  qed
qed

end

end
