(* ===== verification/Mux.thy ===== *)
theory Mux
  imports Traffic Protocol Streams
begin

text \<open>
  The stream multiplexer of \<open>src/mux.rs\<close>.  A session is a record: the bytes written to
  the connection, the map from stream ids to channels, the channels themselves (a
  \<open>mpsc\<close> channel is a queue of messages in an explicit store, addressed by number, so
  that the map of the session and the stream that reads can share it), the queue of
  accepted streams, the closed flag, the time of the last activity and the traffic state.
  Threads enter as sequences of operations: the reader thread is \<open>read_loop\<close> over the bytes
  of the connection, the ping thread \<open>ping_loop\<close> over its ticks.  Time is an argument.
  A write to the connection succeeds.  A message sent to a stream nobody reads any more
  stays in its queue, where nothing observes it.
\<close>

section \<open>Traffic state and rate governor\<close>

record MuxRateGovernor =
  mg_bytes_per_sec :: u64
  mg_allowance :: rat
  mg_last :: rat

definition MuxRateGovernor_new :: "u64 \<Rightarrow> rat \<Rightarrow> MuxRateGovernor" where
  "MuxRateGovernor_new bytes_per_sec now =
     \<lparr>mg_bytes_per_sec = bytes_per_sec, mg_allowance = rat_of_u64 bytes_per_sec, mg_last = now\<rparr>"

definition MuxRateGovernor_plan_delay ::
  "MuxRateGovernor \<Rightarrow> u64 \<Rightarrow> rat \<Rightarrow> rat \<times> MuxRateGovernor" where
  "MuxRateGovernor_plan_delay g n now =
     (if mg_bytes_per_sec g = 0 \<or> n = 0 then (0, g\<lparr>mg_last := now\<rparr>)
      else (let r = rat_of_u64 (mg_bytes_per_sec g);
                elapsed = max 0 (now - mg_last g);
                allowance = min (mg_allowance g + elapsed * r) r
            in if rat_of_u64 n \<le> allowance
               then (0, g\<lparr>mg_allowance := allowance - rat_of_u64 n, mg_last := now\<rparr>)
               else (let missing = rat_of_u64 n - allowance; delay = missing / r
                     in (delay, g\<lparr>mg_allowance := 0, mg_last := now + delay\<rparr>))))"

interpretation mux_rate: token_bucket MuxRateGovernor_plan_delay mg_bytes_per_sec mg_allowance mg_last
proof unfold_locales
  fix g :: MuxRateGovernor and b :: u64 and now :: rat
  let ?p = "MuxRateGovernor_plan_delay g b now"
  let ?r = "rat_of_u64 (mg_bytes_per_sec g)"
  show "mg_bytes_per_sec (snd ?p) = mg_bytes_per_sec g"
    and "mg_last (snd ?p) = now + fst ?p"
    by (simp_all add: MuxRateGovernor_plan_delay_def Let_def)
  show "0 \<le> fst ?p" if "0 \<le> mg_allowance g" "mg_last g \<le> now"
    by (auto simp: MuxRateGovernor_plan_delay_def Let_def not_le intro!: divide_nonneg_nonneg)
  show "0 \<le> mg_allowance (snd ?p) \<and> mg_allowance (snd ?p) \<le> ?r"
    if "0 \<le> mg_allowance g" "mg_allowance g \<le> ?r" "mg_last g \<le> now"
    using that by (auto simp: MuxRateGovernor_plan_delay_def Let_def spend_le)
  show "mg_allowance (snd ?p) + rat_of_u64 b \<le> mg_allowance g + ?r * (mg_last (snd ?p) - mg_last g)"
    if "mg_bytes_per_sec g \<noteq> 0" "mg_last g \<le> now"
    using that refill_le [OF that(2), of "mg_allowance g" ?r] unat_pos_rat [OF that(1)]
    by (auto simp: MuxRateGovernor_plan_delay_def Let_def delay_credit)
qed

record MuxTrafficPolicy =
  mp_rate_limit_kb :: u64
  mp_flow_limit_mb :: u64
  mp_flow_counter :: "FlowCounter option"

definition MuxTrafficPolicy_default :: MuxTrafficPolicy where
  "MuxTrafficPolicy_default =
     \<lparr>mp_rate_limit_kb = 0, mp_flow_limit_mb = 0, mp_flow_counter = None\<rparr>"

record MuxTrafficState =
  mt_limiter :: "MuxRateGovernor option"
  mt_flow_counter :: FlowCounter
  mt_flow_limit_bytes :: u64

definition mux_traffic_new :: "MuxTrafficPolicy \<Rightarrow> rat \<Rightarrow> MuxTrafficState option" where
  "mux_traffic_new policy now =
     map_option (\<lambda>counter.
        \<lparr>mt_limiter = (if 0 < mp_rate_limit_kb policy
                       then Some (MuxRateGovernor_new (mp_rate_limit_kb policy * 1024) now)
                       else None),
         mt_flow_counter = counter,
         mt_flow_limit_bytes = saturating_mul (mp_flow_limit_mb policy) (1024 * 1024)\<rparr>)
       (mp_flow_counter policy)"

definition mux_record_flow ::
  "MuxTrafficState option \<Rightarrow> u64 \<Rightarrow> u64 \<Rightarrow> unit io_result \<times> MuxTrafficState option" where
  "mux_record_flow self inlet export =
     (case self of
        None \<Rightarrow> (Inr (), self)
      | Some traffic \<Rightarrow>
          (let counter = mt_flow_counter traffic;
               next_inlet = saturating_add (fc_inlet_flow counter) inlet;
               next_export = saturating_add (fc_export_flow counter) export
           in if 0 < mt_flow_limit_bytes traffic
                 \<and> mt_flow_limit_bytes traffic < saturating_add next_inlet next_export
              then (Inl traffic_exceeded, self)
              else (Inr (), Some (traffic\<lparr>mt_flow_counter :=
                              counter\<lparr>fc_inlet_flow := next_inlet,
                                      fc_export_flow := next_export\<rparr>\<rparr>))))"

definition mux_limit_bytes :: "MuxTrafficState option \<Rightarrow> u64" where
  "mux_limit_bytes t = (case t of None \<Rightarrow> 0 | Some traffic \<Rightarrow> mt_flow_limit_bytes traffic)"

interpretation mux_meter: flow_meter mux_record_flow "map_option mt_flow_counter" mux_limit_bytes
  by unfold_locales
    (auto simp: mux_record_flow_def mux_limit_bytes_def flow_defs split: option.splits)

section \<open>Frames\<close>

definition FRAME_OPEN :: u8 where "FRAME_OPEN = 1"
definition FRAME_DATA :: u8 where "FRAME_DATA = 2"
definition FRAME_CLOSE :: u8 where "FRAME_CLOSE = 3"
definition HEADER_LEN :: nat where "HEADER_LEN = 13"

type_synonym mux_frame = "u8 \<times> u64 \<times> bytes"

text \<open>The bytes \<open>send_frame\<close> writes, and the header and payload \<open>read_loop\<close> reads.\<close>

definition encode_frame :: "u8 \<Rightarrow> u64 \<Rightarrow> bytes \<Rightarrow> bytes" where
  "encode_frame kind sid payload =
     [kind] @ le_encode 8 (unat sid) @ le_encode 4 (length payload) @ payload"

definition read_frame :: "bytes \<Rightarrow> (mux_frame \<times> bytes) io_result" where
  "read_frame reader =
     (case read_exact HEADER_LEN reader of
        Inl e \<Rightarrow> Inl e
      | Inr (header, r1) \<Rightarrow>
          let kind = hd header;
              sid = of_nat (le_decode (take 8 (drop 1 header)));
              len = le_decode (take 4 (drop 9 header))
          in if MAX_FRAME < len then Inl (IoError InvalidData ''mux frame too large'')
             else (case read_exact len r1 of
                     Inl e \<Rightarrow> Inl e
                   | Inr (payload, r2) \<Rightarrow> Inr ((kind, sid, payload), r2)))"

lemma read_frame_encode:
  assumes "length payload \<le> MAX_FRAME"
  shows "read_frame (encode_frame kind sid payload @ rest) = Inr ((kind, sid, payload), rest)"
proof -
  let ?h = "kind # le_encode 8 (unat sid) @ le_encode 4 (length payload)"
  have "read_exact HEADER_LEN (?h @ payload @ rest) = Inr (?h, payload @ rest)"
    by (rule read_exact_append) (simp add: HEADER_LEN_def)
  moreover have "le_decode (le_encode 8 (unat sid)) = unat sid"
    using unat_lt_u64 [of sid] by (simp add: le_decode_encode)
  ultimately show ?thesis
    using assms by (simp add: read_frame_def encode_frame_def le_decode_encode [OF frame_len_fits])
qed

lemma read_frame_shorter: "read_frame s = Inr (f, r) \<Longrightarrow> length r < length s"
  by (auto simp: read_frame_def HEADER_LEN_def Let_def dest!: read_exact_Inr split: sum.splits if_splits)

section \<open>Sessions and streams\<close>

type_synonym channel = "bytes option list"

record MuxStream =
  ms_id :: u64
  ms_rx :: nat
  ms_read_buf :: bytes
  ms_read_closed :: bool
  ms_write_closed :: bool

record MuxSession =
  mx_written :: bytes
  mx_streams :: "(u64 \<times> nat) list"
  mx_channels :: "channel list"
  mx_accept :: "MuxStream list"
  mx_closed :: bool
  mx_last_activity :: u64
  mx_traffic :: "MuxTrafficState option"

definition MuxSession_new :: "MuxTrafficPolicy \<Rightarrow> u64 \<Rightarrow> rat \<Rightarrow> MuxSession" where
  "MuxSession_new policy now_secs now =
     \<lparr>mx_written = [], mx_streams = [], mx_channels = [], mx_accept = [], mx_closed = False,
      mx_last_activity = now_secs, mx_traffic = mux_traffic_new policy now\<rparr>"

text \<open>\<open>Sender::send\<close> on channel \<open>c\<close>.\<close>

definition chan_send :: "nat \<Rightarrow> bytes option \<Rightarrow> MuxSession \<Rightarrow> MuxSession" where
  "chan_send c m s = s\<lparr>mx_channels := (mx_channels s)[c := mx_channels s ! c @ [m]]\<rparr>"

definition create_stream :: "u64 \<Rightarrow> MuxSession \<Rightarrow> MuxStream io_result \<times> MuxSession" where
  "create_stream sid s =
     (if mx_closed s then (Inl (IoError BrokenPipe ''mux session closed''), s)
      else (let c = length (mx_channels s)
            in (Inr \<lparr>ms_id = sid, ms_rx = c, ms_read_buf = [], ms_read_closed = False,
                     ms_write_closed = False\<rparr>,
                s\<lparr>mx_channels := mx_channels s @ [[]],
                  mx_streams := hm_insert sid c (mx_streams s)\<rparr>)))"

definition record_inlet :: "u64 \<Rightarrow> MuxSession \<Rightarrow> unit io_result \<times> MuxSession" where
  "record_inlet n s =
     (case mux_record_flow (mx_traffic s) n 0 of (r, t) \<Rightarrow> (r, s\<lparr>mx_traffic := t\<rparr>))"

definition record_export :: "u64 \<Rightarrow> MuxSession \<Rightarrow> unit io_result \<times> MuxSession" where
  "record_export n s =
     (case mux_record_flow (mx_traffic s) 0 n of (r, t) \<Rightarrow> (r, s\<lparr>mx_traffic := t\<rparr>))"

definition mux_limit_rate :: "u64 \<Rightarrow> rat \<Rightarrow> MuxSession \<Rightarrow> rat \<times> MuxSession" where
  "mux_limit_rate n now s =
     (if n = 0 then (0, s)
      else (case mx_traffic s of
              None \<Rightarrow> (0, s)
            | Some traffic \<Rightarrow>
                (case mt_limiter traffic of
                   None \<Rightarrow> (0, s)
                 | Some g \<Rightarrow>
                     (case MuxRateGovernor_plan_delay g n now of (d, g') \<Rightarrow>
                        (d, s\<lparr>mx_traffic := Some (traffic\<lparr>mt_limiter := Some g'\<rparr>)\<rparr>)))))"

definition send_frame ::
  "u8 \<Rightarrow> u64 \<Rightarrow> bytes \<Rightarrow> rat \<Rightarrow> MuxSession \<Rightarrow> unit io_result \<times> MuxSession" where
  "send_frame kind sid payload now s =
     (if MAX_FRAME < length payload
      then (Inl (IoError InvalidData ''mux frame too large''), s)
      else (let (r, s1) = (if kind = FRAME_DATA
                           then (case record_inlet (of_nat (length payload)) s of
                                   (Inl e, t) \<Rightarrow> (Inl e, t)
                                 | (Inr u, t) \<Rightarrow>
                                     (Inr u, snd (mux_limit_rate (of_nat (length payload)) now t)))
                           else (Inr (), s))
            in case r of
                 Inl e \<Rightarrow> (Inl e, s1)
               | Inr _ \<Rightarrow>
                   (Inr (), s1\<lparr>mx_written := mx_written s1 @ encode_frame kind sid payload\<rparr>)))"

definition drop_stream :: "u64 \<Rightarrow> MuxSession \<Rightarrow> MuxSession" where
  "drop_stream sid s = s\<lparr>mx_streams := hm_remove sid (mx_streams s)\<rparr>"

definition close_session :: "MuxSession \<Rightarrow> MuxSession" where
  "close_session s =
     (if mx_closed s then s
      else fold (\<lambda>(_, c) t. chan_send c None t) (mx_streams s)
             (s\<lparr>mx_closed := True, mx_streams := []\<rparr>))"

definition open_stream :: "u64 \<Rightarrow> rat \<Rightarrow> MuxSession \<Rightarrow> MuxStream io_result \<times> MuxSession" where
  "open_stream sid now s =
     (case create_stream sid s of
        (Inl e, s1) \<Rightarrow> (Inl e, s1)
      | (Inr stream, s1) \<Rightarrow>
          (case send_frame FRAME_OPEN sid [] now s1 of
             (Inl e, s2) \<Rightarrow> (Inl e, s2)
           | (Inr _, s2) \<Rightarrow> (Inr stream, s2)))"

text \<open>
  \<open>accept\<close> takes the oldest stream the reader thread queued; \<open>None\<close> says that it blocks.
  The session holds a sender of its own queue, so the \<open>mux session closed\<close> error of the
  source (every sender gone) cannot happen while the session exists.
\<close>

definition accept :: "MuxSession \<Rightarrow> (MuxStream io_result \<times> MuxSession) option" where
  "accept s = (case mx_accept s of
                 [] \<Rightarrow> None
               | st # rest \<Rightarrow> Some (Inr st, s\<lparr>mx_accept := rest\<rparr>))"

definition is_closed :: "MuxSession \<Rightarrow> bool" where
  "is_closed s = mx_closed s"

text \<open>
  The write side of a stream.  The session is \<open>None\<close> when the weak reference of the stream
  can no longer be upgraded.
\<close>

definition close_write_once ::
  "MuxStream \<Rightarrow> rat \<Rightarrow> MuxSession option \<Rightarrow> MuxStream \<times> MuxSession option" where
  "close_write_once st now session =
     (if ms_write_closed st then (st, session)
      else (st\<lparr>ms_write_closed := True\<rparr>,
            map_option (\<lambda>s. drop_stream (ms_id st) (snd (send_frame FRAME_CLOSE (ms_id st) [] now s)))
              session))"

definition MuxStream_write ::
  "MuxStream \<Rightarrow> bytes \<Rightarrow> rat \<Rightarrow> MuxSession option \<Rightarrow> usize io_result \<times> MuxSession option" where
  "MuxStream_write st buf now session =
     (if ms_write_closed st then (Inl (IoError BrokenPipe ''mux stream closed''), session)
      else (case session of
              None \<Rightarrow> (Inl (IoError BrokenPipe ''mux session closed''), None)
            | Some s \<Rightarrow>
                (case send_frame FRAME_DATA (ms_id st) buf now s of
                   (Inl e, s') \<Rightarrow> (Inl e, Some s')
                 | (Inr _, s') \<Rightarrow> (Inr (length buf), Some s'))))"

text \<open>
  The read side.  \<open>read_chan\<close> is the loop of \<open>read\<close>: serve the buffer, else report the
  end, else receive; \<open>None\<close> says that \<open>recv\<close> blocks (the queue is empty and the session
  still holds a sender).
\<close>

fun read_chan ::
  "bool \<Rightarrow> nat \<Rightarrow> bytes \<Rightarrow> bool \<Rightarrow> channel \<Rightarrow> (bytes \<times> bytes \<times> bool \<times> channel) option" where
  "read_chan live n read_buf read_closed q =
     (if read_buf \<noteq> [] then Some (take n read_buf, drop n read_buf, read_closed, q)
      else if read_closed then Some ([], [], read_closed, q)
      else (case q of
              [] \<Rightarrow> if live then None else Some ([], [], True, [])
            | None # q' \<Rightarrow> Some ([], [], True, q')
            | Some b # q' \<Rightarrow> read_chan live n b read_closed q'))"

declare read_chan.simps [simp del]

definition chan_queue :: "nat \<Rightarrow> MuxSession \<Rightarrow> channel" where
  "chan_queue c s = (if c < length (mx_channels s) then mx_channels s ! c else [])"

definition has_sender :: "nat \<Rightarrow> MuxSession \<Rightarrow> bool" where
  "has_sender c s = (c \<in> set (map snd (mx_streams s)))"

definition MuxStream_read ::
  "(MuxStream \<times> MuxSession) read_op" where
  "MuxStream_read n p =
     (case p of (st, s) \<Rightarrow>
       if n = 0 then Some (Inr [], st, s)
       else (let c = ms_rx st
             in map_option
                  (\<lambda>(out, buf, closed, q).
                     (Inr out, st\<lparr>ms_read_buf := buf, ms_read_closed := closed\<rparr>,
                      s\<lparr>mx_channels := (mx_channels s)[c := q]\<rparr>))
                  (read_chan (has_sender c s) n (ms_read_buf st) (ms_read_closed st)
                     (chan_queue c s))))"

record MuxReadHalf =
  mr_rx :: nat
  mr_read_buf :: bytes
  mr_read_closed :: bool

record MuxWriteHalf =
  mw_id :: u64
  mw_write_closed :: bool

definition MuxStream_into_io_halves :: "MuxStream \<Rightarrow> MuxReadHalf \<times> MuxWriteHalf" where
  "MuxStream_into_io_halves st =
     (\<lparr>mr_rx = ms_rx st, mr_read_buf = ms_read_buf st, mr_read_closed = ms_read_closed st\<rparr>,
      \<lparr>mw_id = ms_id st, mw_write_closed = ms_write_closed st\<rparr>)"

definition MuxReadHalf_read ::
  "(MuxReadHalf \<times> MuxSession) read_op" where
  "MuxReadHalf_read n p =
     (case p of (h, s) \<Rightarrow>
       if n = 0 then Some (Inr [], h, s)
       else (let c = mr_rx h
             in map_option
                  (\<lambda>(out, buf, closed, q).
                     (Inr out, h\<lparr>mr_read_buf := buf, mr_read_closed := closed\<rparr>,
                      s\<lparr>mx_channels := (mx_channels s)[c := q]\<rparr>))
                  (read_chan (has_sender c s) n (mr_read_buf h) (mr_read_closed h)
                     (chan_queue c s))))"

definition MuxWriteHalf_close_write_once ::
  "MuxWriteHalf \<Rightarrow> rat \<Rightarrow> MuxSession option \<Rightarrow> MuxWriteHalf \<times> MuxSession option" where
  "MuxWriteHalf_close_write_once h now session =
     (if mw_write_closed h then (h, session)
      else (h\<lparr>mw_write_closed := True\<rparr>,
            map_option (\<lambda>s. drop_stream (mw_id h) (snd (send_frame FRAME_CLOSE (mw_id h) [] now s)))
              session))"

definition MuxWriteHalf_write ::
  "MuxWriteHalf \<Rightarrow> bytes \<Rightarrow> rat \<Rightarrow> MuxSession option \<Rightarrow> usize io_result \<times> MuxSession option" where
  "MuxWriteHalf_write h buf now session =
     (if mw_write_closed h then (Inl (IoError BrokenPipe ''mux stream closed''), session)
      else (case session of
              None \<Rightarrow> (Inl (IoError BrokenPipe ''mux session closed''), None)
            | Some s \<Rightarrow>
                (case send_frame FRAME_DATA (mw_id h) buf now s of
                   (Inl e, s') \<Rightarrow> (Inl e, Some s')
                 | (Inr _, s') \<Rightarrow> (Inr (length buf), Some s'))))"

section \<open>The reader thread and the ping thread\<close>

text \<open>The \<open>match\<close> on the frame kind in \<open>read_loop\<close>.\<close>

definition dispatch :: "mux_frame \<Rightarrow> MuxSession \<Rightarrow> bool \<times> MuxSession" where
  "dispatch frame s1 =
     (case frame of (kind, sid, payload) \<Rightarrow>
        if kind = FRAME_OPEN
        then (case create_stream sid s1 of
                (Inr stream, s2) \<Rightarrow> (True, s2\<lparr>mx_accept := mx_accept s2 @ [stream]\<rparr>)
              | (Inl _, s2) \<Rightarrow> (True, s2))
        else if kind = FRAME_DATA
        then (case hm_get (mx_streams s1) sid of
                Some c \<Rightarrow> (True, chan_send c (Some payload) s1)
              | None \<Rightarrow> (True, s1))
        else if kind = FRAME_CLOSE
        then (case hm_get (mx_streams s1) sid of
                Some c \<Rightarrow> (True, chan_send c None (drop_stream sid s1))
              | None \<Rightarrow> (True, s1))
        else (False, s1))"

text \<open>One iteration of \<open>read_loop\<close> after a frame was read: whether it goes on, and the session.\<close>

definition handle_frame ::
  "u64 \<Rightarrow> rat \<Rightarrow> mux_frame \<Rightarrow> MuxSession \<Rightarrow> bool \<times> MuxSession" where
  "handle_frame now_secs now frame s =
     (case frame of (kind, sid, payload) \<Rightarrow>
       let s0 = s\<lparr>mx_last_activity := now_secs\<rparr>;
           (r, s1) = (if kind = FRAME_DATA
                      then (case record_export (of_nat (length payload)) s0 of
                              (Inl e, t) \<Rightarrow> (Inl e, close_session t)
                            | (Inr u, t) \<Rightarrow>
                                (Inr u, snd (mux_limit_rate (of_nat (length payload)) now t)))
                      else (Inr (), s0))
       in case r of
            Inl e \<Rightarrow> (False, s1)
          | Inr _ \<Rightarrow> dispatch frame s1)"

text \<open>
  \<open>read_loop\<close> over the bytes that arrive until the connection ends.  \<open>alive k\<close> says
  whether the session still exists when frame \<open>k\<close> has been read, \<open>clock k\<close> what the two
  clocks show then.
\<close>

function read_loop ::
  "(nat \<Rightarrow> bool) \<Rightarrow> (nat \<Rightarrow> u64 \<times> rat) \<Rightarrow> nat \<Rightarrow> bytes \<Rightarrow> MuxSession \<Rightarrow> MuxSession" where
  "read_loop alive clock k reader s =
     (case read_frame reader of
        Inl _ \<Rightarrow> close_session s
      | Inr (frame, r) \<Rightarrow>
          if \<not> alive k then s
          else (case handle_frame (fst (clock k)) (snd (clock k)) frame s of
                  (False, s') \<Rightarrow> close_session s'
                | (True, s') \<Rightarrow> read_loop alive clock (Suc k) r s'))"
  by pat_completeness auto
termination
  by (relation "measure (\<lambda>(_, _, _, r, _). length r)") (auto dest: read_frame_shorter)

declare read_loop.simps [simp del]

text \<open>
  \<open>ping_loop\<close> over its ticks, one per five seconds; a tick shows the session of that
  moment and the time.  The result is the number of the tick at which the thread closed
  the session, if it did.
\<close>

definition ping_threshold :: nat where "ping_threshold = 60"

definition ping_idle :: "MuxSession \<times> u64 \<Rightarrow> bool" where
  "ping_idle tick = (\<not> saturating_sub (snd tick) (mx_last_activity (fst tick)) < 5)"

fun ping_loop :: "nat \<Rightarrow> nat \<Rightarrow> (MuxSession \<times> u64) list \<Rightarrow> (nat \<times> MuxSession) option" where
  "ping_loop checktime i [] = None"
| "ping_loop checktime i (tick # ticks) =
     (if mx_closed (fst tick) then None
      else (let checktime' = (if ping_idle tick then checktime + 1 else 0)
            in if ping_threshold < checktime' then Some (i, close_session (fst tick))
               else ping_loop checktime' (Suc i) ticks))"

section \<open>Reading delivers what is queued\<close>

fun chan_data :: "channel \<Rightarrow> bytes" where
  "chan_data [] = []"
| "chan_data (None # q) = []"
| "chan_data (Some b # q) = b @ chan_data q"

definition chan_pending :: "bytes \<Rightarrow> bool \<Rightarrow> channel \<Rightarrow> bytes" where
  "chan_pending buf shut q = buf @ (if shut then [] else chan_data q)"

lemma read_chan_data:
  assumes "0 < n" and "chan_pending buf shut q \<noteq> []"
  shows "\<exists>out buf' q'. read_chan live n buf shut q = Some (out, buf', shut, q')
     \<and> out \<noteq> [] \<and> length out \<le> n
     \<and> chan_pending buf shut q = out @ chan_pending buf' shut q'
     \<and> (None \<in> set q' \<longleftrightarrow> None \<in> set q)"
  using assms
proof (induction live n buf shut q rule: read_chan.induct)
  case (1 live n buf shut q)
  show ?case
  proof (cases "buf = [] \<and> \<not> shut")
    case True
    with "1.prems" obtain b q1 where q: "q = Some b # q1"
      by (cases q rule: chan_data.cases) (auto simp: chan_pending_def)
    with True "1.prems" have "chan_pending b shut q1 \<noteq> []"
      by (auto simp: chan_pending_def)
    from "1.IH" [of "Some b" q1 b] True q "1.prems"(1) this
    show ?thesis
      by (subst read_chan.simps) (auto simp: chan_pending_def)
  next
    case False
    with "1.prems" show ?thesis
      by (subst read_chan.simps) (auto simp: chan_pending_def)
  qed
qed

lemma read_chan_end:
  assumes "chan_pending buf shut q = []" and "shut \<or> None \<in> set q \<or> \<not> live"
  shows "\<exists>q'. read_chan live n buf shut q = Some ([], [], True, q')"
  using assms
proof (induction live n buf shut q rule: read_chan.induct)
  case (1 live n buf shut q)
  show ?case
  proof (cases shut)
    case True
    with "1.prems" show ?thesis
      by (subst read_chan.simps) (auto simp: chan_pending_def)
  next
    case False
    with "1.prems" "1.IH" show ?thesis
      by (cases q rule: chan_data.cases)
        (subst read_chan.simps, auto simp: chan_pending_def)+
  qed
qed

text \<open>
  Nothing more can arrive on a channel that was closed, whose end is queued, or that no
  sender holds.
\<close>

definition stream_pending :: "MuxStream \<times> MuxSession \<Rightarrow> bytes" where
  "stream_pending p =
     (case p of (st, s) \<Rightarrow>
       chan_pending (ms_read_buf st) (ms_read_closed st) (chan_queue (ms_rx st) s))"

definition stream_ended :: "MuxStream \<times> MuxSession \<Rightarrow> bool" where
  "stream_ended p =
     (case p of (st, s) \<Rightarrow>
       ms_read_closed st \<or> None \<in> set (chan_queue (ms_rx st) s) \<or> \<not> has_sender (ms_rx st) s)"

definition half_pending :: "MuxReadHalf \<times> MuxSession \<Rightarrow> bytes" where
  "half_pending p =
     (case p of (h, s) \<Rightarrow>
       chan_pending (mr_read_buf h) (mr_read_closed h) (chan_queue (mr_rx h) s))"

definition half_ended :: "MuxReadHalf \<times> MuxSession \<Rightarrow> bool" where
  "half_ended p =
     (case p of (h, s) \<Rightarrow>
       mr_read_closed h \<or> None \<in> set (chan_queue (mr_rx h) s) \<or> \<not> has_sender (mr_rx h) s)"

lemma read_chan_Nil_queue: "read_chan live n buf shut [] = Some (out, buf', shut', q') \<Longrightarrow> q' = []"
  by (subst (asm) read_chan.simps) (auto split: if_splits)

lemma chan_queue_update:
  assumes "read_chan live n buf shut (chan_queue c s) = Some (out, buf', shut', q')"
  shows "chan_queue c (s\<lparr>mx_channels := (mx_channels s)[c := q']\<rparr>) = q'"
proof (cases "c < length (mx_channels s)")
  case True
  then show ?thesis by (simp add: chan_queue_def)
next
  case False
  then have "chan_queue c s = []" by (simp add: chan_queue_def)
  with assms have "q' = []"
    using read_chan_Nil_queue by metis
  with False show ?thesis by (simp add: chan_queue_def)
qed

lemma has_sender_channels [simp]: "has_sender c (s\<lparr>mx_channels := q\<rparr>) = has_sender c s"
  by (simp add: has_sender_def)

interpretation mux_reader: byte_reader MuxStream_read stream_pending stream_ended
proof
  fix n :: nat and p :: "MuxStream \<times> MuxSession"
  obtain st s where p: "p = (st, s)" by (cases p)
  let ?c = "ms_rx st"
  show "\<exists>out p'. MuxStream_read n p = Some (Inr out, p') \<and> out \<noteq> [] \<and> length out \<le> n
    \<and> stream_pending p = out @ stream_pending p' \<and> stream_ended p' = stream_ended p"
    if "0 < n" "stream_pending p \<noteq> []"
    using that read_chan_data [of n "ms_read_buf st" "ms_read_closed st" "chan_queue ?c s" "has_sender ?c s"]
    by (auto simp: p MuxStream_read_def stream_pending_def stream_ended_def chan_queue_update)
  show "\<exists>p'. MuxStream_read n p = Some (Inr [], p') \<and> stream_pending p' = [] \<and> stream_ended p'"
    if "0 < n" "stream_pending p = []" "stream_ended p"
  proof -
    from that read_chan_end [of "ms_read_buf st" "ms_read_closed st" "chan_queue ?c s" "has_sender ?c s" n]
    obtain q where
      "read_chan (has_sender ?c s) n (ms_read_buf st) (ms_read_closed st) (chan_queue ?c s) = Some ([], [], True, q)"
      by (auto simp: p stream_pending_def stream_ended_def)
    with that(1) show ?thesis
      by (intro exI conjI) (auto simp: p MuxStream_read_def stream_pending_def stream_ended_def chan_pending_def)
  qed
qed

interpretation mux_half: byte_reader MuxReadHalf_read half_pending half_ended
proof
  fix n :: nat and p :: "MuxReadHalf \<times> MuxSession"
  obtain st s where p: "p = (st, s)" by (cases p)
  let ?c = "mr_rx st"
  show "\<exists>out p'. MuxReadHalf_read n p = Some (Inr out, p') \<and> out \<noteq> [] \<and> length out \<le> n
    \<and> half_pending p = out @ half_pending p' \<and> half_ended p' = half_ended p"
    if "0 < n" "half_pending p \<noteq> []"
    using that read_chan_data [of n "mr_read_buf st" "mr_read_closed st" "chan_queue ?c s" "has_sender ?c s"]
    by (auto simp: p MuxReadHalf_read_def half_pending_def half_ended_def chan_queue_update)
  show "\<exists>p'. MuxReadHalf_read n p = Some (Inr [], p') \<and> half_pending p' = [] \<and> half_ended p'"
    if "0 < n" "half_pending p = []" "half_ended p"
  proof -
    from that read_chan_end [of "mr_read_buf st" "mr_read_closed st" "chan_queue ?c s" "has_sender ?c s" n]
    obtain q where
      "read_chan (has_sender ?c s) n (mr_read_buf st) (mr_read_closed st) (chan_queue ?c s) = Some ([], [], True, q)"
      by (auto simp: p half_pending_def half_ended_def)
    with that(1) show ?thesis
      by (intro exI conjI) (auto simp: p MuxReadHalf_read_def half_pending_def half_ended_def chan_pending_def)
  qed
qed

section \<open>The session invariant\<close>

definition mux_ok :: "MuxSession \<Rightarrow> bool" where
  "mux_ok s \<longleftrightarrow> hm_ok (mx_streams s) \<and> distinct (map snd (mx_streams s))
     \<and> (\<forall>c \<in> set (map snd (mx_streams s)). c < length (mx_channels s))
     \<and> (mx_closed s \<longrightarrow> mx_streams s = [])"

lemma snd_update_subset: "snd ` set (AList.update k v m) \<subseteq> insert v (snd ` set m)"
  by (induction m) auto

lemma distinct_snd_update:
  "distinct (map snd m) \<Longrightarrow> v \<notin> snd ` set m \<Longrightarrow> distinct (map snd (AList.update k v m))"
proof (induction m)
  case (Cons x m)
  then have "snd x \<notin> snd ` set (AList.update k v m)"
    using snd_update_subset [of k v m] by auto
  with Cons show ?case by (cases x) auto
qed simp

lemma distinct_snd_delete: "distinct (map snd m) \<Longrightarrow> distinct (map snd (AList.delete k m))"
  by (simp add: AList.delete_eq distinct_map_filter)

lemma mux_ok_new [inv_intros]: "mux_ok (MuxSession_new policy secs now)"
  by (simp add: mux_ok_def MuxSession_new_def)

lemma mux_ok_frame [simp]:
  "mux_ok (s\<lparr>mx_written := w\<rparr>) = mux_ok s"
  "mux_ok (s\<lparr>mx_accept := a\<rparr>) = mux_ok s"
  "mux_ok (s\<lparr>mx_last_activity := l\<rparr>) = mux_ok s"
  "mux_ok (s\<lparr>mx_traffic := t\<rparr>) = mux_ok s"
  by (simp_all add: mux_ok_def)

lemma mux_ok_chan_send [inv_intros]: "mux_ok s \<Longrightarrow> mux_ok (chan_send c m s)"
  by (simp add: mux_ok_def chan_send_def)

lemma mux_ok_drop_stream [inv_intros]: "mux_ok s \<Longrightarrow> mux_ok (drop_stream sid s)"
  using distinct_snd_delete [of "mx_streams s" sid] hm_ok_remove [of "mx_streams s" sid]
  by (auto simp: mux_ok_def drop_stream_def AList.delete_eq)

lemma mux_ok_create_stream [inv_intros]: "mux_ok s \<Longrightarrow> mux_ok (snd (create_stream sid s))"
proof (cases "mx_closed s")
  case False
  assume ok: "mux_ok s"
  let ?c = "length (mx_channels s)"
  have fresh: "?c \<notin> snd ` set (mx_streams s)"
    using ok by (auto simp: mux_ok_def)
  have "\<forall>x \<in> set (hm_insert sid ?c (mx_streams s)). snd x < Suc ?c"
    using ok snd_update_subset [of sid ?c "mx_streams s"] by (fastforce simp: mux_ok_def)
  with ok fresh False show ?thesis
    by (simp add: mux_ok_def create_stream_def Let_def hm_ok_insert distinct_snd_update)
qed (simp add: create_stream_def)

lemma fold_chan_send_fields [simp]:
  "mx_streams (fold (\<lambda>(_, c) t. chan_send c m t) xs s) = mx_streams s"
  "mx_closed (fold (\<lambda>(_, c) t. chan_send c m t) xs s) = mx_closed s"
  "mx_accept (fold (\<lambda>(_, c) t. chan_send c m t) xs s) = mx_accept s"
  "length (mx_channels (fold (\<lambda>(_, c) t. chan_send c m t) xs s)) = length (mx_channels s)"
  by (induction xs arbitrary: s) (auto simp: chan_send_def)

lemma mux_ok_close_session [inv_intros]: "mux_ok s \<Longrightarrow> mux_ok (close_session s)"
  by (simp add: mux_ok_def close_session_def)

lemma mux_limit_rate_fields [simp]:
  "mx_streams (snd (mux_limit_rate n now s)) = mx_streams s"
  "mx_channels (snd (mux_limit_rate n now s)) = mx_channels s"
  "mx_closed (snd (mux_limit_rate n now s)) = mx_closed s"
  "mx_accept (snd (mux_limit_rate n now s)) = mx_accept s"
  "mx_written (snd (mux_limit_rate n now s)) = mx_written s"
  by (auto simp: mux_limit_rate_def split: option.splits prod.splits)

lemma mux_ok_limit_rate [inv_intros]: "mux_ok s \<Longrightarrow> mux_ok (snd (mux_limit_rate n now s))"
  by (simp add: mux_ok_def)

lemma record_fields [simp]:
  "mx_streams (snd (record_export n s)) = mx_streams s"
  "mx_channels (snd (record_export n s)) = mx_channels s"
  "mx_closed (snd (record_export n s)) = mx_closed s"
  "mx_accept (snd (record_export n s)) = mx_accept s"
  "mx_streams (snd (record_inlet n s)) = mx_streams s"
  "mx_channels (snd (record_inlet n s)) = mx_channels s"
  "mx_closed (snd (record_inlet n s)) = mx_closed s"
  "mx_written (snd (record_inlet n s)) = mx_written s"
  by (auto simp: record_export_def record_inlet_def split: prod.splits)

lemma mux_ok_record [inv_intros]:
  "mux_ok s \<Longrightarrow> mux_ok (snd (record_export n s))" "mux_ok s \<Longrightarrow> mux_ok (snd (record_inlet n s))"
  by (auto simp: record_export_def record_inlet_def split: prod.splits)

section \<open>Demultiplexing\<close>

lemma create_stream_open:
  "\<not> mx_closed s \<Longrightarrow> create_stream sid s =
     (Inr \<lparr>ms_id = sid, ms_rx = length (mx_channels s), ms_read_buf = [], ms_read_closed = False,
           ms_write_closed = False\<rparr>,
      s\<lparr>mx_channels := mx_channels s @ [[]],
        mx_streams := hm_insert sid (length (mx_channels s)) (mx_streams s)\<rparr>)"
  by (simp add: create_stream_def Let_def)

lemma mux_ok_inj:
  assumes "mux_ok s" "hm_get (mx_streams s) a = Some c" "hm_get (mx_streams s) b = Some c"
  shows "a = b"
proof -
  have "(a, c) \<in> set (mx_streams s)" "(b, c) \<in> set (mx_streams s)"
    using assms by (auto dest: map_of_SomeD)
  with assms(1) show ?thesis
    by (fastforce simp: mux_ok_def distinct_map inj_on_def)
qed

lemma mux_ok_range: "mux_ok s \<Longrightarrow> hm_get (mx_streams s) a = Some c \<Longrightarrow> c < length (mx_channels s)"
  by (force simp: mux_ok_def dest: map_of_SomeD)

lemma mux_ok_not_closed: "mux_ok s \<Longrightarrow> hm_get (mx_streams s) a = Some c \<Longrightarrow> \<not> mx_closed s"
  by (auto simp: mux_ok_def)

text \<open>
  What the traffic checks in front of the dispatch leave of the session: everything but
  the traffic state and the time.
\<close>

definition same_streams :: "MuxSession \<Rightarrow> MuxSession \<Rightarrow> bool" where
  "same_streams s t \<longleftrightarrow> mx_streams t = mx_streams s \<and> mx_channels t = mx_channels s
     \<and> mx_closed t = mx_closed s \<and> mx_accept t = mx_accept s"

lemma handle_frame_cases:
  obtains (refused) t where "fst frame = FRAME_DATA" "same_streams s t"
      "handle_frame secs now frame s = (False, close_session t)"
  | (taken) t where "same_streams s t" "handle_frame secs now frame s = dispatch frame t"
proof (cases frame)
  case (fields kind sid payload)
  let ?s0 = "s\<lparr>mx_last_activity := secs\<rparr>"
  let ?n = "of_nat (length payload) :: u64"
  show ?thesis
  proof (cases "kind = FRAME_DATA")
    case False
    then show ?thesis
      by (intro taken [of ?s0]) (auto simp: same_streams_def handle_frame_def fields Let_def)
  next
    case True
    obtain r t where rt: "record_export ?n ?s0 = (r, t)"
      by (cases "record_export ?n ?s0")
    then have same: "same_streams s t"
      using record_fields(1-4) [of ?n ?s0] by (simp add: same_streams_def)
    show ?thesis
    proof (cases r)
      case (Inl e)
      with True rt same show ?thesis
        by (intro refused [of t]) (auto simp: handle_frame_def fields Let_def)
    next
      case (Inr u)
      let ?t = "snd (mux_limit_rate ?n now t)"
      have "same_streams s ?t"
        using same by (simp add: same_streams_def)
      with Inr True rt show ?thesis
        by (intro taken [of ?t])
          (auto simp: handle_frame_def fields Let_def)
    qed
  qed
qed

lemma mux_ok_same: "same_streams s t \<Longrightarrow> mux_ok t = mux_ok s"
  by (simp add: same_streams_def mux_ok_def)

lemma mux_ok_dispatch: "mux_ok s \<Longrightarrow> mux_ok (snd (dispatch frame s))"
  using mux_ok_create_stream [of s]
  by (cases frame)
    (force simp: dispatch_def create_stream_def Let_def inv_intros split: option.splits)

lemma mux_ok_handle_frame [inv_intros]: "mux_ok s \<Longrightarrow> mux_ok (snd (handle_frame secs now frame s))"
  by (rule handle_frame_cases [of frame s secs now])
    (auto simp: mux_ok_same inv_intros mux_ok_dispatch)

text \<open>The payloads for stream \<open>sid\<close> in a sequence of frames, and the frames that leave it open.\<close>

definition data_for :: "u64 \<Rightarrow> mux_frame list \<Rightarrow> bytes list" where
  "data_for sid fs = [p. (kind, i, p) \<leftarrow> fs, kind = FRAME_DATA \<and> i = sid]"

definition keeps_open :: "u64 \<Rightarrow> mux_frame list \<Rightarrow> bool" where
  "keeps_open sid fs = list_all (\<lambda>(kind, i, _). i = sid \<longrightarrow> kind = FRAME_DATA) fs"

lemmas frame_kinds = FRAME_OPEN_def FRAME_DATA_def FRAME_CLOSE_def

lemma chan_send_queue:
  "c < length (mx_channels s) \<Longrightarrow>
   chan_queue d (chan_send c m s) = chan_queue d s @ (if d = c then [m] else [])"
  by (simp add: chan_queue_def chan_send_def nth_list_update)

lemma chan_send_fields [simp]:
  "mx_streams (chan_send c m s) = mx_streams s" "mx_accept (chan_send c m s) = mx_accept s"
  "mx_closed (chan_send c m s) = mx_closed s"
  "length (mx_channels (chan_send c m s)) = length (mx_channels s)"
  by (simp_all add: chan_send_def)

lemma drop_stream_fields [simp]:
  "mx_streams (drop_stream sid s) = hm_remove sid (mx_streams s)"
  "mx_accept (drop_stream sid s) = mx_accept s" "mx_channels (drop_stream sid s) = mx_channels s"
  "mx_closed (drop_stream sid s) = mx_closed s" "chan_queue c (drop_stream sid s) = chan_queue c s"
  by (simp_all add: drop_stream_def chan_queue_def)

definition tracks :: "u64 \<Rightarrow> nat \<Rightarrow> MuxSession \<Rightarrow> bool" where
  "tracks sid c s \<longleftrightarrow> mux_ok s \<and> hm_get (mx_streams s) sid = Some c"

lemma dispatch_tracks:
  assumes tr: "tracks sid c s" and d: "dispatch frame s = (True, s')" and k: "keeps_open sid [frame]"
  shows "tracks sid c s' \<and> chan_queue c s' = chan_queue c s @ map Some (data_for sid [frame])
           \<and> (\<exists>a. mx_accept s' = mx_accept s @ a)"
proof -
  obtain kind i payload where f: "frame = (kind, i, payload)" by (cases frame)
  have ok: "mux_ok s" and get: "hm_get (mx_streams s) sid = Some c"
    using tr by (auto simp: tracks_def)
  have c: "c < length (mx_channels s)" and op: "\<not> mx_closed s"
    using mux_ok_range mux_ok_not_closed ok get by blast+
  have ok': "mux_ok s'"
    using mux_ok_dispatch [OF ok, of frame] d by simp
  have other: "c' \<noteq> c \<and> c' < length (mx_channels s)"
    if "hm_get (mx_streams s) i = Some c'" "i \<noteq> sid" for c'
    using that ok get mux_ok_inj mux_ok_range by blast
  consider "kind = FRAME_OPEN" "i \<noteq> sid" | "kind = FRAME_DATA" | "kind = FRAME_CLOSE" "i \<noteq> sid"
    using d k by (auto simp: dispatch_def f keeps_open_def split: if_splits)
  then show ?thesis
  proof cases
    case 1
    then show ?thesis
      using d op c ok' get
      by (auto simp: dispatch_def f frame_kinds create_stream_open tracks_def data_for_def
          chan_queue_def nth_append hm_simps)
  next
    case 2
    then show ?thesis
      using d ok' get other c
      by (cases "i = sid")
        (auto simp: dispatch_def f frame_kinds tracks_def data_for_def chan_send_queue split: option.splits)
  next
    case 3
    then show ?thesis
      using d ok' get other c
      by (auto simp: dispatch_def f frame_kinds tracks_def data_for_def chan_send_queue hm_simps
          split: option.splits)
  qed
qed

lemma handle_frame_tracks:
  assumes tr: "tracks sid c s" and d: "handle_frame secs now frame s = (True, s')"
    and k: "keeps_open sid [frame]"
  shows "tracks sid c s' \<and> chan_queue c s' = chan_queue c s @ map Some (data_for sid [frame])
           \<and> (\<exists>a. mx_accept s' = mx_accept s @ a)"
proof (rule handle_frame_cases [of frame s secs now])
  fix t
  assume same: "same_streams s t" and "handle_frame secs now frame s = dispatch frame t"
  with d have "dispatch frame t = (True, s')" by simp
  moreover have "tracks sid c t" "chan_queue c t = chan_queue c s" "mx_accept t = mx_accept s"
    using tr same mux_ok_same [OF same] by (auto simp: tracks_def same_streams_def chan_queue_def)
  ultimately show ?thesis
    using dispatch_tracks [of sid c t frame s'] k by simp
qed (use d in simp)

text \<open>The frames of a connection handled one after the other, from frame number \<open>k\<close> on.\<close>

fun handle_frames ::
  "(nat \<Rightarrow> u64 \<times> rat) \<Rightarrow> nat \<Rightarrow> mux_frame list \<Rightarrow> MuxSession \<Rightarrow> bool \<times> MuxSession" where
  "handle_frames clock k [] s = (True, s)"
| "handle_frames clock k (f # fs) s =
     (case handle_frame (fst (clock k)) (snd (clock k)) f s of
        (False, s') \<Rightarrow> (False, s')
      | (True, s') \<Rightarrow> handle_frames clock (Suc k) fs s')"

definition frame_fits :: "mux_frame \<Rightarrow> bool" where
  "frame_fits f = (length (snd (snd f)) \<le> MAX_FRAME)"

definition wire :: "mux_frame list \<Rightarrow> bytes" where
  "wire fs = concat (map (\<lambda>(kind, sid, payload). encode_frame kind sid payload) fs)"

lemma wire_simps [simp]:
  "wire [] = []" "wire ((kind, sid, payload) # fs) = encode_frame kind sid payload @ wire fs"
  "wire (fs @ gs) = wire fs @ wire gs"
  by (simp_all add: wire_def)

lemma read_frame_Nil [simp]: "read_frame [] = Inl (IoError UnexpectedEof ''failed to fill whole buffer'')"
  by (simp add: read_frame_def read_exact_def HEADER_LEN_def)

lemma read_loop_wire:
  assumes "list_all frame_fits fs"
  shows "read_loop (\<lambda>_. True) clock k (wire fs) s = close_session (snd (handle_frames clock k fs s))"
  using assms
proof (induction fs arbitrary: k s)
  case Nil
  then show ?case by (subst read_loop.simps) simp
next
  case (Cons f fs)
  obtain kind sid payload where f: "f = (kind, sid, payload)" by (cases f)
  with Cons.prems have "read_frame (wire (f # fs)) = Inr (f, wire fs)"
    by (simp add: read_frame_encode frame_fits_def)
  with Cons.IH Cons.prems show ?case
    by (subst read_loop.simps) (auto split: prod.splits bool.splits)
qed

lemma handle_frames_tracks:
  assumes "tracks sid c s" "handle_frames clock k fs s = (True, s')" "keeps_open sid fs"
  shows "tracks sid c s' \<and> chan_queue c s' = chan_queue c s @ map Some (data_for sid fs)
           \<and> (\<exists>a. mx_accept s' = mx_accept s @ a)"
  using assms
proof (induction fs arbitrary: k s)
  case Nil
  then show ?case by (simp add: data_for_def)
next
  case (Cons f fs)
  then obtain t where t: "handle_frame (fst (clock k)) (snd (clock k)) f s = (True, t)"
    "handle_frames clock (Suc k) fs t = (True, s')"
    by (auto split: prod.splits bool.splits)
  have k: "keeps_open sid [f]" "keeps_open sid fs"
    using Cons.prems(3) by (auto simp: keeps_open_def)
  have "data_for sid (f # fs) = data_for sid [f] @ data_for sid fs"
    by (simp add: data_for_def)
  with handle_frame_tracks [OF Cons.prems(1) t(1) k(1)] Cons.IH [OF _ t(2) k(2)]
  show ?case by auto
qed

lemma fold_close_queue:
  assumes "distinct (map snd xs)" "\<forall>d \<in> set (map snd xs). d < length (mx_channels s)"
  shows "chan_queue c (fold (\<lambda>(_, c) t. chan_send c None t) xs s) =
           chan_queue c s @ (if c \<in> set (map snd xs) then [None] else [])"
  using assms by (induction xs arbitrary: s) (force simp: chan_send_queue)+

lemma close_session_queue:
  assumes "mux_ok s" "\<not> mx_closed s"
  shows "chan_queue c (close_session s) = chan_queue c s @ (if has_sender c s then [None] else [])"
proof -
  let ?s = "s\<lparr>mx_closed := True, mx_streams := []\<rparr>"
  have "chan_queue c ?s = chan_queue c s" by (simp add: chan_queue_def)
  with fold_close_queue [of "mx_streams s" ?s c] assms show ?thesis
    by (simp add: close_session_def has_sender_def mux_ok_def)
qed

lemma close_session_accept [simp]: "mx_accept (close_session s) = mx_accept s"
  by (simp add: close_session_def)

lemma chan_data_Some: "chan_data (map Some bs @ None # q) = concat bs"
  by (induction bs) auto

text \<open>
  A stream opened by the first frame of a connection is accepted, and reading it yields
  the data frames that carry its id, in order, and then the end; whatever the other
  streams of the connection do.
\<close>

lemma demux_delivers:
  assumes ok: "mux_ok s" "\<not> mx_closed s"
    and fs: "list_all frame_fits fs" "keeps_open sid fs"
    and run: "handle_frames clock k ((FRAME_OPEN, sid, []) # fs) s = (True, s')"
  shows "\<exists>st. st \<in> set (mx_accept (read_loop (\<lambda>_. True) clock k (wire ((FRAME_OPEN, sid, []) # fs)) s))
     \<and> ms_id st = sid
     \<and> stream_pending (st, read_loop (\<lambda>_. True) clock k (wire ((FRAME_OPEN, sid, []) # fs)) s)
         = concat (data_for sid fs)
     \<and> stream_ended (st, read_loop (\<lambda>_. True) clock k (wire ((FRAME_OPEN, sid, []) # fs)) s)"
proof -
  let ?o = "(FRAME_OPEN, sid, []) :: mux_frame" and ?c = "length (mx_channels s)"
  define st where "st = \<lparr>ms_id = sid, ms_rx = ?c, ms_read_buf = [], ms_read_closed = False,
                        ms_write_closed = False\<rparr>"
  define t where "t = snd (handle_frame (fst (clock k)) (snd (clock k)) ?o s)"
  have t: "handle_frame (fst (clock k)) (snd (clock k)) ?o s = (True, t)" "tracks sid ?c t"
    "chan_queue ?c t = []" "mx_accept t = mx_accept s @ [st]"
    using ok mux_ok_handle_frame [OF ok(1), of "fst (clock k)" "snd (clock k)" ?o]
    by (auto simp: t_def tracks_def handle_frame_def dispatch_def frame_kinds create_stream_open
        chan_queue_def st_def hm_simps)
  then have "handle_frames clock (Suc k) fs t = (True, s')"
    using run by simp
  from handle_frames_tracks [OF t(2) this fs(2)] t(3,4) have s': "tracks sid ?c s'"
    "chan_queue ?c s' = map Some (data_for sid fs)" "\<exists>a. mx_accept s' = mx_accept s @ [st] @ a"
    by auto
  have loop: "read_loop (\<lambda>_. True) clock k (wire (?o # fs)) s = close_session s'"
    using read_loop_wire [of "?o # fs" clock k s] fs run by (simp add: frame_fits_def)
  have "has_sender ?c s'" "mux_ok s'" "\<not> mx_closed s'"
    using s'(1) mux_ok_not_closed by (force simp: tracks_def has_sender_def dest: map_of_SomeD)+
  then have q: "chan_queue ?c (close_session s') = map Some (data_for sid fs) @ [None]"
    using close_session_queue [of s' ?c] s'(2) by simp
  have "st \<in> set (mx_accept (close_session s'))"
    using s'(3) by auto
  with q loop show ?thesis
    by (intro exI [of _ st])
      (simp add: st_def stream_pending_def stream_ended_def chan_pending_def chan_data_Some)
qed

section \<open>The sending side\<close>

fun send_frames :: "rat \<Rightarrow> mux_frame list \<Rightarrow> MuxSession \<Rightarrow> unit io_result \<times> MuxSession" where
  "send_frames now [] s = (Inr (), s)"
| "send_frames now ((kind, sid, payload) # fs) s =
     (case send_frame kind sid payload now s of
        (Inl e, s') \<Rightarrow> (Inl e, s')
      | (Inr _, s') \<Rightarrow> send_frames now fs s')"

lemma send_frame_ok:
  assumes "send_frame kind sid payload now s = (Inr (), s')"
  shows "mx_written s' = mx_written s @ encode_frame kind sid payload \<and> length payload \<le> MAX_FRAME"
proof -
  obtain r t where rt: "record_inlet (of_nat (length payload)) s = (r, t)"
    by (cases "record_inlet (of_nat (length payload)) s")
  then have "mx_written t = mx_written s"
    using record_fields(8) [of "of_nat (length payload)" s] by simp
  with assms rt show ?thesis
    by (auto simp: send_frame_def Let_def not_less split: if_splits sum.splits)
qed

lemma send_frame_error:
  assumes "send_frame kind sid payload now s = (Inl e, s')"
  shows "mx_written s' = mx_written s"
proof -
  obtain r t where rt: "record_inlet (of_nat (length payload)) s = (r, t)"
    by (cases "record_inlet (of_nat (length payload)) s")
  then have "mx_written t = mx_written s"
    using record_fields(8) [of "of_nat (length payload)" s] by simp
  with assms rt show ?thesis
    by (auto simp: send_frame_def Let_def not_less split: if_splits sum.splits)
qed

lemma send_frames_wire:
  "send_frames now fs s = (Inr (), s') \<Longrightarrow>
   mx_written s' = mx_written s @ wire fs \<and> list_all frame_fits fs"
proof (induction now fs s rule: send_frames.induct)
  case (2 now kind sid payload fs s)
  from "2.prems" obtain t where t: "send_frame kind sid payload now s = (Inr (), t)"
    "send_frames now fs t = (Inr (), s')"
    by (auto split: prod.splits sum.splits)
  with "2.IH" [OF t(1) [symmetric]] send_frame_ok [OF t(1)] show ?case
    by (auto simp: frame_fits_def)
qed simp

text \<open>A session that is not metered sends every frame that fits.\<close>

lemma send_frame_unmetered:
  "mx_traffic s = None \<Longrightarrow> length payload \<le> MAX_FRAME \<Longrightarrow>
   send_frame kind sid payload now s =
     (Inr (), s\<lparr>mx_written := mx_written s @ encode_frame kind sid payload\<rparr>)"
  by (simp add: send_frame_def record_inlet_def mux_record_flow_def mux_limit_rate_def Let_def)

function wire_frames :: "bytes \<Rightarrow> mux_frame list" where
  "wire_frames b = (case read_frame b of Inl _ \<Rightarrow> [] | Inr (f, r) \<Rightarrow> f # wire_frames r)"
  by pat_completeness auto
termination
  by (relation "measure length") (auto dest: read_frame_shorter)

declare wire_frames.simps [simp del]

lemma wire_frames_wire: "list_all frame_fits fs \<Longrightarrow> wire_frames (wire fs) = fs"
proof (induction fs)
  case Nil
  then show ?case by (subst wire_frames.simps) simp
next
  case (Cons f fs)
  obtain kind sid payload where "f = (kind, sid, payload)" by (cases f)
  with Cons show ?case
    by (subst wire_frames.simps) (simp add: read_frame_encode frame_fits_def)
qed

text \<open>The write half of a stream as a sink: its contents are the data frames it sent.\<close>

definition half_write :: "rat \<Rightarrow> (MuxWriteHalf \<times> MuxSession option) write_op" where
  "half_write now b p =
     (case p of (h, session) \<Rightarrow>
       (case MuxWriteHalf_write h b now session of
          (Inl e, session') \<Rightarrow> (Inl e, h, session')
        | (Inr _, session') \<Rightarrow> (Inr (), h, session')))"

definition half_shut :: "rat \<Rightarrow> MuxWriteHalf \<times> MuxSession option \<Rightarrow> MuxWriteHalf \<times> MuxSession option" where
  "half_shut now p = (case p of (h, session) \<Rightarrow> MuxWriteHalf_close_write_once h now session)"

definition half_contents :: "MuxWriteHalf \<times> MuxSession option \<Rightarrow> bytes" where
  "half_contents p =
     (case p of (h, session) \<Rightarrow>
       (case session of
          None \<Rightarrow> []
        | Some s \<Rightarrow> concat (data_for (mw_id h) (wire_frames (mx_written s)))))"

definition half_ok :: "MuxWriteHalf \<times> MuxSession option \<Rightarrow> bool" where
  "half_ok p \<longleftrightarrow>
     \<not> mw_write_closed (fst p) \<and>
     (\<exists>s fs. snd p = Some s \<and> mx_traffic s = None \<and> list_all frame_fits fs \<and> mx_written s = wire fs)"

interpretation mux_sink: byte_sink "half_write now" half_contents half_ok for now
proof
  fix w :: "MuxWriteHalf \<times> MuxSession option" and b :: bytes
  assume ok: "half_ok w" and b: "length b \<le> COPY_BUF"
  obtain h s fs where w: "w = (h, Some s)" "\<not> mw_write_closed h" "mx_traffic s = None"
    "list_all frame_fits fs" "mx_written s = wire fs"
    using ok by (cases w) (auto simp: half_ok_def)
  let ?fs = "fs @ [(FRAME_DATA, mw_id h, b)]"
  let ?s = "s\<lparr>mx_written := wire ?fs\<rparr>"
  have fits: "length b \<le> MAX_FRAME" "list_all frame_fits ?fs"
    using b w(4) by (auto simp: COPY_BUF_def MAX_FRAME_def frame_fits_def)
  have "half_write now b w = (Inr (), h, Some ?s)"
    using w fits(1) by (simp add: half_write_def MuxWriteHalf_write_def send_frame_unmetered)
  moreover have "half_ok (h, Some ?s)"
    unfolding half_ok_def using w(2,3) fits(2) by (intro conjI exI [of _ ?s] exI [of _ ?fs]) simp_all
  moreover have "half_contents (h, Some ?s) = half_contents w @ b"
    using w wire_frames_wire [OF fits(2)]
    by (simp add: half_contents_def wire_frames_wire data_for_def)
  ultimately show "\<exists>w'. half_write now b w = (Inr (), w') \<and> half_ok w' \<and> half_contents w' = half_contents w @ b"
    by blast
qed

interpretation mux_relay: relay_pair MuxReadHalf_read half_pending half_ended "half_write now" half_contents half_ok
  for now ..

section \<open>The ping thread\<close>

text \<open>
  The ping thread closes a session exactly when 61 ticks in a row found it idle; the tick
  it happens at is the last of the first such run.
\<close>

definition idle_run :: "nat \<Rightarrow> (MuxSession \<times> u64) list \<Rightarrow> nat \<Rightarrow> bool" where
  "idle_run n ticks i \<longleftrightarrow> i + n \<le> length ticks \<and> (\<forall>j < n. ping_idle (ticks ! (i + j)))"

lemma ping_loop_closed: "ping_loop k i ticks = Some (j, s) \<Longrightarrow> mx_closed s"
  by (induction k i ticks rule: ping_loop.induct)
    (auto simp: Let_def close_session_def split: if_splits)

text \<open>
  With \<open>k\<close> idle ticks already counted, the loop fires iff the rest starts with
  \<open>61 - k\<close> idle ticks or has a run of 61 idle ticks.
\<close>

lemma idle_run_Cons: "idle_run n (t # ts) (Suc i) = idle_run n ts i"
  by (simp add: idle_run_def)

lemma idle_run_0: "idle_run (Suc n) (t # ts) 0 \<longleftrightarrow> ping_idle t \<and> idle_run n ts 0"
  by (auto simp: idle_run_def less_Suc_eq_0_disj)

lemma idle_run_mono: "idle_run n ts i \<Longrightarrow> m \<le> n \<Longrightarrow> idle_run m ts i"
  by (auto simp: idle_run_def)

lemma ping_loop_fires:
  assumes "list_all (\<lambda>t. \<not> mx_closed (fst t)) ticks" "k \<le> ping_threshold"
  shows "ping_loop k i ticks \<noteq> None \<longleftrightarrow>
     idle_run (Suc ping_threshold - k) ticks 0 \<or> (\<exists>j. idle_run (Suc ping_threshold) ticks j)"
  using assms
proof (induction k i ticks rule: ping_loop.induct)
  case (1 k i)
  then show ?case by (simp add: idle_run_def)
next
  case (2 k i t ts)
  let ?n = "Suc ping_threshold"
  have ex: "(\<exists>j. idle_run ?n (t # ts) j) \<longleftrightarrow> idle_run ?n (t # ts) 0 \<or> (\<exists>j. idle_run ?n ts j)"
    by (metis idle_run_Cons not0_implies_Suc)
  have n: "?n - k = Suc (ping_threshold - k)"
    using "2.prems" by simp
  show ?case
  proof (cases "ping_idle t")
    case False
    then have "idle_run (ping_threshold) ts 0 \<or> \<not> idle_run ?n ts 0"
      using idle_run_mono [of ?n ts 0 ping_threshold] by auto
    with False 2 ex n show ?thesis
      by (auto simp: Let_def idle_run_0)
  next
    case True
    show ?thesis
    proof (cases "ping_threshold < k + 1")
      case True
      with \<open>ping_idle t\<close> 2 n show ?thesis
        by (auto simp: Let_def idle_run_0 idle_run_def)
    next
      case le: False
      have "idle_run ?n (t # ts) 0 \<Longrightarrow> idle_run (ping_threshold - k) ts 0"
        using idle_run_mono [of ping_threshold ts 0 "ping_threshold - k"] by (simp add: idle_run_0)
      with le \<open>ping_idle t\<close> 2 ex n show ?thesis
        by (auto simp: Let_def idle_run_0)
    qed
  qed
qed

section \<open>Properties\<close>

definition known_kind :: "mux_frame \<Rightarrow> bool" where
  "known_kind f = (fst f \<in> {FRAME_OPEN, FRAME_DATA, FRAME_CLOSE})"

lemma chan_send_traffic [simp]: "mx_traffic (chan_send c m s) = mx_traffic s"
  by (simp add: chan_send_def)

lemma handle_frame_unmetered:
  assumes "mx_traffic s = None" "known_kind f"
  shows "\<exists>s'. handle_frame secs now f s = (True, s') \<and> mx_traffic s' = None"
  using assms
  by (cases f; cases "mx_closed s")
    (auto simp: handle_frame_def dispatch_def known_kind_def frame_kinds record_export_def
      mux_record_flow_def mux_limit_rate_def create_stream_def Let_def drop_stream_def
      split: option.splits)

lemma handle_frames_unmetered:
  "mx_traffic s = None \<Longrightarrow> list_all known_kind fs \<Longrightarrow> \<exists>s'. handle_frames clock k fs s = (True, s')"
proof (induction fs arbitrary: k s)
  case (Cons f fs)
  then obtain s' where "handle_frame (fst (clock k)) (snd (clock k)) f s = (True, s')" "mx_traffic s' = None"
    using handle_frame_unmetered [of s f "fst (clock k)" "snd (clock k)"] by auto
  with Cons show ?case by simp
qed simp


definition demo_frames :: "mux_frame list" where
  "demo_frames = [(FRAME_DATA, 1, [10, 11]), (FRAME_OPEN, 7, []), (FRAME_DATA, 7, [99]),
                  (FRAME_DATA, 1, [12]), (FRAME_CLOSE, 7, [])]"




text \<open>
  The ping thread closes an open session exactly when it found the session idle (no
  frame read for five seconds or more) at 61 consecutive ticks.
\<close>

lemma ping_timeout_iff:
  assumes "list_all (\<lambda>t. \<not> mx_closed (fst t)) ticks"
  shows "(\<exists>i s. ping_loop 0 0 ticks = Some (i, s) \<and> mx_closed s) \<longleftrightarrow>
         (\<exists>j. j + 61 \<le> length ticks \<and> (\<forall>m < 61. ping_idle (ticks ! (j + m))))"
proof -
  have "(\<exists>i s. ping_loop 0 0 ticks = Some (i, s) \<and> mx_closed s) \<longleftrightarrow> ping_loop 0 0 ticks \<noteq> None"
    using ping_loop_closed by fastforce
  also have "\<dots> \<longleftrightarrow> (\<exists>j. idle_run (Suc ping_threshold) ticks j)"
    using ping_loop_fires [OF assms, of 0 0] by auto
  finally show ?thesis by (simp add: idle_run_def ping_threshold_def)
qed

text \<open>
  C36: The traffic of a metered session never exceeds its limit, whatever the streams that
  share the flow counter transfer: every accounting call keeps the total within the limit,
  and a refused call changes nothing.
\<close>

theorem mux_flow_limit:
  assumes "flow_total (mt_flow_counter t) \<le> mt_flow_limit_bytes t" "0 < mt_flow_limit_bytes t"
  shows "\<exists>t'. record_run mux_record_flow (Some t) rs = Some t'
     \<and> mt_flow_limit_bytes t' = mt_flow_limit_bytes t
     \<and> flow_total (mt_flow_counter t') \<le> mt_flow_limit_bytes t"
proof -
  let ?u = "record_run mux_record_flow (Some t) rs"
  have lim: "mux_limit_bytes ?u = mt_flow_limit_bytes t"
    using mux_meter.run_limit [of "Some t" rs] by (simp add: mux_limit_bytes_def)
  with assms(2) obtain t' where "?u = Some t'"
    by (cases ?u) (auto simp: mux_limit_bytes_def)
  moreover have "mux_meter.in_budget ?u"
    by (rule mux_meter.run_in_budget) (use assms in \<open>simp add: mux_meter.in_budget_def mux_limit_bytes_def\<close>)
  ultimately show ?thesis
    using lim assms(2) by (auto simp: mux_meter.in_budget_def mux_limit_bytes_def)
qed

theorem mux_flow_limit_witness:
  "\<exists>t'. record_run mux_record_flow
      (Some \<lparr>mt_limiter = None, mt_flow_counter = FlowCounter_default, mt_flow_limit_bytes = 100\<rparr>)
      [(60, 0), (0, 60), (40, 0)] = Some t' \<and> flow_total (mt_flow_counter t') \<le> 100"
  using mux_flow_limit [of "\<lparr>mt_limiter = None, mt_flow_counter = FlowCounter_default, mt_flow_limit_bytes = 100\<rparr>"
      "[(60, 0), (0, 60), (40, 0)]"]
  by (auto simp: FlowCounter_default_def flow_total_def)

end
