(* ===== verification/Config.thy ===== *)
theory Config
  imports Model
begin

text \<open>
  The configuration files of \<open>src/config.rs\<close>: the key/value and INI parsers, the typed
  accessors, the loaders of \<open>nps.conf\<close> and \<open>npc.conf\<close>, and the expansion of port and
  target lists.  The text of the file and the environment are arguments: \<open>raw\<close> is the
  outcome of \<open>fs::read_to_string\<close>, \<open>env\<close> that of \<open>env::var\<close>.
\<close>

type_synonym SectionMap = "(string \<times> string) list"

section \<open>Lines\<close>

definition strip_comment :: "string \<Rightarrow> string" where
  "strip_comment line =
     (case (find_char (CHR ''#'') line, find_char (CHR '';'') line) of
        (Some a, Some b) \<Rightarrow> take (min a b) line
      | (Some a, None) \<Rightarrow> take a line
      | (None, Some b) \<Rightarrow> take b line
      | (None, None) \<Rightarrow> line)"

definition parse_kv_line :: "string \<Rightarrow> (string \<times> string) option" where
  "parse_kv_line line =
     (case split_once (CHR ''='') (strip_comment line) of
        None \<Rightarrow> None
      | Some (k, v) \<Rightarrow>
          let key = trim k in if key = [] then None else Some (key, trim v))"

definition parse_plain_kv :: "string \<Rightarrow> SectionMap" where
  "parse_plain_kv raw =
     fold (\<lambda>line m. case parse_kv_line line of None \<Rightarrow> m | Some (k, v) \<Rightarrow> hm_insert k v m) (lines raw) []"

text \<open>\<open>parse_ini_sections\<close>: the state of the loop is the finished sections, the current name and map.\<close>

type_synonym ini_state = "(string \<times> SectionMap) list \<times> string \<times> SectionMap"

definition ini_line :: "string \<Rightarrow> ini_state \<Rightarrow> ini_state" where
  "ini_line line st =
     (case st of (sections, current_name, current_map) \<Rightarrow>
       let trimmed = trim (strip_comment line)
       in if trimmed = [] then st
          else if hd trimmed = CHR ''['' \<and> last trimmed = CHR '']''
          then (let name = trim (trim_end_matches (CHR '']'') (trim_start_matches (CHR ''['') trimmed))
                in if current_name \<noteq> [] then (sections @ [(current_name, current_map)], name, [])
                   else (sections, name, current_map))
          else (case parse_kv_line trimmed of
                  None \<Rightarrow> st
                | Some (k, v) \<Rightarrow> (sections, current_name, hm_insert k v current_map)))"

definition parse_ini_sections :: "string \<Rightarrow> (string \<times> SectionMap) list" where
  "parse_ini_sections raw =
     (case fold ini_line (lines raw) ([], [], []) of
        (sections, current_name, current_map) \<Rightarrow>
          if current_name \<noteq> [] then sections @ [(current_name, current_map)] else sections)"

text \<open>\<open>render_env\<close>: replace every \<open>{{.NAME}}\<close>; a replaced value is not scanned again.\<close>

function render_env :: "(string \<Rightarrow> string option) \<Rightarrow> string \<Rightarrow> string" where
  "render_env env out =
     (case find_str ''{{.'' out of
        None \<Rightarrow> out
      | Some i \<Rightarrow>
          (case find_str ''}}'' (drop i out) of
             None \<Rightarrow> out
           | Some j \<Rightarrow>
               let name = trim (take (j - 3) (drop (i + 3) out));
                   value = (case env name of None \<Rightarrow> [] | Some v \<Rightarrow> v)
               in take i out @ value @ render_env env (drop (i + j + 2) out)))"
  by pat_completeness auto
termination
proof (relation "measure (\<lambda>(_, out). length out)")
  fix env :: "string \<Rightarrow> string option" and out i j and x xa
  assume "find_str ''{{.'' out = Some i"
  then have "out \<noteq> []" by (cases out) auto
  then show "((env, drop (i + j + 2) out), env, out) \<in> measure (\<lambda>(_, out). length out)"
    by (cases out) auto
qed simp

declare render_env.simps [simp del]

section \<open>Typed accessors\<close>

definition get_string :: "SectionMap \<Rightarrow> string \<Rightarrow> string \<Rightarrow> string" where
  "get_string kv key d = (case hm_get kv key of None \<Rightarrow> d | Some v \<Rightarrow> v)"

definition get_string_alias :: "SectionMap \<Rightarrow> string list \<Rightarrow> string \<Rightarrow> string" where
  "get_string_alias kv keys d = (case find_map (hm_get kv) keys of None \<Rightarrow> d | Some v \<Rightarrow> v)"

definition truthy :: "string \<Rightarrow> bool" where
  "truthy v = (to_ascii_lowercase (trim v) \<in> {''1'', ''true'', ''yes'', ''on''})"

definition get_bool :: "SectionMap \<Rightarrow> string \<Rightarrow> bool \<Rightarrow> bool" where
  "get_bool kv key d = (case hm_get kv key of None \<Rightarrow> d | Some v \<Rightarrow> truthy v)"

definition get_bool_alias :: "SectionMap \<Rightarrow> string list \<Rightarrow> bool \<Rightarrow> bool" where
  "get_bool_alias kv keys d = (case find_map (hm_get kv) keys of None \<Rightarrow> d | Some v \<Rightarrow> truthy v)"

definition get_list :: "SectionMap \<Rightarrow> string list \<Rightarrow> string list" where
  "get_list kv keys =
     (case find_map (hm_get kv) keys of
        None \<Rightarrow> []
      | Some value \<Rightarrow>
          filter (\<lambda>item. item \<noteq> []) (map trim (lines (replace_char (CHR '','') [CHR 0x0A] value))))"

definition get_u16 :: "SectionMap \<Rightarrow> string \<Rightarrow> u16 \<Rightarrow> u16" where
  "get_u16 kv key d =
     (case Option.bind (hm_get kv key) (\<lambda>v. parse_u16 (trim v)) of None \<Rightarrow> d | Some n \<Rightarrow> n)"

definition get_u64 :: "SectionMap \<Rightarrow> string \<Rightarrow> u64 \<Rightarrow> u64" where
  "get_u64 kv key d =
     (case Option.bind (hm_get kv key) (\<lambda>v. parse_u64 (trim v)) of None \<Rightarrow> d | Some n \<Rightarrow> n)"

definition get_usize :: "SectionMap \<Rightarrow> string \<Rightarrow> usize \<Rightarrow> usize" where
  "get_usize kv key d =
     (case Option.bind (hm_get kv key) (\<lambda>v. parse_usize (trim v)) of None \<Rightarrow> d | Some n \<Rightarrow> n)"

section \<open>Ports and targets\<close>

definition port_range :: "u16 \<Rightarrow> u16 \<Rightarrow> u16 list" where
  "port_range lo hi = map of_nat [unat lo..<unat hi + 1]"

definition expand_part :: "string \<Rightarrow> u16 list" where
  "expand_part part =
     (case split_once (CHR ''-'') part of
        Some (a, b) \<Rightarrow>
          (case (parse_u16 (trim a), parse_u16 (trim b)) of
             (Some start, Some stop) \<Rightarrow>
               if start \<le> stop then port_range start stop else port_range stop start
           | _ \<Rightarrow> [])
      | None \<Rightarrow> (case parse_u16 part of Some port \<Rightarrow> [port] | None \<Rightarrow> []))"

definition list_parts :: "string \<Rightarrow> string list" where
  "list_parts s = filter (\<lambda>p. p \<noteq> []) (map trim (split_on (CHR '','') s))"

definition expand_ports :: "string \<Rightarrow> u16 list" where
  "expand_ports s = concat (map expand_part (list_parts s))"

definition first_port :: "string \<Rightarrow> u16 option" where
  "first_port s = (case expand_ports s of [] \<Rightarrow> None | p # _ \<Rightarrow> Some p)"

definition expand_targets :: "string \<Rightarrow> string \<Rightarrow> string list" where
  "expand_targets base_ip target =
     map (\<lambda>item. if CHR '':'' \<in> set item then item
                 else if base_ip \<noteq> [] then base_ip @ '':'' @ item
                 else ''127.0.0.1:'' @ item)
       (filter (\<lambda>s. s \<noteq> []) (map trim (split_on (CHR 0x0A) (replace_char (CHR '','') [CHR 0x0A] target))))"

definition normalize_location :: "string \<Rightarrow> string" where
  "normalize_location v = (if v = [] then ''/'' else if hd v = CHR ''/'' then v else CHR ''/'' # v)"

section \<open>The server configuration\<close>

definition server_config_of :: "SectionMap \<Rightarrow> ServerConfig" where
  "server_config_of kv =
     (let c = ServerConfig_default in
     \<lparr>sc_appname = get_string kv ''appname'' (sc_appname c),
      sc_runmode = get_string kv ''runmode'' (sc_runmode c),
      sc_http_proxy_ip = get_string kv ''http_proxy_ip'' (sc_http_proxy_ip c),
      sc_http_proxy_port = get_u16 kv ''http_proxy_port'' (sc_http_proxy_port c),
      sc_https_proxy_port = get_u16 kv ''https_proxy_port'' (sc_https_proxy_port c),
      sc_https_just_proxy = get_bool kv ''https_just_proxy'' (sc_https_just_proxy c),
      sc_bridge_type = get_string kv ''bridge_type'' (sc_bridge_type c),
      sc_bridge_ip = get_string kv ''bridge_ip'' (sc_bridge_ip c),
      sc_bridge_port = get_u16 kv ''bridge_port'' (sc_bridge_port c),
      sc_public_vkey = get_string kv ''public_vkey'' (sc_public_vkey c),
      sc_web_ip = get_string kv ''web_ip'' (sc_web_ip c),
      sc_web_port = get_u16 kv ''web_port'' (sc_web_port c),
      sc_web_username = get_string kv ''web_username'' (sc_web_username c),
      sc_web_password = get_string kv ''web_password'' (sc_web_password c),
      sc_web_base_url = get_string kv ''web_base_url'' (sc_web_base_url c),
      sc_allow_user_login = get_bool kv ''allow_user_login'' (sc_allow_user_login c),
      sc_allow_user_register = get_bool kv ''allow_user_register'' (sc_allow_user_register c),
      sc_open_captcha = get_bool kv ''open_captcha'' (sc_open_captcha c),
      sc_allow_user_change_username = get_bool kv ''allow_user_change_username'' (sc_allow_user_change_username c),
      sc_allow_flow_limit = get_bool kv ''allow_flow_limit'' (sc_allow_flow_limit c),
      sc_allow_rate_limit = get_bool kv ''allow_rate_limit'' (sc_allow_rate_limit c),
      sc_allow_tunnel_num_limit = get_bool kv ''allow_tunnel_num_limit'' (sc_allow_tunnel_num_limit c),
      sc_allow_connection_num_limit = get_bool kv ''allow_connection_num_limit'' (sc_allow_connection_num_limit c),
      sc_allow_ports = get_string kv ''allow_ports'' (sc_allow_ports c),
      sc_allow_local_proxy = get_bool kv ''allow_local_proxy'' (sc_allow_local_proxy c),
      sc_allow_multi_ip = get_bool kv ''allow_multi_ip'' (sc_allow_multi_ip c),
      sc_http_cache = get_bool kv ''http_cache'' (sc_http_cache c),
      sc_http_cache_length = get_usize kv ''http_cache_length'' (sc_http_cache_length c),
      sc_http_add_origin_header = get_bool kv ''http_add_origin_header'' (sc_http_add_origin_header c),
      sc_ip_limit = get_bool kv ''ip_limit'' (sc_ip_limit c),
      sc_disconnect_timeout = get_u64 kv ''disconnect_timeout'' (sc_disconnect_timeout c),
      sc_tls_enable = get_bool kv ''tls_enable'' (sc_tls_enable c),
      sc_tls_bridge_port = get_u16 kv ''tls_bridge_port'' (sc_tls_bridge_port c),
      sc_p2p_ip = get_string kv ''p2p_ip'' (sc_p2p_ip c),
      sc_p2p_port = get_u16 kv ''p2p_port'' (sc_p2p_port c),
      sc_log_level = get_string kv ''log_level'' (sc_log_level c),
      sc_log_path = get_string kv ''log_path'' (sc_log_path c)\<rparr>)"

definition load_server_config ::
  "(string \<Rightarrow> string option) \<Rightarrow> string io_result \<Rightarrow> ServerConfig io_result" where
  "load_server_config env raw =
     (case raw of Inl e \<Rightarrow> Inl e | Inr text \<Rightarrow> Inr (server_config_of (parse_plain_kv (render_env env text))))"

section \<open>The client configuration\<close>

definition parse_common :: "SectionMap \<Rightarrow> CommonConfig" where
  "parse_common kv =
     (let c = CommonConfig_default;
          d = cc_client c;
          vkey = get_string kv ''vkey'' (cc_vkey c)
      in \<lparr>cc_server_addr = get_string kv ''server_addr'' (cc_server_addr c),
          cc_conn_type = get_string kv ''conn_type'' (cc_conn_type c),
          cc_vkey = vkey,
          cc_auto_reconnection = get_bool kv ''auto_reconnection'' (cc_auto_reconnection c),
          cc_tls_enable = get_bool kv ''tls_enable'' (cc_tls_enable c),
          cc_proxy_url = get_string kv ''proxy_url'' (cc_proxy_url c),
          cc_disconnect_timeout = get_u64 kv ''disconnect_timeout'' (cc_disconnect_timeout c),
          cc_client = d\<lparr>
            ci_basic_username := get_string kv ''basic_username'' [],
            ci_basic_password := get_string kv ''basic_password'' [],
            ci_web_username := get_string kv ''web_username'' (ci_web_username d),
            ci_web_password := get_string kv ''web_password'' vkey,
            ci_config_conn_allow := get_bool kv ''config_conn_allow'' (ci_config_conn_allow d),
            ci_compress := get_bool kv ''compress'' False,
            ci_crypt := get_bool kv ''crypt'' False,
            ci_rate_limit_kb := get_u64 kv ''rate_limit'' 0,
            ci_flow_limit_mb := get_u64 kv ''flow_limit'' 0,
            ci_max_conn := get_usize kv ''max_conn'' 0,
            ci_remark := get_string kv ''remark'' [],
            ci_max_tunnel_num := get_usize kv ''max_tunnel_num'' 0,
            ci_black_ip_list := get_list kv [''black_ip_list'', ''blackiplist''],
            ci_ip_white := get_bool_alias kv [''ip_white'', ''ipwhite''] (ci_ip_white d),
            ci_ip_white_pass := get_string_alias kv [''ip_white_pass'', ''ipwhitepass''] [],
            ci_ip_white_list := get_list kv [''ip_white_list'', ''ipwhitelist'']\<rparr>\<rparr>)"

definition header_change_of :: "SectionMap \<Rightarrow> string" where
  "header_change_of kv =
     concat (map (\<lambda>(k, v). case strip_prefix ''header_'' k of
                              None \<Rightarrow> []
                            | Some name \<Rightarrow> name @ '':'' @ v @ [CHR 0x0A]) kv)"

definition parse_host :: "string \<Rightarrow> SectionMap \<Rightarrow> Host" where
  "parse_host title kv =
     (let h = Host_default
      in h\<lparr>ho_remark := title,
           ho_host := get_string kv ''host'' [],
           ho_target := (ho_target h)\<lparr>tg_target_str :=
              replace_char (CHR '','') [CHR 0x0A] (get_string kv ''target_addr'' [])\<rparr>,
           ho_host_change := get_string kv ''host_change'' [],
           ho_scheme := get_string kv ''scheme'' (ho_scheme h),
           ho_cert_file_path := get_string kv ''cert_file_path'' [],
           ho_key_file_path := get_string kv ''key_file_path'' [],
           ho_location := normalize_location (get_string kv ''location'' (ho_location h)),
           ho_auto_https := get_bool kv ''auto_https'' False,
           ho_header_change := header_change_of kv\<rparr>)"

definition parse_tunnel :: "string \<Rightarrow> SectionMap \<Rightarrow> Tunnel" where
  "parse_tunnel title kv =
     (let t = Tunnel_default;
          ports = get_string kv ''server_port'' [];
          target_str = replace_char (CHR '','') [CHR 0x0A] (get_string kv ''target_addr'' []);
          target_port = get_string kv ''target_port'' []
      in t\<lparr>tn_remark := title,
           tn_mode := get_string kv ''mode'' ''tcp'',
           tn_ports := ports,
           tn_server_port := (case first_port ports of None \<Rightarrow> 0 | Some p \<Rightarrow> p),
           tn_server_ip := get_string kv ''server_ip'' (tn_server_ip t),
           tn_target := (tn_target t)\<lparr>tg_target_str :=
              (if target_port \<noteq> [] \<and> target_str = [] then target_port else target_str)\<rparr>,
           tn_target_addr := get_string kv ''target_ip'' [],
           tn_password := get_string kv ''password'' [],
           tn_local_path := get_string kv ''local_path'' [],
           tn_strip_pre := get_string kv ''strip_pre'' [],
           tn_proto_version := get_string kv ''proxy_protocol'' []\<rparr>)"

definition parse_local_server :: "string \<Rightarrow> SectionMap \<Rightarrow> LocalServer" where
  "parse_local_server kind kv =
     \<lparr>ls_kind = (if prefix ''p2p'' kind then ''p2p'' else ''secret''),
      ls_ip = get_string kv ''local_ip'' ''127.0.0.1'',
      ls_port = get_u16 kv ''local_port'' 0,
      ls_password = get_string kv ''password'' [],
      ls_target = get_string kv ''target_addr'' []\<rparr>"

definition parse_health :: "string \<Rightarrow> SectionMap \<Rightarrow> HealthCheck" where
  "parse_health title kv =
     \<lparr>hc_remark = title,
      hc_timeout_secs = get_u64 kv ''health_check_timeout'' 1,
      hc_max_failed = ucast (get_u64 kv ''health_check_max_failed'' 3),
      hc_interval_secs = get_u64 kv ''health_check_interval'' 1,
      hc_http_url = get_string kv ''health_http_url'' ''/'',
      hc_kind = get_string kv ''health_check_type'' ''tcp'',
      hc_targets = list_parts (get_string kv ''health_check_target'' [])\<rparr>"

text \<open>One section of \<open>npc.conf\<close>; the state is the configuration so far and the next id.\<close>

definition load_section ::
  "string \<times> SectionMap \<Rightarrow> ClientRuntimeConfig \<times> u64 \<Rightarrow> ClientRuntimeConfig \<times> u64" where
  "load_section section st =
     (case section of (title, kv) \<Rightarrow> case st of (runtime, next_id) \<Rightarrow>
       let title_lc = to_ascii_lowercase title
       in if title_lc = ''common''
          then (let common = parse_common kv
                in (runtime\<lparr>rc_common := common\<lparr>cc_client :=
                      (cc_client common)\<lparr>ci_verify_key := cc_vkey common\<rparr>\<rparr>\<rparr>, next_id))
          else if prefix ''health'' title_lc
          then (runtime\<lparr>rc_healths := rc_healths runtime @ [parse_health title kv]\<rparr>, next_id)
          else if (prefix ''secret'' title_lc \<or> prefix ''p2p'' title_lc) \<and> \<not> hm_contains kv ''mode''
          then (runtime\<lparr>rc_local_servers := rc_local_servers runtime @ [parse_local_server title_lc kv]\<rparr>,
                next_id)
          else if hm_contains kv ''host''
          then (runtime\<lparr>rc_hosts := rc_hosts runtime
                   @ [(parse_host title kv)\<lparr>ho_id := next_id, ho_client_vkey := rc_vkey runtime\<rparr>]\<rparr>,
                next_id + 1)
          else (runtime\<lparr>rc_tunnels := rc_tunnels runtime
                   @ [(parse_tunnel title kv)\<lparr>tn_id := next_id, tn_client_vkey := rc_vkey runtime\<rparr>]\<rparr>,
                next_id + 1))"

definition client_config_of :: "(string \<times> SectionMap) list \<Rightarrow> ClientRuntimeConfig" where
  "client_config_of sections =
     fst (fold load_section sections (ClientRuntimeConfig_default\<lparr>rc_no_store := True\<rparr>, 1))"

definition load_client_config ::
  "(string \<Rightarrow> string option) \<Rightarrow> string io_result \<Rightarrow> ClientRuntimeConfig io_result" where
  "load_client_config env raw =
     (case raw of
        Inl e \<Rightarrow> Inl e
      | Inr text \<Rightarrow> Inr (client_config_of (parse_ini_sections (render_env env text))))"

section \<open>Facts on the parsers\<close>

lemma set_port_range: "p \<in> set (port_range lo hi) \<longleftrightarrow> lo \<le> p \<and> p \<le> hi"
proof
  assume "p \<in> set (port_range lo hi)"
  then obtain n where n: "p = of_nat n" "unat lo \<le> n" "n \<le> unat hi"
    by (auto simp: port_range_def)
  then have "unat p = n"
    using unsigned_less [of hi, where 'a = nat] by (simp add: unat_of_nat)
  with n show "lo \<le> p \<and> p \<le> hi"
    by (simp add: word_le_nat_alt)
next
  assume "lo \<le> p \<and> p \<le> hi"
  then have "unat p \<in> set [unat lo..<unat hi + 1]"
    by (auto simp: word_le_nat_alt)
  then have "of_nat (unat p) \<in> set (port_range lo hi)"
    unfolding port_range_def by (simp only: set_map imageI)
  then show "p \<in> set (port_range lo hi)" by simp
qed

text \<open>What a part of a port list denotes: one port, or an interval given in either order.\<close>

definition part_covers :: "string \<Rightarrow> u16 \<Rightarrow> bool" where
  "part_covers part p =
     (case split_once (CHR ''-'') part of
        None \<Rightarrow> parse_u16 part = Some p
      | Some (a, b) \<Rightarrow>
          (case (parse_u16 (trim a), parse_u16 (trim b)) of
             (Some x, Some y) \<Rightarrow> min x y \<le> p \<and> p \<le> max x y
           | _ \<Rightarrow> False))"

lemma set_expand_part: "p \<in> set (expand_part part) \<longleftrightarrow> part_covers part p"
  by (auto simp: expand_part_def part_covers_def set_port_range min_def max_def
      split: option.splits)

lemma set_expand_ports:
  "p \<in> set (expand_ports s) \<longleftrightarrow> (\<exists>part \<in> set (list_parts s). part_covers part p)"
  by (auto simp: expand_ports_def set_expand_part)

definition config_ids :: "ClientRuntimeConfig \<Rightarrow> u64 list" where
  "config_ids c = map ho_id (rc_hosts c) @ map tn_id (rc_tunnels c)"

definition ids_below :: "ClientRuntimeConfig \<times> u64 \<Rightarrow> bool" where
  "ids_below st \<longleftrightarrow> distinct (config_ids (fst st))
     \<and> (\<forall>i \<in> set (config_ids (fst st)). 1 \<le> unat i \<and> unat i < unat (snd st))
     \<and> unat (snd st) = length (config_ids (fst st)) + 1"

lemma unat_suc_u64: "unat (n :: u64) + 1 < 2 ^ 64 \<Longrightarrow> unat (n + 1) = unat n + 1"
  by (simp add: unat_word_ariths)

lemma load_section_cases:
  obtains (same) "config_ids (fst (load_section sect st)) = config_ids (fst st)"
      "snd (load_section sect st) = snd st"
  | (added) a b where "config_ids (fst st) = a @ b"
      "config_ids (fst (load_section sect st)) = a @ snd st # b" "snd (load_section sect st) = snd st + 1"
proof -
  have "(config_ids (fst (load_section sect st)) = config_ids (fst st) \<and> snd (load_section sect st) = snd st)
    \<or> (\<exists>a b. config_ids (fst st) = a @ b \<and> config_ids (fst (load_section sect st)) = a @ snd st # b
          \<and> snd (load_section sect st) = snd st + 1)"
    by (cases st; cases sect)
      (auto simp: load_section_def Let_def config_ids_def
        intro: exI [of _ "map ho_id (rc_hosts (fst st)) @ map tn_id (rc_tunnels (fst st))"]
          exI [of _ "[] :: u64 list"] exI [of _ "map ho_id (rc_hosts (fst st))"])
  with that show thesis by blast
qed

lemma load_section_ids:
  assumes "ids_below st" "unat (snd st) + 1 < 2 ^ 64"
  shows "ids_below (load_section sect st) \<and> unat (snd (load_section sect st)) \<le> unat (snd st) + 1"
proof (cases rule: load_section_cases [of sect st])
  case same
  with assms show ?thesis by (auto simp: ids_below_def)
next
  case (added a b)
  have "unat (snd st + 1) = unat (snd st) + 1"
    using assms(2) unat_suc_u64 by blast
  moreover have "snd st \<notin> set (a @ b)"
    using assms(1) added by (auto simp: ids_below_def)
  ultimately show ?thesis
    using assms(1) added by (auto simp: ids_below_def intro: less_SucI)
qed

lemma fold_load_section_ids:
  assumes "ids_below st" "unat (snd st) + length secs < 2 ^ 64"
  shows "ids_below (fold load_section secs st)"
  using assms
proof (induction secs arbitrary: st)
  case (Cons sec secs)
  have "ids_below (load_section sec st)" "unat (snd (load_section sec st)) \<le> unat (snd st) + 1"
    using load_section_ids [of st sec] Cons.prems by auto
  with Cons show ?case by simp
qed simp

lemma split_once_char: "c \<notin> set a \<Longrightarrow> split_once c (a @ c # b) = Some (a, b)"
  by (rule split_once_append)

lemma position_none: "c \<notin> set s \<Longrightarrow> find_char c s = None"
  by (auto simp: find_char_def position_None_iff)

lemma strip_comment_plain: "CHR ''#'' \<notin> set s \<Longrightarrow> CHR '';'' \<notin> set s \<Longrightarrow> strip_comment s = s"
  by (simp add: strip_comment_def position_none)

text \<open>The keys and values a plain configuration file can carry unchanged.\<close>

definition plain_key :: "string \<Rightarrow> bool" where
  "plain_key k \<longleftrightarrow> k \<noteq> [] \<and> trim k = k
     \<and> set k \<inter> {CHR ''#'', CHR '';'', CHR ''='', CHR 0x0A, CHR 0x0D} = {}"

definition plain_value :: "string \<Rightarrow> bool" where
  "plain_value v \<longleftrightarrow> trim v = v \<and> set v \<inter> {CHR ''#'', CHR '';'', CHR 0x0A, CHR 0x0D} = {}"

definition kv_line :: "string \<times> string \<Rightarrow> string" where
  "kv_line p = fst p @ ''='' @ snd p"

lemma parse_kv_line_plain:
  "plain_key k \<Longrightarrow> plain_value v \<Longrightarrow> parse_kv_line (kv_line (k, v)) = Some (k, v)"
  by (simp add: parse_kv_line_def kv_line_def plain_key_def plain_value_def strip_comment_plain
      split_once_append Let_def)

lemma lines_join:
  assumes "list_all (\<lambda>l. CHR 0x0A \<notin> set l \<and> CHR 0x0D \<notin> set l) ls"
  shows "lines (concat (map (\<lambda>l. l @ [CHR 0x0A]) ls)) = ls"
proof -
  have "split_on (CHR 0x0A) (concat (map (\<lambda>l. l @ [CHR 0x0A]) ls)) = ls @ [[]]"
    using assms by (induction ls) (auto simp: split_on_append)
  moreover have "map strip_cr ls = ls"
    using assms by (intro map_idI) (auto simp: strip_cr_def list_all_iff dest: last_in_set)
  ultimately show ?thesis by (simp add: lines_def)
qed

lemma parse_plain_kv_join:
  assumes "list_all (\<lambda>(k, v). plain_key k \<and> plain_value v) kvs" "hm_ok kvs"
  shows "parse_plain_kv (concat (map (\<lambda>l. l @ [CHR 0x0A]) (map kv_line kvs))) = kvs"
proof -
  let ?ins = "\<lambda>line m. case parse_kv_line line of None \<Rightarrow> m | Some (k, v) \<Rightarrow> hm_insert k v m"
  have upd: "hm_insert k v m = m @ [(k, v)]" if "k \<notin> fst ` set m" for k v and m :: SectionMap
    using that by (induction m) auto
  have "fold ?ins (map kv_line kvs) m = m @ kvs" if "hm_ok (m @ kvs)" for m
    using that assms(1)
  proof (induction kvs arbitrary: m)
    case (Cons kv kvs)
    obtain k v where kv: "kv = (k, v)" by (cases kv)
    with Cons.prems have "?ins (kv_line kv) m = m @ [(k, v)]" "hm_ok ((m @ [kv]) @ kvs)"
      by (simp_all add: parse_kv_line_plain upd hm_ok_def)
    with Cons kv show ?case by simp
  qed simp
  from this [of "[]"] assms(2) have "fold ?ins (map kv_line kvs) [] = kvs" by simp
  moreover have "list_all (\<lambda>l. CHR 0x0A \<notin> set l \<and> CHR 0x0D \<notin> set l) (map kv_line kvs)"
    using assms(1) by (fastforce simp: list_all_iff kv_line_def plain_key_def plain_value_def)
  ultimately show ?thesis
    by (simp add: parse_plain_kv_def lines_join del: map_map)
qed

section \<open>Properties\<close>

text \<open>
  A port list denotes exactly the ports its parts name: a port is in the expansion of
  a list iff some comma-separated part is that number, or an interval, written in either
  order, that contains it.  Parts that do not parse contribute nothing.
\<close>

lemma expand_ports_denotes:
  "p \<in> set (expand_ports s) \<longleftrightarrow>
   (\<exists>part \<in> set (list_parts s).
      case split_once (CHR ''-'') part of
        None \<Rightarrow> parse_u16 part = Some p
      | Some (a, b) \<Rightarrow>
          (case (parse_u16 (trim a), parse_u16 (trim b)) of
             (Some x, Some y) \<Rightarrow> min x y \<le> p \<and> p \<le> max x y
           | _ \<Rightarrow> False))"
  using set_expand_ports by (simp add: part_covers_def)

text \<open>
  The ids a client configuration file gives to its hosts and tunnels are pairwise
  different and are the numbers from 1 to the number of hosts and tunnels.
\<close>

lemma client_config_ids:
  assumes "length (parse_ini_sections (render_env env text)) < 2 ^ 64 - 1"
    and "load_client_config env (Inr text) = Inr c"
  shows "distinct (map ho_id (rc_hosts c) @ map tn_id (rc_tunnels c))
     \<and> unat ` set (map ho_id (rc_hosts c) @ map tn_id (rc_tunnels c))
         = {1..length (rc_hosts c) + length (rc_tunnels c)}"
proof -
  let ?secs = "parse_ini_sections (render_env env text)"
  let ?st = "fold load_section ?secs (ClientRuntimeConfig_default\<lparr>rc_no_store := True\<rparr>, 1)"
  have below: "ids_below ?st"
    using assms(1)
    by (intro fold_load_section_ids)
      (auto simp: ids_below_def config_ids_def ClientRuntimeConfig_default_def)
  have c: "c = fst ?st"
    using assms(2) by (simp add: load_client_config_def client_config_of_def)
  have "inj_on unat (set (config_ids c))" by (simp add: inj_on_def word_unat_eq_iff)
  then have "card (unat ` set (config_ids c)) = length (config_ids c)"
    using below c by (simp add: card_image ids_below_def distinct_card)
  moreover have "unat ` set (config_ids c) \<subseteq> {1..length (config_ids c)}"
    using below c by (auto simp: ids_below_def)
  ultimately have "unat ` set (config_ids c) = {1..length (config_ids c)}"
    by (intro card_subset_eq) auto
  then show ?thesis
    using below c by (simp add: ids_below_def config_ids_def)
qed

text \<open>
  Writing settings one per line as \<open>key=value\<close> and parsing the file gives the
  settings back, for keys and values free of comment characters, line ends and outer white
  space (and keys free of the equals sign).
\<close>

lemma plain_kv_round_trip:
  assumes "list_all (\<lambda>(k, v). plain_key k \<and> plain_value v) kvs" "distinct (map fst kvs)"
  shows "parse_plain_kv (concat (map (\<lambda>(k, v). k @ ''='' @ v @ [CHR 0x0A]) kvs)) = kvs"
proof -
  have "map (\<lambda>(k, v). k @ ''='' @ v @ [CHR 0x0A]) kvs = map (\<lambda>l. l @ [CHR 0x0A]) (map kv_line kvs)"
    by (auto simp: kv_line_def)
  with parse_plain_kv_join [OF assms(1)] assms(2) show ?thesis
    by (simp add: hm_ok_def del: map_map)
qed

end
