(* ===== verification/Registry.thy ===== *)
theory Registry
  imports Config Protocol Traffic
begin

text \<open>
  The shared state of the server, \<open>Registry\<close> of \<open>src/server.rs\<close>, and its elementary
  operations: the id sequence, the HTTP response cache, connection slots, authorised
  addresses, health targets, live connections, the secret registry and the termination of
  a client.  Every field is behind a mutex of its own; an operation that locks a field
  once is one step, and its definition is the whole of that step.

  Runtime objects are addressed by number.  A control connection is a queue of messages
  with a flag that says whether its writer thread still reads it (\<open>re_queues\<close>); a shutdown
  flag is a cell of \<open>re_flags\<close>; a socket that was shut down is recorded in
  \<open>re_shutdown_socks\<close>; a \<open>pending\<close> entry names the waiting request.  A \<open>HashSet\<close> is a list
  without repetitions.  Time is a number of nanoseconds.
\<close>

section \<open>State\<close>

type_synonym time = nat

definition secs :: "nat \<Rightarrow> time" where
  "secs n = n * 1000000000"

record HttpResponseCache =
  hr_entries :: "(string \<times> bytes) list"
  hr_order :: "string list"

record ControlHandle =
  ch_tx :: nat
  ch_version :: string
  ch_connected_at :: time
  ch_remote_addr :: string

record WebSession =
  ws_is_admin :: bool
  ws_client_id :: "u64 option"
  ws_username :: string

record CaptchaEntry =
  ce_code :: string
  ce_expires_at :: time

record Registry =
  re_server :: ServerConfig
  re_controls :: "(string \<times> ControlHandle) list"
  re_mux_sessions :: "(string \<times> nat) list"
  re_listener_shutdowns :: "(u64 \<times> nat) list"
  re_health_targets :: "(string \<times> string list) list"
  re_live_conns :: "(u64 \<times> (u64 \<times> nat) list) list"
  re_pending :: "(u64 \<times> nat) list"
  re_clients :: "(string \<times> ClientRuntimeConfig) list"
  re_secrets :: "(string \<times> Tunnel) list"
  re_listeners :: "string list"
  re_cursors :: "(string \<times> usize) list"
  re_sessions :: "(string \<times> WebSession) list"
  re_global :: GlobalConfig
  re_captcha_store :: "(string \<times> CaptchaEntry) list"
  re_http_cache :: HttpResponseCache
  re_conn_counts :: "(string \<times> usize) list"
  re_authorized_ips :: "(string \<times> time) list"
  re_flow_counters :: "(string \<times> FlowCounter) list"
  re_seq :: u64
  re_queues :: "(ServerMessage list \<times> bool) list"
  re_flags :: "bool list"
  re_shutdown_socks :: "nat list"

definition Registry_new :: "ServerConfig \<Rightarrow> Registry" where
  "Registry_new server =
     \<lparr>re_server = server, re_controls = [], re_mux_sessions = [], re_listener_shutdowns = [],
      re_health_targets = [], re_live_conns = [], re_pending = [], re_clients = [],
      re_secrets = [], re_listeners = [], re_cursors = [], re_sessions = [],
      re_global = GlobalConfig_default, re_captcha_store = [],
      re_http_cache = \<lparr>hr_entries = [], hr_order = []\<rparr>, re_conn_counts = [],
      re_authorized_ips = [], re_flow_counters = [], re_seq = 1, re_queues = [],
      re_flags = [], re_shutdown_socks = []\<rparr>"

definition WebSession_admin :: "string \<Rightarrow> WebSession" where
  "WebSession_admin username = \<lparr>ws_is_admin = True, ws_client_id = None, ws_username = username\<rparr>"

definition WebSession_client :: "u64 \<Rightarrow> string \<Rightarrow> WebSession" where
  "WebSession_client client_id username =
     \<lparr>ws_is_admin = False, ws_client_id = Some client_id, ws_username = username\<rparr>"

section \<open>Ids\<close>

text \<open>\<open>fetch_add\<close> wraps; so does \<open>id + 1\<close> in a release build.\<close>

definition next_link_id :: "Registry \<Rightarrow> u64 \<times> Registry" where
  "next_link_id r = (re_seq r, r\<lparr>re_seq := re_seq r + 1\<rparr>)"

definition observe_id :: "u64 \<Rightarrow> Registry \<Rightarrow> Registry" where
  "observe_id i r = (if re_seq r \<le> i then r\<lparr>re_seq := i + 1\<rparr> else r)"

text \<open>
  A sequence of uses of the id counter: every issued id is new among the ids issued or
  seen before it (\<open>known\<close>, latest first).
\<close>

datatype id_op = NextId | ObserveId u64

fun fresh_run :: "id_op list \<Rightarrow> Registry \<Rightarrow> u64 list \<Rightarrow> bool" where
  "fresh_run [] r known = True"
| "fresh_run (NextId # ops) r known =
     (case next_link_id r of (i, r') \<Rightarrow> i \<notin> set known \<and> fresh_run ops r' (i # known))"
| "fresh_run (ObserveId i # ops) r known = fresh_run ops (observe_id i r) (i # known)"

definition ids_seen :: "Registry \<Rightarrow> u64 list \<Rightarrow> bool" where
  "ids_seen r known = (\<forall>i \<in> set known. i < re_seq r)"

lemma unat_plus_one: "unat (n :: u64) + 1 < 2 ^ 64 \<Longrightarrow> unat (n + 1) = unat n + 1"
  by (rule unat_suc_u64)

lemma fresh_run_ok:
  assumes "ids_seen r known" "unat (re_seq r) + length ops < 2 ^ 64"
    "\<forall>i. ObserveId i \<in> set ops \<longrightarrow> unat i + length ops < 2 ^ 64 - 1"
  shows "fresh_run ops r known"
  using assms
proof (induction ops r known rule: fresh_run.induct)
  case (1 r known)
  then show ?case by simp
next
  case (2 ops r known)
  have s: "unat (re_seq r + 1) = unat (re_seq r) + 1"
    using "2.prems"(2) unat_plus_one [of "re_seq r"] by simp
  have seen: "ids_seen (r\<lparr>re_seq := re_seq r + 1\<rparr>) (re_seq r # known)"
    using "2.prems"(1) s by (auto simp: ids_seen_def word_less_nat_alt)
  have obs: "unat i + length ops < 2 ^ 64 - 1" if "ObserveId i \<in> set ops" for i
    using that "2.prems"(3) by fastforce
  have "re_seq r \<notin> set known"
    using "2.prems"(1) by (auto simp: ids_seen_def)
  with "2.IH" [of "re_seq r" "r\<lparr>re_seq := re_seq r + 1\<rparr>"] seen s obs "2.prems"(2) show ?case
    by (simp add: next_link_id_def)
next
  case (3 i ops r known)
  have i: "unat i + length (ObserveId i # ops) < 2 ^ 64 - 1"
    using "3.prems"(3) by auto
  then have s: "unat (i + 1) = unat i + 1"
    using unat_plus_one [of i] by simp
  have seen: "ids_seen (observe_id i r) (i # known)"
    using "3.prems"(1) s by (auto simp: ids_seen_def observe_id_def word_less_nat_alt word_le_nat_alt)
  have "unat (re_seq (observe_id i r)) + length ops < 2 ^ 64"
    using "3.prems"(2) i s by (simp add: observe_id_def)
  moreover have "unat j + length ops < 2 ^ 64 - 1" if "ObserveId j \<in> set ops" for j
    using that "3.prems"(3) by fastforce
  ultimately show ?case
    using "3.IH" seen by simp
qed

section \<open>The HTTP response cache\<close>

definition cache_get :: "string \<Rightarrow> HttpResponseCache \<Rightarrow> bytes option" where
  "cache_get key c = hm_get (hr_entries c) key"

fun cache_trim :: "usize \<Rightarrow> (string \<times> bytes) list \<Rightarrow> string list \<Rightarrow> HttpResponseCache" where
  "cache_trim limit entries [] = \<lparr>hr_entries = entries, hr_order = []\<rparr>"
| "cache_trim limit entries (oldest # order) =
     (if limit < length (oldest # order) then cache_trim limit (hm_remove oldest entries) order
      else \<lparr>hr_entries = entries, hr_order = oldest # order\<rparr>)"

definition cache_insert :: "string \<Rightarrow> bytes \<Rightarrow> usize \<Rightarrow> HttpResponseCache \<Rightarrow> HttpResponseCache" where
  "cache_insert key value limit c =
     (if hm_contains (hr_entries c) key
      then \<lparr>hr_entries = hm_insert key value (hr_entries c),
             hr_order = filter (\<lambda>item. item \<noteq> key) (hr_order c) @ [key]\<rparr>
      else (let entries = hm_insert key value (hr_entries c); order = hr_order c @ [key]
            in if limit = 0 then \<lparr>hr_entries = entries, hr_order = order\<rparr>
               else cache_trim limit entries order))"

text \<open>The cache as a queue of keys with their values, oldest first.\<close>

definition cache_ok :: "HttpResponseCache \<Rightarrow> bool" where
  "cache_ok c \<longleftrightarrow> hm_ok (hr_entries c) \<and> distinct (hr_order c)
     \<and> set (hr_order c) = fst ` set (hr_entries c)"

definition cache_abs :: "HttpResponseCache \<Rightarrow> (string \<times> bytes) list" where
  "cache_abs c = map (\<lambda>k. (k, the (hm_get (hr_entries c) k))) (hr_order c)"

definition lru_insert :: "string \<Rightarrow> bytes \<Rightarrow> usize \<Rightarrow> (string \<times> bytes) list \<Rightarrow> (string \<times> bytes) list" where
  "lru_insert key value limit q =
     (let q' = filter (\<lambda>p. fst p \<noteq> key) q @ [(key, value)]
      in if limit = 0 \<or> key \<in> fst ` set q then q' else drop (length q' - limit) q')"

lemma cache_abs_keys [simp]: "map fst (cache_abs c) = hr_order c"
  by (simp add: cache_abs_def comp_def)

lemma map_update_absent: "key \<notin> set ks \<Longrightarrow>
  map (\<lambda>k. (k, the (hm_get (hm_insert key v m) k))) ks = map (\<lambda>k. (k, the (hm_get m k))) ks"
  by (auto simp: hm_simps)

lemma cache_trim_ok:
  assumes "hm_ok entries" "distinct order" "set order = fst ` set entries"
  shows "cache_ok (cache_trim limit entries order)
     \<and> cache_abs (cache_trim limit entries order)
         = drop (length order - limit) (map (\<lambda>k. (k, the (hm_get entries k))) order)"
  using assms
proof (induction limit entries order rule: cache_trim.induct)
  case (1 limit entries)
  then show ?case by (simp add: cache_ok_def cache_abs_def)
next
  case (2 limit entries oldest order)
  show ?case
  proof (cases "limit < length (oldest # order)")
    case True
    have "set order = fst ` set (hm_remove oldest entries)"
      using "2.prems" by (auto simp: hm_remove_dom)
    with 2 True have IH: "cache_ok (cache_trim limit (hm_remove oldest entries) order)"
      "cache_abs (cache_trim limit (hm_remove oldest entries) order)
         = drop (length order - limit) (map (\<lambda>k. (k, the (hm_get (hm_remove oldest entries) k))) order)"
      by (auto simp: inv_intros)
    moreover have "map (\<lambda>k. (k, the (hm_get (hm_remove oldest entries) k))) order
        = map (\<lambda>k. (k, the (hm_get entries k))) order"
      using "2.prems"(2) by (auto simp: hm_simps)
    ultimately show ?thesis
      using True by (simp add: Suc_diff_le)
  next
    case False
    with 2 show ?thesis by (simp add: cache_ok_def cache_abs_def)
  qed
qed

lemma cache_filter_abs:
  "filter (\<lambda>p. fst p \<noteq> key) (cache_abs c) = map (\<lambda>k. (k, the (hm_get (hr_entries c) k))) (filter (\<lambda>k. k \<noteq> key) (hr_order c))"
  by (simp add: cache_abs_def filter_map comp_def)

lemma cache_insert_refines:
  assumes "cache_ok c"
  shows "cache_ok (cache_insert key value limit c)
     \<and> cache_abs (cache_insert key value limit c) = lru_insert key value limit (cache_abs c)"
proof (cases "hm_contains (hr_entries c) key")
  case True
  then have key: "key \<in> set (hr_order c)"
    using assms by (auto simp: cache_ok_def hm_contains_iff hm_keys_def)
  then have "key \<in> fst ` set (cache_abs c)" by (force simp: cache_abs_def)
  with True assms key show ?thesis
    unfolding cache_insert_def lru_insert_def Let_def cache_filter_abs
    by (auto simp: cache_ok_def cache_abs_def map_update_absent hm_simps inv_intros hm_insert_dom)
next
  case False
  then have key: "key \<notin> set (hr_order c)"
    using assms by (auto simp: cache_ok_def hm_contains_iff hm_keys_def)
  then have abs: "key \<notin> fst ` set (cache_abs c)" "filter (\<lambda>p. fst p \<noteq> key) (cache_abs c) = cache_abs c"
    by (auto simp: cache_abs_def intro!: filter_True)
  let ?e = "hm_insert key value (hr_entries c)" and ?o = "hr_order c @ [key]"
  have inv: "hm_ok ?e" "distinct ?o" "set ?o = fst ` set ?e"
    using assms key by (auto simp: cache_ok_def inv_intros hm_insert_dom)
  have m: "map (\<lambda>k. (k, the (hm_get ?e k))) ?o = cache_abs c @ [(key, value)]"
    using key by (simp add: cache_abs_def map_update_absent hm_simps)
  have len: "length (cache_abs c) = length (hr_order c)" by (simp add: cache_abs_def)
  show ?thesis
  proof (cases "limit = 0")
    case True
    with False abs inv m show ?thesis
      by (simp add: cache_insert_def lru_insert_def Let_def cache_ok_def cache_abs_def)
  next
    case pos: False
    with False abs cache_trim_ok [OF inv, of limit] m len show ?thesis
      by (simp add: cache_insert_def lru_insert_def Let_def)
  qed
qed

section \<open>Connection slots\<close>

abbreviation client_of :: "string \<Rightarrow> Registry \<Rightarrow> ClientRuntimeConfig option" where
  "client_of vkey r \<equiv> hm_get (re_clients r) vkey"

definition max_conn_of :: "string \<Rightarrow> Registry \<Rightarrow> usize" where
  "max_conn_of vkey r = (case client_of vkey r of None \<Rightarrow> 0 | Some c \<Rightarrow> ci_max_conn (rc_info c))"

definition client_now_conn :: "string \<Rightarrow> Registry \<Rightarrow> usize" where
  "client_now_conn vkey r = (case hm_get (re_conn_counts r) vkey of None \<Rightarrow> 0 | Some n \<Rightarrow> n)"

definition acquire_client_connection_slot :: "string \<Rightarrow> Registry \<Rightarrow> bool io_result \<times> Registry" where
  "acquire_client_connection_slot vkey r =
     (if \<not> sc_allow_connection_num_limit (re_server r) then (Inr False, r)
      else (let max_conn = max_conn_of vkey r
            in if max_conn = 0 then (Inr False, r)
               else (let current = client_now_conn vkey r
                     in if max_conn \<le> current
                        then (Inl (IoError PermissionDenied ''client connection count exceeds limit''), r)
                        else (Inr True,
                              r\<lparr>re_conn_counts := hm_insert vkey (current + 1) (re_conn_counts r)\<rparr>))))"

definition release_client_connection_slot :: "string \<Rightarrow> Registry \<Rightarrow> Registry" where
  "release_client_connection_slot vkey r =
     (case hm_get (re_conn_counts r) vkey of
        None \<Rightarrow> r
      | Some n \<Rightarrow>
          if n = 0 then r
          else if n = 1 then r\<lparr>re_conn_counts := hm_remove vkey (re_conn_counts r)\<rparr>
          else r\<lparr>re_conn_counts := hm_insert vkey (n - 1) (re_conn_counts r)\<rparr>)"

section \<open>Flow counters\<close>

text \<open>\<open>client_flow_counter\<close> creates the counter on first use.\<close>

definition client_flow_snapshot :: "string \<Rightarrow> Registry \<Rightarrow> FlowCounter" where
  "client_flow_snapshot vkey r =
     (case hm_get (re_flow_counters r) vkey of None \<Rightarrow> FlowCounter_default | Some c \<Rightarrow> c)"

definition client_flow_counter :: "string \<Rightarrow> Registry \<Rightarrow> FlowCounter \<times> Registry" where
  "client_flow_counter vkey r =
     (case hm_get (re_flow_counters r) vkey of
        Some c \<Rightarrow> (c, r)
      | None \<Rightarrow> (FlowCounter_default,
                 r\<lparr>re_flow_counters := hm_insert vkey FlowCounter_default (re_flow_counters r)\<rparr>))"

definition client_relay_policy :: "string \<Rightarrow> Registry \<Rightarrow> RelayPolicy \<times> Registry" where
  "client_relay_policy vkey r =
     (case client_of vkey r of
        None \<Rightarrow> (RelayPolicy_default, r)
      | Some client \<Rightarrow>
          (case client_flow_counter vkey r of
             (counter, r') \<Rightarrow>
               (\<lparr>rp_rate_limit_kb = (if sc_allow_rate_limit (re_server r) then ci_rate_limit_kb (rc_info client) else 0),
                 rp_flow_limit_mb = (if sc_allow_flow_limit (re_server r) then ci_flow_limit_mb (rc_info client) else 0),
                 rp_flow_counter = Some counter\<rparr>, r')))"

definition client_flow_limit_reached :: "string \<Rightarrow> Registry \<Rightarrow> bool \<times> Registry" where
  "client_flow_limit_reached vkey r =
     (if \<not> sc_allow_flow_limit (re_server r) then (False, r)
      else (let limit_mb = (case client_of vkey r of None \<Rightarrow> 0 | Some c \<Rightarrow> ci_flow_limit_mb (rc_info c))
            in if limit_mb = 0 then (False, r)
               else (case client_flow_counter vkey r of
                       (counter, r') \<Rightarrow>
                         (saturating_mul limit_mb (1024 * 1024)
                            \<le> saturating_add (fc_inlet_flow counter) (fc_export_flow counter), r'))))"

section \<open>Health targets\<close>

definition set_client_health_target_state :: "string \<Rightarrow> string \<Rightarrow> bool \<Rightarrow> Registry \<Rightarrow> Registry" where
  "set_client_health_target_state vkey target enabled r =
     (let entry = (case hm_get (re_health_targets r) vkey of None \<Rightarrow> [] | Some ts \<Rightarrow> ts);
          entry' = (if enabled then removeAll target entry else List.insert target entry)
      in r\<lparr>re_health_targets := hm_insert vkey entry' (re_health_targets r)\<rparr>)"

definition removed_targets :: "string \<Rightarrow> Registry \<Rightarrow> string list" where
  "removed_targets vkey r = (case hm_get (re_health_targets r) vkey of None \<Rightarrow> [] | Some ts \<Rightarrow> ts)"

definition clear_client_health_runtime_state :: "string \<Rightarrow> Registry \<Rightarrow> Registry" where
  "clear_client_health_runtime_state vkey r =
     r\<lparr>re_health_targets := hm_remove vkey (re_health_targets r)\<rparr>"

definition clear_client_runtime_state :: "string \<Rightarrow> Registry \<Rightarrow> Registry" where
  "clear_client_runtime_state vkey r =
     (clear_client_health_runtime_state vkey r)
       \<lparr>re_flow_counters := hm_remove vkey (re_flow_counters r)\<rparr>"

section \<open>Live connections of a tunnel\<close>

text \<open>\<open>sock\<close> is the clone of the accepted socket, \<open>None\<close> when cloning failed.\<close>

definition register_tunnel_live_conn :: "u64 \<Rightarrow> nat option \<Rightarrow> Registry \<Rightarrow> u64 option \<times> Registry" where
  "register_tunnel_live_conn tunnel_id sock r =
     (case sock of
        None \<Rightarrow> (None, r)
      | Some cloned \<Rightarrow>
          (case next_link_id r of
             (conn_id, r1) \<Rightarrow>
               (let grp = (case hm_get (re_live_conns r1) tunnel_id of None \<Rightarrow> [] | Some g \<Rightarrow> g)
                in (Some conn_id,
                    r1\<lparr>re_live_conns := hm_insert tunnel_id (hm_insert conn_id cloned grp)
                                          (re_live_conns r1)\<rparr>))))"

definition unregister_tunnel_live_conn :: "u64 \<Rightarrow> u64 option \<Rightarrow> Registry \<Rightarrow> Registry" where
  "unregister_tunnel_live_conn tunnel_id conn r =
     (case conn of
        None \<Rightarrow> r
      | Some conn_id \<Rightarrow>
          (case hm_get (re_live_conns r) tunnel_id of
             None \<Rightarrow> r
           | Some grp \<Rightarrow>
               (let grp' = hm_remove conn_id grp
                in if grp' = [] then r\<lparr>re_live_conns := hm_remove tunnel_id (re_live_conns r)\<rparr>
                   else r\<lparr>re_live_conns := hm_insert tunnel_id grp' (re_live_conns r)\<rparr>)))"

definition disconnect_tunnel_live_conns :: "u64 \<Rightarrow> Registry \<Rightarrow> Registry" where
  "disconnect_tunnel_live_conns tunnel_id r =
     (let conns = (case hm_get (re_live_conns r) tunnel_id of None \<Rightarrow> [] | Some g \<Rightarrow> g)
      in r\<lparr>re_live_conns := hm_remove tunnel_id (re_live_conns r),
           re_shutdown_socks := re_shutdown_socks r @ map snd conns\<rparr>)"

section \<open>Control connections\<close>

text \<open>\<open>Sender::send\<close> on a control queue: it fails when the writer thread is gone.\<close>

definition queue_send :: "nat \<Rightarrow> ServerMessage \<Rightarrow> Registry \<Rightarrow> bool \<times> Registry" where
  "queue_send q msg r =
     (if q < length (re_queues r) \<and> snd (re_queues r ! q)
      then (True, r\<lparr>re_queues := (re_queues r)[q := (fst (re_queues r ! q) @ [msg], True)]\<rparr>)
      else (False, r))"

definition terminate_client_connection :: "string \<Rightarrow> string \<Rightarrow> Registry \<Rightarrow> Registry" where
  "terminate_client_connection vkey reason r =
     (let handle = hm_get (re_controls r) vkey;
          r1 = r\<lparr>re_controls := hm_remove vkey (re_controls r),
                 re_mux_sessions := hm_remove vkey (re_mux_sessions r),
                 re_conn_counts := hm_remove vkey (re_conn_counts r)\<rparr>
      in case handle of
           None \<Rightarrow> r1
         | Some h \<Rightarrow> snd (queue_send (ch_tx h) (MsgStop reason) r1))"

section \<open>Secrets\<close>

text \<open>\<open>md5_hex\<close> is the MD5 digest of a dependency, an argument here.\<close>

definition is_secret_mode :: "string \<Rightarrow> bool" where
  "is_secret_mode mode = (let m = to_ascii_lowercase mode in m = ''secret'' \<or> m = ''p2p'')"

definition add_secret :: "(string \<Rightarrow> string) \<Rightarrow> Tunnel \<Rightarrow> (string \<times> Tunnel) list \<Rightarrow> (string \<times> Tunnel) list" where
  "add_secret md5_hex tunnel m =
     hm_insert (md5_hex (tn_password tunnel)) tunnel (hm_insert (tn_password tunnel) tunnel m)"

definition offers_secret :: "Tunnel \<Rightarrow> bool" where
  "offers_secret t \<longleftrightarrow> is_secret_mode (tn_mode t) \<and> tn_status t \<and> tn_run_status t \<and> tn_password t \<noteq> []"

definition rebuild_secret_registry :: "(string \<Rightarrow> string) \<Rightarrow> Registry \<Rightarrow> Registry" where
  "rebuild_secret_registry md5_hex r =
     r\<lparr>re_secrets :=
         fold (\<lambda>client m.
             if \<not> ci_status (rc_info client) then m
             else fold (\<lambda>t m. if offers_secret t then add_secret md5_hex t m else m) (rc_tunnels client) m)
           (hm_values (re_clients r)) []\<rparr>"

definition refresh_tunnel_runtime_registry :: "(string \<Rightarrow> string) \<Rightarrow> Registry \<Rightarrow> Registry" where
  "refresh_tunnel_runtime_registry md5_hex r = rebuild_secret_registry md5_hex r"

section \<open>Facts\<close>

lemma release_acquire:
  assumes "acquire_client_connection_slot vkey r = (Inr True, r')"
  shows "client_now_conn v (release_client_connection_slot vkey r') = client_now_conn v r
     \<and> client_now_conn vkey r' = client_now_conn vkey r + 1 \<and> client_now_conn vkey r' \<le> max_conn_of vkey r"
  using assms
  by (auto simp: acquire_client_connection_slot_def release_client_connection_slot_def client_now_conn_def
      hm_simps Let_def split: if_splits option.splits)

lemma slot_ops_clients [simp]:
  "re_clients (snd (acquire_client_connection_slot vkey r)) = re_clients r"
  "re_clients (release_client_connection_slot vkey r) = re_clients r"
  by (auto simp: acquire_client_connection_slot_def release_client_connection_slot_def Let_def
      split: option.splits)

lemma max_conn_slots [simp]:
  "max_conn_of v (snd (acquire_client_connection_slot vkey r)) = max_conn_of v r"
  "max_conn_of v (release_client_connection_slot vkey r) = max_conn_of v r"
  by (simp_all add: max_conn_of_def)

definition secret_tunnels :: "Registry \<Rightarrow> Tunnel list" where
  "secret_tunnels r =
     concat (map (\<lambda>c. if ci_status (rc_info c) then filter offers_secret (rc_tunnels c) else [])
       (hm_values (re_clients r)))"

lemma fold_filter_if: "fold (\<lambda>t m. if P t then f t m else m) ts m = fold f (filter P ts) m"
  by (induction ts arbitrary: m) auto

lemma rebuild_secrets_fold:
  "re_secrets (rebuild_secret_registry md5_hex r) = fold (add_secret md5_hex) (secret_tunnels r) []"
proof -
  have "fold (\<lambda>client m. if \<not> ci_status (rc_info client) then m
           else fold (\<lambda>t m. if offers_secret t then add_secret md5_hex t m else m) (rc_tunnels client) m) cs m
      = fold (add_secret md5_hex)
          (concat (map (\<lambda>c. if ci_status (rc_info c) then filter offers_secret (rc_tunnels c) else []) cs)) m"
    for cs m
    by (induction cs arbitrary: m) (auto simp: fold_filter_if)
  then show ?thesis
    by (simp add: rebuild_secret_registry_def secret_tunnels_def)
qed

definition secret_key :: "(string \<Rightarrow> string) \<Rightarrow> string \<Rightarrow> Tunnel \<Rightarrow> bool" where
  "secret_key md5_hex key t \<longleftrightarrow> key = tn_password t \<or> key = md5_hex (tn_password t)"

lemma fold_add_secret:
  "(hm_get (fold (add_secret md5_hex) ts m) key = Some t \<longrightarrow>
      (t \<in> set ts \<and> secret_key md5_hex key t) \<or> hm_get m key = Some t)
   \<and> ((\<exists>t \<in> set ts. secret_key md5_hex key t) \<or> hm_get m key \<noteq> None \<longrightarrow>
      hm_get (fold (add_secret md5_hex) ts m) key \<noteq> None)"
proof (induction ts arbitrary: m)
  case (Cons x ts)
  have "hm_get (add_secret md5_hex x m) key = (if secret_key md5_hex key x then Some x else hm_get m key)"
    by (auto simp: add_secret_def secret_key_def hm_simps)
  with Cons.IH [of "add_secret md5_hex x m"] show ?case by (auto split: if_splits)
qed simp

lemma secret_tunnels_iff:
  "t \<in> set (secret_tunnels r) \<longleftrightarrow>
   (\<exists>c \<in> set (hm_values (re_clients r)). ci_status (rc_info c) \<and> t \<in> set (rc_tunnels c) \<and> offers_secret t)"
  by (auto simp: secret_tunnels_def split: if_splits)

section \<open>Properties\<close>

text \<open>
  Link ids are never reused.  If the ids known so far are below the counter and the
  counter cannot wrap during the run, every id that \<open>next_link_id\<close> issues differs from
  all ids issued before it and from all ids seen by \<open>observe_id\<close> before it.
\<close>

lemma link_ids_fresh:
  assumes "\<forall>i \<in> set known. i < re_seq r"
    and "unat (re_seq r) + length ops < 2 ^ 64"
    and "\<forall>i. ObserveId i \<in> set ops \<longrightarrow> unat i + length ops < 2 ^ 64 - 1"
  shows "fresh_run ops r known"
  using fresh_run_ok [of r known ops] assms by (simp add: ids_seen_def)

text \<open>
  C38: The HTTP response cache refines a bounded queue: storing a response moves or appends
  its key to the young end and, for a new key and a positive limit, drops the oldest keys
  beyond the limit; the index and the queue stay consistent.
\<close>

theorem cache_insert_refinement:
  assumes "cache_ok c"
  shows "cache_ok (cache_insert key value limit c)
     \<and> cache_abs (cache_insert key value limit c) = lru_insert key value limit (cache_abs c)
     \<and> cache_get key (cache_insert key value limit c) = Some value"
proof -
  let ?c = "cache_insert key value limit c"
  have ok: "cache_ok ?c" and abs: "cache_abs ?c = lru_insert key value limit (cache_abs c)"
    using cache_insert_refines [OF assms] by auto
  have "(key, value) \<in> set (cache_abs ?c)"
    unfolding abs lru_insert_def Let_def by (auto simp: Suc_diff_le)
  then have "key \<in> set (hr_order ?c)" "value = the (hm_get (hr_entries ?c) key)"
    by (auto simp: cache_abs_def)
  moreover have "hm_get (hr_entries ?c) key \<noteq> None"
    using ok \<open>key \<in> set (hr_order ?c)\<close> by (auto simp: cache_ok_def map_of_eq_None_iff)
  ultimately show ?thesis
    using ok abs by (auto simp: cache_get_def)
qed

theorem cache_insert_refinement_witness:
  "cache_abs (cache_insert ''/c.js'' [3] 2
     \<lparr>hr_entries = [(''/a.js'', [1]), (''/b.js'', [2])], hr_order = [''/a.js'', ''/b.js'']\<rparr>)
   = [(''/b.js'', [2]), (''/c.js'', [3])]"
  using cache_insert_refinement
    [of "\<lparr>hr_entries = [(''/a.js'', [1]), (''/b.js'', [2])], hr_order = [''/a.js'', ''/b.js'']\<rparr>" "''/c.js''" "[3]" 2]
  by (simp add: cache_ok_def hm_ok_def lru_insert_def cache_abs_def)

definition demo_client :: "usize \<Rightarrow> ClientRuntimeConfig" where
  "demo_client n = rc_info_update (\<lambda>i. i\<lparr>ci_max_conn := n\<rparr>) ClientRuntimeConfig_default"

text \<open>
  A rebuilt secret registry holds exactly what the clients offer.  A password opens
  only a secret or p2p tunnel that is switched on and running, that belongs to an enabled
  client, and whose password is the key or has the key as its MD5 digest; and every such
  tunnel's password and digest open some such tunnel.
\<close>

lemma secret_registry_exact:
  fixes r md5_hex
  defines "offered \<equiv> \<lambda>key t. (key = tn_password t \<or> key = md5_hex (tn_password t)) \<and> offers_secret t
     \<and> (\<exists>c \<in> set (hm_values (re_clients r)). ci_status (rc_info c) \<and> t \<in> set (rc_tunnels c))"
  shows "(hm_get (re_secrets (rebuild_secret_registry md5_hex r)) key = Some t \<longrightarrow> offered key t)
     \<and> ((\<exists>t. offered key t) \<longrightarrow> hm_get (re_secrets (rebuild_secret_registry md5_hex r)) key \<noteq> None)"
proof -
  have offered: "offered key t \<longleftrightarrow> t \<in> set (secret_tunnels r) \<and> secret_key md5_hex key t" for key t
    unfolding offered_def secret_tunnels_iff secret_key_def by blast
  show ?thesis
    unfolding rebuild_secrets_fold offered
    using fold_add_secret [of md5_hex "secret_tunnels r" "[]" key t] by auto
qed

end
