(* ===== verification/RustNet.thy ===== *)
theory RustNet
  imports RustStd
begin

text \<open>
  \<open>std::net\<close>: parsing of \<open>SocketAddr\<close> and printing of \<open>IpAddr\<close>, which the source
  uses to reduce a peer address to the IP it checks against its lists, and to write
  \<open>X-Real-IP\<close> and PROXY-protocol headers.  The grammar and the printed form are those
  of the standard library: dotted quads without leading zeros, bracketed IPv6 with an
  optional scope, the longest run of zero groups compressed.
\<close>

datatype ip_addr = V4 "u8 list" | V6 "u16 list"

record socket_addr =
  sa_ip :: ip_addr
  sa_port :: u16

section \<open>Parsing\<close>

definition digit_in :: "nat \<Rightarrow> char \<Rightarrow> nat option" where
  "digit_in radix c =
     (if is_digit c then Some (code c - 48)
      else if radix = 16 \<and> 97 \<le> code c \<and> code c \<le> 102 then Some (code c - 87)
      else if radix = 16 \<and> 65 \<le> code c \<and> code c \<le> 70 then Some (code c - 55)
      else None)"

definition digits_value :: "nat \<Rightarrow> string \<Rightarrow> nat" where
  "digits_value radix s = foldl (\<lambda>v c. v * radix + the (digit_in radix c)) 0 s"

text \<open>
  \<open>read_number\<close>: the maximal run of digits; too many digits, a value that does not fit,
  or a forbidden leading zero is a failure.
\<close>

definition read_number ::
  "nat \<Rightarrow> nat option \<Rightarrow> bool \<Rightarrow> nat \<Rightarrow> string \<Rightarrow> (nat \<times> string) option" where
  "read_number radix max_digits allow_zero_prefix bound s =
     (let ds = takeWhile (\<lambda>c. digit_in radix c \<noteq> None) s; n = length ds; v = digits_value radix ds
      in if n = 0 \<or> (case max_digits of None \<Rightarrow> False | Some m \<Rightarrow> m < n) then None
         else if \<not> allow_zero_prefix \<and> hd ds = CHR ''0'' \<and> 1 < n then None
         else if v < bound then Some (v, drop n s) else None)"

definition read_given_char :: "char \<Rightarrow> string \<Rightarrow> string option" where
  "read_given_char c s = (case s of [] \<Rightarrow> None | x # r \<Rightarrow> if x = c then Some r else None)"

text \<open>\<open>read_separator\<close>: before every item but the first, the separator is required.\<close>

definition read_separator ::
  "char \<Rightarrow> nat \<Rightarrow> (string \<Rightarrow> ('a \<times> string) option) \<Rightarrow> string \<Rightarrow> ('a \<times> string) option" where
  "read_separator c i p s =
     (if i = 0 then p s
      else (case read_given_char c s of None \<Rightarrow> None | Some r \<Rightarrow> p r))"

fun read_quad :: "nat \<Rightarrow> nat \<Rightarrow> string \<Rightarrow> (u8 list \<times> string) option" where
  "read_quad i 0 s = Some ([], s)"
| "read_quad i (Suc k) s =
     (case read_separator (CHR ''.'') i (read_number 10 (Some 3) False 256) s of
        None \<Rightarrow> None
      | Some (v, r) \<Rightarrow>
          (case read_quad (Suc i) k r of None \<Rightarrow> None | Some (vs, t) \<Rightarrow> Some (of_nat v # vs, t)))"

definition read_ipv4_addr :: "string \<Rightarrow> (u8 list \<times> string) option" where
  "read_ipv4_addr s = read_quad 0 4 s"

text \<open>
  \<open>read_groups\<close>: up to \<open>limit\<close> groups of the textual IPv6 form from position \<open>i\<close>;
  an embedded dotted quad ends the list and is reported by the flag.
\<close>

fun read_groups :: "nat \<Rightarrow> nat \<Rightarrow> string \<Rightarrow> u16 list \<times> bool \<times> string" where
  "read_groups i 0 s = ([], False, s)"
| "read_groups i (Suc k) s =
     (case (if 0 < k then read_separator (CHR '':'') i read_ipv4_addr s else None) of
        Some ([a, b, c, d], r) \<Rightarrow>
          ([of_nat (unat a * 256 + unat b), of_nat (unat c * 256 + unat d)], True, r)
      | _ \<Rightarrow>
          (case read_separator (CHR '':'') i (read_number 16 (Some 4) True 65536) s of
             None \<Rightarrow> ([], False, s)
           | Some (g, r) \<Rightarrow>
               (case read_groups (Suc i) k r of (gs, v4, t) \<Rightarrow> (of_nat g # gs, v4, t))))"

definition read_ipv6_addr :: "string \<Rightarrow> (u16 list \<times> string) option" where
  "read_ipv6_addr s =
     (case read_groups 0 8 s of (head, head_v4, r) \<Rightarrow>
        if length head = 8 then Some (head, r)
        else if head_v4 then None
        else (case strip_prefix ''::'' r of
                None \<Rightarrow> None
              | Some r' \<Rightarrow>
                  (case read_groups 0 (8 - (length head + 1)) r' of (tail, _, t) \<Rightarrow>
                     Some (head @ replicate (8 - length head - length tail) 0 @ tail, t))))"

definition read_port :: "string \<Rightarrow> (u16 \<times> string) option" where
  "read_port s =
     (case read_given_char (CHR '':'') s of
        None \<Rightarrow> None
      | Some r \<Rightarrow> map_option (map_prod of_nat id) (read_number 10 None True 65536 r))"

definition read_scope_id :: "string \<Rightarrow> string" where
  "read_scope_id s =
     (case read_given_char (CHR ''%'') s of
        None \<Rightarrow> s
      | Some r \<Rightarrow> (case read_number 10 None True (2 ^ 32) r of None \<Rightarrow> s | Some (_, t) \<Rightarrow> t))"

definition parse_socket_addr_v4 :: "string \<Rightarrow> socket_addr option" where
  "parse_socket_addr_v4 s =
     (case read_ipv4_addr s of
        None \<Rightarrow> None
      | Some (ip, r) \<Rightarrow>
          (case read_port r of
             None \<Rightarrow> None
           | Some (port, t) \<Rightarrow> if t = [] then Some \<lparr>sa_ip = V4 ip, sa_port = port\<rparr> else None))"

definition parse_socket_addr_v6 :: "string \<Rightarrow> socket_addr option" where
  "parse_socket_addr_v6 s =
     (case read_given_char (CHR ''['') s of
        None \<Rightarrow> None
      | Some r \<Rightarrow>
          (case read_ipv6_addr r of
             None \<Rightarrow> None
           | Some (ip, r') \<Rightarrow>
               (case read_given_char (CHR '']'') (read_scope_id r') of
                  None \<Rightarrow> None
                | Some q \<Rightarrow>
                    (case read_port q of
                       None \<Rightarrow> None
                     | Some (port, t) \<Rightarrow>
                         if t = [] then Some \<lparr>sa_ip = V6 ip, sa_port = port\<rparr> else None))))"

definition parse_socket_addr :: "string \<Rightarrow> socket_addr option" where
  "parse_socket_addr s =
     (case parse_socket_addr_v4 s of Some a \<Rightarrow> Some a | None \<Rightarrow> parse_socket_addr_v6 s)"

section \<open>Printing\<close>

fun join :: "string \<Rightarrow> string list \<Rightarrow> string" where
  "join sep [] = []"
| "join sep [x] = x"
| "join sep (x # xs) = x @ sep @ join sep xs"

definition show_ipv4 :: "u8 list \<Rightarrow> string" where
  "show_ipv4 o4 = join ''.'' (map (\<lambda>b. show_nat (unat b)) o4)"

text \<open>The first longest run of zero groups, as start and length.\<close>

fun zero_run :: "nat \<Rightarrow> nat \<times> nat \<Rightarrow> nat \<times> nat \<Rightarrow> u16 list \<Rightarrow> nat \<times> nat" where
  "zero_run i cur best [] = best"
| "zero_run i cur best (g # gs) =
     (if g = 0
      then (let cur' = (if snd cur = 0 then (i, 1) else (fst cur, Suc (snd cur)))
            in zero_run (Suc i) cur' (if snd best < snd cur' then cur' else best) gs)
      else zero_run (Suc i) (0, 0) best gs)"

definition show_groups :: "u16 list \<Rightarrow> string" where
  "show_groups gs = join '':'' (map (\<lambda>g. show_hex (unat g)) gs)"

definition show_ipv6 :: "u16 list \<Rightarrow> string" where
  "show_ipv6 gs =
     (if take 6 gs = [0, 0, 0, 0, 0, 0xFFFF]
      then ''::ffff:'' @ show_ipv4
             (concat (map (\<lambda>g. [of_nat (unat g div 256), of_nat (unat g mod 256)]) (drop 6 gs)))
      else (case zero_run 0 (0, 0) (0, 0) gs of (start, len) \<Rightarrow>
              if 1 < len
              then show_groups (take start gs) @ ''::'' @ show_groups (drop (start + len) gs)
              else show_groups gs))"

definition show_ip :: "ip_addr \<Rightarrow> string" where
  "show_ip ip = (case ip of V4 o4 \<Rightarrow> show_ipv4 o4 | V6 gs \<Rightarrow> show_ipv6 gs)"

lemma show_nat_small: "n < 10 \<Longrightarrow> show_nat n = [char_of (48 + n)]"
  by (subst show_nat.simps) simp

text \<open>The parser and the printer agree on examples of both families.\<close>

lemma parse_v4_example:
  "map_option (\<lambda>a. (show_ip (sa_ip a), sa_port a)) (parse_socket_addr ''127.0.0.1:8080'')
   = Some (''127.0.0.1'', 8080)"
  by code_simp

lemma parse_v6_example:
  "map_option (\<lambda>a. (show_ip (sa_ip a), sa_port a)) (parse_socket_addr ''[2001:DB8:0:0::1]:53'')
   = Some (''2001:db8::1'', 53)"
  by code_simp

end
