(* ===== verification/Access.thy ===== *)
theory Access
  imports Registry RustNet
begin

text \<open>
  Who may connect: address parsing, the black and white lists, authorised addresses, and
  the two checks \<open>validate_client_access\<close> (a visitor of a tunnel) and
  \<open>validate_client_handshake\<close> (a client on the bridge) of \<open>src/server.rs\<close>.  Both prune
  the expired authorisations, and the first may create a flow counter, so both return
  the state.  The current time is an argument.
\<close>

section \<open>Addresses\<close>

definition strip_host_port :: "string \<Rightarrow> string" where
  "strip_host_port host =
     (let clean = trim_end_matches (CHR ''.'') (trim host)
      in if prefix ''['' clean then clean
         else (case rsplit_once (CHR '':'') clean of
                 Some (name, port) \<Rightarrow> if parse_u16 port \<noteq> None then name else clean
               | None \<Rightarrow> clean))"

definition remote_ip :: "string \<Rightarrow> string" where
  "remote_ip remote =
     (case parse_socket_addr remote of
        Some addr \<Rightarrow> show_ip (sa_ip addr)
      | None \<Rightarrow> strip_host_port remote)"

definition ip_in_list :: "string \<Rightarrow> string list \<Rightarrow> bool" where
  "ip_in_list ip items = list_ex (\<lambda>item. trim item = ip) items"

section \<open>Authorised addresses\<close>

definition authorize_ip :: "time \<Rightarrow> string \<Rightarrow> u32 \<Rightarrow> Registry \<Rightarrow> Registry" where
  "authorize_ip now remote hours r =
     (let ip = remote_ip remote
      in if ip = [] then r
         else (let expires_at = now + secs (unat (max hours 1) * 3600)
               in r\<lparr>re_authorized_ips := hm_insert ip expires_at (re_authorized_ips r)\<rparr>))"

definition is_ip_authorized :: "time \<Rightarrow> string \<Rightarrow> Registry \<Rightarrow> bool \<times> Registry" where
  "is_ip_authorized now ip r =
     (let ips = filter (\<lambda>(_, expires_at). now < expires_at) (re_authorized_ips r)
      in ((case hm_get ips ip of None \<Rightarrow> False | Some expires_at \<Rightarrow> now < expires_at),
          r\<lparr>re_authorized_ips := ips\<rparr>))"

definition ensure_ip_registration_vkey :: "Registry \<Rightarrow> string \<Rightarrow> unit io_result" where
  "ensure_ip_registration_vkey r vkey =
     (if trim vkey = [] then Inl (IoError InvalidInput ''empty vkey'')
      else if vkey = sc_public_vkey (re_server r) then Inr ()
      else if hm_contains (re_clients r) vkey then Inr ()
      else Inl (IoError PermissionDenied ''client not found for ip registration''))"

section \<open>The two checks\<close>

definition denied :: "string \<Rightarrow> unit io_result" where
  "denied msg = Inl (IoError PermissionDenied msg)"

definition not_in_validation_list :: "string \<Rightarrow> string" where
  "not_in_validation_list ip = ''the ip '' @ ip @ '' is not in the validation list''"

text \<open>The part of the access check that looks at the client itself.\<close>

definition check_client_access :: "string \<Rightarrow> string \<Rightarrow> Registry \<Rightarrow> unit io_result" where
  "check_client_access vkey ip r =
     (case client_of vkey r of
        None \<Rightarrow> Inl (IoError NotFound ''client not found'')
      | Some client \<Rightarrow>
          let info = rc_info client
          in if \<not> ci_status info then denied ''client disabled''
             else if rc_no_store client \<and> \<not> ci_config_conn_allow info
             then denied ''config connection is disabled for this client''
             else if ip_in_list ip (ci_black_ip_list info) then denied ''remote ip is in client blacklist''
             else if ci_ip_white info \<and> \<not> ip_in_list ip (ci_ip_white_list info)
             then denied ''remote ip is not in client whitelist''
             else Inr ())"

definition validate_client_access ::
  "time \<Rightarrow> string \<Rightarrow> string \<Rightarrow> Registry \<Rightarrow> unit io_result \<times> Registry" where
  "validate_client_access now vkey remote r =
     (let ip = remote_ip remote
      in if ip = [] then (Inr (), r)
         else
         (let (authorized, r1) =
                (if sc_ip_limit (re_server r) then is_ip_authorized now ip r else (True, r))
          in if \<not> authorized then (denied (not_in_validation_list ip), r1)
             else
             (case client_flow_limit_reached vkey r1 of
                (True, r2) \<Rightarrow> (denied ''traffic exceeded'', r2)
              | (False, r2) \<Rightarrow>
                  if ip_in_list ip (gc_black_ip_list (re_global r2))
                  then (denied ''remote ip is in global blacklist'', r2)
                  else (check_client_access vkey ip r2, r2))))"

definition check_client_handshake :: "string \<Rightarrow> string \<Rightarrow> bool \<Rightarrow> Registry \<Rightarrow> unit io_result" where
  "check_client_handshake vkey ip require_config_conn_allow r =
     (case client_of vkey r of
        None \<Rightarrow> denied ''invalid verification key''
      | Some client \<Rightarrow>
          let info = rc_info client
          in if \<not> ci_status info then denied ''client disabled''
             else if require_config_conn_allow \<and> \<not> ci_config_conn_allow info
             then denied ''config connection is disabled for this client''
             else if ip \<noteq> [] \<and> ip_in_list ip (ci_black_ip_list info)
             then denied ''remote ip is in client blacklist''
             else if ip \<noteq> [] \<and> ci_ip_white info \<and> \<not> ip_in_list ip (ci_ip_white_list info)
             then denied ''remote ip is not in client whitelist''
             else Inr ())"

definition validate_client_handshake ::
  "time \<Rightarrow> string \<Rightarrow> string \<Rightarrow> bool \<Rightarrow> Registry \<Rightarrow> unit io_result \<times> Registry" where
  "validate_client_handshake now vkey remote require_config_conn_allow r =
     (if trim vkey = [] then (denied ''invalid verification key'', r)
      else if require_config_conn_allow \<and> vkey = sc_public_vkey (re_server r) then (Inr (), r)
      else
      (let ip = remote_ip remote;
           (authorized, r1) =
             (if sc_ip_limit (re_server r) \<and> ip \<noteq> [] then is_ip_authorized now ip r else (True, r))
       in if \<not> authorized then (denied (not_in_validation_list ip), r1)
          else if ip \<noteq> [] \<and> ip_in_list ip (gc_black_ip_list (re_global r1))
          then (denied ''remote ip is in global blacklist'', r1)
          else (check_client_handshake vkey ip require_config_conn_allow r1, r1)))"

definition client_transport_flags :: "Registry \<Rightarrow> string \<Rightarrow> bool \<Rightarrow> bool \<times> bool" where
  "client_transport_flags r vkey disable_transport =
     (if disable_transport then (False, False)
      else (case client_of vkey r of
              None \<Rightarrow> (False, False)
            | Some client \<Rightarrow>
                (ci_crypt (rc_info client), \<not> ci_crypt (rc_info client) \<and> ci_compress (rc_info client))))"

section \<open>Facts\<close>

text \<open>When an address holds a valid authorisation.\<close>

definition authorized_at :: "time \<Rightarrow> string \<Rightarrow> Registry \<Rightarrow> bool" where
  "authorized_at now ip r \<longleftrightarrow> (\<exists>e. hm_get (re_authorized_ips r) ip = Some e \<and> now < e)"

lemma map_of_filter_some:
  "hm_ok m \<Longrightarrow> hm_get (filter (\<lambda>(_, e). P e) m) k = (case hm_get m k of Some e \<Rightarrow> if P e then Some e else None | None \<Rightarrow> None)"
  by (induction m) (auto simp: hm_ok_def map_of_eq_None_iff image_iff split: option.splits)

lemma is_ip_authorized_iff:
  "hm_ok (re_authorized_ips r) \<Longrightarrow> fst (is_ip_authorized now ip r) = authorized_at now ip r"
  by (auto simp: is_ip_authorized_def authorized_at_def Let_def map_of_filter_some split: option.splits)

lemma is_ip_authorized_fields [simp]:
  "re_clients (snd (is_ip_authorized now ip r)) = re_clients r"
  "re_server (snd (is_ip_authorized now ip r)) = re_server r"
  "re_global (snd (is_ip_authorized now ip r)) = re_global r"
  "re_flow_counters (snd (is_ip_authorized now ip r)) = re_flow_counters r"
  by (simp_all add: is_ip_authorized_def Let_def)

lemma flow_limit_fields [simp]:
  "re_clients (snd (client_flow_limit_reached vkey r)) = re_clients r"
  "re_server (snd (client_flow_limit_reached vkey r)) = re_server r"
  "re_global (snd (client_flow_limit_reached vkey r)) = re_global r"
  by (auto simp: client_flow_limit_reached_def client_flow_counter_def Let_def split: option.splits)

text \<open>The traffic of a client is at its limit.\<close>

definition flow_exhausted :: "string \<Rightarrow> Registry \<Rightarrow> bool" where
  "flow_exhausted vkey r \<longleftrightarrow> sc_allow_flow_limit (re_server r)
     \<and> (\<exists>c. client_of vkey r = Some c \<and> ci_flow_limit_mb (rc_info c) \<noteq> 0
          \<and> saturating_mul (ci_flow_limit_mb (rc_info c)) (1024 * 1024) \<le> flow_total (client_flow_snapshot vkey r))"

lemma flow_limit_reached_iff: "fst (client_flow_limit_reached vkey r) = flow_exhausted vkey r"
  by (auto simp: client_flow_limit_reached_def flow_exhausted_def client_flow_counter_def
      client_flow_snapshot_def flow_total_def Let_def split: option.splits)

lemma flow_exhausted_authorized [simp]:
  "flow_exhausted vkey (snd (is_ip_authorized now ip r)) = flow_exhausted vkey r"
  by (simp add: flow_exhausted_def client_flow_snapshot_def)

lemma check_client_access_ok_iff:
  "check_client_access vkey ip r = Inr () \<longleftrightarrow>
   (\<exists>c. client_of vkey r = Some c \<and> ci_status (rc_info c)
      \<and> (rc_no_store c \<longrightarrow> ci_config_conn_allow (rc_info c))
      \<and> \<not> ip_in_list ip (ci_black_ip_list (rc_info c))
      \<and> (ci_ip_white (rc_info c) \<longrightarrow> ip_in_list ip (ci_ip_white_list (rc_info c))))"
  by (auto simp: check_client_access_def denied_def Let_def split: option.splits)

lemma check_client_handshake_ok_iff:
  "check_client_handshake vkey ip req r = Inr () \<longleftrightarrow>
   (\<exists>c. client_of vkey r = Some c \<and> ci_status (rc_info c)
      \<and> (req \<longrightarrow> ci_config_conn_allow (rc_info c))
      \<and> (ip \<noteq> [] \<longrightarrow> \<not> ip_in_list ip (ci_black_ip_list (rc_info c))
           \<and> (ci_ip_white (rc_info c) \<longrightarrow> ip_in_list ip (ci_ip_white_list (rc_info c)))))"
  by (auto simp: check_client_handshake_def denied_def Let_def split: option.splits)

lemma check_client_access_cong:
  "re_clients r' = re_clients r \<Longrightarrow> check_client_access vkey ip r' = check_client_access vkey ip r"
  by (simp add: check_client_access_def)

lemma check_client_handshake_cong:
  "re_clients r' = re_clients r \<Longrightarrow> check_client_handshake vkey ip req r' = check_client_handshake vkey ip req r"
  by (simp add: check_client_handshake_def)

section \<open>Properties\<close>

text \<open>
  C20: A visitor gets through to a client exactly when its address is authorised (where
  \<open>ip_limit\<close> is on) and in no black list, the client exists, is enabled, may be used
  through its configuration connection if that is all it has, has traffic left, and its
  white list, where it is on, contains the address.  A visitor whose address is
  empty is not checked.
\<close>

theorem visitor_access_iff:
  assumes "hm_ok (re_authorized_ips r)"
  shows "fst (validate_client_access now vkey remote r) = Inr () \<longleftrightarrow>
     remote_ip remote = [] \<or>
     ((sc_ip_limit (re_server r) \<longrightarrow> authorized_at now (remote_ip remote) r)
      \<and> \<not> flow_exhausted vkey r
      \<and> \<not> ip_in_list (remote_ip remote) (gc_black_ip_list (re_global r))
      \<and> (\<exists>c. client_of vkey r = Some c \<and> ci_status (rc_info c)
           \<and> (rc_no_store c \<longrightarrow> ci_config_conn_allow (rc_info c))
           \<and> \<not> ip_in_list (remote_ip remote) (ci_black_ip_list (rc_info c))
           \<and> (ci_ip_white (rc_info c) \<longrightarrow> ip_in_list (remote_ip remote) (ci_ip_white_list (rc_info c)))))"
proof -
  let ?ip = "remote_ip remote"
  let ?g = "if sc_ip_limit (re_server r) then is_ip_authorized now ?ip r else (True, r)"
  let ?f = "client_flow_limit_reached vkey (snd ?g)"
  have auth: "fst ?g \<longleftrightarrow> (sc_ip_limit (re_server r) \<longrightarrow> authorized_at now ?ip r)"
    using is_ip_authorized_iff [OF assms] by simp
  have flow: "fst ?f = flow_exhausted vkey r" "re_global (snd ?f) = re_global r"
    "re_clients (snd ?f) = re_clients r"
    by (simp_all add: flow_limit_reached_iff)
  have "fst (validate_client_access now vkey remote r) =
     (if ?ip = [] then Inr () else if \<not> fst ?g then denied (not_in_validation_list ?ip)
      else if fst ?f then denied ''traffic exceeded''
      else if ip_in_list ?ip (gc_black_ip_list (re_global (snd ?f))) then denied ''remote ip is in global blacklist''
      else check_client_access vkey ?ip (snd ?f))"
    by (cases ?g; cases ?f) (auto simp: validate_client_access_def Let_def split: bool.splits)
  then show ?thesis
    using auth flow check_client_access_cong [OF flow(3), of vkey ?ip] check_client_access_ok_iff [of vkey ?ip r]
    by (simp add: denied_def)
qed

definition demo_registry :: Registry where
  "demo_registry = (Registry_new ServerConfig_default)
     \<lparr>re_clients := [(''k'', rc_info_update (\<lambda>i. i\<lparr>ci_black_ip_list := [''10.0.0.9'']\<rparr>) ClientRuntimeConfig_default)]\<rparr>"

theorem visitor_access_iff_witness:
  "fst (validate_client_access 0 ''k'' ''10.0.0.8:5000'' demo_registry) = Inr ()
   \<and> fst (validate_client_access 0 ''k'' ''10.0.0.9:5000'' demo_registry) \<noteq> Inr ()"
proof -
  have ok: "hm_ok (re_authorized_ips demo_registry)"
    by (simp add: demo_registry_def Registry_new_def)
  have ip: "remote_ip ''10.0.0.8:5000'' = ''10.0.0.8''" "remote_ip ''10.0.0.9:5000'' = ''10.0.0.9''"
    "trim ''10.0.0.9'' = ''10.0.0.9''"
    by code_simp+
  show ?thesis
    unfolding visitor_access_iff [OF ok] ip
    by (simp add: demo_registry_def Registry_new_def ServerConfig_default_def GlobalConfig_default_def
        ip_in_list_def flow_exhausted_def rc_info_update_def ClientRuntimeConfig_default_def
        CommonConfig_default_def ClientInfo_default_def ip)
qed

text \<open>
  C6: A bridge handshake is accepted exactly when its key is not blank and is the public
  key on a configuration connection, or names an enabled client that allows this kind of
  connection, from an address that passes the authorisation, black list and white list checks.
\<close>

theorem handshake_accepted_iff:
  assumes "hm_ok (re_authorized_ips r)"
  shows "fst (validate_client_handshake now vkey remote req r) = Inr () \<longleftrightarrow>
     trim vkey \<noteq> [] \<and>
     (req \<and> vkey = sc_public_vkey (re_server r) \<or>
      (remote_ip remote \<noteq> [] \<longrightarrow>
         (sc_ip_limit (re_server r) \<longrightarrow> authorized_at now (remote_ip remote) r)
         \<and> \<not> ip_in_list (remote_ip remote) (gc_black_ip_list (re_global r)))
      \<and> (\<exists>c. client_of vkey r = Some c \<and> ci_status (rc_info c)
           \<and> (req \<longrightarrow> ci_config_conn_allow (rc_info c))
           \<and> (remote_ip remote \<noteq> [] \<longrightarrow>
                \<not> ip_in_list (remote_ip remote) (ci_black_ip_list (rc_info c))
                \<and> (ci_ip_white (rc_info c) \<longrightarrow> ip_in_list (remote_ip remote) (ci_ip_white_list (rc_info c))))))"
proof -
  let ?ip = "remote_ip remote"
  let ?g = "if sc_ip_limit (re_server r) \<and> ?ip \<noteq> [] then is_ip_authorized now ?ip r else (True, r)"
  have auth: "fst ?g \<longleftrightarrow> (sc_ip_limit (re_server r) \<and> ?ip \<noteq> [] \<longrightarrow> authorized_at now ?ip r)"
    using is_ip_authorized_iff [OF assms] by auto
  have same: "re_global (snd ?g) = re_global r" "re_clients (snd ?g) = re_clients r"
    by simp_all
  have "fst (validate_client_handshake now vkey remote req r) =
     (if trim vkey = [] then denied ''invalid verification key''
      else if req \<and> vkey = sc_public_vkey (re_server r) then Inr ()
      else if \<not> fst ?g then denied (not_in_validation_list ?ip)
      else if ?ip \<noteq> [] \<and> ip_in_list ?ip (gc_black_ip_list (re_global (snd ?g)))
      then denied ''remote ip is in global blacklist''
      else check_client_handshake vkey ?ip req (snd ?g))"
    by (cases ?g) (auto simp: validate_client_handshake_def Let_def)
  then show ?thesis
    unfolding auth same check_client_handshake_cong [OF same(2)] check_client_handshake_ok_iff
    using check_client_handshake_ok_iff [of vkey ?ip req r] by (auto simp: denied_def)
qed

theorem handshake_accepted_iff_witness:
  "fst (validate_client_handshake 0 ''k'' ''10.0.0.8:5000'' False demo_registry) = Inr ()
   \<and> fst (validate_client_handshake 0 ''x'' ''10.0.0.8:5000'' False demo_registry) \<noteq> Inr ()"
proof -
  have ok: "hm_ok (re_authorized_ips demo_registry)"
    by (simp add: demo_registry_def Registry_new_def)
  have ip: "remote_ip ''10.0.0.8:5000'' = ''10.0.0.8''" "trim ''10.0.0.9'' = ''10.0.0.9''"
    "trim ''k'' = ''k''" "trim ''x'' = ''x''"
    by code_simp+
  show ?thesis
    unfolding handshake_accepted_iff [OF ok] ip
    by (simp add: demo_registry_def Registry_new_def ServerConfig_default_def GlobalConfig_default_def
        ip_in_list_def rc_info_update_def ClientRuntimeConfig_default_def
        CommonConfig_default_def ClientInfo_default_def ip)
qed

text \<open>
  An address that registers is authorised for the hours it asked for, at least one,
  and not a moment longer; registering one address changes the authorisation of no other.
\<close>

lemma registration_window:
  assumes "hm_ok (re_authorized_ips r)" "remote_ip remote \<noteq> []"
  shows "fst (is_ip_authorized t ip (authorize_ip now remote hours r)) \<longleftrightarrow>
     (if ip = remote_ip remote then t < now + secs (unat (max hours 1) * 3600) else authorized_at t ip r)"
proof -
  let ?r = "authorize_ip now remote hours r"
  have "hm_ok (re_authorized_ips ?r)"
    using assms by (simp add: authorize_ip_def Let_def inv_intros)
  from is_ip_authorized_iff [OF this, of t ip] assms show ?thesis
    by (auto simp: authorized_at_def authorize_ip_def Let_def hm_simps)
qed

end
