(* ===== verification/Http.thy ===== *)
theory Http
  imports RustNet Model
begin

text \<open>
  The HTTP helpers of \<open>src/relay.rs\<close>: reading a head, looking into it, rewriting it and
  writing a response.  A head is a buffer of bytes, here a list of characters; the source
  looks at it through \<open>String::from_utf8_lossy\<close>.  Base64 decoding belongs to a
  dependency and is the argument \<open>b64_decode\<close>.
\<close>

section \<open>Reading a head\<close>

definition CRLF :: string where "CRLF = [CHR 0x0D, CHR 0x0A]"

definition head_end :: "string \<Rightarrow> bool" where
  "head_end buf = suffix (CRLF @ CRLF) buf"

text \<open>
  \<open>read_http_head\<close> on a stream of which the bytes until its end are known: the head, or the
  error, and the bytes left.
\<close>

fun read_head :: "string \<Rightarrow> usize \<Rightarrow> string \<Rightarrow> string io_result \<times> string" where
  "read_head buf max_len s =
     (if length buf < max_len
      then (case s of
              [] \<Rightarrow> (if head_end buf then Inr buf else Inl (IoError UnexpectedEof ''incomplete http header''), s)
            | one # rest \<Rightarrow>
                (let buf' = buf @ [one]
                 in if head_end buf' then (Inr buf', rest) else read_head buf' max_len rest))
      else (if head_end buf then Inr buf else Inl (IoError UnexpectedEof ''incomplete http header''), s))"

declare read_head.simps [simp del]

definition read_http_head :: "string \<Rightarrow> usize \<Rightarrow> string io_result \<times> string" where
  "read_http_head stream max_len = read_head [] max_len stream"

section \<open>Looking into a head\<close>

definition ensure_port :: "string \<Rightarrow> u16 \<Rightarrow> string" where
  "ensure_port addr default_port =
     (let clean = trim addr
      in if prefix ''['' clean then clean
         else if Option.bind (rsplit_once (CHR '':'') clean) (\<lambda>(_, p). parse_u16 p) \<noteq> None then clean
         else clean @ '':'' @ show_nat (unat default_port))"

text \<open>The value of the first \<open>host\<close> line among the given lines.\<close>

definition host_line :: "string list \<Rightarrow> string option" where
  "host_line ls =
     find_map (\<lambda>line. case split_once (CHR '':'') line of
                        None \<Rightarrow> None
                      | Some (k, v) \<Rightarrow> if eq_ignore_ascii_case k ''host'' then Some v else None) ls"

definition parse_http_target :: "string \<Rightarrow> (string \<times> bool) option" where
  "parse_http_target head =
     (case lines (utf8_lossy head) of
        [] \<Rightarrow> None
      | l # ls \<Rightarrow>
          (case split_whitespace (trim l) of
             [] \<Rightarrow> None
           | m # parts \<Rightarrow>
               let method = to_ascii_uppercase m;
                   uri = (case parts of [] \<Rightarrow> [] | u # _ \<Rightarrow> u)
               in if method = ''CONNECT'' then Some (ensure_port uri 443, True)
                  else map_option (\<lambda>v. (ensure_port (trim v) 80, False)) (host_line ls)))"

definition parse_http_host_path :: "string \<Rightarrow> (string \<times> string) option" where
  "parse_http_host_path head =
     (case lines (utf8_lossy head) of
        [] \<Rightarrow> None
      | l # ls \<Rightarrow>
          let path = (case split_whitespace (trim l) of _ # p # _ \<Rightarrow> p | _ \<Rightarrow> ''/'')
          in map_option (\<lambda>v. (to_ascii_lowercase (trim v), path)) (host_line ls))"

definition parse_http_request_line :: "string \<Rightarrow> (string \<times> string \<times> string) option" where
  "parse_http_request_line head =
     (case lines (utf8_lossy head) of
        [] \<Rightarrow> None
      | l # _ \<Rightarrow>
          (case split_whitespace (trim l) of
             m # p # rest \<Rightarrow> Some (m, p, case rest of [] \<Rightarrow> ''HTTP/1.1'' | v # _ \<Rightarrow> v)
           | _ \<Rightarrow> None))"

definition parse_http_status_code :: "string \<Rightarrow> u16 option" where
  "parse_http_status_code head =
     (case lines (utf8_lossy head) of
        [] \<Rightarrow> None
      | l # _ \<Rightarrow> (case split_whitespace (trim l) of _ # c # _ \<Rightarrow> parse_u16 c | _ \<Rightarrow> None))"

fun header_lookup :: "string \<Rightarrow> string list \<Rightarrow> string option" where
  "header_lookup name [] = None"
| "header_lookup name (l # ls) =
     (let line = trim_end l
      in if line = [] then None
         else (case split_once (CHR '':'') line of
                 Some (key, value) \<Rightarrow>
                   if eq_ignore_ascii_case (trim key) name then Some (trim value)
                   else header_lookup name ls
               | None \<Rightarrow> header_lookup name ls))"

definition http_header_value :: "string \<Rightarrow> string \<Rightarrow> string option" where
  "http_header_value head name = header_lookup name (drop 1 (lines (utf8_lossy head)))"

definition check_http_basic_auth ::
  "(string \<Rightarrow> string option) \<Rightarrow> string \<Rightarrow> string \<Rightarrow> string \<Rightarrow> bool" where
  "check_http_basic_auth b64_decode head user passwd =
     (let expected = user @ '':'' @ passwd
      in list_ex (\<lambda>name.
           case http_header_value head name of
             None \<Rightarrow> False
           | Some value \<Rightarrow>
               let (scheme, token) = (case split_once (CHR '' '') value of
                                        Some p \<Rightarrow> p | None \<Rightarrow> (value, []))
               in eq_ignore_ascii_case scheme ''Basic'' \<and> b64_decode (trim token) = Some expected)
         [''Authorization'', ''Proxy-Authorization''])"

section \<open>Rewriting a head\<close>

type_synonym headers = "(string \<times> string) list"

fun set_header :: "string \<Rightarrow> string \<Rightarrow> headers \<Rightarrow> headers" where
  "set_header name value [] = [(name, value)]"
| "set_header name value ((k, v) # hs) =
     (if eq_ignore_ascii_case k name then (k, value) # hs else (k, v) # set_header name value hs)"

definition get_header :: "string \<Rightarrow> headers \<Rightarrow> string option" where
  "get_header name hs = map_option snd (find (\<lambda>(k, _). eq_ignore_ascii_case k name) hs)"

definition remove_header :: "string \<Rightarrow> headers \<Rightarrow> headers" where
  "remove_header name hs = filter (\<lambda>(k, _). \<not> eq_ignore_ascii_case k name) hs"

definition header_lines :: "string list \<Rightarrow> headers" where
  "header_lines ls =
     List.map_filter (\<lambda>line. map_option (\<lambda>(n, v). (trim n, trim v)) (split_once (CHR '':'') line))
       (takeWhile (\<lambda>line. line \<noteq> []) ls)"

definition forwarded_ip :: "string \<Rightarrow> string" where
  "forwarded_ip remote_addr =
     (case parse_socket_addr remote_addr of
        Some addr \<Rightarrow> show_ip (sa_ip addr)
      | None \<Rightarrow> hd (split_on (CHR '':'') remote_addr))"

definition apply_header_change :: "string \<Rightarrow> headers \<Rightarrow> headers" where
  "apply_header_change header_change hs =
     fold (\<lambda>line hs. case split_once (CHR '':'') line of
                       None \<Rightarrow> hs
                     | Some (n, v) \<Rightarrow> set_header (trim n) (trim v) hs)
       (filter (\<lambda>line. line \<noteq> []) (map trim (lines header_change))) hs"

definition rewrite_headers ::
  "headers \<Rightarrow> string option \<Rightarrow> string \<Rightarrow> string \<Rightarrow> bool \<Rightarrow> bool \<Rightarrow> headers" where
  "rewrite_headers hs host_override header_change remote_addr add_origin_header force_close =
     (let h1 = (case host_override of
                  Some host \<Rightarrow> if trim host \<noteq> [] then set_header ''Host'' (trim host) hs else hs
                | None \<Rightarrow> hs);
          h2 = apply_header_change header_change h1;
          h3 = (if add_origin_header
                then (let ip = forwarded_ip remote_addr;
                          forwarded = (case get_header ''X-Forwarded-For'' h2 of
                                         Some existing \<Rightarrow> if existing \<noteq> [] then existing @ '', '' @ ip else ip
                                       | None \<Rightarrow> ip)
                      in set_header ''X-Real-IP'' ip (set_header ''X-Forwarded-For'' forwarded h2))
                else h2)
      in if force_close
         then set_header ''Connection'' ''close'' (remove_header ''Proxy-Connection'' h3)
         else h3)"

text \<open>\<open>split("\r\n")\<close>.\<close>

fun split_crlf :: "string \<Rightarrow> string list" where
  "split_crlf [] = [[]]"
| "split_crlf [c] = [[c]]"
| "split_crlf (a # b # s) =
     (if a = CHR 0x0D \<and> b = CHR 0x0A then [] # split_crlf s
      else (case split_crlf (b # s) of [] \<Rightarrow> [[a]] | p # ps \<Rightarrow> (a # p) # ps))"

definition print_head :: "string \<Rightarrow> headers \<Rightarrow> string" where
  "print_head request_line hs =
     request_line @ CRLF @ concat (map (\<lambda>(n, v). n @ '': '' @ v @ CRLF) hs) @ CRLF"

definition rewrite_http_request_head ::
  "string \<Rightarrow> string option \<Rightarrow> string \<Rightarrow> string \<Rightarrow> bool \<Rightarrow> bool \<Rightarrow> string" where
  "rewrite_http_request_head head host_override header_change remote_addr add_origin_header force_close =
     (case split_crlf (utf8_lossy head) of
        [] \<Rightarrow> []
      | request_line # ls \<Rightarrow>
          print_head request_line
            (rewrite_headers (header_lines ls) host_override header_change remote_addr
               add_origin_header force_close))"

definition write_http_response :: "string \<Rightarrow> string \<Rightarrow> string \<Rightarrow> string" where
  "write_http_response status content_type body =
     ''HTTP/1.1 '' @ status @ CRLF @ ''Content-Type: '' @ content_type @ CRLF
     @ ''Content-Length: '' @ show_nat (length body) @ CRLF @ ''Connection: close'' @ CRLF @ CRLF @ body"

section \<open>Facts\<close>

lemma head_end_Nil [simp]: "\<not> head_end []"
  by (simp add: head_end_def CRLF_def)

text \<open>A shortest head that starts with \<open>buf\<close> is one that starts with one more character.\<close>

lemma head_shift:
  assumes "\<not> head_end buf"
  shows "(\<exists>t. h = (buf @ [c]) @ t \<and> s' = t @ rest \<and> length h \<le> m \<and> head_end h
       \<and> (\<forall>k. length (buf @ [c]) \<le> k \<and> k < length h \<longrightarrow> \<not> head_end (take k h))) \<longleftrightarrow>
     (\<exists>t. h = buf @ t \<and> c # s' = t @ rest \<and> length h \<le> m \<and> head_end h
       \<and> (\<forall>k. length buf \<le> k \<and> k < length h \<longrightarrow> \<not> head_end (take k h)))"
  (is "?A \<longleftrightarrow> ?B")
proof
  assume ?A
  then obtain t where t: "h = (buf @ [c]) @ t" "s' = t @ rest" "length h \<le> m" "head_end h"
    "\<forall>k. length (buf @ [c]) \<le> k \<and> k < length h \<longrightarrow> \<not> head_end (take k h)" by blast
  have "\<not> head_end (take k h)" if "length buf \<le> k" "k < length h" for k
    using that t assms by (cases "k = length buf") auto
  with t show ?B by (intro exI [of _ "c # t"]) auto
next
  assume ?B
  then obtain t where t: "h = buf @ t" "c # s' = t @ rest" "length h \<le> m" "head_end h"
    "\<forall>k. length buf \<le> k \<and> k < length h \<longrightarrow> \<not> head_end (take k h)" by blast
  with assms obtain t' where "t = c # t'" by (cases t) auto
  with t show ?A by (intro exI [of _ t']) auto
qed

lemma read_head_iff:
  assumes "\<not> head_end buf"
  shows "read_head buf m s = (Inr h, rest) \<longleftrightarrow>
    (\<exists>t. h = buf @ t \<and> s = t @ rest \<and> length h \<le> m \<and> head_end h
       \<and> (\<forall>k. length buf \<le> k \<and> k < length h \<longrightarrow> \<not> head_end (take k h)))"
  using assms
proof (induction buf m s rule: read_head.induct)
  case (1 buf m s)
  show ?case
  proof (cases "length buf < m \<and> s \<noteq> []")
    case False
    then have "read_head buf m s \<noteq> (Inr h, rest)"
      using "1.prems" by (subst read_head.simps) auto
    moreover have False if t: "h = buf @ t" "s = t @ rest" "length h \<le> m" "head_end h" for t
      using that "1.prems" False by (cases t) auto
    ultimately show ?thesis by blast
  next
    case True
    then obtain c s' where s: "s = c # s'" by (cases s) auto
    show ?thesis
    proof (cases "head_end (buf @ [c])")
      case he: True
      have "t = [c]" if "h = buf @ t" "s = t @ rest" "head_end h"
        "\<forall>k. length buf \<le> k \<and> k < length h \<longrightarrow> \<not> head_end (take k h)" for t
      proof (cases t)
        case Nil
        with that "1.prems" show ?thesis by simp
      next
        case (Cons d t')
        with that(4) [rule_format, of "length buf + 1"] that(1,2) s he show ?thesis
          by (cases t') auto
      qed
      with he True s show ?thesis
        using "1.prems" by (subst read_head.simps) (auto simp: less_Suc_eq)
    next
      case no: False
      have "read_head buf m s = read_head (buf @ [c]) m s'"
        using True s no by (subst read_head.simps) simp
      moreover note head_shift [OF "1.prems", of h c s' rest m]
      ultimately show ?thesis
        using "1.IH" [of c s' "buf @ [c]"] True s no by simp
    qed
  qed
qed

lemma eq_ignore_ascii_case_iff:
  "eq_ignore_ascii_case a b \<longleftrightarrow> to_ascii_lowercase a = to_ascii_lowercase b"
  by (simp add: eq_ignore_ascii_case_def)

lemma get_set_header:
  "get_header n (set_header m v hs) = (if eq_ignore_ascii_case n m then Some v else get_header n hs)"
  by (induction m v hs rule: set_header.induct) (auto simp: get_header_def eq_ignore_ascii_case_iff)

lemma get_remove_header:
  "get_header n (remove_header m hs) = (if eq_ignore_ascii_case n m then None else get_header n hs)"
  by (induction hs) (auto simp: get_header_def remove_header_def eq_ignore_ascii_case_iff)

lemma header_names [simp]:
  "to_ascii_lowercase ''Connection'' = ''connection''"
  "to_ascii_lowercase ''Proxy-Connection'' = ''proxy-connection''"
  "to_ascii_lowercase ''X-Real-IP'' = ''x-real-ip''"
  "to_ascii_lowercase ''X-Forwarded-For'' = ''x-forwarded-for''"
  "to_ascii_lowercase ''Host'' = ''host''"
  by code_simp+

text \<open>Header lines that survive printing and parsing.\<close>

definition clean_header :: "string \<times> string \<Rightarrow> bool" where
  "clean_header h \<longleftrightarrow> trim (fst h) = fst h \<and> trim (snd h) = snd h \<and> CHR '':'' \<notin> set (fst h)
     \<and> CHR 0x0D \<notin> set (fst h) \<and> CHR 0x0D \<notin> set (snd h)"

lemma split_crlf_line: "CHR 0x0D \<notin> set a \<Longrightarrow> split_crlf (a @ CRLF @ s) = a # split_crlf s"
proof (induction a)
  case Nil
  then show ?case by (simp add: CRLF_def)
next
  case (Cons c a)
  then show ?case by (cases a) (auto simp: CRLF_def)
qed

lemma split_crlf_print:
  assumes "CHR 0x0D \<notin> set request_line" "list_all clean_header hs"
  shows "split_crlf (print_head request_line hs) = request_line # map (\<lambda>(n, v). n @ '': '' @ v) hs @ [[], []]"
proof -
  have "split_crlf (concat (map (\<lambda>(n, v). n @ '': '' @ v @ CRLF) hs) @ CRLF)
      = map (\<lambda>(n, v). n @ '': '' @ v) hs @ [[], []]"
    using assms(2)
  proof (induction hs)
    case Nil
    then show ?case by (simp add: CRLF_def)
  next
    case (Cons h hs)
    obtain n v where h: "h = (n, v)" by (cases h)
    have "CHR 0x0D \<notin> set (n @ '': '' @ v)"
      using Cons.prems by (auto simp: h clean_header_def)
    from split_crlf_line [OF this] Cons show ?case
      by (simp add: h)
  qed
  with split_crlf_line [OF assms(1)] show ?thesis by (simp add: print_head_def)
qed

lemma strip_front_space: "strip_front white_space (CHR '' '' # s) = strip_front white_space s"
  by (subst strip_front.simps) (simp add: white_space_def)

lemma trim_space: "trim (CHR '' '' # s) = trim s"
  by (simp add: trim_def trim_start_def strip_front_space)

lemma header_lines_print:
  assumes "list_all clean_header hs"
  shows "header_lines (map (\<lambda>(n, v). n @ '': '' @ v) hs @ [[], []]) = hs"
proof -
  have "takeWhile (\<lambda>line. line \<noteq> []) (map (\<lambda>(n, v). n @ '': '' @ v) hs @ [[], []]) = map (\<lambda>(n, v). n @ '': '' @ v) hs"
    by (induction hs) auto
  moreover have "List.map_filter (\<lambda>line. map_option (\<lambda>(n, v). (trim n, trim v)) (split_once (CHR '':'') line))
       (map (\<lambda>(n, v). n @ '': '' @ v) hs) = hs"
    using assms
    by (induction hs)
      (auto simp: List.map_filter_simps clean_header_def split_once_append trim_space)
  ultimately show ?thesis by (simp add: header_lines_def)
qed

section \<open>Properties\<close>

text \<open>
  Reading a head succeeds exactly when an empty line ends one within the size limit; it
  takes the shortest such prefix of the stream and leaves every byte of the body unread.
\<close>

lemma read_http_head_iff:
  "read_http_head stream max_len = (Inr head, rest) \<longleftrightarrow>
   stream = head @ rest \<and> length head \<le> max_len \<and> suffix (CRLF @ CRLF) head
   \<and> (\<nexists>k. k < length head \<and> suffix (CRLF @ CRLF) (take k head))"
  using read_head_iff [of "[]" max_len stream head rest]
  by (auto simp: read_http_head_def head_end_def [abs_def] CRLF_def)

text \<open>
  What rewriting does to the headers of a proxied request: \<open>Connection\<close> becomes
  \<open>close\<close>, \<open>Proxy-Connection\<close> is gone, \<open>X-Real-IP\<close> is the visitor's address whatever
  the visitor claimed, \<open>X-Forwarded-For\<close> gets it appended, and every other header is what
  the configured host and header changes made of it.
\<close>

lemma rewrite_headers_effect:
  fixes hs host header_change remote_addr
  defines "h \<equiv> apply_header_change header_change
                (if trim host \<noteq> [] then set_header ''Host'' (trim host) hs else hs)"
  shows "get_header n (rewrite_headers hs (Some host) header_change remote_addr True True) =
     (if eq_ignore_ascii_case n ''Connection'' then Some ''close''
      else if eq_ignore_ascii_case n ''Proxy-Connection'' then None
      else if eq_ignore_ascii_case n ''X-Real-IP'' then Some (forwarded_ip remote_addr)
      else if eq_ignore_ascii_case n ''X-Forwarded-For''
      then Some (case get_header ''X-Forwarded-For'' h of
                   None \<Rightarrow> forwarded_ip remote_addr
                 | Some old \<Rightarrow> (if old = [] then [] else old @ '', '') @ forwarded_ip remote_addr)
      else get_header n h)"
  by (auto simp: rewrite_headers_def Let_def get_set_header get_remove_header h_def split: option.splits)

text \<open>
  The rewritten head is the head the backend sees: printing headers that are trimmed
  and free of carriage returns and splitting the result the way heads are split gives
  back the request line and exactly these headers, in order.
\<close>

lemma print_head_round_trip:
  assumes "CHR 0x0D \<notin> set request_line" "list_all clean_header hs"
  shows "\<exists>ls. split_crlf (print_head request_line hs) = request_line # ls \<and> header_lines ls = hs"
  using split_crlf_print [OF assms] header_lines_print [OF assms(2)] by simp

end
