(* ===== verification/Routing.thy ===== *)
theory Routing
  imports Access Http
begin

text \<open>
  Choosing where a connection goes: the targets of a tunnel or host without those that
  the health checks removed, the host route of a request, the key under which a response
  may be cached, and the decoding of query components (\<open>src/server.rs\<close>).
\<close>

section \<open>Targets\<close>

definition runtime_items :: "Registry \<Rightarrow> string \<Rightarrow> Target \<Rightarrow> string list" where
  "runtime_items r client_vkey target =
     filter (\<lambda>item. item \<noteq> [] \<and> item \<notin> set (removed_targets client_vkey r))
       (map trim (split_on (CHR 0x0A) (tg_target_str target)))"

definition pick_runtime_target :: "Registry \<Rightarrow> string \<Rightarrow> Target \<Rightarrow> usize \<Rightarrow> (string \<times> usize) option" where
  "pick_runtime_target r client_vkey target cursor =
     (let items = runtime_items r client_vkey target
      in if items = [] then None
         else (let index = cursor mod length items in Some (items ! index, index + 1)))"

definition cursor_of :: "string \<Rightarrow> Registry \<Rightarrow> usize" where
  "cursor_of key r = (case hm_get (re_cursors r) key of None \<Rightarrow> 0 | Some c \<Rightarrow> c)"

definition select_target :: "string \<Rightarrow> Tunnel \<Rightarrow> Registry \<Rightarrow> string option \<times> Registry" where
  "select_target key tunnel r =
     (case pick_runtime_target r (tn_client_vkey tunnel) (tn_target tunnel) (cursor_of key r) of
        None \<Rightarrow> (None, r)
      | Some (target, nxt) \<Rightarrow> (Some target, r\<lparr>re_cursors := hm_insert key nxt (re_cursors r)\<rparr>))"

definition tunnel_is_active :: "Registry \<Rightarrow> u64 \<Rightarrow> bool" where
  "tunnel_is_active r i =
     (case find_map (\<lambda>config. map_option (\<lambda>t. ci_status (rc_info config) \<and> tn_status t \<and> tn_run_status t)
                                (find (\<lambda>t. tn_id t = i) (rc_tunnels config)))
             (hm_values (re_clients r)) of
        None \<Rightarrow> False
      | Some b \<Rightarrow> b)"

definition bind_addr :: "Tunnel \<Rightarrow> string" where
  "bind_addr tunnel =
     (let ip = (if trim (tn_server_ip tunnel) = [] then ''0.0.0.0'' else trim (tn_server_ip tunnel))
      in ip @ '':'' @ show_nat (unat (tn_server_port tunnel)))"

section \<open>Host routes\<close>

definition route_supports_scheme :: "Host \<Rightarrow> string \<Rightarrow> bool" where
  "route_supports_scheme route scheme =
     (let s = to_ascii_lowercase (trim (ho_scheme route))
      in if s = [] \<or> s = ''all'' then True else eq_ignore_ascii_case s scheme)"

definition host_matches :: "string \<Rightarrow> string \<Rightarrow> bool" where
  "host_matches pat host =
     (let rl = to_ascii_lowercase (strip_host_port pat);
          h = to_ascii_lowercase (strip_host_port host)
      in if rl = h then True
         else (case strip_prefix ''*.'' rl of
                 Some sfx \<Rightarrow> suffix sfx h
               | None \<Rightarrow> False))"

definition route_candidate :: "Registry \<Rightarrow> string \<Rightarrow> string \<Rightarrow> string \<Rightarrow> Host \<Rightarrow> string option" where
  "route_candidate r host path scheme route =
     (if ho_is_close route then None
      else if \<not> route_supports_scheme route scheme then None
      else if \<not> host_matches (ho_host route) host then None
      else if \<not> prefix (ho_location route) path then None
      else map_option fst (pick_runtime_target r (ho_client_vkey route) (ho_target route) 0))"

definition better_route ::
  "Registry \<Rightarrow> string \<Rightarrow> string \<Rightarrow> string \<Rightarrow> Host \<Rightarrow> (Host \<times> string) option \<Rightarrow> (Host \<times> string) option" where
  "better_route r host path scheme route best =
     (case route_candidate r host path scheme route of
        None \<Rightarrow> best
      | Some target \<Rightarrow>
          let replace = (case best of
                           None \<Rightarrow> True
                         | Some (old, _) \<Rightarrow> length (ho_location old) < length (ho_location route))
          in if replace then Some (route, target) else best)"

definition find_host_route :: "Registry \<Rightarrow> string \<Rightarrow> string \<Rightarrow> string \<Rightarrow> (Host \<times> string) option" where
  "find_host_route r host_header path scheme =
     (let host = strip_host_port host_header
      in fold (\<lambda>config best.
           if \<not> ci_status (rc_info config) then best
           else fold (better_route r host path scheme) (rc_hosts config) best)
         (hm_values (re_clients r)) None)"

text \<open>The hosts for which \<open>build_tls_config_for_registry\<close> collects certificates.\<close>

definition tls_hosts :: "Registry \<Rightarrow> Host list" where
  "tls_hosts r =
     concat (map (\<lambda>config.
         if \<not> ci_status (rc_info config) then []
         else filter (\<lambda>route. \<not> (ho_is_close route \<or> \<not> route_supports_scheme route ''https'')) (rc_hosts config))
       (hm_values (re_clients r)))"

section \<open>Cache keys\<close>

definition cacheable_exts :: "string list" where
  "cacheable_exts = [''css'', ''js'', ''png'', ''jpg'', ''jpeg'', ''gif'', ''svg'', ''ico'', ''webp'',
     ''woff'', ''woff2'', ''ttf'', ''map'', ''txt'', ''html'', ''htm'']"

definition is_cacheable_path :: "string \<Rightarrow> bool" where
  "is_cacheable_path path =
     (let plain = trim (hd (split_on (CHR ''?'') path));
          ext = to_ascii_lowercase (last (split_on (CHR ''.'') plain))
      in ext \<in> set cacheable_exts)"

definition cache_key_for_request :: "Registry \<Rightarrow> string \<Rightarrow> Host \<Rightarrow> string \<Rightarrow> string \<Rightarrow> string option" where
  "cache_key_for_request r scheme route method path =
     (if \<not> sc_http_cache (re_server r) \<or> \<not> eq_ignore_ascii_case method ''GET'' \<or> \<not> is_cacheable_path path
      then None
      else Some (scheme @ ''|'' @ to_ascii_lowercase (ho_host route) @ ''|'' @ path))"

section \<open>Percent decoding\<close>

definition hex_value :: "char \<Rightarrow> nat option" where
  "hex_value c =
     (let b = code c
      in if 48 \<le> b \<and> b \<le> 57 then Some (b - 48)
         else if 97 \<le> b \<and> b \<le> 102 then Some (b - 97 + 10)
         else if 65 \<le> b \<and> b \<le> 70 then Some (b - 65 + 10)
         else None)"

text \<open>\<open>String::push\<close> of \<open>byte as char\<close>: the Unicode character with that code, in UTF-8.\<close>

definition byte_as_char :: "char \<Rightarrow> string" where
  "byte_as_char c =
     (if code c < 128 then [c] else [char_of (192 + code c div 64), char_of (128 + code c mod 64)])"

definition flush_percent_buffer :: "string \<Rightarrow> string \<Rightarrow> string" where
  "flush_percent_buffer percent_bytes percent_raw =
     (if percent_bytes = [] then []
      else if utf8_valid percent_bytes then percent_bytes else percent_raw)"

text \<open>The loop of \<open>url_decode_component\<close>: what it appends to \<open>out\<close> from the rest of the input on.\<close>

fun url_decode :: "string \<Rightarrow> string \<Rightarrow> string \<Rightarrow> string" where
  "url_decode percent_bytes percent_raw [] = flush_percent_buffer percent_bytes percent_raw"
| "url_decode percent_bytes percent_raw (c # s) =
     (if c = CHR ''+'' then flush_percent_buffer percent_bytes percent_raw @ '' '' @ url_decode [] [] s
      else if c = CHR ''%'' \<and> 2 \<le> length s
      then (case (hex_value (s ! 0), hex_value (s ! 1)) of
              (Some high, Some low) \<Rightarrow>
                url_decode (percent_bytes @ [char_of (16 * high + low)])
                  (percent_raw @ [CHR ''%'', s ! 0, s ! 1]) (drop 2 s)
            | _ \<Rightarrow> flush_percent_buffer percent_bytes percent_raw @ ''%'' @ url_decode [] [] s)
      else flush_percent_buffer percent_bytes percent_raw @ byte_as_char c @ url_decode [] [] s)"

definition url_decode_component :: "string \<Rightarrow> string" where
  "url_decode_component v = url_decode [] [] v"

section \<open>Facts on targets and routes\<close>

lemma runtime_items_eq:
  "runtime_items r vkey target = filter (\<lambda>i. i \<notin> set (removed_targets vkey r)) (target_items (tg_target_str target))"
  by (simp add: runtime_items_def target_items_def)

lemma pick_runtime_target_eq:
  "pick_runtime_target r vkey target cursor = pick_item (runtime_items r vkey target) cursor"
  by (simp add: pick_runtime_target_def pick_item_def Let_def)

text \<open>The targets of \<open>n\<close> connections in a row, none of which changes the health state.\<close>

fun select_run :: "string \<Rightarrow> Tunnel \<Rightarrow> nat \<Rightarrow> Registry \<Rightarrow> string option list" where
  "select_run key tunnel 0 r = []"
| "select_run key tunnel (Suc n) r =
     (case select_target key tunnel r of (t, r') \<Rightarrow> t # select_run key tunnel n r')"

lemma select_run_picks:
  assumes "runtime_items r (tn_client_vkey tunnel) (tn_target tunnel) = items" "items \<noteq> []"
  shows "select_run key tunnel n r = map Some (picks items (cursor_of key r) n)"
  using assms(1)
proof (induction n arbitrary: r)
  case (Suc n)
  let ?c = "cursor_of key r"
  obtain x c where p: "pick_item items ?c = Some (x, c)"
    using assms(2) by (simp add: pick_item_Some)
  let ?r = "r\<lparr>re_cursors := hm_insert key c (re_cursors r)\<rparr>"
  have sel: "select_target key tunnel r = (Some x, ?r)"
    using p Suc.prems by (simp add: select_target_def pick_runtime_target_eq)
  have "runtime_items ?r (tn_client_vkey tunnel) (tn_target tunnel) = items" "cursor_of key ?r = c"
    using Suc.prems by (simp_all add: runtime_items_def removed_targets_def cursor_of_def hm_simps)
  with Suc.IH [of ?r] sel p show ?case by simp
qed simp

definition enabled_routes :: "Registry \<Rightarrow> Host list" where
  "enabled_routes r =
     concat (map (\<lambda>c. if ci_status (rc_info c) then rc_hosts c else []) (hm_values (re_clients r)))"

lemma find_host_route_fold:
  "find_host_route r hh path scheme = fold (better_route r (strip_host_port hh) path scheme) (enabled_routes r) None"
proof -
  have "fold (\<lambda>config best. if \<not> ci_status (rc_info config) then best
           else fold (better_route r h path scheme) (rc_hosts config) best) cs b
      = fold (better_route r h path scheme)
          (concat (map (\<lambda>c. if ci_status (rc_info c) then rc_hosts c else []) cs)) b" for h cs b
    by (induction cs arbitrary: b) auto
  then show ?thesis by (simp add: find_host_route_def enabled_routes_def Let_def)
qed

text \<open>The best of the routes seen so far: a candidate none of the others is longer than.\<close>

definition best_of :: "(Host \<Rightarrow> string option) \<Rightarrow> Host list \<Rightarrow> (Host \<times> string) option \<Rightarrow> bool" where
  "best_of cand routes best =
     (case best of
        None \<Rightarrow> (\<forall>h \<in> set routes. cand h = None)
      | Some (route, target) \<Rightarrow>
          route \<in> set routes \<and> cand route = Some target
          \<and> (\<forall>h \<in> set routes. cand h \<noteq> None \<longrightarrow> length (ho_location h) \<le> length (ho_location route)))"

lemma better_route_best:
  assumes "best_of (route_candidate r host path scheme) hs best"
  shows "best_of (route_candidate r host path scheme) (hs @ [h]) (better_route r host path scheme h best)"
  using assms
  by (cases best; cases "route_candidate r host path scheme h")
    (auto simp: best_of_def better_route_def Let_def split: if_splits)

lemma fold_better_route:
  "best_of (route_candidate r host path scheme) hs best \<Longrightarrow>
   best_of (route_candidate r host path scheme) (hs @ gs) (fold (better_route r host path scheme) gs best)"
proof (induction gs arbitrary: hs best)
  case (Cons g gs)
  from Cons.IH [OF better_route_best [OF Cons.prems, of g]] show ?case by simp
qed simp

lemma find_host_route_best:
  "best_of (route_candidate r (strip_host_port hh) path scheme) (enabled_routes r) (find_host_route r hh path scheme)"
  using fold_better_route [of r "strip_host_port hh" path scheme "[]" None "enabled_routes r"]
  by (simp add: find_host_route_fold best_of_def)

lemma enabled_routes_iff:
  "h \<in> set (enabled_routes r) \<longleftrightarrow>
   (\<exists>c \<in> set (hm_values (re_clients r)). ci_status (rc_info c) \<and> h \<in> set (rc_hosts c))"
  by (auto simp: enabled_routes_def split: if_splits)

section \<open>Facts on percent decoding\<close>

text \<open>Percent encoding of every character that is not to be kept.\<close>

definition percent_encode :: "(char \<Rightarrow> bool) \<Rightarrow> string \<Rightarrow> string" where
  "percent_encode keep s =
     concat (map (\<lambda>c. if keep c then [c]
                      else [CHR ''%'', hex_digit (code c div 16), hex_digit (code c mod 16)]) s)"

lemma percent_encode_simps [simp]:
  "percent_encode keep [] = []"
  "percent_encode keep (c # s) =
     (if keep c then [c] else [CHR ''%'', hex_digit (code c div 16), hex_digit (code c mod 16)])
     @ percent_encode keep s"
  by (simp_all add: percent_encode_def)

lemma hex_value_digit: "n < 16 \<Longrightarrow> hex_value (hex_digit n) = Some n"
  by (auto simp: hex_value_def hex_digit_def Let_def)

lemma flush_valid: "utf8_valid pb \<Longrightarrow> flush_percent_buffer pb raw = pb"
  by (simp add: flush_percent_buffer_def)

lemma url_decode_encode:
  assumes keep: "\<And>c. keep c \<Longrightarrow> code c < 128 \<and> c \<noteq> CHR ''+'' \<and> c \<noteq> CHR ''%''"
    and "utf8_valid (pb @ s)"
  shows "url_decode pb raw (percent_encode keep s) = pb @ s"
  using assms(2)
proof (induction s arbitrary: pb raw)
  case Nil
  then show ?case by (simp add: flush_valid)
next
  case (Cons c s)
  show ?case
  proof (cases "keep c")
    case True
    with keep have c: "code c < 128" "c \<noteq> CHR ''+''" "c \<noteq> CHR ''%''" by auto
    from utf8_valid_split [OF Cons.prems c(1)] Cons.IH [of "[]" "[]"] True c show ?thesis
      by (simp add: flush_valid byte_as_char_def)
  next
    case False
    have "char_of (16 * (code c div 16) + code c mod 16) = c"
      by simp
    moreover have "code c div 16 < 16" using code_lt [of c] by linarith
    moreover have "CHR ''%'' \<noteq> CHR ''+''" by simp
    ultimately show ?thesis
      using False Cons.IH [of "pb @ [c]"] Cons.prems by (simp add: hex_value_digit)
  qed
qed

section \<open>Properties\<close>

text \<open>
  C12: A request goes to the most specific route.  \<open>find_host_route\<close> answers nothing iff no
  open route of an enabled client accepts the host, path and scheme and has a healthy
  target; otherwise it answers such a route, with the first healthy target of it, and no
  such route has a longer location.
\<close>

theorem host_route_optimal:
  fixes r host_header path scheme
  defines "accepts \<equiv> \<lambda>route target.
     (\<exists>c \<in> set (hm_values (re_clients r)). ci_status (rc_info c) \<and> route \<in> set (rc_hosts c))
     \<and> \<not> ho_is_close route \<and> route_supports_scheme route scheme
     \<and> host_matches (ho_host route) (strip_host_port host_header) \<and> prefix (ho_location route) path
     \<and> (\<exists>rest. runtime_items r (ho_client_vkey route) (ho_target route) = target # rest)"
  shows "case find_host_route r host_header path scheme of
           None \<Rightarrow> \<nexists>route target. accepts route target
         | Some (route, target) \<Rightarrow> accepts route target
             \<and> (\<forall>other t. accepts other t \<longrightarrow> length (ho_location other) \<le> length (ho_location route))"
proof -
  let ?cand = "route_candidate r (strip_host_port host_header) path scheme"
  have cand: "accepts route target \<longleftrightarrow> route \<in> set (enabled_routes r) \<and> ?cand route = Some target"
    for route target
    unfolding accepts_def enabled_routes_iff
    by (cases "runtime_items r (ho_client_vkey route) (ho_target route)")
      (auto simp: route_candidate_def pick_runtime_target_def Let_def)
  show ?thesis
    using find_host_route_best [of r host_header path scheme]
    unfolding best_of_def cand by (auto split: option.splits)
qed

definition demo_host :: "string \<Rightarrow> string \<Rightarrow> Host" where
  "demo_host location target = Host_default\<lparr>ho_host := ''*.example.com'', ho_location := location,
     ho_client_vkey := ''k'', ho_target := \<lparr>tg_target_str = target, tg_local_proxy = False\<rparr>\<rparr>"

definition demo_routes :: Registry where
  "demo_routes = (Registry_new ServerConfig_default)
     \<lparr>re_clients := [(''k'', ClientRuntimeConfig_default
          \<lparr>rc_hosts := [demo_host ''/'' ''10.0.0.1:80'', demo_host ''/api'' ''10.0.0.2:80'']\<rparr>)]\<rparr>"

theorem host_route_optimal_witness:
  "\<exists>route. find_host_route demo_routes ''A.Example.com:8080'' ''/api/x'' ''http'' = Some (route, ''10.0.0.2:80'')
     \<and> length (ho_location (demo_host ''/'' ''10.0.0.1:80'')) \<le> length (ho_location route)"
proof -
  have f: "find_host_route demo_routes ''A.Example.com:8080'' ''/api/x'' ''http''
      = Some (demo_host ''/api'' ''10.0.0.2:80'', ''10.0.0.2:80'')"
    by code_simp
  have "(\<exists>c \<in> set (hm_values (re_clients demo_routes)). ci_status (rc_info c)
       \<and> demo_host ''/'' ''10.0.0.1:80'' \<in> set (rc_hosts c))"
    "\<not> ho_is_close (demo_host ''/'' ''10.0.0.1:80'')"
    "route_supports_scheme (demo_host ''/'' ''10.0.0.1:80'') ''http''"
    "host_matches (ho_host (demo_host ''/'' ''10.0.0.1:80'')) (strip_host_port ''A.Example.com:8080'')"
    "prefix (ho_location (demo_host ''/'' ''10.0.0.1:80'')) ''/api/x''"
    "runtime_items demo_routes (ho_client_vkey (demo_host ''/'' ''10.0.0.1:80''))
       (ho_target (demo_host ''/'' ''10.0.0.1:80'')) = [''10.0.0.1:80'']"
    by code_simp+
  with host_route_optimal [where r = demo_routes and host_header = "''A.Example.com:8080''"
      and path = "''/api/x''" and scheme = "''http''"] f
  show ?thesis by fastforce
qed

text \<open>
  Targets are used in turn and only healthy ones.  As many connections in a row as a
  tunnel has healthy targets reach every healthy target and no other.
\<close>

lemma targets_round_robin:
  assumes "runtime_items r (tn_client_vkey tunnel) (tn_target tunnel) = items" "items \<noteq> []"
  shows "set (select_run key tunnel (length items) r) = Some ` set items
     \<and> set items = set (target_items (tg_target_str (tn_target tunnel)))
                   - set (removed_targets (tn_client_vkey tunnel) r)"
  using select_run_picks [OF assms] picks_covers [OF assms(2)] assms(1)
  by (auto simp: runtime_items_eq)

definition demo_tunnel :: Tunnel where
  "demo_tunnel = Tunnel_default\<lparr>tn_client_vkey := ''k'', tn_target :=
     \<lparr>tg_target_str = ''a:1'' @ [CHR 0x0A] @ ''b:1'' @ [CHR 0x0A] @ ''c:1'', tg_local_proxy = False\<rparr>\<rparr>"

text \<open>
  Percent decoding inverts percent encoding: a valid UTF-8 text, encoded with any set of
  characters left as they are (ASCII, without the plus and percent signs), decodes to itself.
\<close>

lemma url_decode_round_trip:
  assumes "utf8_valid s" "\<forall>c. keep c \<longrightarrow> code c < 128 \<and> c \<noteq> CHR ''+'' \<and> c \<noteq> CHR ''%''"
  shows "url_decode_component (percent_encode keep s) = s"
  using url_decode_encode [of keep "[]" s "[]"] assms by (simp add: url_decode_component_def)

text \<open>
  The wildcard rule \<open>*.example.com\<close> also matches hosts outside that domain: the
  comparison is on the suffix without its dot.
\<close>

lemma wildcard_matches_foreign_host:
  "host_matches ''*.example.com'' ''badexample.com'' \<and> host_matches ''*.example.com'' ''www.example.com''
   \<and> \<not> host_matches ''*.example.com'' ''example.org''"
  by code_simp

end
