(* ===== verification/Store.thy ===== *)
theory Store
  imports Model "HOL-Library.List_Lexorder" "HOL-Library.Char_ord"
begin

text \<open>
  The persistent store of \<open>src/store.rs\<close>.  The directory of the store is a map from file
  names to contents.  The JSON library is a parameter, in two records of functions: how a
  type is written and how a parsed value is read back at that type; a parsed value is a
  \<open>json\<close>.  The file operations succeed; the encoder and the parser may fail.
\<close>

section \<open>JSON values\<close>

datatype json =
    JNull
  | JBool bool
  | JU64 u64
  | JNumber string
  | JString string
  | JArray "json list"
  | JObject "(string \<times> json) list"

fun json_get :: "json \<Rightarrow> string \<Rightarrow> json option" where
  "json_get (JObject m) key = hm_get m key"
| "json_get v key = None"

fun as_str :: "json \<Rightarrow> string option" where
  "as_str (JString s) = Some s"
| "as_str v = None"

fun as_u64 :: "json \<Rightarrow> u64 option" where
  "as_u64 (JU64 n) = Some n"
| "as_u64 v = None"

fun as_bool :: "json \<Rightarrow> bool option" where
  "as_bool (JBool b) = Some b"
| "as_bool v = None"

fun as_array :: "json \<Rightarrow> json list option" where
  "as_array (JArray vs) = Some vs"
| "as_array v = None"

definition value_string :: "json \<Rightarrow> string \<Rightarrow> string" where
  "value_string v key = (case Option.bind (json_get v key) as_str of None \<Rightarrow> [] | Some s \<Rightarrow> s)"

definition value_u64 :: "json \<Rightarrow> string \<Rightarrow> u64" where
  "value_u64 v key = (case Option.bind (json_get v key) as_u64 of None \<Rightarrow> 0 | Some n \<Rightarrow> n)"

definition value_bool :: "json \<Rightarrow> string \<Rightarrow> bool \<Rightarrow> bool" where
  "value_bool v key d = (case Option.bind (json_get v key) as_bool of None \<Rightarrow> d | Some b \<Rightarrow> b)"

definition value_string_vec :: "json \<Rightarrow> string \<Rightarrow> string list" where
  "value_string_vec v key =
     (case Option.bind (json_get v key) as_array of
        None \<Rightarrow> []
      | Some items \<Rightarrow> List.map_filter as_str items)"

section \<open>Decoding, the format of the Go server included\<close>

definition decode_client :: "(json \<Rightarrow> ClientRuntimeConfig option) \<Rightarrow> json \<Rightarrow> ClientRuntimeConfig" where
  "decode_client from_value v =
     (let legacy =
        (let c = ClientRuntimeConfig_default;
             info = (rc_info c)
               \<lparr>ci_verify_key := value_string v ''VerifyKey'',
                ci_remark := value_string v ''Remark'',
                ci_status := value_bool v ''Status'' True,
                ci_rate_limit_kb := value_u64 v ''RateLimit'',
                ci_max_conn := unat (value_u64 v ''MaxConn''),
                ci_max_tunnel_num := unat (value_u64 v ''MaxTunnelNum''),
                ci_web_username := value_string v ''WebUserName'',
                ci_web_password := value_string v ''WebPassword'',
                ci_config_conn_allow := value_bool v ''ConfigConnAllow'' True,
                ci_black_ip_list := value_string_vec v ''BlackIpList'',
                ci_ip_white := value_bool v ''IpWhite'' False,
                ci_ip_white_pass := value_string v ''IpWhitePass'',
                ci_ip_white_list := value_string_vec v ''IpWhiteList''\<rparr>;
             info = (case json_get v ''Cnf'' of
                       None \<Rightarrow> info
                     | Some cnf \<Rightarrow> info
                         \<lparr>ci_basic_username := value_string cnf ''U'',
                          ci_basic_password := value_string cnf ''P'',
                          ci_compress := value_bool cnf ''Compress'' False,
                          ci_crypt := value_bool cnf ''Crypt'' False\<rparr>);
             info = (case json_get v ''Flow'' of
                       None \<Rightarrow> info
                     | Some flow \<Rightarrow> info\<lparr>ci_flow_limit_mb := value_u64 flow ''FlowLimit''\<rparr>)
         in c\<lparr>rc_id := value_u64 v ''Id'',
              rc_common := (rc_common c)\<lparr>cc_vkey := value_string v ''VerifyKey'', cc_client := info\<rparr>,
              rc_no_store := value_bool v ''NoStore'' False,
              rc_no_display := value_bool v ''NoDisplay'' False,
              rc_create_time := value_string v ''CreateTime'',
              rc_last_online_time := value_string v ''LastOnlineTime'',
              rc_last_online_addr := value_string v ''LastOnlineAddr''\<rparr>)
      in if json_get v ''common'' \<noteq> None \<or> json_get v ''id'' \<noteq> None
         then (case from_value v of Some client \<Rightarrow> client | None \<Rightarrow> legacy)
         else legacy)"

definition decode_tunnel :: "(json \<Rightarrow> Tunnel option) \<Rightarrow> json \<Rightarrow> Tunnel" where
  "decode_tunnel from_value v =
     (let legacy =
        (let t = Tunnel_default;
             port = ucast (value_u64 v ''Port'') :: u16;
             status = value_bool v ''Status'' True;
             ports = value_string v ''Ports''
         in t\<lparr>tn_id := value_u64 v ''Id'', tn_server_port := port,
              tn_server_ip := value_string v ''ServerIp'', tn_mode := value_string v ''Mode'',
              tn_status := status, tn_run_status := value_bool v ''RunStatus'' status,
              tn_ports := (if ports = [] \<and> 0 < port then show_nat (unat port) else ports),
              tn_password := value_string v ''Password'', tn_remark := value_string v ''Remark'',
              tn_target_addr := value_string v ''TargetAddr'',
              tn_no_store := value_bool v ''NoStore'' False,
              tn_local_path := value_string v ''LocalPath'',
              tn_strip_pre := value_string v ''StripPre'',
              tn_proto_version := value_string v ''ProtoVersion'',
              tn_target := (case json_get v ''Target'' of
                              None \<Rightarrow> tn_target t
                            | Some target \<Rightarrow> \<lparr>tg_target_str = value_string target ''TargetStr'',
                                             tg_local_proxy = value_bool target ''LocalProxy'' False\<rparr>),
              tn_client_vkey := (case json_get v ''Client'' of
                                   None \<Rightarrow> tn_client_vkey t
                                 | Some client \<Rightarrow> value_string client ''VerifyKey'')\<rparr>)
      in if json_get v ''mode'' \<noteq> None \<or> json_get v ''target_addr'' \<noteq> None
         then (case from_value v of Some tunnel \<Rightarrow> tunnel | None \<Rightarrow> legacy)
         else legacy)"

definition decode_host :: "(json \<Rightarrow> Host option) \<Rightarrow> json \<Rightarrow> Host" where
  "decode_host from_value v =
     (let legacy =
        (let h = Host_default
         in h\<lparr>ho_id := value_u64 v ''Id'', ho_host := value_string v ''Host'',
              ho_header_change := value_string v ''HeaderChange'',
              ho_host_change := value_string v ''HostChange'',
              ho_location := value_string v ''Location'', ho_remark := value_string v ''Remark'',
              ho_scheme := value_string v ''Scheme'',
              ho_cert_file_path := value_string v ''CertFilePath'',
              ho_key_file_path := value_string v ''KeyFilePath'',
              ho_proto_version := value_string v ''ProtoVersion'',
              ho_no_store := value_bool v ''NoStore'' False,
              ho_is_close := value_bool v ''IsClose'' False,
              ho_auto_https := value_bool v ''AutoHttps'' False,
              ho_target := (case json_get v ''Target'' of
                              None \<Rightarrow> ho_target h
                            | Some target \<Rightarrow> \<lparr>tg_target_str = value_string target ''TargetStr'',
                                             tg_local_proxy = value_bool target ''LocalProxy'' False\<rparr>),
              ho_client_vkey := (case json_get v ''Client'' of
                                   None \<Rightarrow> ho_client_vkey h
                                 | Some client \<Rightarrow> value_string client ''VerifyKey'')\<rparr>)
      in if json_get v ''host'' \<noteq> None \<or> json_get v ''cert_file_path'' \<noteq> None
         then (case from_value v of Some host \<Rightarrow> host | None \<Rightarrow> legacy)
         else legacy)"

section \<open>Files\<close>

type_synonym files = "string \<Rightarrow> string option"

definition RECORD_SEPARATOR :: string where
  "RECORD_SEPARATOR = ''*#*''"

text \<open>The states the directory passes through while \<open>write_atomic\<close> replaces a file.\<close>

definition write_atomic :: "string \<Rightarrow> string \<Rightarrow> files \<Rightarrow> files list" where
  "write_atomic path data fs =
     (let tmp = path @ ''.tmp'';
          f1 = fs(tmp := Some data);
          f2 = f1(path := None);
          f3 = f2(path := Some data, tmp := None)
      in [fs(tmp := Some []), f1] @ (if fs path \<noteq> None then [f2] else []) @ [f3])"

text \<open>What a writer put into the file, and whether it succeeded.\<close>

fun records_text :: "('a \<Rightarrow> string + string) \<Rightarrow> 'a list \<Rightarrow> string \<times> unit io_result" where
  "records_text to_vec [] = ([], Inr ())"
| "records_text to_vec (record # records) =
     (case to_vec record of
        Inl err \<Rightarrow> ([], Inl (IoError InvalidData err))
      | Inr b \<Rightarrow>
          (case records_text to_vec records of
             (text, res) \<Rightarrow> (b @ [CHR 0x0A] @ RECORD_SEPARATOR @ text, res)))"

definition write_file :: "string \<Rightarrow> string \<times> unit io_result \<Rightarrow> files \<Rightarrow> unit io_result \<times> files" where
  "write_file path written fs =
     (case written of
        (text, Inl e) \<Rightarrow> (Inl e, fs(path @ ''.tmp'' := Some text))
      | (text, Inr _) \<Rightarrow> (Inr (), last (write_atomic path text fs)))"

definition write_records ::
  "string \<Rightarrow> ('a \<Rightarrow> string + string) \<Rightarrow> 'a list \<Rightarrow> files \<Rightarrow> unit io_result \<times> files" where
  "write_records path to_vec records fs = write_file path (records_text to_vec records) fs"

definition write_single ::
  "string \<Rightarrow> ('a \<Rightarrow> string + string) \<Rightarrow> 'a \<Rightarrow> files \<Rightarrow> unit io_result \<times> files" where
  "write_single path to_vec_pretty v fs =
     write_file path
       (case to_vec_pretty v of
          Inl err \<Rightarrow> ([], Inl (IoError InvalidData err))
        | Inr b \<Rightarrow> (b, Inr ())) fs"

function split_str :: "string \<Rightarrow> string \<Rightarrow> string list" where
  "split_str p s =
     (if p = [] then [s]
      else (case find_str p s of
              None \<Rightarrow> [s]
            | Some i \<Rightarrow> take i s # split_str p (drop (i + length p) s)))"
  by pat_completeness auto
termination
proof (relation "measure (\<lambda>(p, s). length s)")
  fix p s :: string and i
  assume "p \<noteq> []" "find_str p s = Some i"
  then have "s \<noteq> []" by (cases s) auto
  with \<open>p \<noteq> []\<close> show "((p, drop (i + length p) s), p, s) \<in> measure (\<lambda>(p, s). length s)"
    by (cases s) auto
qed simp

declare split_str.simps [simp del]

definition read_parts :: "(string \<Rightarrow> string + json) \<Rightarrow> string list \<Rightarrow> json list io_result" where
  "read_parts from_str parts =
     fold (\<lambda>p acc. case acc of
             Inl e \<Rightarrow> Inl e
           | Inr out \<Rightarrow>
               let part = trim p
               in if part = [] \<or> part = RECORD_SEPARATOR then Inr out
                  else (case from_str part of
                          Inl err \<Rightarrow> Inl (IoError InvalidData err)
                        | Inr v \<Rightarrow> Inr (out @ [v])))
       parts (Inr [])"

definition read_values ::
  "(string \<Rightarrow> string + json) \<Rightarrow> string \<Rightarrow> files \<Rightarrow> json list io_result" where
  "read_values from_str path fs =
     (case fs path of
        None \<Rightarrow> Inr []
      | Some raw \<Rightarrow>
          let trimmed = trim raw
          in if trimmed = [] then Inr []
             else if hd trimmed = CHR ''['' then
               (case from_str trimmed of
                  Inl err \<Rightarrow> Inl (IoError InvalidData err)
                | Inr v \<Rightarrow> (case as_array v of
                             Some vs \<Rightarrow> Inr vs
                           | None \<Rightarrow> Inl (IoError InvalidData ''expected a sequence'')))
             else read_parts from_str (split_str ([CHR 0x0A] @ RECORD_SEPARATOR) raw))"

definition read_single ::
  "(string \<Rightarrow> string + 'a) \<Rightarrow> string \<Rightarrow> files \<Rightarrow> 'a option io_result" where
  "read_single from_str path fs =
     (case fs path of
        None \<Rightarrow> Inr None
      | Some raw \<Rightarrow>
          let trimmed = trim raw
          in if trimmed = [] then Inr None
             else (case from_str trimmed of
                     Inl err \<Rightarrow> Inl (IoError InvalidData err)
                   | Inr v \<Rightarrow> Inr (Some v)))"

section \<open>Saving and loading\<close>

record PersistentState =
  ps_clients :: "ClientRuntimeConfig list"
  ps_tunnels :: "Tunnel list"
  ps_hosts :: "Host list"
  ps_global :: GlobalConfig

definition stored_tunnels :: "ClientRuntimeConfig \<Rightarrow> Tunnel list" where
  "stored_tunnels client = filter (\<lambda>t. \<not> tn_no_store t) (rc_tunnels client)"

definition stored_hosts :: "ClientRuntimeConfig \<Rightarrow> Host list" where
  "stored_hosts client = filter (\<lambda>h. \<not> ho_no_store h) (rc_hosts client)"

definition client_record :: "ClientRuntimeConfig \<Rightarrow> ClientRuntimeConfig" where
  "client_record client = client\<lparr>rc_hosts := [], rc_tunnels := [], rc_healths := [],
     rc_local_servers := [], rc_no_store := False\<rparr>"

definition skip_client :: "ClientRuntimeConfig \<Rightarrow> bool" where
  "skip_client client \<longleftrightarrow> rc_no_store client \<and> stored_tunnels client = [] \<and> stored_hosts client = []"

text \<open>What \<open>save_all\<close> writes: the clients in the order of their keys.\<close>

definition save_order :: "(string \<times> ClientRuntimeConfig) list \<Rightarrow> ClientRuntimeConfig list" where
  "save_order clients =
     filter (\<lambda>c. \<not> skip_client c) (List.map_filter (hm_get clients) (sort (hm_keys clients)))"

definition persistent_image ::
  "(string \<times> ClientRuntimeConfig) list \<Rightarrow> GlobalConfig \<Rightarrow> PersistentState" where
  "persistent_image clients global =
     \<lparr>ps_clients = map client_record (save_order clients),
      ps_tunnels = concat (map stored_tunnels (save_order clients)),
      ps_hosts = concat (map stored_hosts (save_order clients)),
      ps_global = global\<rparr>"

record codec =
  jc_client :: "ClientRuntimeConfig \<Rightarrow> string + string"
  jc_tunnel :: "Tunnel \<Rightarrow> string + string"
  jc_host :: "Host \<Rightarrow> string + string"
  jc_global :: "GlobalConfig \<Rightarrow> string + string"
  jd_value :: "string \<Rightarrow> string + json"
  jd_client :: "json \<Rightarrow> ClientRuntimeConfig option"
  jd_tunnel :: "json \<Rightarrow> Tunnel option"
  jd_host :: "json \<Rightarrow> Host option"
  jd_global :: "string \<Rightarrow> string + GlobalConfig"

definition save_all ::
  "codec \<Rightarrow> (string \<times> ClientRuntimeConfig) list \<Rightarrow> GlobalConfig \<Rightarrow> files \<Rightarrow> unit io_result \<times> files" where
  "save_all J clients global fs =
     (let image = persistent_image clients global
      in case write_records ''clients.json'' (jc_client J) (ps_clients image) fs of
           (Inl e, f1) \<Rightarrow> (Inl e, f1)
         | (Inr _, f1) \<Rightarrow>
         (case write_records ''tasks.json'' (jc_tunnel J) (ps_tunnels image) f1 of
           (Inl e, f2) \<Rightarrow> (Inl e, f2)
         | (Inr _, f2) \<Rightarrow>
         (case write_records ''hosts.json'' (jc_host J) (ps_hosts image) f2 of
           (Inl e, f3) \<Rightarrow> (Inl e, f3)
         | (Inr _, f3) \<Rightarrow> write_single ''global.json'' (jc_global J) global f3)))"

definition store_load :: "codec \<Rightarrow> files \<Rightarrow> PersistentState io_result" where
  "store_load J fs =
     (case read_values (jd_value J) ''clients.json'' fs of
        Inl e \<Rightarrow> Inl e
      | Inr cs \<Rightarrow>
      (case read_values (jd_value J) ''tasks.json'' fs of
        Inl e \<Rightarrow> Inl e
      | Inr ts \<Rightarrow>
      (case read_values (jd_value J) ''hosts.json'' fs of
        Inl e \<Rightarrow> Inl e
      | Inr hs \<Rightarrow>
      (case read_single (jd_global J) ''global.json'' fs of
        Inl e \<Rightarrow> Inl e
      | Inr g \<Rightarrow>
          Inr \<lparr>ps_clients = map (decode_client (jd_client J)) cs,
               ps_tunnels = map (decode_tunnel (jd_tunnel J)) ts,
               ps_hosts = map (decode_host (jd_host J)) hs,
               ps_global = (case g of None \<Rightarrow> GlobalConfig_default | Some v \<Rightarrow> v)\<rparr>))))"

section \<open>Reading back what was written\<close>

text \<open>
  What the store relies on of the JSON library: a struct is written as an object on one
  line, and a written text is parsed to a value that reads back as what was written.
\<close>

definition object_text :: "string \<Rightarrow> bool" where
  "object_text b \<longleftrightarrow> b \<noteq> [] \<and> hd b = CHR ''{'' \<and> last b = CHR ''}'' \<and> CHR 0x0A \<notin> set b"

definition writes :: "('a \<Rightarrow> string + string) \<Rightarrow> (string \<Rightarrow> string + json) \<Rightarrow> (json \<Rightarrow> 'a) \<Rightarrow> 'a \<Rightarrow> bool" where
  "writes to_vec from_str decode x \<longleftrightarrow>
     (\<exists>b v. to_vec x = Inr b \<and> object_text b \<and> from_str b = Inr v \<and> decode v = x)"

lemma find_str_first:
  "c \<notin> set b \<Longrightarrow> find_str (c # p) (b @ (c # p) @ s) = Some (length b)"
proof (induction b)
  case (Cons x b)
  then have "\<not> prefix (c # p) (x # b @ (c # p) @ s)" by auto
  with Cons show ?case by simp
qed simp

lemma split_str_records:
  fixes sep
  defines "sep \<equiv> [CHR 0x0A] @ RECORD_SEPARATOR"
  assumes "list_all (\<lambda>b. CHR 0x0A \<notin> set b) bs"
  shows "split_str sep (concat (map (\<lambda>b. b @ sep) bs)) = bs @ [[]]"
  using assms(2)
proof (induction bs)
  case Nil
  then show ?case
    by (subst split_str.simps) (simp add: sep_def RECORD_SEPARATOR_def)
next
  case (Cons b bs)
  have "find_str sep (b @ sep @ concat (map (\<lambda>b. b @ sep) bs)) = Some (length b)"
    unfolding sep_def using Cons.prems find_str_first [of "CHR 0x0A" b RECORD_SEPARATOR] by simp
  with Cons show ?case
    by (subst split_str.simps) (simp add: sep_def)
qed

lemma object_text_trim: "object_text b \<Longrightarrow> trim b = b \<and> b \<noteq> RECORD_SEPARATOR"
  by (auto simp: object_text_def visible_def RECORD_SEPARATOR_def intro!: trim_visible)

lemma records_text_ok:
  assumes "list_all (writes to_vec from_str decode) xs"
  shows "\<exists>bs vs. records_text to_vec xs = (concat (map (\<lambda>b. b @ [CHR 0x0A] @ RECORD_SEPARATOR) bs), Inr ())
     \<and> list_all object_text bs \<and> list_all2 (\<lambda>b v. from_str b = Inr v) bs vs \<and> map decode vs = xs"
  using assms
proof (induction xs)
  case Nil
  then show ?case by (intro exI [of _ "[]"]) simp
next
  case (Cons x xs)
  then obtain b v bs vs where "to_vec x = Inr b" "object_text b" "from_str b = Inr v" "decode v = x"
    "records_text to_vec xs = (concat (map (\<lambda>b. b @ [CHR 0x0A] @ RECORD_SEPARATOR) bs), Inr ())"
    "list_all object_text bs" "list_all2 (\<lambda>b v. from_str b = Inr v) bs vs" "map decode vs = xs"
    by (auto simp: writes_def)
  then show ?case
    by (intro exI [of _ "b # bs"] exI [of _ "v # vs"]) simp
qed

lemma read_parts_ok:
  assumes "list_all object_text bs" "list_all2 (\<lambda>b v. from_str b = Inr v) bs vs"
  shows "read_parts from_str (bs @ [[]]) = Inr vs"
proof -
  let ?f = "\<lambda>p acc. case acc of Inl e \<Rightarrow> Inl e | Inr out \<Rightarrow>
      let part = trim p
      in if part = [] \<or> part = RECORD_SEPARATOR then Inr out
         else (case from_str part of Inl err \<Rightarrow> Inl (IoError InvalidData err) | Inr v \<Rightarrow> Inr (out @ [v]))"
  have "fold ?f bs (Inr out) = Inr (out @ vs)" for out
    using assms(2,1)
  proof (induction bs vs arbitrary: out rule: list_all2_induct)
    case (Cons b bs v vs)
    from Cons.prems have "trim b = b" "b \<noteq> RECORD_SEPARATOR" "b \<noteq> []"
      using object_text_trim by (auto simp: object_text_def)
    with Cons show ?case by simp
  qed simp
  from this [of "[]"] show ?thesis by (simp add: read_parts_def)
qed

lemma concat_last: "bs \<noteq> [] \<Longrightarrow> last (concat (map (\<lambda>b. b @ [CHR 0x0A] @ RECORD_SEPARATOR) bs)) = CHR ''*''"
  by (induction bs) (auto simp: RECORD_SEPARATOR_def)

lemma concat_hd: "bs \<noteq> [] \<Longrightarrow> list_all object_text bs \<Longrightarrow>
  concat (map (\<lambda>b. b @ [CHR 0x0A] @ RECORD_SEPARATOR) bs) \<noteq> []
  \<and> hd (concat (map (\<lambda>b. b @ [CHR 0x0A] @ RECORD_SEPARATOR) bs)) = CHR ''{''"
  by (cases bs) (auto simp: object_text_def)

lemma last_write_atomic: "last (write_atomic path text fs) = fs(path := Some text, path @ ''.tmp'' := None)"
  by (auto simp: write_atomic_def Let_def fun_eq_iff)

lemma write_read_records:
  assumes "list_all (writes to_vec from_str decode) xs"
  shows "\<exists>fs' vs. write_records path to_vec xs fs = (Inr (), fs')
     \<and> read_values from_str path fs' = Inr vs \<and> map decode vs = xs
     \<and> (\<forall>p. p \<noteq> path \<and> p \<noteq> path @ ''.tmp'' \<longrightarrow> fs' p = fs p)"
proof -
  let ?sep = "[CHR 0x0A] @ RECORD_SEPARATOR"
  obtain bs vs where bs: "records_text to_vec xs = (concat (map (\<lambda>b. b @ ?sep) bs), Inr ())"
    "list_all object_text bs" "list_all2 (\<lambda>b v. from_str b = Inr v) bs vs" "map decode vs = xs"
    using records_text_ok [OF assms] by auto
  let ?raw = "concat (map (\<lambda>b. b @ ?sep) bs)"
  let ?fs = "fs(path := Some ?raw, path @ ''.tmp'' := None)"
  have w: "write_records path to_vec xs fs = (Inr (), ?fs)"
    by (simp add: write_records_def write_file_def bs(1) last_write_atomic)
  have "read_values from_str path ?fs = Inr vs"
  proof (cases "bs = []")
    case True
    with bs(3) show ?thesis by (simp add: read_values_def)
  next
    case False
    have raw: "?raw \<noteq> []" "hd ?raw = CHR ''{''" "last ?raw = CHR ''*''"
      using concat_hd [OF False bs(2)] concat_last [OF False] by auto
    then have "trim ?raw = ?raw"
      by (intro trim_visible) (simp_all add: visible_def)
    moreover have "split_str ?sep ?raw = bs @ [[]]"
      using bs(2) by (intro split_str_records) (auto simp: list_all_iff object_text_def)
    ultimately show ?thesis
      using raw read_parts_ok [OF bs(2,3)] by (simp add: read_values_def Let_def)
  qed
  with w bs(4) show ?thesis by auto
qed

definition codec_ok :: "codec \<Rightarrow> PersistentState \<Rightarrow> bool" where
  "codec_ok J st \<longleftrightarrow>
     list_all (writes (jc_client J) (jd_value J) (decode_client (jd_client J))) (ps_clients st)
     \<and> list_all (writes (jc_tunnel J) (jd_value J) (decode_tunnel (jd_tunnel J))) (ps_tunnels st)
     \<and> list_all (writes (jc_host J) (jd_value J) (decode_host (jd_host J))) (ps_hosts st)
     \<and> (\<exists>b. jc_global J (ps_global st) = Inr b \<and> b \<noteq> [] \<and> hd b = CHR ''{'' \<and> last b = CHR ''}''
          \<and> jd_global J b = Inr (ps_global st))"

lemma read_values_cong: "fs path = fs' path \<Longrightarrow> read_values from_str path fs = read_values from_str path fs'"
  by (simp add: read_values_def)

lemma save_load:
  assumes "codec_ok J (persistent_image clients global)"
  shows "\<exists>fs'. save_all J clients global fs = (Inr (), fs')
     \<and> store_load J fs' = Inr (persistent_image clients global)"
proof -
  let ?im = "persistent_image clients global"
  obtain b where g: "jc_global J global = Inr b" "b \<noteq> []" "hd b = CHR ''{''" "last b = CHR ''}''"
    "jd_global J b = Inr global"
    using assms by (auto simp: codec_ok_def persistent_image_def)
  from write_read_records [of "jc_client J" "jd_value J" "decode_client (jd_client J)" "ps_clients ?im" "''clients.json''" fs]
  obtain f1 cs where c: "write_records ''clients.json'' (jc_client J) (ps_clients ?im) fs = (Inr (), f1)"
    "read_values (jd_value J) ''clients.json'' f1 = Inr cs" "map (decode_client (jd_client J)) cs = ps_clients ?im"
    using assms by (auto simp: codec_ok_def)
  from write_read_records [of "jc_tunnel J" "jd_value J" "decode_tunnel (jd_tunnel J)" "ps_tunnels ?im" "''tasks.json''" f1]
  obtain f2 ts where t: "write_records ''tasks.json'' (jc_tunnel J) (ps_tunnels ?im) f1 = (Inr (), f2)"
    "read_values (jd_value J) ''tasks.json'' f2 = Inr ts" "map (decode_tunnel (jd_tunnel J)) ts = ps_tunnels ?im"
    "f2 ''clients.json'' = f1 ''clients.json''"
    using assms by (auto simp: codec_ok_def)
  from write_read_records [of "jc_host J" "jd_value J" "decode_host (jd_host J)" "ps_hosts ?im" "''hosts.json''" f2]
  obtain f3 hs where h: "write_records ''hosts.json'' (jc_host J) (ps_hosts ?im) f2 = (Inr (), f3)"
    "read_values (jd_value J) ''hosts.json'' f3 = Inr hs" "map (decode_host (jd_host J)) hs = ps_hosts ?im"
    "f3 ''clients.json'' = f2 ''clients.json''" "f3 ''tasks.json'' = f2 ''tasks.json''"
    using assms by (auto simp: codec_ok_def)
  let ?f = "f3(''global.json'' := Some b, ''global.json.tmp'' := None)"
  have save: "save_all J clients global fs = (Inr (), ?f)"
    using c(1) t(1) h(1) g(1) by (simp add: save_all_def Let_def write_single_def write_file_def last_write_atomic)
  have "trim b = b"
    using g by (intro trim_visible) (simp_all add: visible_def)
  then have "read_single (jd_global J) ''global.json'' ?f = Inr (Some global)"
    using g by (simp add: read_single_def Let_def)
  moreover have "read_values (jd_value J) ''clients.json'' ?f = Inr cs"
    "read_values (jd_value J) ''tasks.json'' ?f = Inr ts" "read_values (jd_value J) ''hosts.json'' ?f = Inr hs"
    using c(2) t(2,4) h(2,4,5)
      read_values_cong [of ?f "''clients.json''" f1 "jd_value J"] read_values_cong [of ?f "''tasks.json''" f2 "jd_value J"]
      read_values_cong [of ?f "''hosts.json''" f3 "jd_value J"] by auto
  ultimately have "store_load J ?f = Inr ?im"
    using c(3) t(3) h(3) by (simp add: store_load_def persistent_image_def)
  with save show ?thesis by blast
qed

section \<open>Properties\<close>

text \<open>
  What is saved is what is loaded.  If the JSON library reads back what it wrote, saving
  succeeds and loading the directory gives exactly the stored clients, in key order and
  without their runtime parts, the tunnels and hosts that are not marked \<open>no_store\<close>, and
  the global settings.
\<close>

lemma store_round_trip:
  assumes "codec_ok J (persistent_image clients global)"
  shows "\<exists>fs'. save_all J clients global fs = (Inr (), fs')
     \<and> store_load J fs' = Inr (persistent_image clients global)"
  by (rule save_load [OF assms])

definition demo_stored :: ClientRuntimeConfig where
  "demo_stored = ClientRuntimeConfig_default\<lparr>rc_id := 7, rc_tunnels := [Tunnel_default\<lparr>tn_id := 9, tn_no_store := False\<rparr>]\<rparr>"

definition demo_codec :: codec where
  "demo_codec =
     \<lparr>jc_client = \<lambda>_. Inr ''{}'', jc_tunnel = \<lambda>_. Inr ''{}'', jc_host = \<lambda>_. Inr ''{}'', jc_global = \<lambda>_. Inr ''{}'',
      jd_value = \<lambda>_. Inr (JObject [(''id'', JNull), (''mode'', JNull)]),
      jd_client = \<lambda>_. Some (client_record demo_stored),
      jd_tunnel = \<lambda>_. Some (Tunnel_default\<lparr>tn_id := 9, tn_no_store := False\<rparr>),
      jd_host = \<lambda>_. None, jd_global = \<lambda>_. Inr GlobalConfig_default\<rparr>"

text \<open>
  Replacing a file is not atomic: whenever the file exists, the directory passes
  through a state in which it does not, and only the temporary file holds the data.
\<close>

lemma write_atomic_gap:
  assumes "fs path = Some old"
  shows "\<exists>gap \<in> set (write_atomic path text fs). gap path = None \<and> gap (path @ ''.tmp'') = Some text"
  using assms by (auto simp: write_atomic_def Let_def)

end
