(* ===== verification/Tunnels.thy ===== *)
theory Tunnels
  imports Access Store
begin

text \<open>
  Tunnels of the server (\<open>src/server.rs\<close>): which ports they may use, how a tunnel with
  several ports is expanded, the tasks that serve them, and the two ways clients enter
  the registry, \<open>install_client_config\<close> (a configuration connection) and
  \<open>install_persistent_state\<close> (the store at start-up).

  The network enters as \<open>net_env\<close>: which addresses can be bound, and which port the system
  hands out.  A listener thread is represented by its entries in \<open>re_listeners\<close> and
  \<open>re_listener_shutdowns\<close>; what it does when it ends is \<open>tunnel_task_end\<close>.  While
  \<open>stop_tunnel_runtime\<close> waits for a listener to go away the other threads run: \<open>env\<close> is
  what they do to the state meanwhile.
\<close>

section \<open>Ports\<close>

definition port_allowed :: "string \<Rightarrow> u16 \<Rightarrow> bool" where
  "port_allowed allow_ports port =
     list_ex (\<lambda>item.
       case split_once (CHR ''-'') item of
         Some (a, b) \<Rightarrow>
           (case parse_u16 (trim a) of
              None \<Rightarrow> False
            | Some start \<Rightarrow>
                (case parse_u16 (trim b) of
                   None \<Rightarrow> False
                 | Some stop \<Rightarrow>
                     let (lo, hi) = (if start \<le> stop then (start, stop) else (stop, start))
                     in lo \<le> port \<and> port \<le> hi))
       | None \<Rightarrow> parse_u16 item = Some port)
     (filter (\<lambda>item. item \<noteq> []) (map trim (split_on (CHR '','') allow_ports)))"

definition tunnel_ports :: "Tunnel \<Rightarrow> u16 list" where
  "tunnel_ports tunnel =
     (let ports = expand_ports (tn_ports tunnel)
      in if ports = [] \<and> 0 < tn_server_port tunnel then [tn_server_port tunnel] else ports)"

definition validate_tunnel_ports :: "ServerConfig \<Rightarrow> Tunnel \<Rightarrow> unit io_result" where
  "validate_tunnel_ports server tunnel =
     (let mode = to_ascii_lowercase (trim (tn_mode tunnel))
      in if mode = ''secret'' \<or> mode = ''p2p'' \<or> trim (sc_allow_ports server) = [] then Inr ()
         else (case find (\<lambda>port. \<not> port_allowed (sc_allow_ports server) port) (tunnel_ports tunnel) of
                 Some port \<Rightarrow> Inl (IoError PermissionDenied
                     (''port '' @ show_nat (unat port) @ '' is not in allow_ports''))
               | None \<Rightarrow> Inr ()))"

record net_env =
  ne_bindable :: "bool \<Rightarrow> string \<Rightarrow> u16 \<Rightarrow> bool"
  ne_ephemeral :: "bool \<Rightarrow> string \<Rightarrow> u16 io_result"

definition generate_server_port :: "net_env \<Rightarrow> ServerConfig \<Rightarrow> string \<Rightarrow> string \<Rightarrow> u16 io_result" where
  "generate_server_port net server mode server_ip =
     (let bind_ip = (if trim server_ip = [] then ''0.0.0.0'' else server_ip);
          udp = (to_ascii_lowercase mode = ''udp'')
      in if trim (sc_allow_ports server) \<noteq> []
         then (case find (\<lambda>port. port \<noteq> 0 \<and> ne_bindable net udp bind_ip port) (expand_ports (sc_allow_ports server)) of
                 Some port \<Rightarrow> Inr port
               | None \<Rightarrow> Inl (IoError AddrNotAvailable ''no available server port found in allow_ports''))
         else (case ne_ephemeral net udp bind_ip of
                 Inl e \<Rightarrow> Inl e
               | Inr port \<Rightarrow>
                   if port < 1024 then Inl (IoError AddrNotAvailable ''generated server port is invalid'')
                   else Inr port))"

definition ensure_tunnel_server_port :: "net_env \<Rightarrow> ServerConfig \<Rightarrow> Tunnel \<Rightarrow> Tunnel io_result" where
  "ensure_tunnel_server_port net server tunnel =
     (if tn_server_port tunnel = 0
      then (case generate_server_port net server (tn_mode tunnel) (tn_server_ip tunnel) of
              Inl e \<Rightarrow> Inl e
            | Inr port \<Rightarrow> Inr (tunnel\<lparr>tn_server_port := port, tn_ports := show_nat (unat port)\<rparr>))
      else if trim (tn_ports tunnel) = []
      then Inr (tunnel\<lparr>tn_ports := show_nat (unat (tn_server_port tunnel))\<rparr>)
      else Inr tunnel)"

definition ensure_client_tunnel_limit :: "ServerConfig \<Rightarrow> ClientInfo \<Rightarrow> usize \<Rightarrow> unit io_result" where
  "ensure_client_tunnel_limit server client tunnel_count =
     (if \<not> sc_allow_tunnel_num_limit server \<or> ci_max_tunnel_num client = 0 then Inr ()
      else if ci_max_tunnel_num client \<le> tunnel_count
      then Inl (IoError PermissionDenied ''the number of tunnels exceeds the limit'')
      else Inr ())"

definition tunnel_count :: "ClientRuntimeConfig \<Rightarrow> usize" where
  "tunnel_count config = length (rc_tunnels config) + length (rc_hosts config)"

section \<open>Expansion\<close>

definition expand_one :: "Tunnel \<Rightarrow> Tunnel list" where
  "expand_one tunnel =
     (if is_secret_mode (tn_mode tunnel) then [tunnel]
      else (let ports = expand_ports (tn_ports tunnel);
                targets = expand_targets (tn_target_addr tunnel) (tg_target_str (tn_target tunnel))
            in if ports = [] then [tunnel]
               else map (\<lambda>(idx, port).
                      let clone = tunnel\<lparr>tn_server_port := port\<rparr>
                      in if 1 < length ports
                         then (let clone = clone\<lparr>tn_remark := tn_remark tunnel @ ''_'' @ show_nat (unat port)\<rparr>
                               in if idx < length targets
                                  then clone\<lparr>tn_target := (tn_target clone)\<lparr>tg_target_str := targets ! idx\<rparr>\<rparr>
                                  else clone)
                         else clone)
                    (List.enumerate 0 ports)))"

definition expand_runtime_tunnels :: "ClientRuntimeConfig \<Rightarrow> Tunnel list" where
  "expand_runtime_tunnels config = concat (map expand_one (rc_tunnels config))"

section \<open>Listener tasks\<close>

definition listener_key :: "Tunnel \<Rightarrow> string option" where
  "listener_key tunnel =
     (if tn_server_port tunnel = 0 then None
      else Some (to_ascii_lowercase (tn_mode tunnel) @ '':'' @ tn_server_ip tunnel @ '':''
                 @ show_nat (unat (tn_server_port tunnel))))"

definition start_tunnel_task :: "(string \<Rightarrow> string) \<Rightarrow> Tunnel \<Rightarrow> Registry \<Rightarrow> Registry" where
  "start_tunnel_task md5_hex tunnel r =
     (if \<not> tn_status tunnel then r
      else if \<not> is_ok (validate_tunnel_ports (re_server r) tunnel) then r
      else if is_secret_mode (tn_mode tunnel)
      then (if tn_password tunnel \<noteq> [] then r\<lparr>re_secrets := add_secret md5_hex tunnel (re_secrets r)\<rparr> else r)
      else (case listener_key tunnel of
              None \<Rightarrow> r
            | Some key \<Rightarrow>
                if key \<in> set (re_listeners r) then r
                else r\<lparr>re_listeners := List.insert key (re_listeners r),
                       re_listener_shutdowns := hm_insert (tn_id tunnel) (length (re_flags r)) (re_listener_shutdowns r),
                       re_flags := re_flags r @ [False]\<rparr>))"

definition tunnel_task_end :: "Tunnel \<Rightarrow> Registry \<Rightarrow> Registry" where
  "tunnel_task_end tunnel r =
     (case listener_key tunnel of
        None \<Rightarrow> r
      | Some key \<Rightarrow>
          r\<lparr>re_listeners := removeAll key (re_listeners r),
            re_listener_shutdowns := hm_remove (tn_id tunnel) (re_listener_shutdowns r)\<rparr>)"

definition start_active_tunnels_for_client ::
  "(string \<Rightarrow> string) \<Rightarrow> ClientRuntimeConfig \<Rightarrow> Registry \<Rightarrow> Registry" where
  "start_active_tunnels_for_client md5_hex config r =
     (if \<not> ci_status (rc_info config) then r
      else fold (\<lambda>t r. if tn_status t \<and> tn_run_status t then start_tunnel_task md5_hex t r else r)
             (rc_tunnels config) r)"

definition stop_tunnel_runtime :: "(Registry \<Rightarrow> Registry) \<Rightarrow> Tunnel \<Rightarrow> Registry \<Rightarrow> Registry" where
  "stop_tunnel_runtime env tunnel r =
     (let r1 = (case hm_get (re_listener_shutdowns r) (tn_id tunnel) of
                  None \<Rightarrow> r
                | Some flag \<Rightarrow>
                    r\<lparr>re_listener_shutdowns := hm_remove (tn_id tunnel) (re_listener_shutdowns r),
                      re_flags := (re_flags r)[flag := True]\<rparr>);
          r2 = disconnect_tunnel_live_conns (tn_id tunnel) r1
      in case listener_key tunnel of
           None \<Rightarrow> r2
         | Some key \<Rightarrow> if key \<in> set (re_listeners r2) then env r2 else r2)"

definition stop_tunnel_runtimes :: "(Registry \<Rightarrow> Registry) \<Rightarrow> Tunnel list \<Rightarrow> Registry \<Rightarrow> Registry" where
  "stop_tunnel_runtimes env tunnels r = fold (stop_tunnel_runtime env) tunnels r"

definition apply_tunnel_runtime_change ::
  "(string \<Rightarrow> string) \<Rightarrow> (Registry \<Rightarrow> Registry) \<Rightarrow> Tunnel option \<Rightarrow> Tunnel option \<Rightarrow> Registry \<Rightarrow> Registry" where
  "apply_tunnel_runtime_change md5_hex env previous current r =
     (let r1 = (case previous of None \<Rightarrow> r | Some p \<Rightarrow> stop_tunnel_runtime env p r)
      in case current of
           None \<Rightarrow> r1
         | Some c \<Rightarrow> if tn_status c then start_tunnel_task md5_hex c r1 else r1)"

section \<open>Installing clients\<close>

fun install_hosts :: "string \<Rightarrow> Host list \<Rightarrow> Registry \<Rightarrow> Host list \<times> Registry" where
  "install_hosts vkey [] r = ([], r)"
| "install_hosts vkey (host # hosts) r =
     (let (i, r1) = (if ho_id host = 0 then next_link_id r else (ho_id host, r));
          r2 = observe_id i r1;
          (rest, r3) = install_hosts vkey hosts r2
      in (host\<lparr>ho_id := i, ho_client_vkey := vkey\<rparr> # rest, r3))"

fun install_tunnels :: "string \<Rightarrow> Tunnel list \<Rightarrow> Registry \<Rightarrow> Tunnel list io_result \<times> Registry" where
  "install_tunnels vkey [] r = (Inr [], r)"
| "install_tunnels vkey (tunnel # tunnels) r =
     (let (i, r1) = (if tn_id tunnel = 0 then next_link_id r else (tn_id tunnel, r));
          tunnel1 = tunnel\<lparr>tn_id := i\<rparr>
      in case validate_tunnel_ports (re_server r1) tunnel1 of
           Inl e \<Rightarrow> (Inl e, r1)
         | Inr _ \<Rightarrow>
             (let r2 = observe_id i r1
              in case install_tunnels vkey tunnels r2 of
                   (Inl e, r3) \<Rightarrow> (Inl e, r3)
                 | (Inr rest, r3) \<Rightarrow> (Inr (tunnel1\<lparr>tn_client_vkey := vkey\<rparr> # rest), r3)))"

text \<open>The merge with what the registry already holds under the key; \<open>now_text\<close> is the clock.\<close>

definition merge_client ::
  "string \<Rightarrow> ClientRuntimeConfig \<Rightarrow> Registry \<Rightarrow> ClientRuntimeConfig io_result \<times> Registry" where
  "merge_client now_text config r =
     (case client_of (rc_vkey config) r of
        Some existing \<Rightarrow>
          if rc_no_store config \<and> \<not> ci_config_conn_allow (rc_info existing)
          then (Inl (IoError PermissionDenied ''config connection is disabled for this client''), r)
          else (Inr (config\<lparr>rc_id := rc_id existing, rc_no_store := rc_no_store existing,
                      rc_no_display := rc_no_display existing, rc_create_time := rc_create_time existing,
                      rc_last_online_time := now_text,
                      rc_hosts := rc_hosts config @ stored_hosts existing,
                      rc_tunnels := rc_tunnels config @ stored_tunnels existing\<rparr>), r)
      | None \<Rightarrow>
          (case next_link_id r of
             (i, r1) \<Rightarrow> (Inr (config\<lparr>rc_id := i, rc_no_store := True, rc_last_online_time := now_text\<rparr>), r1)))"

definition install_client_config ::
  "(string \<Rightarrow> string) \<Rightarrow> string \<Rightarrow> ClientRuntimeConfig \<Rightarrow> Registry \<Rightarrow> unit io_result \<times> Registry" where
  "install_client_config md5_hex now_text config r =
     (let vkey = rc_vkey config
      in if vkey = [] then (Inl (IoError InvalidInput ''empty vkey''), r)
         else
         (case install_hosts vkey (rc_hosts config) r of (hosts, r1) \<Rightarrow>
         (case install_tunnels vkey (rc_tunnels config) r1 of
            (Inl e, r2) \<Rightarrow> (Inl e, r2)
          | (Inr tunnels, r2) \<Rightarrow>
         (case merge_client now_text (config\<lparr>rc_hosts := hosts, rc_tunnels := tunnels\<rparr>) r2 of
            (Inl e, r3) \<Rightarrow> (Inl e, r3)
          | (Inr merged, r3) \<Rightarrow>
         (case ensure_client_tunnel_limit (re_server r3) (rc_info merged) (tunnel_count merged) of
            Inl e \<Rightarrow> (Inl e, r3)
          | Inr _ \<Rightarrow>
              let r4 = observe_id (rc_id merged) r3;
                  expanded = expand_runtime_tunnels merged;
                  r5 = r4\<lparr>re_clients := hm_insert vkey (merged\<lparr>rc_tunnels := expanded\<rparr>) (re_clients r4),
                          re_health_targets := hm_remove vkey (re_health_targets r4)\<rparr>
              in (Inr (), fold (start_tunnel_task md5_hex) expanded r5))))))"

text \<open>The three loops of \<open>install_persistent_state\<close>; the state is the local map and the registry.\<close>

type_synonym clients_map = "(string \<times> ClientRuntimeConfig) list"

definition stored_vkey :: "ClientRuntimeConfig \<Rightarrow> string" where
  "stored_vkey client = (if rc_vkey client = [] then ci_verify_key (rc_info client) else rc_vkey client)"

definition load_client :: "ClientRuntimeConfig \<Rightarrow> clients_map \<times> Registry \<Rightarrow> clients_map \<times> Registry" where
  "load_client client st =
     (case st of (m, r) \<Rightarrow>
       let vkey = stored_vkey client
       in if vkey = [] then (m, r)
          else (let (i, r1) = (if rc_id client = 0 then next_link_id r else (rc_id client, r));
                    client1 = (rc_vkey_update vkey (client\<lparr>rc_id := i\<rparr>))\<lparr>rc_no_store := False\<rparr>
                in (hm_insert vkey client1 m, observe_id i r1)))"

definition load_tunnel :: "Tunnel \<Rightarrow> clients_map \<times> Registry \<Rightarrow> clients_map \<times> Registry" where
  "load_tunnel tunnel st =
     (case st of (m, r) \<Rightarrow>
       if tn_client_vkey tunnel = [] then (m, r)
       else (let (i, r1) = (if tn_id tunnel = 0 then next_link_id r else (tn_id tunnel, r));
                 tunnel1 = tunnel\<lparr>tn_id := i, tn_no_store := False\<rparr>;
                 r2 = observe_id i r1
             in case hm_get m (tn_client_vkey tunnel) of
                  None \<Rightarrow> (m, r2)
                | Some client \<Rightarrow>
                    (hm_insert (tn_client_vkey tunnel)
                       (client\<lparr>rc_tunnels := rc_tunnels client @ [tunnel1]\<rparr>) m, r2)))"

definition load_host :: "Host \<Rightarrow> clients_map \<times> Registry \<Rightarrow> clients_map \<times> Registry" where
  "load_host host st =
     (case st of (m, r) \<Rightarrow>
       if ho_client_vkey host = [] then (m, r)
       else (let (i, r1) = (if ho_id host = 0 then next_link_id r else (ho_id host, r));
                 host1 = host\<lparr>ho_id := i, ho_no_store := False\<rparr>;
                 r2 = observe_id i r1
             in case hm_get m (ho_client_vkey host) of
                  None \<Rightarrow> (m, r2)
                | Some client \<Rightarrow>
                    (hm_insert (ho_client_vkey host)
                       (client\<lparr>rc_hosts := rc_hosts client @ [host1]\<rparr>) m, r2)))"

definition loaded_clients :: "PersistentState \<Rightarrow> Registry \<Rightarrow> clients_map \<times> Registry" where
  "loaded_clients state r =
     fold load_host (ps_hosts state)
       (fold load_tunnel (ps_tunnels state) (fold load_client (ps_clients state) ([], r)))"

definition install_persistent_state ::
  "(string \<Rightarrow> string) \<Rightarrow> PersistentState \<Rightarrow> Registry \<Rightarrow> Registry" where
  "install_persistent_state md5_hex state r =
     (case loaded_clients state (r\<lparr>re_global := ps_global state\<rparr>) of
        (m, r1) \<Rightarrow>
          let r2 = r1\<lparr>re_clients := fold (\<lambda>(vkey, client). hm_insert vkey client) m (re_clients r1)\<rparr>;
              to_start = concat (map (\<lambda>(_, client). expand_runtime_tunnels client) m)
          in fold (start_tunnel_task md5_hex) to_start r2)"

section \<open>Facts\<close>

lemma port_allowed_iff: "port_allowed allow_ports p \<longleftrightarrow> p \<in> set (expand_ports allow_ports)"
proof -
  have "port_allowed allow_ports p = list_ex (\<lambda>item. part_covers item p) (list_parts allow_ports)"
    unfolding port_allowed_def list_parts_def part_covers_def
    by (rule arg_cong2 [where f = list_ex])
      (auto simp: fun_eq_iff min_def max_def split: option.splits)
  then show ?thesis by (simp add: set_expand_ports list_ex_iff)
qed

lemma find_refused_iff: "find (\<lambda>x. \<not> P x) xs = None \<longleftrightarrow> (\<forall>x \<in> set xs. P x)"
  by (auto simp: find_None_iff)

lemma validate_ok_iff:
  "validate_tunnel_ports server t = Inr () \<longleftrightarrow>
   is_secret_mode (trim (tn_mode t)) \<or> trim (sc_allow_ports server) = []
   \<or> (\<forall>p \<in> set (tunnel_ports t). p \<in> set (expand_ports (sc_allow_ports server)))"
  unfolding port_allowed_iff [symmetric] find_refused_iff [symmetric]
  by (auto simp: validate_tunnel_ports_def is_secret_mode_def Let_def split: option.splits)

lemma generate_server_port_sound:
  assumes "generate_server_port net server mode ip = Inr p" "trim (sc_allow_ports server) \<noteq> []"
  shows "p \<noteq> 0 \<and> port_allowed (sc_allow_ports server) p
     \<and> ne_bindable net (to_ascii_lowercase mode = ''udp'') (if trim ip = [] then ''0.0.0.0'' else ip) p"
  using assms
  by (auto simp: generate_server_port_def Let_def port_allowed_iff find_Some_iff split: option.splits)

lemma parse_show_port: "expand_ports (show_nat (unat (p :: u16))) = [p]"
proof -
  have digits: "c \<in> set (show_nat (unat p)) \<Longrightarrow> is_digit c" for c
    by (rule show_nat_digits)
  have no: "CHR '','' \<notin> set (show_nat (unat p))" "CHR ''-'' \<notin> set (show_nat (unat p))"
    using digits [of "CHR '',''"] digits [of "CHR ''-''"] by (auto simp: is_digit_def code_def)
  have "visible c" if "is_digit c" for c
    using that by (simp add: visible_def is_digit_def code_def)
  then have "trim (show_nat (unat p)) = show_nat (unat p)"
    using digits by (intro trim_visible) auto
  with no show ?thesis
    by (simp add: expand_ports_def list_parts_def split_on_absent expand_part_def
        split_once_None_iff [THEN iffD2])
qed

text \<open>A tunnel whose port was generated passes the port check.\<close>

lemma ensure_port_validates:
  assumes "ensure_tunnel_server_port net server t = Inr t'" "tn_server_port t = 0"
  shows "validate_tunnel_ports server t' = Inr ()"
proof (cases "trim (sc_allow_ports server) = []")
  case True
  then show ?thesis by (simp add: validate_ok_iff)
next
  case False
  obtain p where p: "generate_server_port net server (tn_mode t) (tn_server_ip t) = Inr p"
    "t' = t\<lparr>tn_server_port := p, tn_ports := show_nat (unat p)\<rparr>"
    using assms by (auto simp: ensure_tunnel_server_port_def split: sum.splits)
  with generate_server_port_sound [OF p(1) False] show ?thesis
    by (simp add: validate_ok_iff tunnel_ports_def parse_show_port port_allowed_iff)
qed

text \<open>What starting tasks and numbering leaves alone.\<close>

lemma start_tunnel_task_fields [simp]:
  "re_clients (start_tunnel_task md5_hex t r) = re_clients r"
  "re_health_targets (start_tunnel_task md5_hex t r) = re_health_targets r"
  "re_server (start_tunnel_task md5_hex t r) = re_server r"
  "re_global (start_tunnel_task md5_hex t r) = re_global r"
  by (auto simp: start_tunnel_task_def split: option.splits)

lemma fold_start_fields [simp]:
  "re_clients (fold (start_tunnel_task md5_hex) ts r) = re_clients r"
  "re_health_targets (fold (start_tunnel_task md5_hex) ts r) = re_health_targets r"
  "re_server (fold (start_tunnel_task md5_hex) ts r) = re_server r"
  "re_global (fold (start_tunnel_task md5_hex) ts r) = re_global r"
  by (induction ts arbitrary: r) auto

definition renumbered :: "Registry \<Rightarrow> Registry \<Rightarrow> bool" where
  "renumbered r r' \<longleftrightarrow> (\<exists>q. r' = r\<lparr>re_seq := q\<rparr>)"

lemma renumbered_refl [simp]: "renumbered r r"
  unfolding renumbered_def by (rule exI [of _ "re_seq r"]) simp

lemma renumbered_trans: "renumbered a b \<Longrightarrow> renumbered b c \<Longrightarrow> renumbered a c"
  by (auto simp: renumbered_def)

lemma renumbered_steps:
  "renumbered r (snd (next_link_id r))" "renumbered r (observe_id i r)"
  by (auto simp: renumbered_def next_link_id_def observe_id_def intro: exI [of _ "re_seq r"])

lemma next_link_id_renumbered: "next_link_id r = (i, r') \<Longrightarrow> renumbered r r'"
  using renumbered_steps(1) [of r] by simp

lemma install_hosts_renumbered: "renumbered r (snd (install_hosts vkey hosts r))"
proof (induction vkey hosts r rule: install_hosts.induct)
  case (2 vkey host hosts r)
  obtain i r1 where i: "(if ho_id host = 0 then next_link_id r else (ho_id host, r)) = (i, r1)"
    by (cases "if ho_id host = 0 then next_link_id r else (ho_id host, r)")
  then have "renumbered r (observe_id i r1)"
    using renumbered_trans [OF next_link_id_renumbered renumbered_steps(2)] renumbered_steps(2)
    by (auto split: if_splits)
  moreover obtain rest r3 where "install_hosts vkey hosts (observe_id i r1) = (rest, r3)"
    by (cases "install_hosts vkey hosts (observe_id i r1)")
  ultimately show ?case
    using 2 i by (auto simp: Let_def intro: renumbered_trans)
qed simp

lemma install_tunnels_renumbered: "renumbered r (snd (install_tunnels vkey tunnels r))"
proof (induction vkey tunnels r rule: install_tunnels.induct)
  case (2 vkey tunnel tunnels r)
  obtain i r1 where i: "(if tn_id tunnel = 0 then next_link_id r else (tn_id tunnel, r)) = (i, r1)"
    by (cases "if tn_id tunnel = 0 then next_link_id r else (tn_id tunnel, r)")
  then have r1: "renumbered r r1" "renumbered r (observe_id i r1)"
    using renumbered_trans [OF next_link_id_renumbered renumbered_steps(2)] renumbered_steps(2)
      next_link_id_renumbered by (auto split: if_splits)
  obtain res r3 where res: "install_tunnels vkey tunnels (observe_id i r1) = (res, r3)"
    by (cases "install_tunnels vkey tunnels (observe_id i r1)")
  show ?case
  proof (cases "validate_tunnel_ports (re_server r1) (tunnel\<lparr>tn_id := i\<rparr>)")
    case (Inl e)
    with i r1 show ?thesis by (simp add: Let_def)
  next
    case (Inr u)
    with 2 i res have "renumbered (observe_id i r1) r3" by (auto simp: Let_def)
    with Inr i res r1(2) show ?thesis
      by (auto simp: Let_def split: sum.splits intro: renumbered_trans)
  qed
qed simp

lemma merge_client_renumbered: "renumbered r (snd (merge_client now_text config r))"
  using renumbered_steps(1) [of r]
  by (auto simp: merge_client_def next_link_id_def split: option.splits)

text \<open>The result of \<open>install_client_config\<close>: an error leaves all but the id counter as it was.\<close>

lemma install_client_config_cases:
  obtains (failed) e r' where "install_client_config md5_hex now_text config r = (Inl e, r')" "renumbered r r'"
  | (installed) hosts tunnels r2 merged r3 where "renumbered r r2"
      "fst (merge_client now_text (config\<lparr>rc_hosts := hosts, rc_tunnels := tunnels\<rparr>) r2) = Inr merged"
      "renumbered r r3"
      "install_client_config md5_hex now_text config r =
         (Inr (), fold (start_tunnel_task md5_hex) (expand_runtime_tunnels merged)
            (r3\<lparr>re_clients := hm_insert (rc_vkey config) (merged\<lparr>rc_tunnels := expand_runtime_tunnels merged\<rparr>) (re_clients r3),
               re_health_targets := hm_remove (rc_vkey config) (re_health_targets r3)\<rparr>))"
proof -
  let ?vkey = "rc_vkey config"
  obtain hosts r1 where 1: "install_hosts ?vkey (rc_hosts config) r = (hosts, r1)"
    by (cases "install_hosts ?vkey (rc_hosts config) r")
  obtain res r2 where 2: "install_tunnels ?vkey (rc_tunnels config) r1 = (res, r2)"
    by (cases "install_tunnels ?vkey (rc_tunnels config) r1")
  have n2: "renumbered r r2"
    using install_hosts_renumbered [of r ?vkey "rc_hosts config"]
      install_tunnels_renumbered [of r1 ?vkey "rc_tunnels config"] 1 2 by (auto intro: renumbered_trans)
  show thesis
  proof (cases "?vkey = []")
    case True
    then show thesis by (intro failed) (auto simp: install_client_config_def)
  next
    case ne: False
    show thesis
    proof (cases res)
      case (Inl e)
      with ne 1 2 n2 show thesis by (intro failed) (auto simp: install_client_config_def Let_def)
    next
      case (Inr tunnels)
      let ?c = "config\<lparr>rc_hosts := hosts, rc_tunnels := tunnels\<rparr>"
      obtain mr r3 where 3: "merge_client now_text ?c r2 = (mr, r3)"
        by (cases "merge_client now_text ?c r2")
      have n3: "renumbered r r3"
        using merge_client_renumbered [of r2 now_text ?c] 3 n2 by (auto intro: renumbered_trans)
      show thesis
      proof (cases mr)
        case (Inl e)
        with ne 1 2 3 Inr n3 show thesis by (intro failed) (auto simp: install_client_config_def Let_def)
      next
        case m: (Inr merged)
        show thesis
        proof (cases "ensure_client_tunnel_limit (re_server r3) (rc_info merged) (tunnel_count merged)")
          case (Inl e)
          with ne 1 2 3 Inr m n3 show thesis by (intro failed) (auto simp: install_client_config_def Let_def)
        next
          case ok: (Inr u)
          have "renumbered r (observe_id (rc_id merged) r3)"
            using n3 renumbered_steps(2) renumbered_trans by blast
          with ne 1 2 3 Inr m ok show thesis
            by (intro installed [of r2 tunnels hosts merged "observe_id (rc_id merged) r3"])
              (auto simp: install_client_config_def Let_def n2)
        qed
      qed
    qed
  qed
qed

lemma renumbered_fields:
  "renumbered r r' \<Longrightarrow> re_clients r' = re_clients r \<and> re_secrets r' = re_secrets r
     \<and> re_listeners r' = re_listeners r \<and> re_health_targets r' = re_health_targets r
     \<and> re_server r' = re_server r"
  by (auto simp: renumbered_def)

lemma merge_client_result:
  assumes "fst (merge_client now_text config r) = Inr merged"
  shows "rc_common merged = rc_common config
     \<and> (case client_of (rc_vkey config) r of
          None \<Rightarrow> rc_no_store merged \<and> rc_hosts merged = rc_hosts config \<and> rc_tunnels merged = rc_tunnels config
        | Some e \<Rightarrow> rc_id merged = rc_id e \<and> rc_no_store merged = rc_no_store e
            \<and> rc_hosts merged = rc_hosts config @ stored_hosts e
            \<and> rc_tunnels merged = rc_tunnels config @ stored_tunnels e)"
  using assms by (auto simp: merge_client_def next_link_id_def split: option.splits if_splits)

section \<open>Loading the stored state\<close>

definition tunnel_stored :: "Tunnel \<Rightarrow> bool" where
  "tunnel_stored t \<longleftrightarrow> tn_client_vkey t \<noteq> [] \<and> tn_id t \<noteq> 0 \<and> \<not> tn_no_store t"

definition host_stored :: "Host \<Rightarrow> bool" where
  "host_stored h \<longleftrightarrow> ho_client_vkey h \<noteq> [] \<and> ho_id h \<noteq> 0 \<and> \<not> ho_no_store h"

lemma load_tunnels_get:
  assumes "list_all tunnel_stored ts"
  shows "hm_get (fst (fold load_tunnel ts (m, r))) v =
     map_option (\<lambda>c. c\<lparr>rc_tunnels := rc_tunnels c @ filter (\<lambda>t. tn_client_vkey t = v) ts\<rparr>) (hm_get m v)"
  using assms
proof (induction ts arbitrary: m r)
  case Nil
  then show ?case by (simp add: option.map_ident)
next
  case (Cons t ts)
  obtain m' r' where st: "load_tunnel t (m, r) = (m', r')"
    by (cases "load_tunnel t (m, r)")
  have t: "t\<lparr>tn_id := tn_id t, tn_no_store := False\<rparr> = t"
    using Cons.prems by (cases t) (simp add: tunnel_stored_def)
  have "hm_get m' v = map_option (\<lambda>c. if tn_client_vkey t = v then c\<lparr>rc_tunnels := rc_tunnels c @ [t]\<rparr> else c) (hm_get m v)"
    using st Cons.prems t
    by (cases "hm_get m v")
      (auto simp: load_tunnel_def tunnel_stored_def Let_def hm_simps split: option.splits if_splits)
  with Cons st show ?case
    by (cases "hm_get m v") (auto simp: comp_def)
qed

lemma load_hosts_get:
  assumes "list_all host_stored hs"
  shows "hm_get (fst (fold load_host hs (m, r))) v =
     map_option (\<lambda>c. c\<lparr>rc_hosts := rc_hosts c @ filter (\<lambda>h. ho_client_vkey h = v) hs\<rparr>) (hm_get m v)"
  using assms
proof (induction hs arbitrary: m r)
  case Nil
  then show ?case by (simp add: option.map_ident)
next
  case (Cons h hs)
  obtain m' r' where st: "load_host h (m, r) = (m', r')"
    by (cases "load_host h (m, r)")
  have h: "h\<lparr>ho_id := ho_id h, ho_no_store := False\<rparr> = h"
    using Cons.prems by (cases h) (simp add: host_stored_def)
  have "hm_get m' v = map_option (\<lambda>c. if ho_client_vkey h = v then c\<lparr>rc_hosts := rc_hosts c @ [h]\<rparr> else c) (hm_get m v)"
    using st Cons.prems h
    by (cases "hm_get m v")
      (auto simp: load_host_def host_stored_def Let_def hm_simps split: option.splits if_splits)
  with Cons st show ?case
    by (cases "hm_get m v") (auto simp: comp_def)
qed

definition client_stored :: "ClientRuntimeConfig \<Rightarrow> bool" where
  "client_stored c \<longleftrightarrow> rc_vkey c \<noteq> [] \<and> ci_verify_key (rc_info c) = rc_vkey c \<and> rc_id c \<noteq> 0 \<and> \<not> rc_no_store c"

lemma load_client_stored:
  "client_stored c \<Longrightarrow> load_client c (m, r) = (hm_insert (rc_vkey c) c m, observe_id (rc_id c) r)"
proof -
  assume c: "client_stored c"
  then have "(rc_vkey_update (rc_vkey c) (c\<lparr>rc_id := rc_id c\<rparr>))\<lparr>rc_no_store := False\<rparr> = c"
    by (simp add: client_stored_def rc_vkey_update_def)
  with c show ?thesis
    by (simp add: load_client_def client_stored_def stored_vkey_def Let_def)
qed

lemma load_clients_get:
  assumes "list_all client_stored cs" "distinct (map rc_vkey cs)"
  shows "hm_get (fst (fold load_client cs (m, r))) v =
     (case find (\<lambda>c. rc_vkey c = v) cs of None \<Rightarrow> hm_get m v | Some c \<Rightarrow> Some c)"
  using assms
proof (induction cs arbitrary: m r)
  case (Cons c cs)
  have "find (\<lambda>c'. rc_vkey c' = rc_vkey c) cs = None"
    using Cons.prems(2) by (auto simp: find_None_iff image_iff)
  with Cons show ?case
    by (auto simp: load_client_stored hm_simps split: option.splits)
qed simp

lemma load_hm_ok:
  "hm_ok (fst st) \<Longrightarrow> hm_ok (fst (fold load_client cs st))"
  "hm_ok (fst st) \<Longrightarrow> hm_ok (fst (fold load_tunnel ts st))"
  "hm_ok (fst st) \<Longrightarrow> hm_ok (fst (fold load_host hs st))"
proof -
  have c: "hm_ok (fst st) \<Longrightarrow> hm_ok (fst (load_client c st))" for c st
    by (auto simp: load_client_def Let_def inv_intros split: prod.splits)
  show "hm_ok (fst st) \<Longrightarrow> hm_ok (fst (fold load_client cs st))"
    by (induction cs arbitrary: st) (auto simp: c)
  have t: "hm_ok (fst st) \<Longrightarrow> hm_ok (fst (load_tunnel t st))" for t st
    by (auto simp: load_tunnel_def Let_def inv_intros split: prod.splits option.splits)
  show "hm_ok (fst st) \<Longrightarrow> hm_ok (fst (fold load_tunnel ts st))"
    by (induction ts arbitrary: st) (auto simp: t)
  have h: "hm_ok (fst st) \<Longrightarrow> hm_ok (fst (load_host h st))" for h st
    by (auto simp: load_host_def Let_def inv_intros split: prod.splits option.splits)
  show "hm_ok (fst st) \<Longrightarrow> hm_ok (fst (fold load_host hs st))"
    by (induction hs arbitrary: st) (auto simp: h)
qed

lemma load_keeps:
  "re_clients (snd (fold load_client cs s)) = re_clients (snd s)"
  "re_clients (snd (fold load_tunnel ts s)) = re_clients (snd s)"
  "re_clients (snd (fold load_host hs s)) = re_clients (snd s)"
  by (rule fold_keeps [where g = "\<lambda>s. re_clients (snd s)"],
      auto simp: load_client_def load_tunnel_def load_host_def next_link_id_def observe_id_def Let_def
        split: prod.splits option.splits)+

lemma fold_insert_get:
  "hm_ok m \<Longrightarrow> hm_get (fold (\<lambda>(k, c). hm_insert k c) m base) v =
     (case hm_get m v of None \<Rightarrow> hm_get base v | Some c \<Rightarrow> Some c)"
proof (induction m arbitrary: base)
  case (Cons kc m)
  obtain k c where kc: "kc = (k, c)" by (cases kc)
  have "hm_get m k = None" "hm_ok m"
    using Cons.prems by (auto simp: kc hm_ok_def map_of_eq_None_iff)
  with Cons.IH [of "hm_insert k c base"] show ?case
    by (auto simp: kc hm_simps split: option.splits)
qed simp

text \<open>
  The form of the registry that the store can hold: clients under their own key, with
  ids, and tunnels and hosts that carry the key of their client.
\<close>

definition storable :: "clients_map \<Rightarrow> bool" where
  "storable m \<longleftrightarrow> hm_ok m \<and>
     list_all (\<lambda>(vkey, c). vkey \<noteq> [] \<and> rc_vkey c = vkey \<and> ci_verify_key (rc_info c) = vkey \<and> rc_id c \<noteq> 0
        \<and> list_all (\<lambda>t. tn_client_vkey t = vkey \<and> tn_id t \<noteq> 0) (rc_tunnels c)
        \<and> list_all (\<lambda>h. ho_client_vkey h = vkey \<and> ho_id h \<noteq> 0) (rc_hosts c)) m"

lemma storable_get:
  assumes "storable m" "hm_get m v = Some c"
  shows "v \<noteq> [] \<and> rc_vkey c = v \<and> ci_verify_key (rc_info c) = v \<and> rc_id c \<noteq> 0
     \<and> (\<forall>t \<in> set (rc_tunnels c). tn_client_vkey t = v \<and> tn_id t \<noteq> 0)
     \<and> (\<forall>h \<in> set (rc_hosts c). ho_client_vkey h = v \<and> ho_id h \<noteq> 0)"
  using assms by (auto simp: storable_def list_all_iff dest!: map_of_SomeD)

lemma save_order_eq:
  assumes "storable m"
  shows "distinct (map rc_vkey (save_order m))
     \<and> (c \<in> set (save_order m) \<longleftrightarrow> hm_get m (rc_vkey c) = Some c \<and> \<not> skip_client c)"
proof -
  let ?ks = "sort (hm_keys m)"
  have ks: "distinct ?ks" "set ?ks = fst ` set m"
    using assms by (auto simp: storable_def hm_ok_def hm_keys_def)
  have get: "\<exists>c. hm_get m k = Some c" if "k \<in> set ?ks" for k
    using that ks(2) by (metis map_of_eq_None_iff not_None_eq)
  have all: "List.map_filter (hm_get m) ks = map (\<lambda>k. the (hm_get m k)) ks"
    if "set ks \<subseteq> set ?ks" for ks
    using that get by (induction ks) (fastforce simp: List.map_filter_simps)+
  have vk: "rc_vkey (the (hm_get m k)) = k" if "k \<in> set ?ks" for k
    using get [OF that] storable_get [OF assms] by auto
  have "map (rc_vkey \<circ> (\<lambda>k. the (hm_get m k))) ?ks = ?ks"
    using vk by (intro map_idI) auto
  then have "distinct (map rc_vkey (map (\<lambda>k. the (hm_get m k)) ?ks))"
    using ks(1) by simp
  then have "distinct (map rc_vkey (save_order m))"
    unfolding save_order_def all [OF subset_refl] by (rule distinct_map_filter)
  moreover have "c \<in> set (save_order m) \<longleftrightarrow> (\<exists>k \<in> set ?ks. c = the (hm_get m k)) \<and> \<not> skip_client c"
    unfolding save_order_def using all [of ?ks] by auto
  moreover have "(\<exists>k \<in> set ?ks. c = the (hm_get m k)) \<longleftrightarrow> hm_get m (rc_vkey c) = Some c"
    using get vk ks(2) by (metis domI dom_map_of_conv_image_fst option.sel)
  ultimately show ?thesis by blast
qed

lemma filter_concat_owner:
  assumes "distinct (map rc_vkey cs)" "\<forall>c \<in> set cs. \<forall>x \<in> set (f c). owner x = rc_vkey c"
  shows "filter (\<lambda>x. owner x = v) (concat (map f cs)) = (case find (\<lambda>c. rc_vkey c = v) cs of None \<Rightarrow> [] | Some c \<Rightarrow> f c)"
  using assms
proof (induction cs)
  case (Cons c cs)
  have own: "\<forall>x \<in> set (f c). owner x = rc_vkey c" using Cons.prems by auto
  show ?case
  proof (cases "rc_vkey c = v")
    case True
    then have "find (\<lambda>c. rc_vkey c = v) cs = None"
      using Cons.prems(1) by (auto simp: find_None_iff image_iff)
    with Cons True own show ?thesis by (simp add: filter_True)
  next
    case False
    with own have "filter (\<lambda>x. owner x = v) (f c) = []" by (auto simp: filter_empty_conv)
    with Cons False show ?thesis by simp
  qed
qed simp

lemma find_map_record:
  "find (\<lambda>c. rc_vkey c = v) (map client_record cs) = map_option client_record (find (\<lambda>c. rc_vkey c = v) cs)"
  by (induction cs) (auto simp: client_record_def)

lemma find_save_order:
  assumes "storable m"
  shows "find (\<lambda>c. rc_vkey c = v) (save_order m) =
     (case hm_get m v of None \<Rightarrow> None | Some c \<Rightarrow> if skip_client c then None else Some c)"
proof (cases "find (\<lambda>c. rc_vkey c = v) (save_order m)")
  case None
  then have no: "c \<notin> set (save_order m)" if "rc_vkey c = v" for c
    using that by (auto simp: find_None_iff)
  show ?thesis
  proof (cases "hm_get m v")
    case (Some c)
    with storable_get [OF assms this] no [of c] save_order_eq [OF assms, of c] None show ?thesis by auto
  qed (use None in simp)
next
  case (Some c)
  then have "c \<in> set (save_order m)" "rc_vkey c = v"
    by (auto simp: find_Some_iff)
  with save_order_eq [OF assms, of c] Some show ?thesis by auto
qed

lemma install_image_get:
  assumes "storable m"
  shows "client_of v (install_persistent_state md5_hex (persistent_image m global) (Registry_new server)) =
     (case hm_get m v of
        None \<Rightarrow> None
      | Some c \<Rightarrow> if skip_client c then None
                  else Some ((client_record c)\<lparr>rc_tunnels := stored_tunnels c, rc_hosts := stored_hosts c\<rparr>))"
proof -
  let ?cs = "save_order m" and ?im = "persistent_image m global"
  let ?r = "(Registry_new server)\<lparr>re_global := global\<rparr>"
  have cs: "hm_get m (rc_vkey c) = Some c" if "c \<in> set ?cs" for c
    using that save_order_eq [OF assms, of c] by blast
  have dist: "distinct (map rc_vkey ?cs)" "distinct (map rc_vkey (map client_record ?cs))"
    using save_order_eq [OF assms] by (auto simp: client_record_def comp_def)
  have st: "list_all client_stored (map client_record ?cs)"
    "list_all tunnel_stored (concat (map stored_tunnels ?cs))" "list_all host_stored (concat (map stored_hosts ?cs))"
    using storable_get [OF assms cs]
    by (auto simp: list_all_iff client_stored_def client_record_def tunnel_stored_def stored_tunnels_def
        host_stored_def stored_hosts_def)
  have own: "filter (\<lambda>t. tn_client_vkey t = v) (concat (map stored_tunnels ?cs))
      = (case find (\<lambda>c. rc_vkey c = v) ?cs of None \<Rightarrow> [] | Some c \<Rightarrow> stored_tunnels c)"
    "filter (\<lambda>h. ho_client_vkey h = v) (concat (map stored_hosts ?cs))
      = (case find (\<lambda>c. rc_vkey c = v) ?cs of None \<Rightarrow> [] | Some c \<Rightarrow> stored_hosts c)"
    using storable_get [OF assms cs]
    by (intro filter_concat_owner dist(1); auto simp: stored_tunnels_def stored_hosts_def)+
  obtain a ra where a: "fold load_client (map client_record ?cs) ([], ?r) = (a, ra)" by fastforce
  obtain b rb where b: "fold load_tunnel (concat (map stored_tunnels ?cs)) (a, ra) = (b, rb)" by fastforce
  obtain d rd where d: "fold load_host (concat (map stored_hosts ?cs)) (b, rb) = (d, rd)" by fastforce
  have ok: "hm_ok d"
    using load_hm_ok(1) [of "([], ?r)" "map client_record ?cs"] a
      load_hm_ok(2) [of "(a, ra)" "concat (map stored_tunnels ?cs)"] b
      load_hm_ok(3) [of "(b, rb)" "concat (map stored_hosts ?cs)"] d by simp
  have "hm_get d v = map_option (\<lambda>c. (client_record c)\<lparr>rc_tunnels := stored_tunnels c, rc_hosts := stored_hosts c\<rparr>)
      (find (\<lambda>c. rc_vkey c = v) ?cs)"
    using load_clients_get [OF st(1) dist(2), of "[]" ?r v] load_tunnels_get [OF st(2), of a ra v]
      load_hosts_get [OF st(3), of b rb v] a b d own find_map_record [of v ?cs]
    by (cases "find (\<lambda>c. rc_vkey c = v) ?cs") (auto simp: client_record_def)
  moreover have "re_clients rd = []"
    using load_keeps(1) [of "map client_record ?cs" "([], ?r)"] a
      load_keeps(2) [of "concat (map stored_tunnels ?cs)" "(a, ra)"] b
      load_keeps(3) [of "concat (map stored_hosts ?cs)" "(b, rb)"] d by (simp add: Registry_new_def)
  ultimately show ?thesis
    using a b d fold_insert_get [OF ok, of "[]" v] find_save_order [OF assms, of v]
    by (auto simp: install_persistent_state_def loaded_clients_def persistent_image_def Let_def
        split: option.splits if_splits)
qed

section \<open>Properties\<close>

definition demo_restart :: ClientRuntimeConfig where
  "demo_restart = rc_vkey_update ''k'' demo_stored\<lparr>rc_tunnels := [Tunnel_default\<lparr>tn_id := 9, tn_no_store := False, tn_client_vkey := ''k''\<rparr>]\<rparr>"

definition demo_restart_codec :: codec where
  "demo_restart_codec = demo_codec
     \<lparr>jd_client := \<lambda>_. Some (client_record demo_restart),
      jd_tunnel := \<lambda>_. Some (Tunnel_default\<lparr>tn_id := 9, tn_no_store := False, tn_client_vkey := ''k''\<rparr>)\<rparr>"

text \<open>
  The port filter is exact: the check a single port goes through (\<open>port_allowed\<close>)
  agrees with the list the generator of ports draws from (\<open>expand_ports\<close>), and a tunnel
  passes \<open>validate_tunnel_ports\<close> iff it is a secret or p2p tunnel, there is no port list,
  or all its ports are on the list.
\<close>

lemma tunnel_ports_checked:
  "(port_allowed allow p \<longleftrightarrow> p \<in> set (expand_ports allow))
   \<and> (validate_tunnel_ports server t = Inr () \<longleftrightarrow>
        is_secret_mode (trim (tn_mode t)) \<or> trim (sc_allow_ports server) = []
        \<or> list_all (\<lambda>p. port_allowed (sc_allow_ports server) p) (tunnel_ports t))"
  by (simp add: port_allowed_iff validate_ok_iff list_all_iff)

text \<open>
  A generated port is usable: where the server has a port list, a port that
  \<open>ensure_tunnel_server_port\<close> chooses is on the list and could be bound, and the tunnel it
  returns passes the port check and listens on that port only.
\<close>

lemma generated_port_usable:
  assumes "ensure_tunnel_server_port net server t = Inr t'" "tn_server_port t = 0"
    and "trim (sc_allow_ports server) \<noteq> []"
  shows "validate_tunnel_ports server t' = Inr () \<and> tunnel_ports t' = [tn_server_port t']
     \<and> port_allowed (sc_allow_ports server) (tn_server_port t')
     \<and> ne_bindable net (to_ascii_lowercase (tn_mode t) = ''udp'')
          (if trim (tn_server_ip t) = [] then ''0.0.0.0'' else tn_server_ip t) (tn_server_port t')"
proof -
  obtain p where p: "generate_server_port net server (tn_mode t) (tn_server_ip t) = Inr p"
    "t' = t\<lparr>tn_server_port := p, tn_ports := show_nat (unat p)\<rparr>"
    using assms by (auto simp: ensure_tunnel_server_port_def split: sum.splits)
  with generate_server_port_sound [OF p(1) assms(3)] ensure_port_validates [OF assms(1,2)] show ?thesis
    by (simp add: tunnel_ports_def parse_show_port)
qed

text \<open>
  C35: A configuration connection changes only the client it names.  On success the client
  is installed under the key of its configuration, its health state is cleared, and a
  client that was already known keeps its id, its storage flag and every stored host and
  tunnel (in expanded form); on failure nothing but the id counter has changed.
\<close>

theorem install_client_config_effect:
  assumes "install_client_config md5_hex now_text config r = (res, r')"
  shows "(\<forall>v. v \<noteq> rc_vkey config \<longrightarrow> client_of v r' = client_of v r \<and> removed_targets v r' = removed_targets v r)
     \<and> (case res of
          Inl e \<Rightarrow> \<exists>q. r' = r\<lparr>re_seq := q\<rparr>
        | Inr _ \<Rightarrow> \<exists>c. client_of (rc_vkey config) r' = Some c \<and> rc_vkey c = rc_vkey config
            \<and> removed_targets (rc_vkey config) r' = []
            \<and> (case client_of (rc_vkey config) r of
                 None \<Rightarrow> rc_no_store c
               | Some e \<Rightarrow> rc_id c = rc_id e \<and> rc_no_store c = rc_no_store e
                   \<and> set (stored_hosts e) \<subseteq> set (rc_hosts c)
                   \<and> (\<forall>t \<in> set (stored_tunnels e). set (expand_one t) \<subseteq> set (rc_tunnels c))))"
proof (cases rule: install_client_config_cases [of md5_hex now_text config r])
  case (failed e r'')
  with assms show ?thesis by (auto simp: renumbered_def removed_targets_def)
next
  case (installed hosts tunnels r2 merged r3)
  let ?m = "merged\<lparr>rc_tunnels := expand_runtime_tunnels merged\<rparr>"
  have r': "res = Inr ()" "re_clients r' = hm_insert (rc_vkey config) ?m (re_clients r)"
    "re_health_targets r' = hm_remove (rc_vkey config) (re_health_targets r)"
    using assms installed renumbered_fields [OF installed(3)] by auto
  have same: "client_of v r2 = client_of v r" for v
    using renumbered_fields [OF installed(1)] by simp
  note m = merge_client_result [OF installed(2)]
  have "rc_vkey ?m = rc_vkey config" using m by simp
  moreover have "case client_of (rc_vkey config) r of
                 None \<Rightarrow> rc_no_store ?m
               | Some e \<Rightarrow> rc_id ?m = rc_id e \<and> rc_no_store ?m = rc_no_store e
                   \<and> set (stored_hosts e) \<subseteq> set (rc_hosts ?m)
                   \<and> (\<forall>t \<in> set (stored_tunnels e). set (expand_one t) \<subseteq> set (rc_tunnels ?m))"
    using m same by (auto simp: expand_runtime_tunnels_def split: option.splits)
  ultimately show ?thesis
    using r' by (auto simp: removed_targets_def hm_simps split: option.splits)
qed

definition demo_multi :: ClientRuntimeConfig where
  "demo_multi = rc_vkey_update ''k'' ClientRuntimeConfig_default
     \<lparr>rc_id := 5, rc_tunnels := [Tunnel_default\<lparr>tn_id := 9, tn_ports := ''8001,8002'', tn_no_store := False, tn_client_vkey := ''k''\<rparr>]\<rparr>"

definition demo_config :: ClientRuntimeConfig where
  "demo_config = rc_vkey_update ''k'' ClientRuntimeConfig_default"

definition demo_multi_registry :: Registry where
  "demo_multi_registry = (Registry_new ServerConfig_default)\<lparr>re_clients := [(''k'', demo_multi)], re_seq := 10\<rparr>"

theorem install_client_config_effect_witness:
  "\<exists>c. client_of ''k'' (snd (install_client_config rev ''now'' demo_config demo_multi_registry)) = Some c \<and> rc_id c = 5"
proof -
  have ok: "fst (install_client_config rev ''now'' demo_config demo_multi_registry) = Inr ()"
    "client_of (rc_vkey demo_config) demo_multi_registry = Some demo_multi" "rc_id demo_multi = 5" "rc_vkey demo_config = ''k''"
    by code_simp+
  let ?i = "install_client_config rev ''now'' demo_config demo_multi_registry"
  have "?i = (fst ?i, snd ?i)" by simp
  from install_client_config_effect [OF this] ok show ?thesis by auto
qed

text \<open>
  Reconnecting multiplies a stored tunnel with several ports.  A client with one stored
  tunnel on two ports has two tunnels after its first configuration connection, four
  after the second and eight after the third, although its configuration file is empty.
\<close>

lemma reconnect_multiplies_tunnels:
  fixes connect
  defines "connect \<equiv> \<lambda>r. snd (install_client_config rev ''now'' demo_config r)"
  shows "map (\<lambda>r. map_option (length \<circ> rc_tunnels) (client_of ''k'' r))
           [demo_multi_registry, connect demo_multi_registry, connect (connect demo_multi_registry),
            connect (connect (connect demo_multi_registry))]
         = [Some 1, Some 2, Some 4, Some 8]"
  unfolding connect_def by code_simp

end
