(* ===== verification/Bridge.thy ===== *)
theory Bridge
  imports Mux Routing Tunnels
begin

text \<open>
  The bridge of \<open>src/server.rs\<close>: how a visitor's request obtains a stream to a client
  (\<open>request_client_stream\<close>), and how connections of clients are served
  (\<open>handle_bridge_conn\<close>, \<open>handle_secret_visitor\<close>, \<open>mux_accept_loop\<close>).

  Requests run concurrently, each in a thread of its own.  The body of
  \<open>request_client_stream\<close> is cut at its accesses to the shared state: a \<open>Request\<close> is the
  program point a thread has reached with its local variables, \<open>request_step\<close> runs it to
  the next point, and \<open>bridge_step\<close> interleaves the steps of any number of requests with
  arriving data connections and with the rest of the server.  Connections are addressed
  by number.  What a request waits for (\<open>recv_timeout\<close>), and whether the encryption and
  compression wrappers can be set up, are arguments.
\<close>

section \<open>Requests\<close>

record CountedRelayStream =
  cr_stream :: nat
  cr_crypt :: bool
  cr_compress :: bool
  cr_policy :: RelayPolicy
  cr_vkey :: string

text \<open>
  The program points of \<open>request_client_stream\<close>, with its arguments and the locals
  \<open>slot_reserved\<close>, \<open>control\<close> and \<open>link_id\<close>.  A request ends as \<open>Failed\<close>, as \<open>Leaked\<close> (it
  failed, but the slot it took is still counted), or as \<open>Serving\<close>, which lasts until the
  returned stream is dropped.
\<close>

datatype Request =
    Started (rq_vkey: string) Link
  | Checked (rq_vkey: string) Link
  | Admitted (rq_vkey: string) Link bool
  | Located (rq_vkey: string) Link bool ControlHandle
  | Queued (rq_vkey: string) Link bool ControlHandle u64
  | Waiting (rq_vkey: string) Link bool u64
  | Serving (rq_vkey: string) u64 CountedRelayStream
  | Closed (rq_vkey: string)
  | Failed (rq_vkey: string) io_error
  | Leaked (rq_vkey: string) io_error

text \<open>What \<open>recv_timeout\<close> returns: a stream, which is a \<open>MuxStream\<close> or not, or an error.\<close>

datatype recv_result = Received nat bool | RecvTimeout | RecvDisconnected

definition recv_error :: "recv_result \<Rightarrow> string" where
  "recv_error res =
     (case res of RecvTimeout \<Rightarrow> ''timed out waiting on channel''
      | _ \<Rightarrow> ''channel is empty and sending half is closed'')"

definition give_back :: "bool \<Rightarrow> string \<Rightarrow> Registry \<Rightarrow> Registry" where
  "give_back slot_reserved vkey r = (if slot_reserved then release_client_connection_slot vkey r else r)"

definition forget_pending :: "u64 \<Rightarrow> Registry \<Rightarrow> Registry" where
  "forget_pending link_id r = r\<lparr>re_pending := hm_remove link_id (re_pending r)\<rparr>"

text \<open>The end of the request: the answer of \<open>recv_timeout\<close> and the transport wrappers.\<close>

definition request_finish ::
  "recv_result \<Rightarrow> unit io_result \<Rightarrow> string \<Rightarrow> Link \<Rightarrow> bool \<Rightarrow> u64 \<Rightarrow> Registry \<Rightarrow> Request \<times> Registry" where
  "request_finish res wrap vkey link slot link_id r =
     (case res of
        Received stream is_mux_stream \<Rightarrow>
          (let (policy, r1) = (if is_mux_stream then (RelayPolicy_default, r) else client_relay_policy vkey r)
           in case wrap of
                Inl e \<Rightarrow> (if slot then Leaked vkey e else Failed vkey e, r1)
              | Inr _ \<Rightarrow> (Serving vkey link_id \<lparr>cr_stream = stream, cr_crypt = lk_crypt link,
                           cr_compress = lk_compress link, cr_policy = policy, cr_vkey = vkey\<rparr>, r1))
      | _ \<Rightarrow> (Failed vkey (IoError TimedOut (recv_error res)), forget_pending link_id (give_back slot vkey r)))"

text \<open>One step of request number \<open>n\<close>; the last one is the drop of \<open>ConnectionSlotGuard\<close>.\<close>

fun request_step ::
  "time \<Rightarrow> recv_result \<Rightarrow> unit io_result \<Rightarrow> nat \<Rightarrow> Request \<Rightarrow> Registry \<Rightarrow> Request \<times> Registry" where
  "request_step now res wrap n (Started vkey link) r =
     (case validate_client_access now vkey (lk_remote_addr link) r of
        (Inl e, r') \<Rightarrow> (Failed vkey e, r')
      | (Inr _, r') \<Rightarrow> (Checked vkey link, r'))"
| "request_step now res wrap n (Checked vkey link) r =
     (case acquire_client_connection_slot vkey r of
        (Inl e, r') \<Rightarrow> (Failed vkey e, r')
      | (Inr slot, r') \<Rightarrow> (Admitted vkey link slot, r'))"
| "request_step now res wrap n (Admitted vkey link slot) r =
     (case hm_get (re_controls r) vkey of
        None \<Rightarrow> (Failed vkey (IoError NotConnected ''client is offline''), give_back slot vkey r)
      | Some control \<Rightarrow> (Located vkey link slot control, r))"
| "request_step now res wrap n (Located vkey link slot control) r =
     (case next_link_id r of
        (link_id, r') \<Rightarrow>
          (Queued vkey link slot control link_id,
           r'\<lparr>re_pending := hm_insert link_id n (re_pending r')\<rparr>))"
| "request_step now res wrap n (Queued vkey link slot control link_id) r =
     (case queue_send (ch_tx control) (MsgOpen link_id link) r of
        (False, r') \<Rightarrow> (Failed vkey (IoError BrokenPipe ''control channel closed''),
                       forget_pending link_id (give_back slot vkey r'))
      | (True, r') \<Rightarrow> (Waiting vkey link slot link_id, r'))"
| "request_step now res wrap n (Waiting vkey link slot link_id) r =
     request_finish res wrap vkey link slot link_id r"
| "request_step now res wrap n (Serving vkey link_id stream) r =
     (Closed vkey, release_client_connection_slot vkey r)"
| "request_step now res wrap n q r = (q, r)"

text \<open>
  The call as one function: six steps in a row, up to the return.  \<open>Serving\<close> is left only
  by the drop of the stream, which is not part of the call.
\<close>

definition request_advance ::
  "time \<Rightarrow> recv_result \<Rightarrow> unit io_result \<Rightarrow> nat \<Rightarrow> Request \<times> Registry \<Rightarrow> Request \<times> Registry" where
  "request_advance now res wrap n st =
     (case st of (q, r) \<Rightarrow> (case q of Serving _ _ _ \<Rightarrow> st | _ \<Rightarrow> request_step now res wrap n q r))"

lemma request_advance_simps [simp]:
  "request_advance now res wrap n (Started vkey link, r) = request_step now res wrap n (Started vkey link) r"
  "request_advance now res wrap n (Checked vkey link, r) = request_step now res wrap n (Checked vkey link) r"
  "request_advance now res wrap n (Admitted vkey link slot, r) = request_step now res wrap n (Admitted vkey link slot) r"
  "request_advance now res wrap n (Located vkey link slot control, r) =
     request_step now res wrap n (Located vkey link slot control) r"
  "request_advance now res wrap n (Queued vkey link slot control link_id, r) =
     request_step now res wrap n (Queued vkey link slot control link_id) r"
  "request_advance now res wrap n (Waiting vkey link slot link_id, r) = request_finish res wrap vkey link slot link_id r"
  "request_advance now res wrap n (Serving vkey link_id stream, r) = (Serving vkey link_id stream, r)"
  "request_advance now res wrap n (Failed vkey e, r) = (Failed vkey e, r)"
  by (simp_all add: request_advance_def)

definition request_result :: "Request \<times> Registry \<Rightarrow> CountedRelayStream io_result \<times> Registry" where
  "request_result st =
     (case st of (q, r) \<Rightarrow>
       (case q of Serving _ _ stream \<Rightarrow> Inr stream
        | Failed _ e \<Rightarrow> Inl e
        | Leaked _ e \<Rightarrow> Inl e
        | _ \<Rightarrow> Inl (IoError Other []), r))"

definition request_client_stream ::
  "time \<Rightarrow> recv_result \<Rightarrow> unit io_result \<Rightarrow> nat \<Rightarrow> string \<Rightarrow> Link \<Rightarrow> Registry \<Rightarrow> CountedRelayStream io_result \<times> Registry" where
  "request_client_stream now res wrap n vkey link r =
     (let advance = request_advance now res wrap n
      in request_result (advance (advance (advance (advance (advance (advance (Started vkey link, r))))))))"

section \<open>Facts about single steps\<close>

text \<open>The slot a request accounts for.\<close>

fun rq_holds :: "Request \<Rightarrow> bool" where
  "rq_holds (Admitted _ _ slot) = slot"
| "rq_holds (Located _ _ slot _) = slot"
| "rq_holds (Queued _ _ slot _ _) = slot"
| "rq_holds (Waiting _ _ slot _) = slot"
| "rq_holds (Serving _ _ _) = True"
| "rq_holds (Leaked _ _) = True"
| "rq_holds _ = False"

text \<open>The link id of a request from the moment it has one; it is still known while it serves.\<close>

fun rq_link :: "Request \<Rightarrow> u64 option" where
  "rq_link (Queued _ _ _ _ link_id) = Some link_id"
| "rq_link (Waiting _ _ _ link_id) = Some link_id"
| "rq_link (Serving _ link_id _) = Some link_id"
| "rq_link _ = None"

text \<open>What the checks may change: expired authorisations go, a flow counter may be created.\<close>

lemma flow_limit_shape: "\<exists>f. snd (client_flow_limit_reached vkey r) = r\<lparr>re_flow_counters := f\<rparr>"
proof (cases "hm_get (re_flow_counters r) vkey")
  case None
  then show ?thesis
    by (auto simp: client_flow_limit_reached_def client_flow_counter_def Let_def intro: exI [of _ "re_flow_counters r"])
next
  case (Some c)
  then show ?thesis
    by (auto simp: client_flow_limit_reached_def client_flow_counter_def Let_def intro!: exI [of _ "re_flow_counters r"])
qed

lemma access_shape:
  "\<exists>a f. snd (validate_client_access now vkey remote r) = r\<lparr>re_authorized_ips := a, re_flow_counters := f\<rparr>"
proof -
  have same: "\<exists>a f. r = r\<lparr>re_authorized_ips := a, re_flow_counters := f\<rparr>"
    by (rule exI [of _ "re_authorized_ips r"], rule exI [of _ "re_flow_counters r"]) simp
  define r1 where "r1 = (if sc_ip_limit (re_server r) then snd (is_ip_authorized now (remote_ip remote) r) else r)"
  obtain a where a: "r1 = r\<lparr>re_authorized_ips := a\<rparr>"
  proof
    show "r1 = r\<lparr>re_authorized_ips := re_authorized_ips r1\<rparr>"
      by (simp add: r1_def is_ip_authorized_def Let_def)
  qed
  have one: "\<exists>a f. r1 = r\<lparr>re_authorized_ips := a, re_flow_counters := f\<rparr>"
    unfolding a by (rule exI [of _ a], rule exI [of _ "re_flow_counters r"]) simp
  obtain f where f: "snd (client_flow_limit_reached vkey r1) = r1\<lparr>re_flow_counters := f\<rparr>"
    using flow_limit_shape by blast
  have two: "\<exists>a f. snd (client_flow_limit_reached vkey r1) = r\<lparr>re_authorized_ips := a, re_flow_counters := f\<rparr>"
    using f by (auto simp: a)
  have "snd (validate_client_access now vkey remote r)
      \<in> {r, r1, snd (client_flow_limit_reached vkey r1)}"
    by (simp add: validate_client_access_def r1_def Let_def case_prod_beta split: prod.split bool.split)
  with same one two show ?thesis by (metis empty_iff insert_iff)
qed

lemma access_pending [simp]:
  "re_pending (snd (validate_client_access now vkey remote r)) = re_pending r"
  "re_conn_counts (snd (validate_client_access now vkey remote r)) = re_conn_counts r"
  "re_clients (snd (validate_client_access now vkey remote r)) = re_clients r"
  "re_server (snd (validate_client_access now vkey remote r)) = re_server r"
  "re_seq (snd (validate_client_access now vkey remote r)) = re_seq r"
  "re_controls (snd (validate_client_access now vkey remote r)) = re_controls r"
  using access_shape [of now vkey remote r] by auto

lemma acquire_fields [simp]:
  "re_pending (snd (acquire_client_connection_slot vkey r)) = re_pending r"
  "re_server (snd (acquire_client_connection_slot vkey r)) = re_server r"
  "re_seq (snd (acquire_client_connection_slot vkey r)) = re_seq r"
  by (auto simp: acquire_client_connection_slot_def Let_def)

lemma release_fields [simp]:
  "re_pending (release_client_connection_slot vkey r) = re_pending r"
  "re_server (release_client_connection_slot vkey r) = re_server r"
  "re_seq (release_client_connection_slot vkey r) = re_seq r"
  by (auto simp: release_client_connection_slot_def split: option.splits)

lemma give_back_fields [simp]:
  "re_pending (give_back slot vkey r) = re_pending r"
  "re_clients (give_back slot vkey r) = re_clients r"
  "re_server (give_back slot vkey r) = re_server r"
  "re_seq (give_back slot vkey r) = re_seq r"
  by (auto simp: give_back_def)

lemma queue_send_fields [simp]:
  "re_pending (snd (queue_send q msg r)) = re_pending r"
  "re_conn_counts (snd (queue_send q msg r)) = re_conn_counts r"
  "re_clients (snd (queue_send q msg r)) = re_clients r"
  "re_server (snd (queue_send q msg r)) = re_server r"
  "re_seq (snd (queue_send q msg r)) = re_seq r"
  by (auto simp: queue_send_def)

lemma policy_fields [simp]:
  "re_pending (snd (client_relay_policy vkey r)) = re_pending r"
  "re_conn_counts (snd (client_relay_policy vkey r)) = re_conn_counts r"
  "re_clients (snd (client_relay_policy vkey r)) = re_clients r"
  "re_server (snd (client_relay_policy vkey r)) = re_server r"
  "re_seq (snd (client_relay_policy vkey r)) = re_seq r"
  by (auto simp: client_relay_policy_def client_flow_counter_def split: option.splits)


text \<open>The call without interleaving, in the order of the source.\<close>

lemma request_client_stream_seq:
  "request_client_stream now res wrap n vkey link r =
     (case validate_client_access now vkey (lk_remote_addr link) r of
        (Inl e, r1) \<Rightarrow> (Inl e, r1)
      | (Inr _, r1) \<Rightarrow>
     (case acquire_client_connection_slot vkey r1 of
        (Inl e, r2) \<Rightarrow> (Inl e, r2)
      | (Inr slot, r2) \<Rightarrow>
     (case hm_get (re_controls r2) vkey of
        None \<Rightarrow> (Inl (IoError NotConnected ''client is offline''), give_back slot vkey r2)
      | Some control \<Rightarrow>
          let link_id = re_seq r2;
              r3 = r2\<lparr>re_seq := link_id + 1, re_pending := hm_insert link_id n (re_pending r2)\<rparr>;
              (sent, r4) = queue_send (ch_tx control) (MsgOpen link_id link) r3
          in if \<not> sent then (Inl (IoError BrokenPipe ''control channel closed''),
                             forget_pending link_id (give_back slot vkey r4))
             else request_result (request_finish res wrap vkey link slot link_id r4))))"
proof (cases "validate_client_access now vkey (lk_remote_addr link) r")
  case (Pair v r1)
  obtain a r2 where acq: "acquire_client_connection_slot vkey r1 = (a, r2)" by fastforce
  show ?thesis
  proof (cases "\<exists>slot control. v = Inr () \<and> a = Inr slot \<and> hm_get (re_controls r2) vkey = Some control")
    case False
    then show ?thesis
      by (cases v; cases a; cases "hm_get (re_controls r2) vkey")
        (auto simp: request_client_stream_def Pair acq request_result_def)
  next
    case True
    then obtain slot control where ok: "v = Inr ()" "a = Inr slot" "hm_get (re_controls r2) vkey = Some control" by blast
    define r3 where "r3 = r2\<lparr>re_seq := re_seq r2 + 1, re_pending := hm_insert (re_seq r2) n (re_pending r2)\<rparr>"
    obtain sent r4 where sent: "queue_send (ch_tx control) (MsgOpen (re_seq r2) link) r3 = (sent, r4)" by fastforce
    show ?thesis
      by (cases sent)
        (simp_all add: request_client_stream_def Pair acq ok next_link_id_def r3_def [symmetric] sent request_result_def)
  qed
qed

section \<open>The running bridge\<close>

text \<open>
  \<open>br_reqs\<close> lists all requests by number; \<open>br_holding\<close> the data connections that have
  taken the sender of a request out of \<open>pending\<close> and not yet used it (request, link id,
  stream, whether it is a mux stream); \<open>br_inbox\<close> the streams sent to a request and not
  yet received.  \<open>br_announced\<close> records every data connection with the link id it named,
  for the statement of the theorems only.
\<close>

record Bridge =
  br_reg :: Registry
  br_reqs :: "Request list"
  br_holding :: "(nat \<times> u64 \<times> nat \<times> bool) list"
  br_inbox :: "(nat \<times> u64 \<times> nat \<times> bool) list"
  br_announced :: "(u64 \<times> nat) list"

definition bridge_start :: "Registry \<Rightarrow> Bridge" where
  "bridge_start r = \<lparr>br_reg = r, br_reqs = [], br_holding = [], br_inbox = [], br_announced = []\<rparr>"

text \<open>
  A data connection: \<open>BridgeHello::Data\<close>, or a stream that \<open>mux_accept_loop\<close> accepted.
  Both remove the entry of the link id and use the sender they find.
\<close>

definition take_link :: "u64 \<Rightarrow> nat \<Rightarrow> bool \<Rightarrow> Bridge \<Rightarrow> Bridge" where
  "take_link link_id stream is_mux b =
     (let r = br_reg b; b1 = b\<lparr>br_announced := (link_id, stream) # br_announced b\<rparr>
      in case hm_get (re_pending r) link_id of
           None \<Rightarrow> b1
         | Some n \<Rightarrow> b1\<lparr>br_reg := forget_pending link_id r,
                        br_holding := (n, link_id, stream, is_mux) # br_holding b\<rparr>)"

text \<open>What request number \<open>n\<close> finds in its channel.\<close>

definition received :: "nat \<Rightarrow> recv_result \<Rightarrow> Bridge \<Rightarrow> bool" where
  "received n res b =
     (case res of
        Received stream is_mux \<Rightarrow> list_ex (\<lambda>(m, _, s, x). m = n \<and> s = stream \<and> x = is_mux) (br_inbox b)
      | _ \<Rightarrow> list_all (\<lambda>(m, _). m \<noteq> n) (br_inbox b))"

text \<open>
  The interleaving.  The last rule is everything else the server does, limited only in
  that it leaves \<open>pending\<close> and the connection counts alone, does not move the id counter
  back, and changes no client's limit.  Runs in which the 64-bit id counter wraps around
  are left out (the guard in \<open>run\<close>).
\<close>

inductive bridge_step :: "Bridge \<Rightarrow> Bridge \<Rightarrow> bool" where
  new: "bridge_step b (b\<lparr>br_reqs := br_reqs b @ [Started vkey link]\<rparr>)"
| run: "n < length (br_reqs b) \<Longrightarrow> received n res b \<Longrightarrow> re_seq (br_reg b) \<noteq> - 1 \<Longrightarrow>
        request_step now res wrap n (br_reqs b ! n) (br_reg b) = (q, r) \<Longrightarrow>
        bridge_step b (b\<lparr>br_reqs := (br_reqs b)[n := q], br_reg := r\<rparr>)"
| data: "bridge_step b (take_link link_id stream is_mux b)"
| deliver: "h \<in> set (br_holding b) \<Longrightarrow>
        bridge_step b (b\<lparr>br_holding := remove1 h (br_holding b), br_inbox := h # br_inbox b\<rparr>)"
| lose: "h \<in> set (br_holding b) \<Longrightarrow> bridge_step b (b\<lparr>br_holding := remove1 h (br_holding b)\<rparr>)"
| rest: "re_pending r = re_pending (br_reg b) \<Longrightarrow> re_conn_counts r = re_conn_counts (br_reg b) \<Longrightarrow>
        re_server r = re_server (br_reg b) \<Longrightarrow> (\<forall>v. max_conn_of v r = max_conn_of v (br_reg b)) \<Longrightarrow>
        re_seq (br_reg b) \<le> re_seq r \<Longrightarrow> bridge_step b (b\<lparr>br_reg := r\<rparr>)"

inductive_cases bridge_stepE: "bridge_step b b'"

abbreviation bridge_reaches :: "Bridge \<Rightarrow> Bridge \<Rightarrow> bool" where
  "bridge_reaches \<equiv> bridge_step\<^sup>*\<^sup>*"

section \<open>Slots are conserved\<close>

definition slots_of :: "string \<Rightarrow> Request list \<Rightarrow> nat" where
  "slots_of v qs = length (filter (\<lambda>q. rq_vkey q = v \<and> rq_holds q) qs)"

lemma filter_update_length:
  "i < length xs \<Longrightarrow>
   length (filter P (xs[i := y])) + (if P (xs ! i) then 1 else 0) = length (filter P xs) + (if P y then 1 else 0)"
proof (induction xs arbitrary: i)
  case (Cons x xs)
  then show ?case by (cases i) auto
qed simp

text \<open>A request whose client is limited has its slot whenever it should have one.\<close>

fun rq_slot :: "Request \<Rightarrow> bool option" where
  "rq_slot (Admitted _ _ slot) = Some slot"
| "rq_slot (Located _ _ slot _) = Some slot"
| "rq_slot (Queued _ _ slot _ _) = Some slot"
| "rq_slot (Waiting _ _ slot _) = Some slot"
| "rq_slot _ = None"

definition limited :: "string \<Rightarrow> Registry \<Rightarrow> bool" where
  "limited v r \<longleftrightarrow> sc_allow_connection_num_limit (re_server r) \<and> max_conn_of v r \<noteq> 0"

lemma request_step_vkey [simp]: "rq_vkey (fst (request_step now res wrap n q r)) = rq_vkey q"
  by (cases q) (auto simp: request_finish_def Let_def split: prod.splits sum.splits option.splits recv_result.splits bool.splits)

lemma forget_pending_fields [simp]:
  "re_conn_counts (forget_pending link_id r) = re_conn_counts r"
  "re_clients (forget_pending link_id r) = re_clients r"
  "re_server (forget_pending link_id r) = re_server r"
  "re_seq (forget_pending link_id r) = re_seq r"
  by (simp_all add: forget_pending_def)

lemma client_now_conn_cong: "re_conn_counts r' = re_conn_counts r \<Longrightarrow> client_now_conn v r' = client_now_conn v r"
  by (simp add: client_now_conn_def)

lemma release_count:
  "client_now_conn v (release_client_connection_slot vkey r) =
     (if v = vkey then client_now_conn v r - 1 else client_now_conn v r)"
  by (auto simp: release_client_connection_slot_def client_now_conn_def hm_simps split: option.splits)

lemma give_back_count:
  "client_now_conn v (give_back slot vkey r) =
     (if slot \<and> v = vkey then client_now_conn v r - 1 else client_now_conn v r)"
  by (simp add: give_back_def release_count)

text \<open>The shared state after a step, field by field.\<close>

lemma request_step_limits [simp]:
  "re_clients (snd (request_step now res wrap n q r)) = re_clients r"
  "re_server (snd (request_step now res wrap n q r)) = re_server r"
  by (cases q; simp add: request_finish_def next_link_id_def case_prod_beta
      split: sum.split option.split bool.split recv_result.split)+

lemma request_step_limited [simp]:
  "limited v (snd (request_step now res wrap n q r)) = limited v r"
  "max_conn_of v (snd (request_step now res wrap n q r)) = max_conn_of v r"
  by (simp_all add: limited_def max_conn_of_def)

lemma acquire_limited:
  assumes "acquire_client_connection_slot vkey r = (Inr slot, r')" "limited v r"
  shows "client_now_conn v r' = client_now_conn v r + (if v = vkey then 1 else 0)" "v = vkey \<longrightarrow> slot"
    "client_now_conn v r \<le> max_conn_of v r \<Longrightarrow> client_now_conn v r' \<le> max_conn_of v r"
  using assms
  by (auto simp: acquire_client_connection_slot_def limited_def client_now_conn_def hm_simps Let_def not_le
      split: if_splits)

lemma acquire_failed: "acquire_client_connection_slot vkey r = (Inl e, r') \<Longrightarrow> r' = r"
  by (auto simp: acquire_client_connection_slot_def Let_def split: if_splits)

lemma request_step_count:
  assumes "limited v r" "rq_vkey q = v \<longrightarrow> rq_slot q \<noteq> Some False"
    "rq_vkey q = v \<and> rq_holds q \<longrightarrow> 0 < client_now_conn v r"
    "request_step now res wrap n q r = (q', r')"
  shows "client_now_conn v r' + (if rq_vkey q = v \<and> rq_holds q then 1 else 0)
           = client_now_conn v r + (if rq_vkey q = v \<and> rq_holds q' then 1 else 0)"
    and "rq_vkey q = v \<longrightarrow> rq_slot q' \<noteq> Some False"
    and "client_now_conn v r \<le> max_conn_of v r \<Longrightarrow> client_now_conn v r' \<le> max_conn_of v r"
proof -
  have "client_now_conn v r' + (if rq_vkey q = v \<and> rq_holds q then 1 else 0)
           = client_now_conn v r + (if rq_vkey q = v \<and> rq_holds q' then 1 else 0)
      \<and> (rq_vkey q = v \<longrightarrow> rq_slot q' \<noteq> Some False)
      \<and> (client_now_conn v r \<le> max_conn_of v r \<longrightarrow> client_now_conn v r' \<le> max_conn_of v r)"
  proof (cases q)
    case (Started vkey link)
    moreover have "client_now_conn v (snd (validate_client_access now vkey (lk_remote_addr link) r)) = client_now_conn v r"
      by (rule client_now_conn_cong) simp
    ultimately show ?thesis using assms
      by (auto simp: case_prod_beta split: sum.splits)
  next
    case (Checked vkey link)
    with assms acquire_limited [of vkey r] show ?thesis
      by (fastforce dest: acquire_failed split: prod.splits sum.splits)
  next
    case (Admitted vkey link slot)
    with assms show ?thesis
      by (auto simp: give_back_count split: option.splits)
  next
    case (Located vkey link slot control)
    with assms show ?thesis
      by (auto simp: next_link_id_def client_now_conn_def)
  next
    case (Queued vkey link slot control link_id)
    moreover have "client_now_conn v (snd (queue_send (ch_tx control) (MsgOpen link_id link) r)) = client_now_conn v r"
      by (rule client_now_conn_cong) simp
    ultimately show ?thesis using assms
      by (auto simp: give_back_count case_prod_beta client_now_conn_cong [of "forget_pending _ _"]
          split: bool.splits)
  next
    case (Waiting vkey link slot link_id)
    moreover have "client_now_conn v (snd (client_relay_policy vkey r)) = client_now_conn v r"
      by (rule client_now_conn_cong) simp
    ultimately show ?thesis using assms
      by (auto simp: request_finish_def give_back_count case_prod_beta client_now_conn_cong [of "forget_pending _ _"]
          split: sum.splits recv_result.splits if_splits)
  qed (use assms in \<open>auto simp: release_count\<close>)
  then show "client_now_conn v r' + (if rq_vkey q = v \<and> rq_holds q then 1 else 0)
           = client_now_conn v r + (if rq_vkey q = v \<and> rq_holds q' then 1 else 0)"
    "rq_vkey q = v \<longrightarrow> rq_slot q' \<noteq> Some False"
    "client_now_conn v r \<le> max_conn_of v r \<Longrightarrow> client_now_conn v r' \<le> max_conn_of v r" by auto
qed

text \<open>The invariant of a limited client.\<close>

definition slots_inv :: "string \<Rightarrow> Bridge \<Rightarrow> bool" where
  "slots_inv v b \<longleftrightarrow> limited v (br_reg b) \<longrightarrow>
     client_now_conn v (br_reg b) = slots_of v (br_reqs b)
     \<and> client_now_conn v (br_reg b) \<le> max_conn_of v (br_reg b)
     \<and> (\<forall>q \<in> set (br_reqs b). rq_vkey q = v \<longrightarrow> rq_slot q \<noteq> Some False)"

lemma slots_inv_cong:
  assumes "slots_inv v b" "br_reqs b' = br_reqs b" "re_conn_counts (br_reg b') = re_conn_counts (br_reg b)"
    "re_server (br_reg b') = re_server (br_reg b)" "max_conn_of v (br_reg b') = max_conn_of v (br_reg b)"
  shows "slots_inv v b'"
  using assms client_now_conn_cong [OF assms(3)] by (auto simp: slots_inv_def limited_def)

lemma slots_inv_run:
  assumes inv: "slots_inv v b" and n: "n < length (br_reqs b)"
    and step: "request_step now res wrap n (br_reqs b ! n) (br_reg b) = (q, r)"
  shows "slots_inv v (b\<lparr>br_reqs := (br_reqs b)[n := q], br_reg := r\<rparr>)"
proof (cases "limited v (br_reg b)")
  case False
  moreover have "limited v r = limited v (br_reg b)"
    using request_step_limited(1) [of v now res wrap n "br_reqs b ! n" "br_reg b"] step by simp
  ultimately show ?thesis by (simp add: slots_inv_def)
next
  case True
  let ?o = "br_reqs b ! n"
  have mem: "?o \<in> set (br_reqs b)" using n by simp
  have cnt: "client_now_conn v (br_reg b) = slots_of v (br_reqs b)"
    and le: "client_now_conn v (br_reg b) \<le> max_conn_of v (br_reg b)"
    and ok: "\<forall>q \<in> set (br_reqs b). rq_vkey q = v \<longrightarrow> rq_slot q \<noteq> Some False"
    using inv True by (auto simp: slots_inv_def)
  have pos: "rq_vkey ?o = v \<and> rq_holds ?o \<longrightarrow> 0 < client_now_conn v (br_reg b)"
    using mem by (auto simp: cnt slots_of_def filter_empty_conv)
  have q: "rq_vkey q = rq_vkey ?o"
    using request_step_vkey [of now res wrap n ?o "br_reg b"] step by simp
  have same: "max_conn_of v r = max_conn_of v (br_reg b)" "limited v r"
    using request_step_limited [of v now res wrap n ?o "br_reg b"] step True by simp_all
  note st = request_step_count [OF True _ pos step]
  have "slots_of v ((br_reqs b)[n := q]) = client_now_conn v r"
    using filter_update_length [OF n, of "\<lambda>q. rq_vkey q = v \<and> rq_holds q" q] st(1) ok mem cnt q
    by (simp add: slots_of_def split: if_splits)
  then show ?thesis
    using st ok mem le same q set_update_subset_insert [of "br_reqs b" n q]
    by (auto simp: slots_inv_def)
qed

lemma slots_inv_step: "bridge_step b b' \<Longrightarrow> slots_inv v b \<Longrightarrow> slots_inv v b'"
proof (induction rule: bridge_step.induct)
  case (new b vkey link)
  then show ?case by (auto simp: slots_inv_def slots_of_def)
next
  case (run n b res now wrap q r)
  then show ?case by (intro slots_inv_run)
next
  case (data b link_id stream is_mux)
  then show ?case
    by (rule slots_inv_cong) (auto simp: take_link_def Let_def max_conn_of_def split: option.splits)
next
  case (deliver h b)
  then show ?case by (auto intro: slots_inv_cong)
next
  case (lose h b)
  then show ?case by (auto intro: slots_inv_cong)
next
  case (rest r b)
  then show ?case by (auto intro: slots_inv_cong)
qed

section \<open>Data connections reach the request they name\<close>

fun rq_early :: "Request \<Rightarrow> bool" where
  "rq_early (Started _ _) = True"
| "rq_early (Checked _ _) = True"
| "rq_early (Admitted _ _ _) = True"
| "rq_early (Located _ _ _ _) = True"
| "rq_early _ = False"

fun rq_waits :: "Request \<Rightarrow> u64 \<Rightarrow> bool" where
  "rq_waits (Queued _ _ _ _ l) link_id = (l = link_id)"
| "rq_waits (Waiting _ _ _ l) link_id = (l = link_id)"
| "rq_waits _ link_id = False"

definition pending_ok :: "Bridge \<Rightarrow> bool" where
  "pending_ok b \<longleftrightarrow> (\<forall>link_id n. hm_get (re_pending (br_reg b)) link_id = Some n \<longrightarrow>
     n < length (br_reqs b) \<and> rq_waits (br_reqs b ! n) link_id)"

text \<open>A sender on its way, or a stream it delivered, belongs to the request of its link id.\<close>

definition ticket_ok :: "Bridge \<Rightarrow> nat \<times> u64 \<times> nat \<times> bool \<Rightarrow> bool" where
  "ticket_ok b h \<longleftrightarrow> (case h of (n, link_id, stream, is_mux) \<Rightarrow>
     n < length (br_reqs b) \<and> \<not> rq_early (br_reqs b ! n) \<and> rq_link (br_reqs b ! n) \<in> {None, Some link_id}
     \<and> link_id < re_seq (br_reg b) \<and> hm_get (re_pending (br_reg b)) link_id = None
     \<and> (link_id, stream) \<in> set (br_announced b))"

definition links_ok :: "Bridge \<Rightarrow> bool" where
  "links_ok b \<longleftrightarrow>
     (\<forall>n link_id. n < length (br_reqs b) \<and> rq_link (br_reqs b ! n) = Some link_id \<longrightarrow> link_id < re_seq (br_reg b)
        \<and> (\<forall>m. m < length (br_reqs b) \<and> rq_link (br_reqs b ! m) = Some link_id \<longrightarrow> m = n))"

definition served_ok :: "Bridge \<Rightarrow> bool" where
  "served_ok b \<longleftrightarrow> (\<forall>vkey link_id c. Serving vkey link_id c \<in> set (br_reqs b) \<longrightarrow>
     (link_id, cr_stream c) \<in> set (br_announced b) \<and> cr_vkey c = vkey)"

definition match_inv :: "Bridge \<Rightarrow> bool" where
  "match_inv b \<longleftrightarrow> pending_ok b \<and> (\<forall>h \<in> set (br_holding b) \<union> set (br_inbox b). ticket_ok b h)
     \<and> links_ok b \<and> served_ok b"

lemma waits_unique: "rq_waits q l \<Longrightarrow> rq_waits q l' \<Longrightarrow> l = l'"
  by (cases q) auto

lemma waits_link: "rq_waits q l \<Longrightarrow> rq_link q = Some l \<and> \<not> rq_early q"
  by (cases q) auto

text \<open>
  What one step does to the link of request number \<open>n\<close> and to \<open>pending\<close>: it issues the
  next id and registers it, keeps it while the request waits, hands it to the served
  stream, or drops it, with its entry unless a data connection has taken that.
\<close>

inductive link_effect :: "nat \<Rightarrow> recv_result \<Rightarrow> Request \<Rightarrow> Registry \<Rightarrow> Request \<Rightarrow> Registry \<Rightarrow> bool" where
  issue: "rq_early q \<Longrightarrow> rq_waits q' (re_seq r) \<Longrightarrow> re_seq r' = re_seq r + 1 \<Longrightarrow>
     re_pending r' = hm_insert (re_seq r) n (re_pending r) \<Longrightarrow> link_effect n res q r q' r'"
| early: "rq_early q \<Longrightarrow> rq_link q' = None \<Longrightarrow> re_seq r' = re_seq r \<Longrightarrow> re_pending r' = re_pending r \<Longrightarrow>
     link_effect n res q r q' r'"
| stay: "rq_waits q l \<Longrightarrow> rq_waits q' l \<Longrightarrow> re_seq r' = re_seq r \<Longrightarrow> re_pending r' = re_pending r \<Longrightarrow>
     link_effect n res q r q' r'"
| serve: "rq_waits q l \<Longrightarrow> res = Received (cr_stream c) is_mux \<Longrightarrow> q' = Serving (cr_vkey c) l c \<Longrightarrow>
     re_seq r' = re_seq r \<Longrightarrow> re_pending r' = re_pending r \<Longrightarrow> link_effect n res q r q' r'"
| fail: "rq_waits q l \<Longrightarrow> res = Received stream is_mux \<Longrightarrow> rq_link q' = None \<Longrightarrow> \<not> rq_early q' \<Longrightarrow>
     re_seq r' = re_seq r \<Longrightarrow> re_pending r' = re_pending r \<Longrightarrow> link_effect n res q r q' r'"
| quit: "rq_waits q l \<Longrightarrow> rq_link q' = None \<Longrightarrow> \<not> rq_early q' \<Longrightarrow> re_seq r' = re_seq r \<Longrightarrow>
     re_pending r' = hm_remove l (re_pending r) \<Longrightarrow> link_effect n res q r q' r'"
| over: "\<not> rq_early q \<Longrightarrow> \<not> rq_early q' \<Longrightarrow> (\<forall>l. \<not> rq_waits q l) \<Longrightarrow> rq_link q' = None \<Longrightarrow>
     re_seq r' = re_seq r \<Longrightarrow> re_pending r' = re_pending r \<Longrightarrow> link_effect n res q r q' r'"

lemma request_step_link:
  assumes "request_step now res wrap n q r = (q', r')"
  shows "link_effect n res q r q' r'"
proof (cases q)
  case (Started vkey link)
  then have "rq_link q' = None" "r' = snd (validate_client_access now vkey (lk_remote_addr link) r)"
    using assms by (auto simp: case_prod_beta split: sum.splits)
  then show ?thesis using Started by (intro link_effect.early) auto
next
  case (Checked vkey link)
  then have "rq_link q' = None" "r' = snd (acquire_client_connection_slot vkey r)"
    using assms by (auto simp: case_prod_beta split: sum.splits)
  then show ?thesis using Checked by (intro link_effect.early) auto
next
  case (Admitted vkey link slot)
  then have "rq_link q' = None" "r' = r \<or> r' = give_back slot vkey r"
    using assms by (auto split: option.splits)
  then show ?thesis using Admitted by (intro link_effect.early) auto
next
  case (Located vkey link slot control)
  then show ?thesis using assms by (intro link_effect.issue) (auto simp: next_link_id_def)
next
  case (Queued vkey link slot control link_id)
  let ?s = "queue_send (ch_tx control) (MsgOpen link_id link) r"
  show ?thesis
  proof (cases "fst ?s")
    case True
    with Queued assms show ?thesis by (intro link_effect.stay [of _ link_id]) (auto simp: case_prod_beta)
  next
    case False
    with Queued assms show ?thesis
      by (intro link_effect.quit [of _ link_id]) (auto simp: case_prod_beta forget_pending_def)
  qed
next
  case (Waiting vkey link slot link_id)
  show ?thesis
  proof (cases "\<exists>s m. res = Received s m")
    case True
    then obtain s m where res: "res = Received s m" by blast
    show ?thesis
    proof (cases wrap)
      case (Inl e)
      with res Waiting assms show ?thesis
        by (intro link_effect.fail [of _ link_id]) (auto simp: request_finish_def case_prod_beta split: if_splits)
    next
      case (Inr u)
      with res Waiting assms show ?thesis
        by (auto simp: request_finish_def case_prod_beta split: if_splits intro!: link_effect.serve [of _ link_id])
    qed
  next
    case False
    with Waiting assms show ?thesis
      by (intro link_effect.quit [of _ link_id])
        (auto simp: request_finish_def forget_pending_def split: recv_result.splits)
  qed
qed (use assms in \<open>auto intro!: link_effect.over\<close>)

lemma link_effect_links:
  assumes "link_effect n res q r q' r'" "rq_link q' = Some l"
  shows "rq_link q = Some l \<or> l = re_seq r \<and> re_seq r' = re_seq r + 1"
  using assms by cases (auto dest!: waits_link)

lemma seq_suc: "(s :: u64) \<noteq> - 1 \<Longrightarrow> s < s + 1"
  using unat_lt_u64 [of s] unat_plus_one [of s]
  by (simp add: word_less_nat_alt word_unat_eq_iff unat_max_u64)

lemma link_effect_seq:
  assumes "link_effect n res q r q' r'" "re_seq r \<noteq> - 1"
  shows "re_seq r \<le> re_seq r'" "l < re_seq r \<Longrightarrow> l < re_seq r'" "re_seq r' = re_seq r + 1 \<Longrightarrow> re_seq r < re_seq r'"
proof -
  have "re_seq r' = re_seq r + 1 \<or> re_seq r' = re_seq r"
    using assms(1) by cases auto
  moreover have "re_seq r < re_seq r + 1" using assms(2) by (rule seq_suc)
  ultimately show "re_seq r \<le> re_seq r'" "l < re_seq r \<Longrightarrow> l < re_seq r'"
    "re_seq r' = re_seq r + 1 \<Longrightarrow> re_seq r < re_seq r'"
    by auto
qed

lemma pending_ok_run:
  assumes "link_effect n res (br_reqs b ! n) (br_reg b) q' r'" "n < length (br_reqs b)"
    "match_inv b" "received n res b"
  shows "pending_ok (b\<lparr>br_reqs := (br_reqs b)[n := q'], br_reg := r'\<rparr>)"
proof -
  have p: "m < length (br_reqs b) \<and> rq_waits (br_reqs b ! m) l"
    if "hm_get (re_pending (br_reg b)) l = Some m" for l m
    using assms(3) that by (auto simp: match_inv_def pending_ok_def)
  have t: "\<exists>l'. ticket_ok b (n, l', s, m)" if "res = Received s m" for s m
    using assms(3,4) that by (fastforce simp: match_inv_def received_def list_ex_iff)
  have gone: "hm_get (re_pending (br_reg b)) l' \<noteq> Some n"
    if w: "rq_waits (br_reqs b ! n) l" and res: "res = Received s m" for l l' s m
  proof
    assume "hm_get (re_pending (br_reg b)) l' = Some n"
    moreover from p [OF this] w have "l' = l" by (auto dest!: waits_link)
    moreover obtain k where "ticket_ok b (n, k, s, m)" using t [OF res] by blast
    ultimately show False using w by (auto simp: ticket_ok_def dest!: waits_link)
  qed
  have upd: "(br_reqs b)[n := x] ! m = (if m = n then x else br_reqs b ! m)" for m x
    using assms(2) by (simp add: nth_list_update)
  show ?thesis
    using assms(1)
  proof cases
    case issue
    with p assms(2) show ?thesis by (auto simp: pending_ok_def hm_simps upd dest!: p waits_link)
  next
    case early
    with p show ?thesis by (auto simp: pending_ok_def upd dest!: p waits_link)
  next
    case (stay l)
    with p show ?thesis by (auto simp: pending_ok_def upd dest!: p dest: waits_unique)
  next
    case (serve l c is_mux)
    with p gone show ?thesis by (auto simp: pending_ok_def upd)
  next
    case (fail l stream is_mux)
    with p gone show ?thesis by (auto simp: pending_ok_def upd)
  next
    case (quit l)
    with p show ?thesis by (auto simp: pending_ok_def hm_simps upd dest!: p dest: waits_unique)
  next
    case over
    with p show ?thesis by (auto simp: pending_ok_def upd dest!: p)
  qed
qed

lemma ticket_ok_run:
  assumes "link_effect n res (br_reqs b ! n) (br_reg b) q' r'" "n < length (br_reqs b)"
    "re_seq (br_reg b) \<noteq> - 1" "ticket_ok b h"
  shows "ticket_ok (b\<lparr>br_reqs := (br_reqs b)[n := q'], br_reg := r'\<rparr>) h"
proof -
  obtain m l s x where h: "h = (m, l, s, x)" by (cases h)
  have lt: "l < re_seq r'" using link_effect_seq(2) [OF assms(1,3)] assms(4) h by (auto simp: ticket_ok_def)
  have "hm_get (re_pending r') l = None"
    using assms(1,4) by cases (auto simp: h ticket_ok_def hm_simps)
  moreover have "\<not> rq_early q' \<and> rq_link q' \<in> {None, Some l}" if "m = n"
    using assms(1,4) that by cases (auto simp: h ticket_ok_def dest!: waits_link)
  ultimately show ?thesis
    using assms(2,4) lt by (auto simp: h ticket_ok_def nth_list_update)
qed

lemma links_ok_run:
  assumes "link_effect n res (br_reqs b ! n) (br_reg b) q' r'" "n < length (br_reqs b)"
    "re_seq (br_reg b) \<noteq> - 1" "links_ok b"
  shows "links_ok (b\<lparr>br_reqs := (br_reqs b)[n := q'], br_reg := r'\<rparr>)"
proof -
  have old: "l < re_seq (br_reg b)" "m' = m"
    if "m < length (br_reqs b)" "rq_link (br_reqs b ! m) = Some l"
      "m' < length (br_reqs b)" "rq_link (br_reqs b ! m') = Some l" for m m' l
    using assms(4) that by (auto simp: links_ok_def)
  have new: "rq_link (br_reqs b ! n) = Some l \<or> l = re_seq (br_reg b) \<and> re_seq (br_reg b) < re_seq r'"
    if "rq_link q' = Some l" for l
    using link_effect_links [OF assms(1) that] link_effect_seq(3) [OF assms(1,3)] by auto
  show ?thesis
    unfolding links_ok_def
    using old new link_effect_seq(2) [OF assms(1,3)] assms(2)
    by (simp add: nth_list_update) (metis less_irrefl)
qed

lemma served_ok_run:
  assumes "link_effect n res (br_reqs b ! n) (br_reg b) q' r'" "n < length (br_reqs b)"
    "match_inv b" "received n res b"
  shows "served_ok (b\<lparr>br_reqs := (br_reqs b)[n := q'], br_reg := r'\<rparr>)"
proof -
  have "(l, cr_stream c) \<in> set (br_announced b) \<and> cr_vkey c = v" if "q' = Serving v l c" for v l c
    using assms(1)
  proof cases
    case (serve l' c' is_mux)
    then obtain k where "ticket_ok b (n, k, cr_stream c', is_mux)"
      using assms(3,4) by (fastforce simp: match_inv_def received_def list_ex_iff)
    with serve that show ?thesis by (auto simp: ticket_ok_def dest!: waits_link)
  qed (use that in \<open>auto dest!: waits_link\<close>)
  with assms(3) show ?thesis
    using set_update_subset_insert [of "br_reqs b" n q']
    by (auto simp: match_inv_def served_ok_def)
qed

lemma match_inv_run:
  assumes inv: "match_inv b" and n: "n < length (br_reqs b)" and recv: "received n res b"
    and seq: "re_seq (br_reg b) \<noteq> - 1"
    and step: "request_step now res wrap n (br_reqs b ! n) (br_reg b) = (q, r)"
  shows "match_inv (b\<lparr>br_reqs := (br_reqs b)[n := q], br_reg := r\<rparr>)"
proof -
  note eff = request_step_link [OF step]
  show ?thesis
    using inv pending_ok_run [OF eff n inv recv] ticket_ok_run [OF eff n seq] links_ok_run [OF eff n seq]
      served_ok_run [OF eff n inv recv]
    by (simp add: match_inv_def)
qed

lemma match_inv_take: 
  assumes inv: "match_inv b"
  shows "match_inv (take_link link_id stream is_mux b)"
proof (cases "hm_get (re_pending (br_reg b)) link_id")
  case None
  then have b: "take_link link_id stream is_mux b = b\<lparr>br_announced := (link_id, stream) # br_announced b\<rparr>"
    by (simp add: take_link_def)
  have "ticket_ok (b\<lparr>br_announced := (link_id, stream) # br_announced b\<rparr>) h" if "ticket_ok b h" for h
    using that by (auto simp: ticket_ok_def)
  with inv show ?thesis
    by (auto simp: b match_inv_def pending_ok_def links_ok_def served_ok_def)
next
  case (Some n)
  then have n: "n < length (br_reqs b)" "rq_waits (br_reqs b ! n) link_id"
    using inv by (auto simp: match_inv_def pending_ok_def)
  then have lt: "link_id < re_seq (br_reg b)"
    using inv by (auto simp: match_inv_def links_ok_def dest!: waits_link)
  let ?b = "take_link link_id stream is_mux b"
  have b: "?b = b\<lparr>br_announced := (link_id, stream) # br_announced b, br_reg := forget_pending link_id (br_reg b),
      br_holding := (n, link_id, stream, is_mux) # br_holding b\<rparr>"
    using Some by (simp add: take_link_def)
  have "pending_ok ?b" "links_ok ?b" "served_ok ?b"
    using inv by (auto simp: b match_inv_def pending_ok_def links_ok_def served_ok_def forget_pending_def hm_simps)
  moreover have "ticket_ok ?b h" if "ticket_ok b h" for h
    using that by (auto simp: b ticket_ok_def forget_pending_def hm_simps)
  moreover have "ticket_ok ?b (n, link_id, stream, is_mux)"
    using n lt by (auto simp: b ticket_ok_def forget_pending_def hm_simps dest!: waits_link)
  ultimately show ?thesis
    using inv by (auto simp: match_inv_def b)
qed

lemma match_inv_mono:
  assumes "match_inv b" "pending_ok b \<Longrightarrow> pending_ok b'" "links_ok b \<Longrightarrow> links_ok b'" "served_ok b \<Longrightarrow> served_ok b'"
    "\<And>h. ticket_ok b h \<Longrightarrow> ticket_ok b' h"
    "set (br_holding b') \<union> set (br_inbox b') \<subseteq> set (br_holding b) \<union> set (br_inbox b)"
  shows "match_inv b'"
  using assms unfolding match_inv_def by blast

lemma match_inv_step: "bridge_step b b' \<Longrightarrow> match_inv b \<Longrightarrow> match_inv b'"
proof (induction rule: bridge_step.induct)
  case (new b vkey link)
  then show ?case
    by (rule match_inv_mono)
      (auto simp: pending_ok_def ticket_ok_def links_ok_def served_ok_def nth_append less_Suc_eq)
next
  case (run n b res now wrap q r)
  then show ?case by (intro match_inv_run)
next
  case (data b link_id stream is_mux)
  then show ?case by (rule match_inv_take)
next
  case (deliver h b)
  show ?case
  proof (rule match_inv_mono [OF deliver(2)])
    show "set (br_holding (b\<lparr>br_holding := remove1 h (br_holding b), br_inbox := h # br_inbox b\<rparr>))
        \<union> set (br_inbox (b\<lparr>br_holding := remove1 h (br_holding b), br_inbox := h # br_inbox b\<rparr>))
        \<subseteq> set (br_holding b) \<union> set (br_inbox b)"
      using deliver(1) set_remove1_subset [of h "br_holding b"] by auto
  qed (simp_all add: pending_ok_def ticket_ok_def links_ok_def served_ok_def)
next
  case (lose h b)
  show ?case
  proof (rule match_inv_mono [OF lose(2)])
    show "set (br_holding (b\<lparr>br_holding := remove1 h (br_holding b)\<rparr>))
        \<union> set (br_inbox (b\<lparr>br_holding := remove1 h (br_holding b)\<rparr>))
        \<subseteq> set (br_holding b) \<union> set (br_inbox b)"
      using set_remove1_subset [of h "br_holding b"] by auto
  qed (simp_all add: pending_ok_def ticket_ok_def links_ok_def served_ok_def)
next
  case (rest r b)
  have up: "l < re_seq (br_reg b) \<Longrightarrow> l < re_seq r" for l using rest(5) by simp
  show ?case
  proof (rule match_inv_mono [OF rest(6)])
    show "pending_ok b \<Longrightarrow> pending_ok (b\<lparr>br_reg := r\<rparr>)" by (simp add: pending_ok_def rest(1))
    show "links_ok b \<Longrightarrow> links_ok (b\<lparr>br_reg := r\<rparr>)" using up unfolding links_ok_def by auto
    show "ticket_ok b h \<Longrightarrow> ticket_ok (b\<lparr>br_reg := r\<rparr>) h" for h
      using up by (auto simp: ticket_ok_def rest(1))
  qed (simp_all add: served_ok_def)
qed

section \<open>Reachable states\<close>

lemma reaches_invariant:
  assumes "bridge_reaches b b'" "\<And>b b'. bridge_step b b' \<Longrightarrow> P b \<Longrightarrow> P b'" "P b"
  shows "P b'"
  using assms(1,3) by induction (use assms(2) in auto)

lemma reaches_slots:
  "bridge_reaches (bridge_start r) b \<Longrightarrow> re_conn_counts r = [] \<Longrightarrow> slots_inv v b"
  by (erule reaches_invariant [OF _ slots_inv_step])
    (auto simp: slots_inv_def slots_of_def bridge_start_def client_now_conn_def)

lemma reaches_match: "bridge_reaches (bridge_start r) b \<Longrightarrow> re_pending r = [] \<Longrightarrow> match_inv b"
  by (erule reaches_invariant [OF _ match_inv_step])
    (auto simp: match_inv_def pending_ok_def links_ok_def served_ok_def bridge_start_def)

definition serving :: "string \<Rightarrow> Request list \<Rightarrow> nat" where
  "serving v qs = length (filter (\<lambda>q. case q of Serving vkey _ _ \<Rightarrow> vkey = v | _ \<Rightarrow> False) qs)"

lemma serving_le_slots: "serving v qs \<le> slots_of v qs"
  unfolding serving_def slots_of_def by (induction qs) (auto split: Request.split)

text \<open>Schedules: a list of actions that runs the bridge, for concrete executions.\<close>

datatype action = ActNew string Link | ActRun nat time recv_result "unit io_result" | ActData u64 nat bool | ActDeliver

definition act :: "action \<Rightarrow> Bridge \<Rightarrow> Bridge option" where
  "act a b =
     (case a of
        ActNew vkey link \<Rightarrow> Some (b\<lparr>br_reqs := br_reqs b @ [Started vkey link]\<rparr>)
      | ActRun n now res wrap \<Rightarrow>
          if n < length (br_reqs b) \<and> received n res b \<and> re_seq (br_reg b) \<noteq> - 1
          then (case request_step now res wrap n (br_reqs b ! n) (br_reg b) of
                  (q, r) \<Rightarrow> Some (b\<lparr>br_reqs := (br_reqs b)[n := q], br_reg := r\<rparr>))
          else None
      | ActData link_id stream is_mux \<Rightarrow> Some (take_link link_id stream is_mux b)
      | ActDeliver \<Rightarrow>
          (case br_holding b of
             [] \<Rightarrow> None
           | h # _ \<Rightarrow> Some (b\<lparr>br_holding := remove1 h (br_holding b), br_inbox := h # br_inbox b\<rparr>)))"

fun schedule :: "action list \<Rightarrow> Bridge \<Rightarrow> Bridge option" where
  "schedule [] b = Some b"
| "schedule (a # as) b = (case act a b of None \<Rightarrow> None | Some b' \<Rightarrow> schedule as b')"

lemma act_step: "act a b = Some b' \<Longrightarrow> bridge_step b b'"
proof (cases a)
  case ActDeliver
  moreover assume "act a b = Some b'"
  ultimately obtain h hs where "br_holding b = h # hs"
    "b' = b\<lparr>br_holding := remove1 h (br_holding b), br_inbox := h # br_inbox b\<rparr>"
    by (auto simp: act_def split: list.splits)
  then show ?thesis using bridge_step.deliver [of h b] by simp
qed (auto simp: act_def intro: bridge_step.intros split: if_splits prod.splits)

lemma schedule_reaches: "schedule as b = Some b' \<Longrightarrow> bridge_reaches b b'"
proof (induction as arbitrary: b)
  case (Cons a as)
  then show ?case
    by (auto split: option.splits intro: converse_rtranclp_into_rtranclp dest: act_step)
qed simp

text \<open>A visitor of client \<open>k\<close>, which is online and may have one connection.\<close>

definition demo_bridge_registry :: Registry where
  "demo_bridge_registry =
     (Registry_new (ServerConfig_default\<lparr>sc_allow_connection_num_limit := True\<rparr>))
       \<lparr>re_clients := [(''k'', demo_client 1)],
        re_controls := [(''k'', \<lparr>ch_tx = 0, ch_version = [], ch_connected_at = 0, ch_remote_addr = []\<rparr>)],
        re_queues := [([], True)]\<rparr>"

definition demo_link :: Link where
  "demo_link = Link_tcp ''127.0.0.1:80'' [] False False"

definition demo_schedule :: "action list" where
  "demo_schedule = ActNew ''k'' demo_link # replicate 5 (ActRun 0 0 RecvTimeout (Inr ()))
     @ [ActData 1 7 False, ActDeliver, ActRun 0 0 (Received 7 False) (Inr ())]"

definition demo_bridge :: Bridge where
  "demo_bridge = the (schedule demo_schedule (bridge_start demo_bridge_registry))"

lemma demo_bridge_reaches: "bridge_reaches (bridge_start demo_bridge_registry) demo_bridge"
proof -
  have "schedule demo_schedule (bridge_start demo_bridge_registry) \<noteq> None" by code_simp
  then show ?thesis by (auto simp: demo_bridge_def intro: schedule_reaches)
qed

lemma acquire_give_back:
  "acquire_client_connection_slot vkey r = (Inr slot, r') \<Longrightarrow>
   client_now_conn v (give_back slot vkey r') = client_now_conn v r"
  using release_acquire [of vkey r r' v]
  by (cases slot) (auto simp: give_back_def acquire_client_connection_slot_def Let_def split: if_splits)

lemma queue_send_sent:
  "queue_send q msg r = (True, r') \<Longrightarrow> msg \<in> set (fst (re_queues r' ! q))"
  by (auto simp: queue_send_def split: if_splits)

lemma policy_queues [simp]: "re_queues (snd (client_relay_policy vkey r)) = re_queues r"
  by (auto simp: client_relay_policy_def client_flow_counter_def split: option.splits)

lemma acquire_controls [simp]: "re_controls (snd (acquire_client_connection_slot vkey r)) = re_controls r"
  by (auto simp: acquire_client_connection_slot_def Let_def)

text \<open>The last phase: on success the stream that arrived, otherwise the slot and the entry go.\<close>

lemma request_finish_result:
  assumes "request_result (request_finish res wrap vkey link slot l r) = (out, r')"
  shows "case out of
       Inr stream \<Rightarrow> re_queues r' = re_queues r \<and> (\<exists>is_mux. res = Received (cr_stream stream) is_mux) \<and> cr_vkey stream = vkey
     | Inl e \<Rightarrow> wrap = Inl e \<or> r' = forget_pending l (give_back slot vkey r)"
  using assms
  by (auto simp: request_finish_def request_result_def case_prod_beta split: recv_result.splits sum.splits if_splits)

text \<open>A call that is refused before its link is announced leaves counts and entries as they were.\<close>

definition undone :: "Registry \<Rightarrow> Registry \<Rightarrow> bool" where
  "undone r r' \<longleftrightarrow> (\<forall>v. client_now_conn v r' = client_now_conn v r)
     \<and> (\<forall>l. hm_get (re_pending r') l = hm_get (re_pending r) l)"

lemma request_refused:
  assumes call: "request_client_stream now res wrap n vkey link r = (out, r')"
    and acc: "validate_client_access now vkey (lk_remote_addr link) r = (v, r1)"
    and acq: "acquire_client_connection_slot vkey r1 = (a, r2)"
    and none: "\<nexists>slot control. v = Inr () \<and> a = Inr slot \<and> hm_get (re_controls r) vkey = Some control"
  shows "\<exists>e. out = Inl e" "undone r r'"
proof -
  have same: "re_pending r1 = re_pending r" "re_conn_counts r1 = re_conn_counts r" "re_controls r1 = re_controls r"
    using access_pending [of now vkey "lk_remote_addr link" r] by (simp_all add: acc)
  have same2: "re_pending r2 = re_pending r" "re_controls r2 = re_controls r"
    using acquire_fields [of vkey r1] acquire_controls [of vkey r1] same by (simp_all add: acq)
  consider (denied) e where "v = Inl e" | (full) e where "v = Inr ()" "a = Inl e"
    | (offline) slot where "v = Inr ()" "a = Inr slot" "hm_get (re_controls r) vkey = None"
    using none by (cases v; cases a; cases "hm_get (re_controls r) vkey") auto
  then have "(\<exists>e. out = Inl e) \<and> undone r r'"
  proof cases
    case denied
    then have "out = Inl e" "r' = r1" using call by (simp_all add: request_client_stream_seq acc)
    with same show ?thesis by (simp add: undone_def client_now_conn_cong [OF same(2)])
  next
    case full
    then have "r2 = r1" using acq acquire_failed by blast
    with full have "out = Inl e" "r' = r1"
      using call acq by (simp_all add: request_client_stream_seq acc)
    with same show ?thesis by (simp add: undone_def client_now_conn_cong [OF same(2)])
  next
    case offline
    then have "out = Inl (IoError NotConnected ''client is offline'')" "r' = give_back slot vkey r2"
      using call acq by (simp_all add: request_client_stream_seq acc same2)
    with same2 acq offline show ?thesis
      by (simp add: undone_def acquire_give_back client_now_conn_cong [OF same(2)])
  qed
  then show "\<exists>e. out = Inl e" "undone r r'" by blast+
qed

lemma request_announced:
  assumes call: "request_client_stream now res wrap n vkey link r = (out, r')"
    and acc: "validate_client_access now vkey (lk_remote_addr link) r = (Inr (), r1)"
    and acq: "acquire_client_connection_slot vkey r1 = (Inr slot, r2)"
    and on: "hm_get (re_controls r) vkey = Some control" and fresh: "hm_get (re_pending r) (re_seq r) = None"
  shows "case out of
       Inr stream \<Rightarrow> MsgOpen (re_seq r) link \<in> set (fst (re_queues r' ! ch_tx control))
         \<and> (\<exists>is_mux. res = Received (cr_stream stream) is_mux) \<and> cr_vkey stream = vkey
     | Inl e \<Rightarrow> wrap = Inl e \<or> undone r r'"
proof -
  have same: "re_pending r1 = re_pending r" "re_conn_counts r1 = re_conn_counts r" "re_controls r1 = re_controls r"
    "re_seq r1 = re_seq r"
    using access_pending [of now vkey "lk_remote_addr link" r] by (simp_all add: acc)
  have same2: "re_pending r2 = re_pending r" "re_controls r2 = re_controls r" "re_seq r2 = re_seq r"
    using acquire_fields [of vkey r1] acquire_controls [of vkey r1] same by (simp_all add: acq)
  define r3 where "r3 = r2\<lparr>re_seq := re_seq r + 1, re_pending := hm_insert (re_seq r) n (re_pending r)\<rparr>"
  obtain sent r4 where sent: "queue_send (ch_tx control) (MsgOpen (re_seq r) link) r3 = (sent, r4)" by fastforce
  have f4: "re_pending r4 = hm_insert (re_seq r) n (re_pending r)" "re_conn_counts r4 = re_conn_counts r2"
    using queue_send_fields(1,2) [of "ch_tx control" "MsgOpen (re_seq r) link" r3, unfolded sent] by (simp_all add: r3_def)
  have "client_now_conn x (give_back slot vkey r4) = client_now_conn x (give_back slot vkey r2)" for x
    by (simp add: give_back_count client_now_conn_cong [OF f4(2)])
  then have undo: "undone r (forget_pending (re_seq r) (give_back slot vkey r4))"
    using acquire_give_back [OF acq] fresh
    by (simp add: undone_def client_now_conn_cong [of "forget_pending _ _"] client_now_conn_cong [OF same(2)])
      (simp add: forget_pending_def f4 hm_simps)
  show ?thesis
  proof (cases sent)
    case True
    then have "request_result (request_finish res wrap vkey link slot (re_seq r) r4) = (out, r')"
      using call sent by (simp add: request_client_stream_seq acc acq on same2 r3_def)
    from request_finish_result [OF this] queue_send_sent [of "ch_tx control" "MsgOpen (re_seq r) link" r3 r4]
    show ?thesis using sent True undo by (auto split: sum.splits)
  next
    case False
    then have "out = Inl (IoError BrokenPipe ''control channel closed'')"
      "r' = forget_pending (re_seq r) (give_back slot vkey r4)"
      using call sent by (simp_all add: request_client_stream_seq acc acq on same2 r3_def)
    with undo show ?thesis by simp
  qed
qed

section \<open>Properties of requests\<close>







end
