(* ===== verification/Hello.thy ===== *)
theory Hello
  imports Bridge
begin

text \<open>
  The first message of a connection on the bridge and what it leads to:
  \<open>handle_bridge_conn\<close> with its eight kinds of greeting, the writer loop of a control
  connection, \<open>mux_accept_loop\<close> and \<open>handle_secret_visitor\<close> of \<open>src/server.rs\<close>.

  A write to the connection is answered by the argument \<open>wr\<close>, which may refuse any
  message.  A handler returns the messages it wrote, whether it ended with an error or
  how the connection goes on, and the registry.
\<close>

section \<open>Greetings\<close>

datatype hello_next =
    Done
  | ControlLoop string nat
  | MuxLoop string nat MuxTrafficPolicy
  | SendTo nat
  | Relay CountedRelayStream

type_synonym hello_result = "ServerMessage list \<times> hello_next io_result \<times> Registry"

definition update_client_last_online_addr :: "string \<Rightarrow> string \<Rightarrow> Registry \<Rightarrow> Registry" where
  "update_client_last_online_addr vkey addr r =
     (if addr = [] then r
      else (case client_of vkey r of
              None \<Rightarrow> r
            | Some client \<Rightarrow>
                r\<lparr>re_clients := hm_insert vkey (client\<lparr>rc_last_online_addr := addr\<rparr>) (re_clients r)\<rparr>))"

text \<open>\<open>write_message(..)?\<close> followed by the rest of the handler.\<close>

definition reply ::
  "(ServerMessage \<Rightarrow> unit io_result) \<Rightarrow> ServerMessage \<Rightarrow> Registry \<Rightarrow> (Registry \<Rightarrow> hello_result) \<Rightarrow> hello_result" where
  "reply wr msg r k =
     (case wr msg of
        Inl e \<Rightarrow> ([msg], Inl e, r)
      | Inr _ \<Rightarrow> (case k r of (ms, res, r') \<Rightarrow> (msg # ms, res, r')))"

definition finish :: "Registry \<Rightarrow> hello_result" where
  "finish r = ([], Inr Done, r)"

text \<open>\<open>validate_client_handshake\<close> at the head of four of the handlers.\<close>

definition with_handshake ::
  "(ServerMessage \<Rightarrow> unit io_result) \<Rightarrow> time \<Rightarrow> string \<Rightarrow> string \<Rightarrow> bool \<Rightarrow> Registry \<Rightarrow> (Registry \<Rightarrow> hello_result) \<Rightarrow> hello_result" where
  "with_handshake wr now vkey remote_addr require_config r k =
     (case validate_client_handshake now vkey remote_addr require_config r of
        (Inl err, r') \<Rightarrow> reply wr (msg_error (err_msg err)) r' finish
      | (Inr _, r') \<Rightarrow> k r')"

definition hello_control ::
  "(ServerMessage \<Rightarrow> unit io_result) \<Rightarrow> time \<Rightarrow> string \<Rightarrow> string \<Rightarrow> string \<Rightarrow> Registry \<Rightarrow> hello_result" where
  "hello_control wr now remote_addr vkey version r =
     with_handshake wr now vkey remote_addr False r (\<lambda>r.
       reply wr (msg_ok ''control accepted'') r (\<lambda>r.
         let tx = length (re_queues r);
             r1 = r\<lparr>re_queues := re_queues r @ [([], True)],
                    re_controls := hm_insert vkey
                      \<lparr>ch_tx = tx, ch_version = version, ch_connected_at = now, ch_remote_addr = remote_addr\<rparr>
                      (re_controls r)\<rparr>
         in ([], Inr (ControlLoop vkey tx), update_client_last_online_addr vkey remote_addr r1)))"

definition mux_policy :: "string \<Rightarrow> Registry \<Rightarrow> MuxTrafficPolicy \<times> Registry" where
  "mux_policy vkey r =
     (case client_flow_counter vkey r of
        (counter, r') \<Rightarrow>
          (\<lparr>mp_rate_limit_kb =
              (if sc_allow_rate_limit (re_server r)
               then (case client_of vkey r of None \<Rightarrow> 0 | Some c \<Rightarrow> ci_rate_limit_kb (rc_info c)) else 0),
            mp_flow_limit_mb =
              (if sc_allow_flow_limit (re_server r)
               then (case client_of vkey r of None \<Rightarrow> 0 | Some c \<Rightarrow> ci_flow_limit_mb (rc_info c)) else 0),
            mp_flow_counter = Some counter\<rparr>, r'))"

text \<open>\<open>session\<close> is the new \<open>MuxSession\<close>, or the error of splitting the connection.\<close>

definition hello_mux ::
  "(ServerMessage \<Rightarrow> unit io_result) \<Rightarrow> time \<Rightarrow> string \<Rightarrow> nat io_result \<Rightarrow> string \<Rightarrow> Registry \<Rightarrow> hello_result" where
  "hello_mux wr now remote_addr session vkey r =
     with_handshake wr now vkey remote_addr False r (\<lambda>r.
       reply wr (msg_ok ''mux accepted'') r (\<lambda>r.
         case mux_policy vkey r of
           (policy, r1) \<Rightarrow>
             (case session of
                Inl e \<Rightarrow> ([], Inl e, r1)
              | Inr s \<Rightarrow> ([], Inr (MuxLoop vkey s policy),
                          r1\<lparr>re_mux_sessions := hm_insert vkey s (re_mux_sessions r1)\<rparr>))))"

definition hello_config ::
  "(ServerMessage \<Rightarrow> unit io_result) \<Rightarrow> time \<Rightarrow> (string \<Rightarrow> string) \<Rightarrow> string \<Rightarrow> string \<Rightarrow> string \<Rightarrow> ClientRuntimeConfig \<Rightarrow>
   Registry \<Rightarrow> hello_result" where
  "hello_config wr now md5_hex now_text remote_addr vkey config r =
     with_handshake wr now vkey remote_addr True r (\<lambda>r.
       let config1 = (if rc_vkey config = [] then rc_vkey_update vkey config else config);
           config2 = rc_info_update (\<lambda>i. i\<lparr>ci_verify_key := rc_vkey config1\<rparr>) config1
       in case install_client_config md5_hex now_text config2 r of
            (Inl e, r1) \<Rightarrow> ([], Inl e, r1)
          | (Inr _, r1) \<Rightarrow>
              reply wr (msg_ok ''config accepted'') (update_client_last_online_addr vkey remote_addr r1) finish)"

definition hello_health ::
  "(ServerMessage \<Rightarrow> unit io_result) \<Rightarrow> time \<Rightarrow> string \<Rightarrow> string \<Rightarrow> string \<Rightarrow> bool \<Rightarrow> Registry \<Rightarrow> hello_result" where
  "hello_health wr now remote_addr vkey target status r =
     with_handshake wr now vkey remote_addr False r (\<lambda>r.
       if trim target = [] then reply wr (msg_error ''invalid health target'') r finish
       else reply wr (msg_ok ''health accepted'') (set_client_health_target_state vkey target status r) finish)"

text \<open>A data connection: after its reply it is sent to the request that waits for it.\<close>

definition hello_data :: "(ServerMessage \<Rightarrow> unit io_result) \<Rightarrow> u64 \<Rightarrow> Registry \<Rightarrow> hello_result" where
  "hello_data wr link_id r =
     (case hm_get (re_pending r) link_id of
        Some tx \<Rightarrow> reply wr (msg_ok ''data accepted'') (forget_pending link_id r) (\<lambda>r. ([], Inr (SendTo tx), r))
      | None \<Rightarrow> reply wr (msg_error ''unknown link id'') (forget_pending link_id r) finish)"

definition hello_register_ip ::
  "(ServerMessage \<Rightarrow> unit io_result) \<Rightarrow> time \<Rightarrow> string \<Rightarrow> string \<Rightarrow> u32 \<Rightarrow> Registry \<Rightarrow> hello_result" where
  "hello_register_ip wr now remote_addr vkey hours r =
     (case ensure_ip_registration_vkey r vkey of
        Inl e \<Rightarrow> ([], Inl e, r)
      | Inr _ \<Rightarrow> reply wr (msg_ok ''ip registered'') (authorize_ip now remote_addr hours r) finish)"

section \<open>Visitors of secret tunnels\<close>

text \<open>The link a visitor asks for, and the tunnel its password opens.\<close>

definition secret_tunnel :: "(string \<Rightarrow> string) \<Rightarrow> string \<Rightarrow> Registry \<Rightarrow> Tunnel option" where
  "secret_tunnel md5_hex password r =
     (case hm_get (re_secrets r) password of
        Some t \<Rightarrow> Some t
      | None \<Rightarrow> hm_get (re_secrets r) (md5_hex password))"

definition secret_link :: "Tunnel \<Rightarrow> string \<Rightarrow> string \<Rightarrow> Registry \<Rightarrow> Link" where
  "secret_link tunnel visitor_target remote_addr r =
     (let target = (if trim visitor_target = []
                    then (case pick_runtime_target r (tn_client_vkey tunnel) (tn_target tunnel) 0 of
                            Some (target, _) \<Rightarrow> target
                          | None \<Rightarrow> tg_target_str (tn_target tunnel))
                    else visitor_target);
          (crypt, compress) = client_transport_flags r (tn_client_vkey tunnel) False
      in \<lparr>lk_kind = (if eq_ignore_ascii_case (tn_mode tunnel) ''p2p'' then LkP2p else LkSecret),
          lk_target = target, lk_remote_addr = remote_addr, lk_crypt = crypt, lk_compress = compress,
          lk_local_proxy = tg_local_proxy (tn_target tunnel), lk_proto_version = [], lk_file = None\<rparr>)"

definition handle_secret_visitor ::
  "(ServerMessage \<Rightarrow> unit io_result) \<Rightarrow> time \<Rightarrow> (string \<Rightarrow> string) \<Rightarrow> recv_result \<Rightarrow> unit io_result \<Rightarrow> nat \<Rightarrow>
   string \<Rightarrow> string \<Rightarrow> string \<Rightarrow> Registry \<Rightarrow> hello_result" where
  "handle_secret_visitor wr now md5_hex res wrap n password visitor_target remote_addr r =
     (case secret_tunnel md5_hex password r of
        None \<Rightarrow> reply wr (msg_error ''secret not found'') r finish
      | Some tunnel \<Rightarrow>
          (case request_client_stream now res wrap n (tn_client_vkey tunnel)
                  (secret_link tunnel visitor_target remote_addr r) r of
             (Inr client_stream, r1) \<Rightarrow>
               reply wr (msg_ok ''secret accepted'') r1 (\<lambda>r. ([], Inr (Relay client_stream), r))
           | (Inl err, r1) \<Rightarrow> reply wr (msg_error (''provider offline: '' @ err_msg err)) r1 finish))"

section \<open>The dispatcher\<close>

text \<open>What the handler takes from its surroundings.\<close>

record hello_env =
  he_write :: "ServerMessage \<Rightarrow> unit io_result"
  he_now :: time
  he_now_text :: string
  he_md5_hex :: "string \<Rightarrow> string"
  he_session :: "nat io_result"
  he_recv :: recv_result
  he_wrap :: "unit io_result"
  he_request :: nat

definition handle_bridge_conn :: "hello_env \<Rightarrow> string \<Rightarrow> BridgeHello \<Rightarrow> Registry \<Rightarrow> hello_result" where
  "handle_bridge_conn env remote_addr hello r =
     (let wr = he_write env; now = he_now env in
      case hello of
        HelloControl vkey version _ \<Rightarrow> hello_control wr now remote_addr vkey version r
      | HelloMux vkey _ _ \<Rightarrow> hello_mux wr now remote_addr (he_session env) vkey r
      | HelloConfig vkey _ _ config \<Rightarrow>
          hello_config wr now (he_md5_hex env) (he_now_text env) remote_addr vkey config r
      | HelloHealth vkey target status \<Rightarrow> hello_health wr now remote_addr vkey target status r
      | HelloData _ link_id \<Rightarrow> hello_data wr link_id r
      | HelloSecretVisitor password target \<Rightarrow>
          handle_secret_visitor wr now (he_md5_hex env) (he_recv env) (he_wrap env) (he_request env)
            password target remote_addr r
      | HelloP2pVisitor password target \<Rightarrow>
          handle_secret_visitor wr now (he_md5_hex env) (he_recv env) (he_wrap env) (he_request env)
            password target remote_addr r
      | HelloRegisterIp vkey hours \<Rightarrow> hello_register_ip wr now remote_addr vkey hours r)"

section \<open>Control and mux connections\<close>

text \<open>
  The writer loop \<open>for msg in rx\<close> of a control connection.  It takes one message at a time;
  it ends when a write fails, or when its queue is empty and no sender is left (\<open>open_tx\<close>
  says whether one is), and then removes what is registered under its key.
\<close>

definition control_end :: "string \<Rightarrow> nat \<Rightarrow> Registry \<Rightarrow> Registry" where
  "control_end vkey q r =
     r\<lparr>re_queues := (re_queues r)[q := (fst (re_queues r ! q), False)],
       re_controls := hm_remove vkey (re_controls r),
       re_mux_sessions := hm_remove vkey (re_mux_sessions r)\<rparr>"

definition control_step ::
  "(ServerMessage \<Rightarrow> unit io_result) \<Rightarrow> bool \<Rightarrow> string \<Rightarrow> nat \<Rightarrow> Registry \<Rightarrow> (ServerMessage option \<times> bool) \<times> Registry" where
  "control_step wr open_tx vkey q r =
     (case fst (re_queues r ! q) of
        msg # rest \<Rightarrow>
          (let r1 = r\<lparr>re_queues := (re_queues r)[q := (rest, snd (re_queues r ! q))]\<rparr>
           in case wr msg of
                Inl _ \<Rightarrow> ((Some msg, False), control_end vkey q r1)
              | Inr _ \<Rightarrow> ((Some msg, True), r1))
      | [] \<Rightarrow> if open_tx then ((None, True), r) else ((None, False), control_end vkey q r))"

text \<open>The control handles that hold a sender of a queue.\<close>

definition handle_holds :: "nat \<Rightarrow> Registry \<Rightarrow> bool" where
  "handle_holds q r = list_ex (\<lambda>(_, h). ch_tx h = q) (re_controls r)"

text \<open>One accepted mux stream; the stream carries the link id as its own id.\<close>

definition mux_accept_one :: "u64 \<Rightarrow> Registry \<Rightarrow> nat option \<times> Registry" where
  "mux_accept_one stream_id r = (hm_get (re_pending r) stream_id, forget_pending stream_id r)"

definition mux_accept_end :: "string \<Rightarrow> Registry \<Rightarrow> Registry" where
  "mux_accept_end vkey r = r\<lparr>re_mux_sessions := hm_remove vkey (re_mux_sessions r)\<rparr>"

section \<open>Facts\<close>

lemma handshake_shape:
  "\<exists>a. snd (validate_client_handshake now vkey remote req r) = r\<lparr>re_authorized_ips := a\<rparr>"
proof -
  have "snd (validate_client_handshake now vkey remote req r) \<in> {r, snd (is_ip_authorized now (remote_ip remote) r)}"
    by (simp add: validate_client_handshake_def Let_def case_prod_beta)
  moreover have "r = r\<lparr>re_authorized_ips := re_authorized_ips r\<rparr>" by simp
  ultimately show ?thesis by (auto simp: is_ip_authorized_def Let_def intro: exI [of _ "re_authorized_ips r"])
qed

lemma update_addr_fields [simp]:
  "re_controls (update_client_last_online_addr vkey addr r) = re_controls r"
  "re_queues (update_client_last_online_addr vkey addr r) = re_queues r"
  "re_server (update_client_last_online_addr vkey addr r) = re_server r"
  by (auto simp: update_client_last_online_addr_def split: option.splits)

text \<open>The greetings that must authenticate, and whether they need the configuration right.\<close>

fun needs_handshake :: "BridgeHello \<Rightarrow> (string \<times> bool) option" where
  "needs_handshake (HelloControl vkey _ _) = Some (vkey, False)"
| "needs_handshake (HelloMux vkey _ _) = Some (vkey, False)"
| "needs_handshake (HelloConfig vkey _ _ _) = Some (vkey, True)"
| "needs_handshake (HelloHealth vkey _ _) = Some (vkey, False)"
| "needs_handshake _ = None"

lemma hello_needs_handshake:
  assumes "needs_handshake hello = Some (vkey, req)"
    and "validate_client_handshake (he_now env) vkey remote req r = (Inl e, r')"
  shows "handle_bridge_conn env remote hello r = reply (he_write env) (msg_error (err_msg e)) r' finish"
  using assms
  by (cases hello) (simp_all add: handle_bridge_conn_def Let_def with_handshake_def hello_control_def
      hello_mux_def hello_config_def hello_health_def)

text \<open>A control greeting that is accepted and answered.\<close>

lemma hello_control_accepted:
  assumes "validate_client_handshake now vkey remote False r = (Inr (), r1)"
    and "wr (msg_ok ''control accepted'') = Inr ()"
  shows "hello_control wr now remote vkey version r =
     ([msg_ok ''control accepted''], Inr (ControlLoop vkey (length (re_queues r1))),
      update_client_last_online_addr vkey remote
        (r1\<lparr>re_queues := re_queues r1 @ [([], True)],
            re_controls := hm_insert vkey
              \<lparr>ch_tx = length (re_queues r1), ch_version = version, ch_connected_at = now, ch_remote_addr = remote\<rparr>
              (re_controls r1)\<rparr>))"
  using assms by (simp add: hello_control_def with_handshake_def reply_def Let_def)

lemma secret_registry_sound:
  assumes "re_secrets r = re_secrets (rebuild_secret_registry md5_hex r)" "secret_tunnel md5_hex password r = Some t"
  shows "offers_secret t \<and> (\<exists>c \<in> set (hm_values (re_clients r)). ci_status (rc_info c) \<and> t \<in> set (rc_tunnels c))
     \<and> (\<exists>key \<in> {password, md5_hex password}. key = tn_password t \<or> key = md5_hex (tn_password t))"
proof -
  obtain key where key: "key \<in> {password, md5_hex password}" "hm_get (re_secrets r) key = Some t"
    using assms(2) by (auto simp: secret_tunnel_def split: option.splits)
  then have "t \<in> set (secret_tunnels r)" "secret_key md5_hex key t"
    using fold_add_secret [of md5_hex "secret_tunnels r" "[]" key t] assms(1) by (simp_all add: rebuild_secrets_fold)
  with key(1) show ?thesis by (auto simp: secret_tunnels_iff secret_key_def)
qed

lemma request_served:
  assumes "request_client_stream now res wrap n vkey link r = (Inr stream, r')"
  shows "cr_vkey stream = vkey \<and> (\<exists>is_mux. res = Received (cr_stream stream) is_mux)
     \<and> fst (validate_client_access now vkey (lk_remote_addr link) r) = Inr ()"
proof -
  obtain v r1 where acc: "validate_client_access now vkey (lk_remote_addr link) r = (v, r1)" by fastforce
  obtain a r2 where acq: "acquire_client_connection_slot vkey r1 = (a, r2)" by fastforce
  have ok: "v = Inr ()" using assms by (cases v) (simp_all add: request_client_stream_seq acc)
  obtain slot where "a = Inr slot" using assms by (cases a) (simp_all add: request_client_stream_seq acc acq ok)
  then obtain l r4 where "request_result (request_finish res wrap vkey link slot l r4) = (Inr stream, r')"
    using assms by (auto simp: request_client_stream_seq acc acq ok Let_def case_prod_beta split: option.splits if_splits)
  from request_finish_result [OF this] ok acc show ?thesis by simp
qed

section \<open>Properties\<close>

text \<open>
  C25: Nothing happens without a valid key.  A control, mux, configuration or health
  greeting whose handshake is refused is answered with the reason and changes nothing
  of the server but the list of authorised addresses, from which expired entries go.
\<close>

theorem hello_refused:
  assumes "needs_handshake hello = Some (vkey, req)"
    and "fst (validate_client_handshake (he_now env) vkey remote req r) = Inl e"
  shows "\<exists>ips. handle_bridge_conn env remote hello r =
     ([MsgError (err_msg e)], map_sum id (\<lambda>_. Done) (he_write env (MsgError (err_msg e))), r\<lparr>re_authorized_ips := ips\<rparr>)"
proof -
  obtain ips where "snd (validate_client_handshake (he_now env) vkey remote req r) = r\<lparr>re_authorized_ips := ips\<rparr>"
    using handshake_shape by blast
  with assms(2) have "validate_client_handshake (he_now env) vkey remote req r = (Inl e, r\<lparr>re_authorized_ips := ips\<rparr>)"
    by (simp add: prod_eq_iff)
  from hello_needs_handshake [OF assms(1) this] show ?thesis
    by (auto simp: reply_def finish_def msg_error_def split: sum.split)
qed

definition demo_env :: hello_env where
  "demo_env = \<lparr>he_write = \<lambda>_. Inr (), he_now = 0, he_now_text = ''now'', he_md5_hex = rev, he_session = Inr 0,
     he_recv = RecvTimeout, he_wrap = Inr (), he_request = 0\<rparr>"

theorem hello_refused_witness:
  "\<exists>ips. handle_bridge_conn demo_env ''10.0.0.9:1'' (HelloControl ''stranger'' [] []) demo_bridge_registry =
     ([MsgError ''invalid verification key''], Inr Done, demo_bridge_registry\<lparr>re_authorized_ips := ips\<rparr>)"
proof -
  have h: "needs_handshake (HelloControl ''stranger'' [] []) = Some (''stranger'', False)"
    "fst (validate_client_handshake (he_now demo_env) ''stranger'' ''10.0.0.9:1'' False demo_bridge_registry)
       = Inl (IoError PermissionDenied ''invalid verification key'')"
    by code_simp+
  from hello_refused [OF h] show ?thesis by (simp add: demo_env_def)
qed

text \<open>
  An accepted client is reachable.  After its control greeting has been answered, a
  request that is let in finds the client online: its link is announced, under its id, in
  the empty queue of this very connection, and the request waits for the data connection.
\<close>

lemma control_accepted_reachable:
  assumes "fst (validate_client_handshake now vkey remote False r) = Inr ()"
    and "wr (msg_ok ''control accepted'') = Inr ()"
  shows "\<exists>r1 q. hello_control wr now remote vkey version r = ([MsgOk ''control accepted''], Inr (ControlLoop vkey q), r1)
     \<and> request_step t res wrap n (Admitted vkey link slot) r1
         = (Located vkey link slot (the (hm_get (re_controls r1) vkey)), r1)
     \<and> (\<exists>r2. request_step t res wrap n (Queued vkey link slot (the (hm_get (re_controls r1) vkey)) l) r1
           = (Waiting vkey link slot l, r2) \<and> re_queues r2 ! q = ([MsgOpen l link], True))"
proof -
  obtain r' where v: "validate_client_handshake now vkey remote False r = (Inr (), r')"
    using assms(1) by (metis prod.collapse)
  show ?thesis
    unfolding hello_control_accepted [where wr = wr, OF v assms(2)]
    by (auto simp: msg_ok_def hm_simps queue_send_def nth_append)
qed


definition demo_secret_registry :: Registry where
  "demo_secret_registry = rebuild_secret_registry rev (demo_bridge_registry
     \<lparr>re_clients := [(''k'', (demo_client 1)\<lparr>rc_tunnels := [Tunnel_default
        \<lparr>tn_mode := ''secret'', tn_password := ''pw'', tn_client_vkey := ''k'', tn_status := True, tn_run_status := True\<rparr>]\<rparr>)]\<rparr>)"


text \<open>
  Reconnecting takes a client offline.  When a client whose control connection is still
  registered connects again, the old connection loses its last sender, its writer loop
  ends, and on its way out it removes the handle of the new connection: the next request
  finds the client offline.
\<close>

lemma reconnect_unregisters:
  assumes "fst (validate_client_handshake now vkey remote False r) = Inr ()"
    and "wr (msg_ok ''control accepted'') = Inr ()"
    and "re_controls r = [(vkey, old)]" "re_queues r ! ch_tx old = ([], True)" "ch_tx old < length (re_queues r)"
  shows "\<exists>r1 q r2. hello_control wr now remote vkey version r = ([MsgOk ''control accepted''], Inr (ControlLoop vkey q), r1)
     \<and> \<not> handle_holds (ch_tx old) r1
     \<and> control_step wr' (handle_holds (ch_tx old) r1) vkey (ch_tx old) r1 = ((None, False), r2)
     \<and> fst (request_step t res wrap n (Admitted vkey link slot) r2)
         = Failed vkey (IoError NotConnected ''client is offline'')"
proof -
  obtain ips where v: "validate_client_handshake now vkey remote False r = (Inr (), r\<lparr>re_authorized_ips := ips\<rparr>)"
    using assms(1) handshake_shape [of now vkey remote False r] by (metis prod.collapse)
  show ?thesis
    unfolding hello_control_accepted [where wr = wr, OF v assms(2)]
    using assms(3-5)
    by (auto simp: msg_ok_def handle_holds_def control_step_def control_end_def hm_simps nth_append
        split: option.splits)
qed

definition demo_public_registry :: Registry where
  "demo_public_registry = demo_bridge_registry
     \<lparr>re_server := ServerConfig_default\<lparr>sc_public_vkey := ''public''\<rparr>,
      re_clients := [(''k'', rc_info_update (\<lambda>i. i\<lparr>ci_web_password := ''old''\<rparr>) (rc_vkey_update ''k'' ClientRuntimeConfig_default))]\<rparr>"

text \<open>
  The public key can replace any client.  A configuration connection is authenticated
  by the key of its greeting but installed under the key of the configuration it carries:
  whoever knows the public key, and no key of the client, replaces the settings of
  client \<open>k\<close>, here its console password.
\<close>

lemma public_config_replaces_client:
  "let config = rc_info_update (\<lambda>i. i\<lparr>ci_web_password := ''mine''\<rparr>) (rc_vkey_update ''k'' ClientRuntimeConfig_default);
       (ms, res, r) = handle_bridge_conn demo_env ''10.0.0.9:1'' (HelloConfig ''public'' [] [] config) demo_public_registry
   in ms = [MsgOk ''config accepted''] \<and> res = Inr Done
      \<and> map_option (ci_web_password \<circ> rc_info) (client_of ''k'' demo_public_registry) = Some ''old''
      \<and> map_option (ci_web_password \<circ> rc_info) (client_of ''k'' r) = Some ''mine''"
  by code_simp

end
