(* ===== verification/Mutations.thy ===== *)
theory Mutations
  imports Tunnels
begin

text \<open>
  The operations behind the web console, \<open>mutate_*\<close> and the login functions of
  \<open>src/server.rs\<close>.  They act on the registry and on the store's directory (\<open>Web\<close>).  Form
  parameters are a map from names to values.  An answer is the JSON object \<open>ajax\<close> builds.

  \<open>web_env\<close> collects what the operations take from outside: the JSON library, the MD5
  digest, the network, the clock as text, and what the other threads do while
  \<open>stop_tunnel_runtime\<close> waits for a listener to end.
\<close>

section \<open>Parameters and answers\<close>

type_synonym params = "(string \<times> string) list"

record Ajax =
  aj_status :: nat
  aj_msg :: string
  aj_id :: "u64 option"

record Web =
  wb_reg :: Registry
  wb_files :: files

record web_env =
  we_codec :: codec
  we_md5_hex :: "string \<Rightarrow> string"
  we_net :: net_env
  we_now_text :: string
  we_wait :: "Registry \<Rightarrow> Registry"

definition param :: "params \<Rightarrow> string \<Rightarrow> string" where
  "param params key = (case hm_get params key of None \<Rightarrow> [] | Some v \<Rightarrow> v)"

definition param_bool :: "params \<Rightarrow> string \<Rightarrow> bool" where
  "param_bool params key = (to_ascii_lowercase (param params key) \<in> {''1'', ''true'', ''yes'', ''on''})"

definition param_any :: "params \<Rightarrow> string list \<Rightarrow> string" where
  "param_any params keys =
     (case find (\<lambda>key. param params key \<noteq> []) keys of None \<Rightarrow> [] | Some key \<Rightarrow> param params key)"

definition param_bool_any :: "params \<Rightarrow> string list \<Rightarrow> bool" where
  "param_bool_any params keys = list_ex (param_bool params) keys"

definition param_id :: "params \<Rightarrow> string \<Rightarrow> u64 \<Rightarrow> u64" where
  "param_id params key fallback = (case parse_u64 (param params key) of None \<Rightarrow> fallback | Some i \<Rightarrow> i)"

definition param_usize :: "params \<Rightarrow> string \<Rightarrow> usize" where
  "param_usize params key = (case parse_usize (param params key) of None \<Rightarrow> 0 | Some n \<Rightarrow> n)"

definition param_lines :: "string \<Rightarrow> string list" where
  "param_lines value = filter (\<lambda>line. line \<noteq> []) (map trim (lines value))"

definition ajax :: "nat \<Rightarrow> string \<Rightarrow> Ajax" where
  "ajax status msg = \<lparr>aj_status = status, aj_msg = msg, aj_id = None\<rparr>"

definition ajax_with_id :: "nat \<Rightarrow> string \<Rightarrow> u64 \<Rightarrow> Ajax" where
  "ajax_with_id status msg i = \<lparr>aj_status = status, aj_msg = msg, aj_id = Some i\<rparr>"

section \<open>Saving\<close>

definition persist_registry :: "web_env \<Rightarrow> Web \<Rightarrow> unit io_result \<times> Web" where
  "persist_registry env w =
     (case save_all (we_codec env) (re_clients (wb_reg w)) (re_global (wb_reg w)) (wb_files w) of
        (res, fs) \<Rightarrow> (res, w\<lparr>wb_files := fs\<rparr>))"

definition persist_ajax :: "web_env \<Rightarrow> string \<Rightarrow> Web \<Rightarrow> Ajax \<times> Web" where
  "persist_ajax env success_msg w =
     (case persist_registry env w of
        (Inr _, w') \<Rightarrow> (ajax 1 success_msg, w')
      | (Inl err, w') \<Rightarrow> (ajax 0 (''modified but save failed: '' @ err_msg err), w'))"

definition persist_added :: "web_env \<Rightarrow> u64 \<Rightarrow> Web \<Rightarrow> Ajax \<times> Web" where
  "persist_added env i w =
     (case persist_registry env w of
        (Inr _, w') \<Rightarrow> (ajax_with_id 1 ''add success'' i, w')
      | (Inl err, w') \<Rightarrow> (ajax 0 (''added but save failed: '' @ err_msg err), w'))"

section \<open>Finding things\<close>

definition client_vkey_by_id :: "(string \<times> ClientRuntimeConfig) list \<Rightarrow> u64 \<Rightarrow> string option" where
  "client_vkey_by_id clients i = map_option fst (find (\<lambda>(_, config). rc_id config = i) clients)"

definition position :: "('a \<Rightarrow> bool) \<Rightarrow> 'a list \<Rightarrow> nat option" where
  "position p xs = (if list_ex p xs then Some (length (takeWhile (\<lambda>x. \<not> p x) xs)) else None)"

definition remove_at :: "nat \<Rightarrow> 'a list \<Rightarrow> 'a list" where
  "remove_at i xs = take i xs @ drop (Suc i) xs"

text \<open>
  The loop \<open>for config in clients.values_mut()\<close> that stops at the first client \<open>f\<close> applies
  to: \<open>f\<close> returns the changed client and a result.
\<close>

fun update_first :: "('c \<Rightarrow> ('c \<times> 'r) option) \<Rightarrow> ('k \<times> 'c) list \<Rightarrow> (('k \<times> 'c) list \<times> 'r) option" where
  "update_first f [] = None"
| "update_first f ((k, c) # m) =
     (case f c of
        Some (c', x) \<Rightarrow> Some ((k, c') # m, x)
      | None \<Rightarrow> map_option (\<lambda>(m', x). ((k, c) # m', x)) (update_first f m))"

definition with_tunnel ::
  "u64 \<Rightarrow> (ClientRuntimeConfig \<Rightarrow> nat \<Rightarrow> ClientRuntimeConfig \<times> 'r) \<Rightarrow> Registry \<Rightarrow> ('r \<times> Registry) option" where
  "with_tunnel i f r =
     map_option (\<lambda>(clients, x). (x, r\<lparr>re_clients := clients\<rparr>))
       (update_first (\<lambda>config. map_option (f config) (position (\<lambda>t. tn_id t = i) (rc_tunnels config))) (re_clients r))"

definition host_mutation_result ::
  "u64 \<Rightarrow> (ClientRuntimeConfig \<Rightarrow> nat \<Rightarrow> ClientRuntimeConfig \<times> 'r option) \<Rightarrow> Registry \<Rightarrow> 'r option \<times> Registry" where
  "host_mutation_result i f r =
     (case update_first (\<lambda>config. map_option (f config) (position (\<lambda>h. ho_id h = i) (rc_hosts config))) (re_clients r) of
        None \<Rightarrow> (None, r)
      | Some (clients, x) \<Rightarrow> (x, r\<lparr>re_clients := clients\<rparr>))"

section \<open>Clients\<close>

definition apply_client_form :: "params \<Rightarrow> ClientInfo \<Rightarrow> ClientInfo" where
  "apply_client_form params info =
     (let info1 = info
        \<lparr>ci_remark := param params ''remark'',
         ci_basic_username := param params ''u'',
         ci_basic_password := param params ''p'',
         ci_compress := param_bool params ''compress'',
         ci_crypt := param_bool params ''crypt'',
         ci_rate_limit_kb := param_id params ''rate_limit'' 0,
         ci_flow_limit_mb := param_id params ''flow_limit'' 0,
         ci_max_conn := param_usize params ''max_conn'',
         ci_max_tunnel_num := param_usize params ''max_tunnel'',
         ci_ip_white := param_bool params ''ipwhite'',
         ci_ip_white_pass := param_any params [''ipwhitepass'', ''ip_white_pass''],
         ci_ip_white_list := param_lines (param_any params [''ipwhitelist'', ''ip_white_list'']),
         ci_black_ip_list := param_lines (param_any params [''blackiplist'', ''black_ip_list''])\<rparr>
      in case hm_get params ''config_conn_allow'' of
           None \<Rightarrow> info1
         | Some _ \<Rightarrow> info1\<lparr>ci_config_conn_allow := param_bool params ''config_conn_allow''\<rparr>)"

definition mutate_client_status :: "web_env \<Rightarrow> params \<Rightarrow> Web \<Rightarrow> Ajax \<times> Web" where
  "mutate_client_status env params w =
     (let i = param_id params ''id'' 0; status = param_bool params ''status''; r = wb_reg w;
          changed = (case client_vkey_by_id (re_clients r) i of
                       None \<Rightarrow> None
                     | Some vkey \<Rightarrow> map_option (\<lambda>config. (vkey, config)) (client_of vkey r))
      in case changed of
           None \<Rightarrow> (ajax 0 ''modified fail'', w)
         | Some (vkey, previous) \<Rightarrow>
             (let current = rc_info_update (\<lambda>info. info\<lparr>ci_status := status\<rparr>) previous;
                  r1 = r\<lparr>re_clients := hm_insert vkey current (re_clients r)\<rparr>;
                  r2 = stop_tunnel_runtimes (we_wait env) (rc_tunnels previous) r1;
                  r3 = (if status then start_active_tunnels_for_client (we_md5_hex env) current r2
                        else clear_client_health_runtime_state vkey
                               (terminate_client_connection vkey ''client disabled'' r2));
                  r4 = rebuild_secret_registry (we_md5_hex env) r3
              in persist_ajax env ''modified success'' (w\<lparr>wb_reg := r4\<rparr>)))"

definition mutate_client_delete :: "web_env \<Rightarrow> params \<Rightarrow> Web \<Rightarrow> Ajax \<times> Web" where
  "mutate_client_delete env params w =
     (let i = param_id params ''id'' 0; r = wb_reg w;
          deleted = (case client_vkey_by_id (re_clients r) i of
                       None \<Rightarrow> None
                     | Some vkey \<Rightarrow> map_option (\<lambda>config. (vkey, config)) (client_of vkey r))
      in case deleted of
           None \<Rightarrow> (ajax 0 ''delete error'', w)
         | Some (vkey, removed) \<Rightarrow>
             (let r1 = r\<lparr>re_clients := hm_remove vkey (re_clients r)\<rparr>;
                  r2 = stop_tunnel_runtimes (we_wait env) (rc_tunnels removed) r1;
                  r3 = terminate_client_connection vkey ''client deleted'' r2;
                  r4 = clear_client_runtime_state vkey r3;
                  r5 = rebuild_secret_registry (we_md5_hex env) r4
              in persist_ajax env ''delete success'' (w\<lparr>wb_reg := r5\<rparr>)))"

definition username_taken :: "string \<Rightarrow> Registry \<Rightarrow> bool" where
  "username_taken username r = list_ex (\<lambda>c. ci_web_username (rc_info c) = username) (hm_values (re_clients r))"

definition mutate_client_add :: "web_env \<Rightarrow> params \<Rightarrow> Web \<Rightarrow> Ajax \<times> Web" where
  "mutate_client_add env params w =
     (let r = wb_reg w; supplied = param params ''vkey'';
          (vkey, r1) = (if supplied = []
                        then (case next_link_id r of (i, r') \<Rightarrow> (''web'' @ show_nat (unat i), r'))
                        else (supplied, r));
          web_username = param params ''web_username''
      in if hm_contains (re_clients r1) vkey then (ajax 0 ''Vkey duplicate, please reset'', w\<lparr>wb_reg := r1\<rparr>)
         else if web_username \<noteq> [] \<and> username_taken web_username r1
         then (ajax 0 ''web login username duplicate, please reset'', w\<lparr>wb_reg := r1\<rparr>)
         else (let (i, r2) = next_link_id r1;
                   config = rc_info_update
                     (\<lambda>info. (apply_client_form params info)
                        \<lparr>ci_web_username := web_username, ci_web_password := param params ''web_password''\<rparr>)
                     (rc_vkey_update vkey ClientRuntimeConfig_default);
                   config = config\<lparr>rc_id := i, rc_no_store := False, rc_create_time := we_now_text env\<rparr>;
                   r3 = r2\<lparr>re_clients := hm_insert vkey config (re_clients r2)\<rparr>
               in persist_added env i (w\<lparr>wb_reg := r3\<rparr>)))"

definition rekey_client_runtime_state :: "string \<Rightarrow> string \<Rightarrow> bool \<Rightarrow> Registry \<Rightarrow> Registry" where
  "rekey_client_runtime_state old_vkey new_vkey keep_health_state r =
     (if old_vkey = new_vkey then r
      else (let targets = hm_get (re_health_targets r) old_vkey;
                health = hm_remove old_vkey (re_health_targets r);
                health' = (if keep_health_state
                           then (case targets of
                                   None \<Rightarrow> health
                                 | Some ts \<Rightarrow>
                                     let old = (case hm_get health new_vkey of None \<Rightarrow> [] | Some t \<Rightarrow> t)
                                     in hm_insert new_vkey (fold List.insert ts old) health)
                           else health);
                flows = hm_remove old_vkey (re_flow_counters r);
                flows' = (case hm_get (re_flow_counters r) old_vkey of
                            None \<Rightarrow> flows | Some counter \<Rightarrow> hm_insert new_vkey counter flows)
            in r\<lparr>re_health_targets := health', re_flow_counters := flows'\<rparr>))"

definition sync_client_health_runtime_state :: "string \<Rightarrow> HealthCheck list \<Rightarrow> Registry \<Rightarrow> Registry" where
  "sync_client_health_runtime_state vkey healths r =
     (case hm_get (re_health_targets r) vkey of
        None \<Rightarrow> r
      | Some targets \<Rightarrow>
          (let allowed = concat (map hc_targets healths);
               kept = filter (\<lambda>t. t \<in> set allowed) targets
           in if allowed = [] \<or> kept = [] then r\<lparr>re_health_targets := hm_remove vkey (re_health_targets r)\<rparr>
              else r\<lparr>re_health_targets := hm_insert vkey kept (re_health_targets r)\<rparr>))"

text \<open>The client an edit produces, before it is stored under its new key.\<close>

definition edited_client :: "params \<Rightarrow> string \<Rightarrow> ClientRuntimeConfig \<Rightarrow> ClientRuntimeConfig" where
  "edited_client params new_vkey previous =
     (let config = rc_info_update
            (\<lambda>info. let info1 = apply_client_form params info;
                        info2 = (case hm_get params ''web_username'' of
                                   None \<Rightarrow> info1 | Some u \<Rightarrow> info1\<lparr>ci_web_username := u\<rparr>)
                    in info2\<lparr>ci_web_password := param params ''web_password''\<rparr>)
            (rc_vkey_update new_vkey previous)
      in config\<lparr>rc_tunnels := map (\<lambda>t. t\<lparr>tn_client_vkey := new_vkey\<rparr>) (rc_tunnels config),
                rc_hosts := map (\<lambda>h. h\<lparr>ho_client_vkey := new_vkey\<rparr>) (rc_hosts config)\<rparr>)"

definition mutate_client_edit :: "web_env \<Rightarrow> params \<Rightarrow> Web \<Rightarrow> Ajax \<times> Web" where
  "mutate_client_edit env params w =
     (let i = param_id params ''id'' 0; r = wb_reg w
      in case client_vkey_by_id (re_clients r) i of
           None \<Rightarrow> (ajax 0 ''client ID not found'', w)
         | Some vkey \<Rightarrow>
             (let new_vkey = (if param params ''vkey'' = [] then vkey else param params ''vkey'')
              in if new_vkey \<noteq> vkey \<and> hm_contains (re_clients r) new_vkey
                 then (ajax 0 ''Vkey duplicate, please reset'', w)
                 else if (case hm_get params ''web_username'' of
                            None \<Rightarrow> False
                          | Some u \<Rightarrow> u \<noteq> [] \<and>
                              list_ex (\<lambda>c. rc_id c \<noteq> i \<and> ci_web_username (rc_info c) = u) (hm_values (re_clients r)))
                 then (ajax 0 ''web login username duplicate, please reset'', w)
                 else (case client_of vkey r of
                         None \<Rightarrow> (ajax 0 ''client ID not found'', w)
                       | Some previous \<Rightarrow>
                           (let current = edited_client params new_vkey previous;
                                r1 = rekey_client_runtime_state vkey new_vkey (ci_status (rc_info current)) r;
                                r2 = r1\<lparr>re_clients := hm_insert new_vkey current (hm_remove vkey (re_clients r1))\<rparr>;
                                r3 = (if vkey \<noteq> new_vkey \<or> ci_status (rc_info previous) \<noteq> ci_status (rc_info current)
                                      then (let s = terminate_client_connection vkey
                                                      (if vkey \<noteq> new_vkey then ''invalid verification key'' else ''client disabled'')
                                                      (stop_tunnel_runtimes (we_wait env) (rc_tunnels previous) r2)
                                            in if ci_status (rc_info current)
                                               then start_active_tunnels_for_client (we_md5_hex env) current s else s)
                                      else r2);
                                r4 = sync_client_health_runtime_state new_vkey (rc_healths current) r3;
                                r5 = rebuild_secret_registry (we_md5_hex env) r4
                            in persist_ajax env ''save success'' (w\<lparr>wb_reg := r5\<rparr>)))))"

section \<open>Tunnels\<close>

definition mutate_tunnel_status :: "web_env \<Rightarrow> params \<Rightarrow> bool \<Rightarrow> Web \<Rightarrow> Ajax \<times> Web" where
  "mutate_tunnel_status env params status w =
     (case with_tunnel (param_id params ''id'' 0)
             (\<lambda>config k.
                let previous = rc_tunnels config ! k;
                    current = previous\<lparr>tn_status := status, tn_run_status := status\<rparr>
                in (config\<lparr>rc_tunnels := (rc_tunnels config)[k := current]\<rparr>, (previous, current)))
             (wb_reg w) of
        None \<Rightarrow> (ajax 0 (if status then ''start error'' else ''stop error''), w)
      | Some ((previous, current), r1) \<Rightarrow>
          (let r2 = apply_tunnel_runtime_change (we_md5_hex env) (we_wait env) (Some previous)
                      (if status then Some current else None) r1;
               r3 = refresh_tunnel_runtime_registry (we_md5_hex env) r2
           in persist_ajax env (if status then ''start success'' else ''stop success'') (w\<lparr>wb_reg := r3\<rparr>)))"

definition mutate_tunnel_delete :: "web_env \<Rightarrow> params \<Rightarrow> Web \<Rightarrow> Ajax \<times> Web" where
  "mutate_tunnel_delete env params w =
     (case with_tunnel (param_id params ''id'' 0)
             (\<lambda>config k. (config\<lparr>rc_tunnels := remove_at k (rc_tunnels config)\<rparr>, rc_tunnels config ! k)) (wb_reg w) of
        None \<Rightarrow> (ajax 0 ''delete error'', w)
      | Some (tunnel, r1) \<Rightarrow>
          (let r2 = apply_tunnel_runtime_change (we_md5_hex env) (we_wait env) (Some tunnel) None r1;
               r3 = refresh_tunnel_runtime_registry (we_md5_hex env) r2
           in persist_ajax env ''delete success'' (w\<lparr>wb_reg := r3\<rparr>)))"

text \<open>
  The copy draws its id inside the loop, when the client was found and has room for one
  more tunnel; \<open>copied\<close> is that part, for the id it would get.
\<close>

definition copied ::
  "web_env \<Rightarrow> ServerConfig \<Rightarrow> u64 \<Rightarrow> ClientRuntimeConfig \<Rightarrow> nat \<Rightarrow> ClientRuntimeConfig \<times> (io_error \<times> bool + Tunnel)" where
  "copied env server new_id config k =
     (case ensure_client_tunnel_limit server (rc_info config) (tunnel_count config) of
        Inl err \<Rightarrow> (config, Inl (err, False))
      | Inr _ \<Rightarrow>
          (let clone = (rc_tunnels config ! k)\<lparr>tn_id := new_id, tn_server_port := 0, tn_ports := []\<rparr>
           in case ensure_tunnel_server_port (we_net env) server clone of
                Inl err \<Rightarrow> (config, Inl (err, True))
              | Inr clone1 \<Rightarrow>
                  (let clone2 = clone1\<lparr>tn_status := False, tn_run_status := False, tn_no_store := False\<rparr>
                   in (config\<lparr>rc_tunnels := rc_tunnels config @ [clone2]\<rparr>, Inr clone2))))"

definition mutate_tunnel_copy :: "web_env \<Rightarrow> params \<Rightarrow> Web \<Rightarrow> Ajax \<times> Web" where
  "mutate_tunnel_copy env params w =
     (let r = wb_reg w; (new_id, drawn) = next_link_id r
      in case with_tunnel (param_id params ''id'' 0) (copied env (re_server r) new_id) r of
           None \<Rightarrow> (ajax 0 ''copy error'', w)
         | Some (Inl (err, used), _) \<Rightarrow> (ajax 0 (err_msg err), if used then w\<lparr>wb_reg := drawn\<rparr> else w)
         | Some (Inr tunnel, r1) \<Rightarrow>
             (let r2 = apply_tunnel_runtime_change (we_md5_hex env) (we_wait env) None (Some tunnel)
                         (r1\<lparr>re_seq := re_seq drawn\<rparr>);
                  r3 = refresh_tunnel_runtime_registry (we_md5_hex env) r2
              in persist_ajax env ''add success'' (w\<lparr>wb_reg := r3\<rparr>)))"

definition tunnel_of_params :: "params \<Rightarrow> u64 \<Rightarrow> Tunnel" where
  "tunnel_of_params params i =
     (let mode = param params ''type''; ports = param_any params [''ports'', ''port''];
          server_ip = param_any params [''server_ip'', ''serverIp'']
      in Tunnel_default
        \<lparr>tn_id := i,
         tn_mode := if mode = [] then ''tcp'' else mode,
         tn_ports := ports,
         tn_server_port := case expand_ports ports of [] \<Rightarrow> 0 | p # _ \<Rightarrow> p,
         tn_server_ip := if server_ip = [] then ''0.0.0.0'' else server_ip,
         tn_target := \<lparr>tg_target_str = param params ''target'', tg_local_proxy = param_bool params ''local_proxy''\<rparr>,
         tn_remark := param params ''remark'',
         tn_password := param params ''password'',
         tn_local_path := param params ''local_path'',
         tn_strip_pre := param params ''strip_pre'',
         tn_proto_version := param_any params [''proto_version'', ''proxy_protocol''],
         tn_status := True, tn_run_status := True, tn_no_store := False\<rparr>)"

definition mutate_tunnel_add :: "web_env \<Rightarrow> params \<Rightarrow> Web \<Rightarrow> Ajax \<times> Web" where
  "mutate_tunnel_add env params w =
     (let client_id = param_id params ''client_id'' 1;
          (i, r) = next_link_id (wb_reg w); w1 = w\<lparr>wb_reg := r\<rparr>
      in case ensure_tunnel_server_port (we_net env) (re_server r) (tunnel_of_params params i) of
           Inl err \<Rightarrow> (ajax 0 (err_msg err), w1)
         | Inr tunnel \<Rightarrow>
      (case validate_tunnel_ports (re_server r) tunnel of
           Inl err \<Rightarrow> (ajax 0 (err_msg err), w1)
         | Inr _ \<Rightarrow>
      (case client_vkey_by_id (re_clients r) client_id of
           None \<Rightarrow> (ajax 0 ''add error the client can not be found'', w1)
         | Some vkey \<Rightarrow>
      (case client_of vkey r of
           None \<Rightarrow> (ajax 0 ''add error the client can not be found'', w1)
         | Some config \<Rightarrow>
      (case ensure_client_tunnel_limit (re_server r) (rc_info config) (tunnel_count config) of
           Inl err \<Rightarrow> (ajax 0 (err_msg err), w1)
         | Inr _ \<Rightarrow>
             (let tunnel1 = tunnel\<lparr>tn_client_vkey := vkey\<rparr>;
                  r1 = r\<lparr>re_clients := hm_insert vkey (config\<lparr>rc_tunnels := rc_tunnels config @ [tunnel1]\<rparr>) (re_clients r)\<rparr>;
                  r2 = apply_tunnel_runtime_change (we_md5_hex env) (we_wait env) None (Some tunnel1) r1;
                  r3 = refresh_tunnel_runtime_registry (we_md5_hex env) r2
              in persist_added env (tn_id tunnel1) (w\<lparr>wb_reg := r3\<rparr>)))))))"

text \<open>The fields an edit sets before it looks at the ports.\<close>

definition edited_tunnel :: "params \<Rightarrow> Tunnel \<Rightarrow> Tunnel" where
  "edited_tunnel params tunnel =
     (let ports = param_any params [''ports'', ''port''];
          requested_port = (case expand_ports ports of [] \<Rightarrow> 0 | p # _ \<Rightarrow> p);
          t1 = (if requested_port \<noteq> tn_server_port tunnel
                then tunnel\<lparr>tn_ports := ports, tn_server_port := requested_port\<rparr> else tunnel);
          server_ip = param_any params [''server_ip'', ''serverIp''];
          t2 = (if server_ip \<noteq> [] then t1\<lparr>tn_server_ip := server_ip\<rparr> else t1);
          mode = param params ''type'';
          t3 = (if mode \<noteq> [] then t2\<lparr>tn_mode := mode\<rparr> else t2)
      in t3\<lparr>tn_target := \<lparr>tg_target_str = param params ''target'', tg_local_proxy = param_bool params ''local_proxy''\<rparr>,
            tn_remark := param params ''remark'',
            tn_password := param params ''password'',
            tn_local_path := param params ''local_path'',
            tn_strip_pre := param params ''strip_pre'',
            tn_proto_version := param_any params [''proto_version'', ''proxy_protocol''],
            tn_no_store := False\<rparr>)"

definition edit_tunnel_at ::
  "web_env \<Rightarrow> ServerConfig \<Rightarrow> params \<Rightarrow> ClientRuntimeConfig \<Rightarrow> nat \<Rightarrow> ClientRuntimeConfig \<times> (io_error + Tunnel \<times> Tunnel)" where
  "edit_tunnel_at env server params config k =
     (let previous = rc_tunnels config ! k; tunnel = edited_tunnel params previous;
          put = (\<lambda>t. config\<lparr>rc_tunnels := (rc_tunnels config)[k := t]\<rparr>)
      in case ensure_tunnel_server_port (we_net env) server tunnel of
           Inl err \<Rightarrow> (put tunnel, Inl err)
         | Inr tunnel1 \<Rightarrow>
             (case validate_tunnel_ports server tunnel1 of
                Inl err \<Rightarrow> (put tunnel1, Inl err)
              | Inr _ \<Rightarrow> (put tunnel1, Inr (previous, tunnel1))))"

definition mutate_tunnel_edit :: "web_env \<Rightarrow> params \<Rightarrow> Web \<Rightarrow> Ajax \<times> Web" where
  "mutate_tunnel_edit env params w =
     (case with_tunnel (param_id params ''id'' 0) (edit_tunnel_at env (re_server (wb_reg w)) params) (wb_reg w) of
        None \<Rightarrow> (ajax 0 ''modified error'', w)
      | Some (Inl err, r1) \<Rightarrow> (ajax 0 (err_msg err), w\<lparr>wb_reg := r1\<rparr>)
      | Some (Inr (previous, current), r1) \<Rightarrow>
          (let r2 = apply_tunnel_runtime_change (we_md5_hex env) (we_wait env) (Some previous) (Some current) r1;
               r3 = refresh_tunnel_runtime_registry (we_md5_hex env) r2
           in persist_ajax env ''modified success'' (w\<lparr>wb_reg := r3\<rparr>)))"

section \<open>Hosts and global settings\<close>

text \<open>
  \<open>refresh_host_runtime_registry\<close> builds the TLS configuration anew to report errors and
  drops it; it changes no state.
\<close>

definition mutate_host_status :: "web_env \<Rightarrow> params \<Rightarrow> bool \<Rightarrow> Web \<Rightarrow> Ajax \<times> Web" where
  "mutate_host_status env params is_close w =
     (case host_mutation_result (param_id params ''id'' 0)
             (\<lambda>config k.
                let previous = rc_hosts config ! k; current = previous\<lparr>ho_is_close := is_close\<rparr>
                in (config\<lparr>rc_hosts := (rc_hosts config)[k := current]\<rparr>, Some (previous, current)))
             (wb_reg w) of
        (None, r1) \<Rightarrow> (ajax 0 (if is_close then ''stop error'' else ''start error''), w\<lparr>wb_reg := r1\<rparr>)
      | (Some _, r1) \<Rightarrow> persist_ajax env (if is_close then ''stop success'' else ''start success'') (w\<lparr>wb_reg := r1\<rparr>))"

definition mutate_host_delete :: "web_env \<Rightarrow> params \<Rightarrow> Web \<Rightarrow> Ajax \<times> Web" where
  "mutate_host_delete env params w =
     (case host_mutation_result (param_id params ''id'' 0)
             (\<lambda>config k. (config\<lparr>rc_hosts := remove_at k (rc_hosts config)\<rparr>, Some (rc_hosts config ! k))) (wb_reg w) of
        (None, r1) \<Rightarrow> (ajax 0 ''delete error'', w\<lparr>wb_reg := r1\<rparr>)
      | (Some _, r1) \<Rightarrow> persist_ajax env ''delete success'' (w\<lparr>wb_reg := r1\<rparr>))"

definition fill_host_from_params :: "params \<Rightarrow> Host \<Rightarrow> Host" where
  "fill_host_from_params params host =
     (let location = param params ''location''; scheme = param params ''scheme''
      in host
        \<lparr>ho_host := param params ''host'',
         ho_target := \<lparr>tg_target_str = param params ''target'', tg_local_proxy = param_bool params ''local_proxy''\<rparr>,
         ho_header_change := param params ''header'',
         ho_host_change := param params ''hostchange'',
         ho_remark := param params ''remark'',
         ho_cert_file_path := param_any params [''cert_file_path'', ''certFilePath''],
         ho_key_file_path := param_any params [''key_file_path'', ''keyFilePath''],
         ho_proto_version := param_any params [''proto_version'', ''proxy_protocol''],
         ho_auto_https := param_bool_any params [''auto_https'', ''AutoHttps''],
         ho_location := if location = [] then ''/'' else if prefix ''/'' location then location else ''/'' @ location,
         ho_scheme := if scheme = [] then ''all'' else scheme\<rparr>)"

definition mutate_host_add :: "web_env \<Rightarrow> params \<Rightarrow> Web \<Rightarrow> Ajax \<times> Web" where
  "mutate_host_add env params w =
     (let client_id = param_id params ''client_id'' 1;
          (i, r) = next_link_id (wb_reg w); w1 = w\<lparr>wb_reg := r\<rparr>;
          host = fill_host_from_params params (Host_default\<lparr>ho_id := i, ho_no_store := False\<rparr>)
      in case client_vkey_by_id (re_clients r) client_id of
           None \<Rightarrow> (ajax 0 ''add error the client can not be found'', w1)
         | Some vkey \<Rightarrow>
      (case client_of vkey r of
           None \<Rightarrow> (ajax 0 ''add error the client can not be found'', w1)
         | Some config \<Rightarrow>
      (case ensure_client_tunnel_limit (re_server r) (rc_info config) (tunnel_count config) of
           Inl err \<Rightarrow> (ajax 0 (err_msg err), w1)
         | Inr _ \<Rightarrow>
             if list_ex (\<lambda>item. ho_host item = ho_host host \<and> ho_location item = ho_location host) (rc_hosts config)
             then (ajax 0 ''host has exist'', w1)
             else (let host1 = host\<lparr>ho_client_vkey := vkey\<rparr>;
                       r1 = r\<lparr>re_clients := hm_insert vkey (config\<lparr>rc_hosts := rc_hosts config @ [host1]\<rparr>) (re_clients r)\<rparr>
                   in persist_added env i (w\<lparr>wb_reg := r1\<rparr>)))))"

definition mutate_host_edit :: "web_env \<Rightarrow> params \<Rightarrow> Web \<Rightarrow> Ajax \<times> Web" where
  "mutate_host_edit env params w =
     (let i = param_id params ''id'' 0
      in case host_mutation_result i
                (\<lambda>config k.
                   let previous = rc_hosts config ! k;
                       updated = (fill_host_from_params params previous)\<lparr>ho_no_store := False\<rparr>
                   in if list_ex (\<lambda>item. ho_id item \<noteq> i \<and> ho_host item = ho_host updated
                                       \<and> ho_location item = ho_location updated) (rc_hosts config)
                      then (config, None)
                      else (config\<lparr>rc_hosts := (rc_hosts config)[k := updated]\<rparr>, Some (previous, updated)))
                (wb_reg w) of
           (None, r1) \<Rightarrow> (ajax 0 ''modified error'', w\<lparr>wb_reg := r1\<rparr>)
         | (Some _, r1) \<Rightarrow> persist_ajax env ''modified success'' (w\<lparr>wb_reg := r1\<rparr>))"

definition mutate_global_save :: "web_env \<Rightarrow> params \<Rightarrow> Web \<Rightarrow> Ajax \<times> Web" where
  "mutate_global_save env params w =
     (let r = wb_reg w;
          global = (re_global r)
            \<lparr>gc_server_url := param_any params [''serverUrl'', ''server_url''],
             gc_black_ip_list := param_lines (param_any params [''globalBlackIpList'', ''black_ip_list''])\<rparr>
      in persist_ajax env ''save success'' (w\<lparr>wb_reg := r\<lparr>re_global := global\<rparr>\<rparr>))"

section \<open>What runtime changes leave alone\<close>

text \<open>
  The configuration: clients, global settings and server settings.  Other threads may run
  while the console waits for a listener; all that is asked of them is that they do not
  change the configuration, which holds of a listener that ends.
\<close>

definition same_config :: "Registry \<Rightarrow> Registry \<Rightarrow> bool" where
  "same_config r r' \<longleftrightarrow> re_clients r' = re_clients r \<and> re_global r' = re_global r \<and> re_server r' = re_server r"

lemma same_config_refl [simp, intro]: "same_config r r"
  by (simp add: same_config_def)

lemma same_config_trans: "same_config a b \<Longrightarrow> same_config b c \<Longrightarrow> same_config a c"
  by (simp add: same_config_def)

lemma same_config_fold: "(\<And>x s. same_config s (f x s)) \<Longrightarrow> same_config s (fold f xs s)"
  by (induction xs arbitrary: s) (auto intro: same_config_trans)

lemma same_config_steps [intro]:
  "same_config r (start_tunnel_task md5_hex t r)"
  "same_config r (rebuild_secret_registry md5_hex r)"
  "same_config r (refresh_tunnel_runtime_registry md5_hex r)"
  "same_config r (terminate_client_connection vkey reason r)"
  "same_config r (clear_client_health_runtime_state vkey r)"
  "same_config r (clear_client_runtime_state vkey r)"
  "same_config r (sync_client_health_runtime_state vkey healths r)"
  "same_config r (rekey_client_runtime_state old new keep r)"
  "same_config r (disconnect_tunnel_live_conns i r)"
  "same_config r (snd (next_link_id r))"
  by (auto simp: same_config_def rebuild_secret_registry_def refresh_tunnel_runtime_registry_def
      terminate_client_connection_def clear_client_health_runtime_state_def clear_client_runtime_state_def
      sync_client_health_runtime_state_def rekey_client_runtime_state_def disconnect_tunnel_live_conns_def
      next_link_id_def queue_send_def Let_def split: option.splits)

lemma same_config_start_active [intro]: "same_config r (start_active_tunnels_for_client md5_hex config r)"
  by (auto simp: start_active_tunnels_for_client_def intro!: same_config_fold)

locale quiet_wait =
  fixes wait :: "Registry \<Rightarrow> Registry"
  assumes quiet: "same_config r (wait r)"
begin

lemma stop_tunnel_runtime_config: "same_config r (stop_tunnel_runtime wait t r)"
proof -
  define r1 where "r1 = (case hm_get (re_listener_shutdowns r) (tn_id t) of
       None \<Rightarrow> r
     | Some flag \<Rightarrow> r\<lparr>re_listener_shutdowns := hm_remove (tn_id t) (re_listener_shutdowns r),
                      re_flags := (re_flags r)[flag := True]\<rparr>)"
  have "same_config r r1" by (auto simp: r1_def same_config_def split: option.split)
  moreover have "same_config r1 (disconnect_tunnel_live_conns (tn_id t) r1)" by auto
  ultimately have two: "same_config r (disconnect_tunnel_live_conns (tn_id t) r1)"
    by (rule same_config_trans)
  then show ?thesis
    unfolding stop_tunnel_runtime_def Let_def r1_def [symmetric]
    by (auto intro: same_config_trans [OF _ quiet] split: option.split)
qed

lemma stop_tunnel_runtimes_config: "same_config r (stop_tunnel_runtimes wait ts r)"
  by (auto simp: stop_tunnel_runtimes_def intro!: same_config_fold stop_tunnel_runtime_config)

lemma runtime_change_config: "same_config r (apply_tunnel_runtime_change md5_hex wait previous current r)"
  by (auto simp: apply_tunnel_runtime_change_def Let_def split: option.split
      intro: same_config_trans stop_tunnel_runtime_config same_config_steps)

end

interpretation listener_end: quiet_wait "tunnel_task_end t" for t
  by unfold_locales (auto simp: same_config_def tunnel_task_end_def split: option.splits)

lemma persist_reg [simp]:
  "wb_reg (snd (persist_ajax env msg w)) = wb_reg w"
  "wb_reg (snd (persist_added env i w)) = wb_reg w"
  by (simp_all add: persist_ajax_def persist_added_def persist_registry_def case_prod_beta split: sum.split)

section \<open>What loops over clients change\<close>

lemma position_Some:
  assumes "position p xs = Some k"
  shows "k < length xs" "p (xs ! k)"
proof -
  have ex: "\<exists>x \<in> set xs. p x" and k: "k = length (takeWhile (\<lambda>x. \<not> p x) xs)"
    using assms by (auto simp: position_def list_ex_iff split: if_splits)
  show lt: "k < length xs"
    using ex k by (metis (no_types, lifting) length_takeWhile_le le_neq_implies_less set_takeWhileD takeWhile_eq_take take_all order_refl)
  show "p (xs ! k)"
    using nth_length_takeWhile [of "\<lambda>x. \<not> p x" xs] lt k by simp
qed

lemma update_first_get:
  assumes "update_first f m = Some (m', x)" "hm_ok m"
  shows "\<exists>k c c'. hm_get m k = Some c \<and> f c = Some (c', x)
     \<and> (\<forall>u. hm_get m' u = (if u = k then Some c' else hm_get m u))"
  using assms
proof (induction m arbitrary: m')
  case (Cons p m)
  obtain k c where p: "p = (k, c)" by fastforce
  show ?case
  proof (cases "f c")
    case None
    then obtain m1 where m1: "update_first f m = Some (m1, x)" "m' = (k, c) # m1"
      using Cons.prems by (auto simp: p)
    with Cons obtain l d d' where l: "hm_get m l = Some d" "f d = Some (d', x)"
      "\<forall>u. hm_get m1 u = (if u = l then Some d' else hm_get m u)"
      by (auto simp: p hm_ok_def)
    moreover have "l \<noteq> k" using l(1) Cons.prems(2) by (force simp: p hm_ok_def dest: map_of_SomeD)
    ultimately show ?thesis by (intro exI [of _ l] exI [of _ d] exI [of _ d']) (auto simp: p m1)
  next
    case (Some y)
    then obtain c' where "f c = Some (c', x)" "m' = (k, c') # m"
      using Cons.prems(1) by (auto simp: p split: prod.splits)
    then show ?thesis by (rule_tac x = k in exI, rule_tac x = c in exI, rule_tac x = c' in exI) (auto simp: p)
  qed
qed simp

text \<open>A registry in which only the client under \<open>v\<close> has changed, and that from \<open>c\<close> to \<open>c'\<close>.\<close>

definition changed_client :: "string \<Rightarrow> ClientRuntimeConfig \<Rightarrow> ClientRuntimeConfig \<Rightarrow> Registry \<Rightarrow> Registry \<Rightarrow> bool" where
  "changed_client v c c' r r' \<longleftrightarrow> client_of v r = Some c \<and> (\<forall>u. client_of u r' = (if u = v then Some c' else client_of u r))
     \<and> re_global r' = re_global r \<and> re_server r' = re_server r"

lemma changed_client_config: "changed_client v c c' r r1 \<Longrightarrow> same_config r1 r2 \<Longrightarrow> changed_client v c c' r r2"
  by (simp add: changed_client_def same_config_def)

lemma config_changed_client: "same_config r r1 \<Longrightarrow> changed_client v c c' r1 r2 \<Longrightarrow> changed_client v c c' r r2"
  by (simp add: changed_client_def same_config_def)

lemma with_tunnel_changes:
  assumes "with_tunnel i f r = Some (x, r')" "hm_ok (re_clients r)"
  shows "\<exists>v c k. k < length (rc_tunnels c) \<and> tn_id (rc_tunnels c ! k) = i \<and> x = snd (f c k)
     \<and> changed_client v c (fst (f c k)) r r'"
proof -
  obtain m where m: "update_first (\<lambda>config. map_option (f config) (position (\<lambda>t. tn_id t = i) (rc_tunnels config)))
        (re_clients r) = Some (m, x)" "r' = r\<lparr>re_clients := m\<rparr>"
    using assms(1) by (auto simp: with_tunnel_def)
  from update_first_get [OF m(1) assms(2)] obtain v c c' k where
    "client_of v r = Some c" "position (\<lambda>t. tn_id t = i) (rc_tunnels c) = Some k" "f c k = (c', x)"
    "\<forall>u. hm_get m u = (if u = v then Some c' else client_of u r)"
    by auto
  then show ?thesis
    using position_Some [of "\<lambda>t. tn_id t = i" "rc_tunnels c" k]
    by (intro exI [of _ v] exI [of _ c] exI [of _ k]) (auto simp: changed_client_def m(2))
qed

lemma host_mutation_changes:
  assumes "host_mutation_result i f r = (x, r')" "hm_ok (re_clients r)"
  shows "(x = None \<and> r' = r) \<or> (\<exists>v c k. k < length (rc_hosts c) \<and> ho_id (rc_hosts c ! k) = i \<and> x = snd (f c k)
     \<and> changed_client v c (fst (f c k)) r r')"
proof (cases "update_first (\<lambda>config. map_option (f config) (position (\<lambda>h. ho_id h = i) (rc_hosts config))) (re_clients r)")
  case None
  then show ?thesis using assms(1) by (simp add: host_mutation_result_def)
next
  case (Some y)
  obtain m z where y: "y = (m, z)" by fastforce
  have r': "z = x" "r' = r\<lparr>re_clients := m\<rparr>" using assms(1) Some y by (auto simp: host_mutation_result_def)
  from update_first_get [OF Some [unfolded y] assms(2)] obtain v c c' k where
    "client_of v r = Some c" "position (\<lambda>h. ho_id h = i) (rc_hosts c) = Some k" "f c k = (c', z)"
    "\<forall>u. hm_get m u = (if u = v then Some c' else client_of u r)"
    by auto
  then show ?thesis
    using position_Some [of "\<lambda>h. ho_id h = i" "rc_hosts c" k] r'
    by (intro disjI2 exI [of _ v] exI [of _ c] exI [of _ k]) (auto simp: changed_client_def)
qed

lemma client_vkey_by_id_Some:
  "client_vkey_by_id m i = Some v \<Longrightarrow> hm_ok m \<Longrightarrow> \<exists>c. hm_get m v = Some c \<and> rc_id c = i"
  by (auto simp: client_vkey_by_id_def find_Some_iff) (metis hm_ok_get nth_mem)

text \<open>Surroundings for examples.\<close>

definition demo_web_env :: web_env where
  "demo_web_env = \<lparr>we_codec = demo_codec, we_md5_hex = rev,
     we_net = \<lparr>ne_bindable = \<lambda>_ _ _. True, ne_ephemeral = \<lambda>_ _. Inr 5000\<rparr>,
     we_now_text = ''now'', we_wait = tunnel_task_end Tunnel_default\<rparr>"

end
