(* ===== verification/Console.thy ===== *)
theory Console
  imports Mutations
begin

text \<open>
  The web console: sessions, logins, captchas and registration (\<open>src/server.rs\<close>), and the
  request handlers of \<open>src/web.rs\<close> that authorise a change and carry it out.  A request
  carries its session cookie, if any; the rendering of pages is left out.  The token of a
  session or captcha is a digest of the time and the next id: the time as text is an
  argument.
\<close>

section \<open>Logins\<close>

definition client_login :: "string \<Rightarrow> string \<Rightarrow> ClientRuntimeConfig \<Rightarrow> WebSession option" where
  "client_login username password client =
     (let info = rc_info client
      in if \<not> ci_status info \<or> rc_no_display client then None
         else (let default_user_login = ci_web_username info = [] \<and> ci_web_password info = []
                     \<and> username = ''user'' \<and> password = rc_vkey client;
                   explicit_user_login = ci_web_username info \<noteq> [] \<and> ci_web_username info = username
                     \<and> ci_web_password info = password
               in if default_user_login \<or> explicit_user_login
                  then Some (WebSession_client (rc_id client) username) else None))"

fun find_map :: "('a \<Rightarrow> 'b option) \<Rightarrow> 'a list \<Rightarrow> 'b option" where
  "find_map f [] = None"
| "find_map f (x # xs) = (case f x of Some y \<Rightarrow> Some y | None \<Rightarrow> find_map f xs)"

definition authenticate_web_user :: "string \<Rightarrow> string \<Rightarrow> Registry \<Rightarrow> WebSession option" where
  "authenticate_web_user username password r =
     (if username = sc_web_username (re_server r) \<and> password = sc_web_password (re_server r)
      then Some (WebSession_admin username)
      else if \<not> sc_allow_user_login (re_server r) then None
      else find_map (client_login username password) (hm_values (re_clients r)))"

definition captcha_code_from_token :: "(string \<Rightarrow> string) \<Rightarrow> string \<Rightarrow> string" where
  "captcha_code_from_token md5_hex token = take 5 (to_ascii_uppercase (md5_hex token))"

definition issue_login_captcha :: "(string \<Rightarrow> string) \<Rightarrow> time \<Rightarrow> string \<Rightarrow> Registry \<Rightarrow> string option \<times> Registry" where
  "issue_login_captcha md5_hex now now_debug r =
     (case next_link_id r of
        (i, r1) \<Rightarrow>
          (let token = md5_hex (now_debug @ '':'' @ show_nat (unat i));
               entry = \<lparr>ce_code = captcha_code_from_token md5_hex token, ce_expires_at = now + secs 300\<rparr>
           in (Some token, r1\<lparr>re_captcha_store := hm_insert token entry (re_captcha_store r1)\<rparr>)))"

definition verify_login_captcha :: "time \<Rightarrow> string \<Rightarrow> string \<Rightarrow> Registry \<Rightarrow> bool \<times> Registry" where
  "verify_login_captcha now token answer r =
     (if \<not> sc_open_captcha (re_server r) then (True, r)
      else (let token = trim token; answer = trim answer
            in if token = [] \<or> answer = [] then (False, r)
               else (case hm_get (re_captcha_store r) token of
                       None \<Rightarrow> (False, r)
                     | Some entry \<Rightarrow>
                         (let r1 = r\<lparr>re_captcha_store := hm_remove token (re_captcha_store r)\<rparr>
                          in if ce_expires_at entry \<le> now then (False, r1)
                             else (eq_ignore_ascii_case (ce_code entry) answer, r1)))))"

definition authorize_web_login_ip :: "time \<Rightarrow> string \<Rightarrow> Registry \<Rightarrow> Registry" where
  "authorize_web_login_ip now remote r = authorize_ip now remote 2 r"

text \<open>The loop that looks for an unused key; it draws ids until it has found one.\<close>

partial_function (option) fresh_user_vkey :: "string \<Rightarrow> Registry \<Rightarrow> (string \<times> Registry) option" where
  "fresh_user_vkey vkey r =
     (if hm_contains (re_clients r) vkey
      then (case next_link_id r of (i, r') \<Rightarrow> fresh_user_vkey (''user'' @ show_nat (unat i)) r')
      else Some (vkey, r))"

declare fresh_user_vkey.simps [code]

definition register_web_user :: "web_env \<Rightarrow> params \<Rightarrow> Web \<Rightarrow> (Ajax \<times> Web) option" where
  "register_web_user env params w =
     (let r = wb_reg w; username = param params ''username''; password = param params ''password''
      in if \<not> sc_allow_user_register (re_server r) then Some (ajax 0 ''register is not allow'', w)
         else if username = [] \<or> password = [] \<or> username = sc_web_username (re_server r)
         then Some (ajax 0 ''please check your input'', w)
         else if username_taken username r
         then Some (ajax 0 ''web login username duplicate, please reset'', w)
         else (case next_link_id r of
                 (i, r1) \<Rightarrow>
                   (case fresh_user_vkey (''user'' @ show_nat (unat i)) r1 of
                      None \<Rightarrow> None
                    | Some (vkey, r2) \<Rightarrow>
                        (let config = rc_info_update
                               (\<lambda>info. info\<lparr>ci_status := True, ci_web_username := username,
                                           ci_web_password := password, ci_config_conn_allow := False\<rparr>)
                               (rc_vkey_update vkey ClientRuntimeConfig_default);
                             config = config\<lparr>rc_id := i, rc_no_store := False, rc_create_time := we_now_text env\<rparr>;
                             r3 = r2\<lparr>re_clients := hm_insert vkey config (re_clients r2)\<rparr>
                         in Some (persist_ajax env ''register success'' (w\<lparr>wb_reg := r3\<rparr>))))))"

section \<open>Sessions\<close>

definition current_session :: "Registry \<Rightarrow> string option \<Rightarrow> WebSession option" where
  "current_session r cookie =
     (if sc_web_username (re_server r) = [] then Some (WebSession_admin [])
      else (case cookie of None \<Rightarrow> None | Some token \<Rightarrow> hm_get (re_sessions r) token))"

text \<open>The answer to a login and the cookie it sets.\<close>

definition handle_login_verify ::
  "(string \<Rightarrow> string) \<Rightarrow> time \<Rightarrow> string \<Rightarrow> string \<Rightarrow> params \<Rightarrow> Registry \<Rightarrow> (Ajax \<times> string option) \<times> Registry" where
  "handle_login_verify md5_hex now now_debug remote_addr params r =
     (let username = param params ''username''; password = param params ''password'';
          (passed, r1) = (if sc_open_captcha (re_server r)
                          then verify_login_captcha now (param params ''captcha_token'') (param params ''captcha'') r
                          else (True, r))
      in if \<not> passed
         then ((ajax 0 ''the verification code is wrong, please get it again and try again'', None), r1)
         else (case authenticate_web_user username password r1 of
                 None \<Rightarrow> ((ajax 0 ''username or password incorrect'', None), r1)
               | Some session \<Rightarrow>
                   (let r2 = authorize_web_login_ip now remote_addr r1;
                        (i, r3) = next_link_id r2;
                        token = md5_hex (username @ '':'' @ password @ '':'' @ now_debug @ '':'' @ show_nat (unat i))
                    in ((ajax 1 ''login success'', Some token),
                        r3\<lparr>re_sessions := hm_insert token session (re_sessions r3)\<rparr>))))"

definition handle_logout :: "string option \<Rightarrow> Registry \<Rightarrow> Registry" where
  "handle_logout cookie r =
     (case cookie of None \<Rightarrow> r | Some token \<Rightarrow> r\<lparr>re_sessions := hm_remove token (re_sessions r)\<rparr>)"

definition scoped_client_id :: "WebSession \<Rightarrow> string option \<Rightarrow> string" where
  "scoped_client_id session requested =
     (if ws_is_admin session then (case requested of None \<Rightarrow> ''0'' | Some s \<Rightarrow> s)
      else show_nat (unat (case ws_client_id session of None \<Rightarrow> 0 | Some i \<Rightarrow> i)))"

definition scoped_params :: "WebSession \<Rightarrow> params \<Rightarrow> params" where
  "scoped_params session params =
     (if ws_is_admin session then params
      else (case ws_client_id session of
              None \<Rightarrow> params
            | Some client_id \<Rightarrow> hm_insert ''client_id'' (show_nat (unat client_id)) params))"

definition scope_client_id :: "WebSession \<Rightarrow> u64 option" where
  "scope_client_id session = (if ws_is_admin session then None else ws_client_id session)"

section \<open>Authorisation\<close>

definition tunnel_belongs_to_client :: "Registry \<Rightarrow> u64 \<Rightarrow> u64 \<Rightarrow> bool" where
  "tunnel_belongs_to_client r tunnel_id client_id =
     list_ex (\<lambda>c. rc_id c = client_id \<and> list_ex (\<lambda>t. tn_id t = tunnel_id) (rc_tunnels c)) (hm_values (re_clients r))"

definition host_belongs_to_client :: "Registry \<Rightarrow> u64 \<Rightarrow> u64 \<Rightarrow> bool" where
  "host_belongs_to_client r host_id client_id =
     list_ex (\<lambda>c. rc_id c = client_id \<and> list_ex (\<lambda>h. ho_id h = host_id) (rc_hosts c)) (hm_values (re_clients r))"

text \<open>\<open>StatusCode\<close> as its number: 403 is \<open>FORBIDDEN\<close>, 401 is \<open>UNAUTHORIZED\<close>.\<close>

definition authorize_form :: "Registry \<Rightarrow> WebSession \<Rightarrow> string \<Rightarrow> u64 \<Rightarrow> nat + unit" where
  "authorize_form r session action i =
     (if ws_is_admin session then Inr ()
      else (case ws_client_id session of
              None \<Rightarrow> Inl 403
            | Some client_id \<Rightarrow>
                if action = ''/client/add'' then Inl 403
                else if action = ''/client/edit'' then (if i = client_id then Inr () else Inl 403)
                else if action = ''/index/add'' \<or> action = ''/index/addhost'' then Inr ()
                else if action = ''/index/edit''
                then (if tunnel_belongs_to_client r i client_id then Inr () else Inl 403)
                else if action = ''/index/edithost''
                then (if host_belongs_to_client r i client_id then Inr () else Inl 403)
                else Inr ()))"

definition permission_denied :: "string + params" where
  "permission_denied = Inl ''permission denied''"

definition authorize_mutation :: "Registry \<Rightarrow> WebSession \<Rightarrow> string \<Rightarrow> params \<Rightarrow> string + params" where
  "authorize_mutation r session path params =
     (if ws_is_admin session then Inr params
      else (case ws_client_id session of
              None \<Rightarrow> permission_denied
            | Some client_id \<Rightarrow>
                let i = param_id params ''id'' 0;
                    own = Inr (hm_insert ''client_id'' (show_nat (unat client_id)) params)
                in if path \<in> {''/client/add'', ''/client/del'', ''/client/changestatus'', ''/global/save''}
                   then permission_denied
                   else if path = ''/client/edit''
                   then (if i \<noteq> client_id then permission_denied
                         else (let p1 = hm_remove ''vkey'' params
                               in Inr (if sc_allow_user_change_username (re_server r) then p1
                                       else hm_remove ''web_username'' p1)))
                   else if path \<in> {''/index/add'', ''/index/addhost''} then own
                   else if path \<in> {''/index/stop'', ''/index/start'', ''/index/del'', ''/index/copy'', ''/index/edit''}
                   then (if tunnel_belongs_to_client r i client_id then own else permission_denied)
                   else if path \<in> {''/index/hoststop'', ''/index/hoststart'', ''/index/delhost'', ''/index/edithost''}
                   then (if host_belongs_to_client r i client_id then own else permission_denied)
                   else Inr params))"

section \<open>Changes\<close>

definition dispatch_mutation :: "web_env \<Rightarrow> string \<Rightarrow> params \<Rightarrow> Web \<Rightarrow> Ajax \<times> Web" where
  "dispatch_mutation env path p w =
     (if path = ''/client/changestatus'' then mutate_client_status env p w
      else if path = ''/client/del'' then mutate_client_delete env p w
      else if path = ''/client/add'' then mutate_client_add env p w
      else if path = ''/client/edit'' then mutate_client_edit env p w
      else if path = ''/index/stop'' then mutate_tunnel_status env p False w
      else if path = ''/index/start'' then mutate_tunnel_status env p True w
      else if path = ''/index/del'' then mutate_tunnel_delete env p w
      else if path = ''/index/copy'' then mutate_tunnel_copy env p w
      else if path = ''/index/add'' then mutate_tunnel_add env p w
      else if path = ''/index/edit'' then mutate_tunnel_edit env p w
      else if path = ''/index/hoststop'' then mutate_host_status env p True w
      else if path = ''/index/hoststart'' then mutate_host_status env p False w
      else if path = ''/index/delhost'' then mutate_host_delete env p w
      else if path = ''/index/addhost'' then mutate_host_add env p w
      else if path = ''/index/edithost'' then mutate_host_edit env p w
      else if path = ''/global/save'' then mutate_global_save env p w
      else (ajax 0 ''unsupported'', w))"

definition clean_path :: "string \<Rightarrow> string \<Rightarrow> string" where
  "clean_path base path = (if base \<noteq> [] \<and> prefix base path then drop (length base) path else path)"

definition handle_post_mutation ::
  "web_env \<Rightarrow> string option \<Rightarrow> string \<Rightarrow> params \<Rightarrow> Web \<Rightarrow> (nat + Ajax) \<times> Web" where
  "handle_post_mutation env cookie path params w =
     (let r = wb_reg w
      in case current_session r cookie of
           None \<Rightarrow> (Inl 401, w)
         | Some session \<Rightarrow>
             (let path = clean_path (sc_web_base_url (re_server r)) path
              in case authorize_mutation r session path params of
                   Inl message \<Rightarrow> (Inr (ajax 0 message), w)
                 | Inr p \<Rightarrow> (case dispatch_mutation env path p w of (res, w') \<Rightarrow> (Inr res, w'))))"

section \<open>The effect of each change on the configuration\<close>

text \<open>The part of a client that its own user cannot change.\<close>

definition same_owner :: "ClientRuntimeConfig \<Rightarrow> ClientRuntimeConfig \<Rightarrow> bool" where
  "same_owner c c' \<longleftrightarrow> rc_id c' = rc_id c \<and> ci_status (rc_info c') = ci_status (rc_info c)"

text \<open>A change touches nothing, or exactly one client that satisfies \<open>P\<close>.\<close>

definition touches :: "(ClientRuntimeConfig \<Rightarrow> bool) \<Rightarrow> Registry \<Rightarrow> Registry \<Rightarrow> bool" where
  "touches P r r' \<longleftrightarrow> same_config r r' \<or> (\<exists>v c c'. changed_client v c c' r r' \<and> P c \<and> same_owner c c')"

lemma touches_same: "same_config r r' \<Longrightarrow> touches P r r'"
  by (simp add: touches_def)

lemma touches_refl [simp]: "touches P r r"
  by (simp add: touches_def)

lemma touches_one: "changed_client v c c' r r1 \<Longrightarrow> P c \<Longrightarrow> same_owner c c' \<Longrightarrow> same_config r1 r' \<Longrightarrow> touches P r r'"
  unfolding touches_def using changed_client_config by blast

definition has_tunnel :: "u64 \<Rightarrow> ClientRuntimeConfig \<Rightarrow> bool" where
  "has_tunnel i c \<longleftrightarrow> (\<exists>t \<in> set (rc_tunnels c). tn_id t = i)"

definition has_host :: "u64 \<Rightarrow> ClientRuntimeConfig \<Rightarrow> bool" where
  "has_host i c \<longleftrightarrow> (\<exists>h \<in> set (rc_hosts c). ho_id h = i)"

lemma has_tunnelI: "k < length (rc_tunnels c) \<Longrightarrow> tn_id (rc_tunnels c ! k) = i \<Longrightarrow> has_tunnel i c"
  by (auto simp: has_tunnel_def)

lemma has_hostI: "k < length (rc_hosts c) \<Longrightarrow> ho_id (rc_hosts c ! k) = i \<Longrightarrow> has_host i c"
  by (auto simp: has_host_def)

lemma with_tunnel_touches:
  assumes "with_tunnel i f r = Some (x, r1)" "hm_ok (re_clients r)" "\<And>c k. same_owner c (fst (f c k))" "same_config r1 r'"
  shows "touches (has_tunnel i) r r'"
proof -
  obtain v c k where "k < length (rc_tunnels c)" "tn_id (rc_tunnels c ! k) = i" "changed_client v c (fst (f c k)) r r1"
    using with_tunnel_changes [OF assms(1,2)] by blast
  then show ?thesis using assms(3,4) by (blast intro: touches_one has_tunnelI)
qed

lemma host_mutation_touches:
  assumes "host_mutation_result i f r = (x, r1)" "hm_ok (re_clients r)" "\<And>c k. same_owner c (fst (f c k))"
  shows "touches (has_host i) r r1"
  using host_mutation_changes [OF assms(1,2)] assms(3)
  by (auto intro: touches_same touches_one has_hostI)

context quiet_wait
begin

lemma then_refresh:
  "same_config r (refresh_tunnel_runtime_registry m (apply_tunnel_runtime_change md5_hex wait previous current r))"
  by (blast intro: same_config_trans runtime_change_config same_config_steps)

end

lemmas then_refresh_env = quiet_wait.then_refresh

lemma edit_tunnel_owner: "same_owner c (fst (edit_tunnel_at env server p c k))"
  by (auto simp: edit_tunnel_at_def Let_def same_owner_def split: sum.split)

lemma copied_owner: "same_owner c (fst (copied env server i c k))"
  by (auto simp: copied_def Let_def same_owner_def split: sum.split)

lemma copied_unchanged: "snd (copied env server i c k) = Inl e \<Longrightarrow> fst (copied env server i c k) = c"
  by (auto simp: copied_def Let_def split: sum.splits)

context quiet_wait
begin

lemma tunnel_mutations_touch:
  fixes p env w status
  assumes "we_wait env = wait" "hm_ok (re_clients (wb_reg w))"
  defines "touch \<equiv> \<lambda>w'. touches (has_tunnel (param_id p ''id'' 0)) (wb_reg w) (wb_reg w')"
  shows "touch (snd (mutate_tunnel_status env p status w))" "touch (snd (mutate_tunnel_delete env p w))"
    "touch (snd (mutate_tunnel_edit env p w))" "touch (snd (mutate_tunnel_copy env p w))"
proof -
  note [intro] = with_tunnel_touches [OF _ assms(2)] then_refresh edit_tunnel_owner
  show "touch (snd (mutate_tunnel_status env p status w))"
    unfolding touch_def mutate_tunnel_status_def Let_def assms(1)
    by (auto simp: same_owner_def split: option.split)
  show "touch (snd (mutate_tunnel_delete env p w))"
    unfolding touch_def mutate_tunnel_delete_def Let_def assms(1)
    by (auto simp: same_owner_def split: option.split)
  show "touch (snd (mutate_tunnel_edit env p w))"
    unfolding touch_def mutate_tunnel_edit_def Let_def assms(1)
    by (auto split: option.split sum.split)
  let ?r = "wb_reg w"
  let ?f = "copied env (re_server ?r) (fst (next_link_id ?r))"
  show "touch (snd (mutate_tunnel_copy env p w))"
  proof (cases "with_tunnel (param_id p ''id'' 0) ?f ?r")
    case None
    then show ?thesis by (simp add: touch_def mutate_tunnel_copy_def Let_def case_prod_beta)
  next
    case (Some y)
    obtain x r1 where y: "y = (x, r1)" by fastforce
    show ?thesis
    proof (cases x)
      case (Inl e)
      then have "wb_reg (snd (mutate_tunnel_copy env p w)) = ?r \<or> wb_reg (snd (mutate_tunnel_copy env p w)) = snd (next_link_id ?r)"
        using Some y by (auto simp: mutate_tunnel_copy_def Let_def case_prod_beta)
      then show ?thesis by (auto simp: touch_def intro!: touches_same same_config_steps)
    next
      case (Inr t)
      have s: "same_config r1 (r1\<lparr>re_seq := q\<rparr>)" for q by (simp add: same_config_def)
      show ?thesis
        using with_tunnel_touches [OF Some [unfolded y] assms(2) copied_owner same_config_trans [OF s then_refresh]]
          Some y Inr
        by (simp add: touch_def mutate_tunnel_copy_def Let_def case_prod_beta assms(1))
    qed
  qed
qed

end

lemma host_mutations_touch:
  fixes p env w
  assumes "hm_ok (re_clients (wb_reg w))"
  defines "touch \<equiv> \<lambda>w'. touches (has_host (param_id p ''id'' 0)) (wb_reg w) (wb_reg w')"
  shows "touch (snd (mutate_host_status env p is_close w))" "touch (snd (mutate_host_delete env p w))"
    "touch (snd (mutate_host_edit env p w))"
proof -
  note [intro] = host_mutation_touches [OF _ assms(1)]
  show "touch (snd (mutate_host_status env p is_close w))"
    unfolding touch_def mutate_host_status_def Let_def
    by (auto simp: same_owner_def split: option.split prod.split)
  show "touch (snd (mutate_host_delete env p w))"
    unfolding touch_def mutate_host_delete_def Let_def
    by (auto simp: same_owner_def split: option.split prod.split)
  show "touch (snd (mutate_host_edit env p w))"
    unfolding touch_def mutate_host_edit_def Let_def
    by (auto simp: same_owner_def split: option.split prod.split)
qed

lemma changed_client_insert:
  "client_of v r = Some c \<Longrightarrow> changed_client v c c' r (r\<lparr>re_clients := hm_insert v c' (re_clients r)\<rparr>)"
  "client_of v r = Some c \<Longrightarrow> changed_client v c c' r (r\<lparr>re_clients := hm_insert v c' (hm_remove v (re_clients r))\<rparr>)"
  by (auto simp: changed_client_def hm_simps)

lemma touches_config: "same_config r r1 \<Longrightarrow> touches P r1 r2 \<Longrightarrow> touches P r r2"
  unfolding touches_def using same_config_trans config_changed_client by blast

lemma host_add_touches:
  assumes "hm_ok (re_clients (wb_reg w))"
  shows "touches (\<lambda>c. rc_id c = param_id p ''client_id'' 1) (wb_reg w) (wb_reg (snd (mutate_host_add env p w)))"
proof -
  let ?r = "snd (next_link_id (wb_reg w))" and ?P = "\<lambda>c. rc_id c = param_id p ''client_id'' 1"
  have ok: "hm_ok (re_clients ?r)" using assms by (simp add: next_link_id_def)
  have "touches ?P ?r (?r\<lparr>re_clients := hm_insert v (c\<lparr>rc_hosts := hs\<rparr>) (re_clients ?r)\<rparr>)"
    if "client_vkey_by_id (re_clients ?r) (param_id p ''client_id'' 1) = Some v" "client_of v ?r = Some c" for v c hs
    using client_vkey_by_id_Some [OF that(1) ok] that(2)
    by (intro touches_one [OF changed_client_insert(1) [OF that(2), of "c\<lparr>rc_hosts := hs\<rparr>"]]) (auto simp: same_owner_def)
  then have "touches ?P ?r (wb_reg (snd (mutate_host_add env p w)))"
    by (auto simp: mutate_host_add_def Let_def case_prod_beta split: option.split sum.split)
  then show ?thesis by (rule touches_config [rotated]) auto
qed

context quiet_wait
begin

lemma tunnel_add_touches:
  assumes "we_wait env = wait" "hm_ok (re_clients (wb_reg w))"
  shows "touches (\<lambda>c. rc_id c = param_id p ''client_id'' 1) (wb_reg w) (wb_reg (snd (mutate_tunnel_add env p w)))"
proof -
  let ?r = "snd (next_link_id (wb_reg w))" and ?P = "\<lambda>c. rc_id c = param_id p ''client_id'' 1"
  have ok: "hm_ok (re_clients ?r)" using assms by (simp add: next_link_id_def)
  have "touches ?P ?r (refresh_tunnel_runtime_registry m (apply_tunnel_runtime_change md5_hex wait a b
          (?r\<lparr>re_clients := hm_insert v (c\<lparr>rc_tunnels := ts\<rparr>) (re_clients ?r)\<rparr>)))"
    if "client_vkey_by_id (re_clients ?r) (param_id p ''client_id'' 1) = Some v" "client_of v ?r = Some c"
    for v c ts m md5_hex a b
    using client_vkey_by_id_Some [OF that(1) ok] that(2)
    by (intro touches_one [OF changed_client_insert(1) [OF that(2), of "c\<lparr>rc_tunnels := ts\<rparr>"]] then_refresh)
      (auto simp: same_owner_def)
  then have "touches ?P ?r (wb_reg (snd (mutate_tunnel_add env p w)))"
    by (auto simp: mutate_tunnel_add_def Let_def case_prod_beta assms(1) split: option.split sum.split)
  then show ?thesis by (rule touches_config [rotated]) auto
qed

text \<open>An edit that does not name a new key keeps the key, the id and the status.\<close>

lemma edited_client_owner: "same_owner c (edited_client p v c)"
  by (auto simp: same_owner_def edited_client_def rc_info_update_def rc_vkey_update_def apply_client_form_def Let_def
      split: option.split)

lemma client_edit_touches:
  assumes "we_wait env = wait" "hm_ok (re_clients (wb_reg w))" "param p ''vkey'' = []"
  shows "touches (\<lambda>c. rc_id c = param_id p ''id'' 0) (wb_reg w) (wb_reg (snd (mutate_client_edit env p w)))"
proof (cases "client_vkey_by_id (re_clients (wb_reg w)) (param_id p ''id'' 0)")
  case None
  then show ?thesis by (simp add: mutate_client_edit_def Let_def)
next
  case (Some v)
  let ?r = "wb_reg w"
  obtain c where c: "client_of v ?r = Some c" "rc_id c = param_id p ''id'' 0"
    using client_vkey_by_id_Some [OF Some assms(2)] by blast
  let ?d = "edited_client p v c"
  let ?r2 = "?r\<lparr>re_clients := hm_insert v ?d (hm_remove v (re_clients ?r))\<rparr>"
  have same: "ci_status (rc_info ?d) = ci_status (rc_info c)"
    using edited_client_owner [of c p v] by (simp add: same_owner_def)
  have "touches (\<lambda>c. rc_id c = param_id p ''id'' 0) ?r
      (rebuild_secret_registry (we_md5_hex env) (sync_client_health_runtime_state v (rc_healths ?d) ?r2))"
    using c
    by (intro touches_one [OF changed_client_insert(2) [OF c(1), of ?d]] edited_client_owner)
      (auto intro: same_config_trans same_config_steps)
  then show ?thesis
    using Some c same by (auto simp: mutate_client_edit_def Let_def assms(3) rekey_client_runtime_state_def)
qed

end

section \<open>Isolation of users\<close>

text \<open>No two clients share an id, and no tunnel id or host id belongs to two clients.\<close>

definition ids_unique :: "Registry \<Rightarrow> bool" where
  "ids_unique r \<longleftrightarrow> hm_ok (re_clients r) \<and> (\<forall>v c v' c'. client_of v r = Some c \<and> client_of v' r = Some c' \<longrightarrow>
     v = v' \<or> rc_id c \<noteq> rc_id c' \<and> (\<forall>i. \<not> (has_tunnel i c \<and> has_tunnel i c')) \<and> (\<forall>i. \<not> (has_host i c \<and> has_host i c')))"

lemma tunnel_owner:
  assumes "ids_unique r" "tunnel_belongs_to_client r i cid" "client_of v r = Some c" "has_tunnel i c"
  shows "rc_id c = cid"
proof -
  obtain d where d: "d \<in> set (hm_values (re_clients r))" "rc_id d = cid" "has_tunnel i d"
    using assms(2) by (auto simp: tunnel_belongs_to_client_def list_ex_iff has_tunnel_def)
  then obtain u where "client_of u r = Some d"
    using hm_values_get assms(1) by (metis ids_unique_def)
  with assms d show ?thesis unfolding ids_unique_def by (metis option.inject)
qed

lemma host_owner:
  assumes "ids_unique r" "host_belongs_to_client r i cid" "client_of v r = Some c" "has_host i c"
  shows "rc_id c = cid"
proof -
  obtain d where d: "d \<in> set (hm_values (re_clients r))" "rc_id d = cid" "has_host i d"
    using assms(2) by (auto simp: host_belongs_to_client_def list_ex_iff has_host_def)
  then obtain u where "client_of u r = Some d"
    using hm_values_get assms(1) by (metis ids_unique_def)
  with assms d show ?thesis unfolding ids_unique_def by (metis option.inject)
qed

lemma touches_weaken:
  "touches P r r' \<Longrightarrow> (\<And>v c. client_of v r = Some c \<Longrightarrow> P c \<Longrightarrow> Q c) \<Longrightarrow> touches Q r r'"
  unfolding touches_def changed_client_def by blast

lemma param_scoped [simp]:
  "param_id (hm_insert ''client_id'' (show_nat (unat cid)) p) ''id'' d = param_id p ''id'' d"
  "param_id (hm_insert ''client_id'' (show_nat (unat cid)) p) ''client_id'' d = cid"
  by (simp_all add: param_id_def param_def hm_simps)

lemma param_id_remove [simp]:
  "k \<noteq> key \<Longrightarrow> param_id (hm_remove k p) key d = param_id p key d" "param (hm_remove k p) k = []"
  "param (hm_remove k p) key = (if k = key then [] else param p key)"
  by (simp_all add: param_id_def param_def hm_simps)

context quiet_wait
begin

text \<open>What an authorised change of a user touches.\<close>

lemma authorized_touches:
  assumes env: "we_wait env = wait" and ids: "ids_unique (wb_reg w)"
    and user: "\<not> ws_is_admin session" "ws_client_id session = Some cid"
    and auth: "authorize_mutation (wb_reg w) session path params = Inr p"
  shows "touches (\<lambda>c. rc_id c = cid) (wb_reg w) (wb_reg (snd (dispatch_mutation env path p w)))"
proof -
  let ?r = "wb_reg w" and ?own = "hm_insert ''client_id'' (show_nat (unat cid)) params"
  have ok: "hm_ok (re_clients ?r)" using ids by (simp add: ids_unique_def)
  consider (edit) "path = ''/client/edit''" | (add) "path \<in> {''/index/add'', ''/index/addhost''}"
    | (tunnel) "path \<in> {''/index/stop'', ''/index/start'', ''/index/del'', ''/index/copy'', ''/index/edit''}"
    | (host) "path \<in> {''/index/hoststop'', ''/index/hoststart'', ''/index/delhost'', ''/index/edithost''}"
    | (admin) "path \<in> {''/client/add'', ''/client/del'', ''/client/changestatus'', ''/global/save''}"
    | (other) "path \<noteq> ''/client/edit''" "path \<notin> {''/index/add'', ''/index/addhost''}"
      "path \<notin> {''/index/stop'', ''/index/start'', ''/index/del'', ''/index/copy'', ''/index/edit''}"
      "path \<notin> {''/index/hoststop'', ''/index/hoststart'', ''/index/delhost'', ''/index/edithost''}"
      "path \<notin> {''/client/add'', ''/client/del'', ''/client/changestatus'', ''/global/save''}"
    by argo
  then show ?thesis
    supply dispatch_mutation_def [simp]
  proof cases
    case edit
    then have p: "param p ''vkey'' = []" "param_id p ''id'' 0 = cid"
      using auth user by (auto simp: authorize_mutation_def permission_denied_def Let_def split: if_splits)
    show ?thesis using client_edit_touches [OF env ok p(1)] p(2) edit by simp
  next
    case add
    then have "p = ?own" using auth user by (auto simp: authorize_mutation_def)
    then show ?thesis using add tunnel_add_touches [OF env ok, of ?own] host_add_touches [OF ok, of ?own env] by auto
  next
    case tunnel
    then have p: "p = ?own" "tunnel_belongs_to_client ?r (param_id params ''id'' 0) cid"
      using auth user by (auto simp: authorize_mutation_def permission_denied_def Let_def split: if_splits)
    have "touches (has_tunnel (param_id params ''id'' 0)) ?r (wb_reg (snd (dispatch_mutation env path p w)))"
      using tunnel tunnel_mutations_touch [OF env ok, of ?own] p(1) by auto
    then show ?thesis by (rule touches_weaken) (rule tunnel_owner [OF ids p(2)])
  next
    case host
    then have p: "p = ?own" "host_belongs_to_client ?r (param_id params ''id'' 0) cid"
      using auth user by (auto simp: authorize_mutation_def permission_denied_def Let_def split: if_splits)
    have "touches (has_host (param_id params ''id'' 0)) ?r (wb_reg (snd (dispatch_mutation env path p w)))"
      using host host_mutations_touch [OF ok, of ?own env] p(1) by auto
    then show ?thesis by (rule touches_weaken) (rule host_owner [OF ids p(2)])
  next
    case admin
    then show ?thesis using auth user by (auto simp: authorize_mutation_def permission_denied_def Let_def)
  next
    case other
    then show ?thesis by simp
  qed
qed

end

section \<open>Properties\<close>

text \<open>
  C7: Users are isolated from each other.  Where ids are unique, no request of a user's
  session, to whatever path and with whatever parameters, changes the global settings or
  the configuration of any client but the user's own, adds or removes a client, or
  changes the id of the own client or whether it is enabled.
\<close>

theorem tenant_isolation:
  assumes "quiet_wait (we_wait env)" "ids_unique (wb_reg w)"
    and "current_session (wb_reg w) cookie = Some session" "\<not> ws_is_admin session"
    and "handle_post_mutation env cookie path params w = (res, w')"
  shows "re_global (wb_reg w') = re_global (wb_reg w)
     \<and> (\<forall>v. case client_of v (wb_reg w) of
            None \<Rightarrow> client_of v (wb_reg w') = None
          | Some c \<Rightarrow>
              if ws_client_id session = Some (rc_id c)
              then \<exists>c'. client_of v (wb_reg w') = Some c' \<and> rc_id c' = rc_id c
                     \<and> ci_status (rc_info c') = ci_status (rc_info c)
              else client_of v (wb_reg w') = Some c)"
proof -
  let ?path = "clean_path (sc_web_base_url (re_server (wb_reg w))) path"
  have "touches (\<lambda>c. ws_client_id session = Some (rc_id c)) (wb_reg w) (wb_reg w')"
  proof (cases "authorize_mutation (wb_reg w) session ?path params")
    case (Inl message)
    then show ?thesis using assms(3,5) by (auto simp: handle_post_mutation_def Let_def)
  next
    case (Inr p)
    then obtain cid where cid: "ws_client_id session = Some cid"
      using assms(4) by (auto simp: authorize_mutation_def permission_denied_def split: option.splits)
    have "wb_reg w' = wb_reg (snd (dispatch_mutation env ?path p w))"
      using assms(3,5) Inr by (auto simp: handle_post_mutation_def Let_def split: prod.splits)
    then show ?thesis
      using quiet_wait.authorized_touches [OF assms(1) refl assms(2,4) cid Inr] cid by (simp add: eq_commute [of cid])
  qed
  then show ?thesis
    by (auto simp: touches_def same_config_def changed_client_def same_owner_def split: option.split)
qed

definition demo_user :: "string \<Rightarrow> u64 \<Rightarrow> u64 \<Rightarrow> ClientRuntimeConfig" where
  "demo_user vkey i tunnel_id = (rc_info_update (\<lambda>info. info\<lparr>ci_flow_limit_mb := 5, ci_max_conn := 3\<rparr>)
       (rc_vkey_update vkey ClientRuntimeConfig_default))
     \<lparr>rc_id := i, rc_tunnels := [Tunnel_default\<lparr>tn_id := tunnel_id, tn_client_vkey := vkey\<rparr>]\<rparr>"

text \<open>Two clients; the user of client 2 is logged in.  The ids of the two tunnels are given.\<close>

definition demo_web :: "u64 \<Rightarrow> u64 \<Rightarrow> Web" where
  "demo_web s t = \<lparr>wb_reg = (Registry_new ServerConfig_default)
       \<lparr>re_clients := [(''a'', demo_user ''a'' 1 s), (''b'', demo_user ''b'' 2 t)],
        re_sessions := [(''cookie'', WebSession_client 2 ''user'')]\<rparr>,
     wb_files = \<lambda>_. None\<rparr>"

lemma demo_web_unique: "s \<noteq> t \<Longrightarrow> ids_unique (wb_reg (demo_web s t))"
  by (auto simp: ids_unique_def demo_web_def demo_user_def hm_ok_def has_tunnel_def has_host_def rc_info_update_def
      rc_vkey_update_def ClientRuntimeConfig_default_def split: if_splits)

theorem tenant_isolation_witness:
  "client_of ''a'' (wb_reg (snd (handle_post_mutation demo_web_env (Some ''cookie'') ''/index/del'' [(''id'', ''7'')] (demo_web 6 7))))
     = Some (demo_user ''a'' 1 6)"
proof -
  let ?w = "demo_web 6 7"
  let ?h = "handle_post_mutation demo_web_env (Some ''cookie'') ''/index/del'' [(''id'', ''7'')] ?w"
  have quiet: "quiet_wait (we_wait demo_web_env)"
    by (simp add: demo_web_env_def listener_end.quiet_wait_axioms)
  have s: "current_session (wb_reg ?w) (Some ''cookie'') = Some (WebSession_client 2 ''user'')"
    "client_of ''a'' (wb_reg ?w) = Some (demo_user ''a'' 1 6)" "rc_id (demo_user ''a'' 1 6) = 1"
    by code_simp+
  have u: "\<not> ws_is_admin (WebSession_client 2 ''user'')" "ws_client_id (WebSession_client 2 ''user'') = Some 2"
    by (simp_all add: WebSession_client_def)
  have "?h = (fst ?h, snd ?h)" by simp
  from tenant_isolation [OF quiet demo_web_unique s(1) u(1) this] show ?thesis
    using s(2,3) u(2) by (auto split: option.splits)
qed

text \<open>
  Shared tunnel ids break the isolation.  Tunnels that come from configuration files
  are numbered from 1 in every file, so two clients can both have a tunnel 1.  Then the
  user of client \<open>b\<close> deletes the tunnel of client \<open>a\<close>, because the deletion takes the first
  tunnel with this id.
\<close>

lemma shared_ids_break_isolation:
  "let w' = snd (handle_post_mutation demo_web_env (Some ''cookie'') ''/index/del'' [(''id'', ''1'')] (demo_web 1 1))
   in map_option rc_tunnels (client_of ''a'' (wb_reg w')) = Some []
      \<and> map_option (length \<circ> rc_tunnels) (client_of ''b'' (wb_reg w')) = Some 1"
  by code_simp

text \<open>
  A user lifts the limits the administrator has set.  The form for users has no fields
  for the limits; a save of this form sets every absent limit to zero, which means no
  limit.
\<close>

lemma user_edit_lifts_limits:
  "let w = demo_web 6 7;
       w' = snd (handle_post_mutation demo_web_env (Some ''cookie'') ''/client/edit'' [(''id'', ''2''), (''remark'', ''mine'')] w);
       limits = (\<lambda>w. map_option (\<lambda>c. (ci_flow_limit_mb (rc_info c), ci_max_conn (rc_info c))) (client_of ''b'' (wb_reg w)))
   in limits w = Some (5, 3) \<and> limits w' = Some (0, 0)"
  by code_simp

end
