(* ===== verification/Logins.thy ===== *)
theory Logins
  imports Console
begin

text \<open>
  Theorems on the logins of the web console and on what its changes leave behind: who
  gets a session, how captchas behave, that registration finds a free key, that a
  deleted client leaves nothing, and that every reported success is on disk.
\<close>

section \<open>Facts\<close>

lemma find_map_Some: "find_map f xs = Some y \<Longrightarrow> \<exists>x \<in> set xs. f x = Some y"
  by (induction xs) (auto split: option.splits)

lemma show_nat_inj: "show_nat m = show_nat n \<Longrightarrow> m = n"
  using parse_digits_show_nat by (metis option.inject)

definition user_key :: "u64 \<Rightarrow> string" where
  "user_key i = ''user'' @ show_nat (unat i)"

lemma user_key_inj: "user_key i = user_key j \<Longrightarrow> i = j"
  by (auto simp: user_key_def word_unat_eq_iff dest: show_nat_inj)

text \<open>The search for a key returns as soon as one of the coming keys is free.\<close>

lemma fresh_user_vkey_returns:
  assumes "\<not> hm_contains (re_clients r) (user_key (i + of_nat d))" "re_seq r = i + 1"
  shows "\<exists>v q. fresh_user_vkey (user_key i) r = Some (v, r\<lparr>re_seq := q\<rparr>) \<and> \<not> hm_contains (re_clients r) v"
  using assms
proof (induction d arbitrary: i r)
  case 0
  then show ?case
    by (subst fresh_user_vkey.simps) (auto intro: exI [of _ "re_seq r"])
next
  case (Suc d)
  show ?case
  proof (cases "hm_contains (re_clients r) (user_key i)")
    case True
    let ?r = "r\<lparr>re_seq := re_seq r + 1\<rparr>"
    have "\<exists>v q. fresh_user_vkey (user_key (re_seq r)) ?r = Some (v, ?r\<lparr>re_seq := q\<rparr>)
        \<and> \<not> hm_contains (re_clients ?r) v"
      using Suc.prems by (intro Suc.IH) (auto simp: algebra_simps)
    with True show ?thesis
      by (subst fresh_user_vkey.simps) (auto simp: next_link_id_def user_key_def)
  next
    case False
    then show ?thesis
      by (subst fresh_user_vkey.simps) (auto intro: exI [of _ "re_seq r"])
  qed
qed

text \<open>Among more keys than there are clients one is free.\<close>

lemma some_user_key_free:
  assumes "length clients < 2 ^ 64"
  shows "\<exists>d. \<not> hm_contains clients (user_key (i + of_nat d))"
proof (rule ccontr)
  assume "\<nexists>d. \<not> hm_contains clients (user_key (i + of_nat d))"
  then have sub: "(\<lambda>d. user_key (i + of_nat d)) ` {..length clients} \<subseteq> set (map fst clients)"
    by (auto simp: hm_contains_iff hm_keys_def)
  have "inj_on (\<lambda>d. user_key (i + of_nat d)) {..length clients}"
  proof (rule inj_onI)
    fix x y
    assume "x \<in> {..length clients}" "y \<in> {..length clients}" "user_key (i + of_nat x) = user_key (i + of_nat y)"
    then have "(of_nat x :: u64) = of_nat y" and "x < 2 ^ 64" "y < 2 ^ 64"
      using assms by (auto dest: user_key_inj)
    then show "x = y"
      by (simp add: word_of_nat_eq_iff take_bit_nat_eq_self)
  qed
  then have "length clients + 1 \<le> card (set (map fst clients))"
    using card_mono [OF _ sub] by (simp add: card_image)
  also have "\<dots> \<le> length clients"
    using card_length [of "map fst clients"] by simp
  finally show False by simp
qed

text \<open>A saved state: the directory is what \<open>save_all\<close> made of the registry.\<close>

definition saved :: "web_env \<Rightarrow> Web \<Rightarrow> bool" where
  "saved env w \<longleftrightarrow> (\<exists>fs. save_all (we_codec env) (re_clients (wb_reg w)) (re_global (wb_reg w)) fs = (Inr (), wb_files w))"

text \<open>An operation that reports success only after it has saved.\<close>

definition reports :: "web_env \<Rightarrow> Ajax \<times> Web \<Rightarrow> bool" where
  "reports env res \<longleftrightarrow> (aj_status (fst res) = 1 \<longrightarrow> saved env (snd res))"

lemma reports_leaves [simp]:
  "reports env (ajax 0 msg, w)" "reports env (persist_ajax env msg w)" "reports env (persist_added env i w)"
  by (auto simp: reports_def persist_ajax_def persist_added_def persist_registry_def saved_def ajax_def case_prod_beta
      prod_eq_iff split: sum.splits)

lemma client_mutations_report:
  "reports env (mutate_client_status env p w)" "reports env (mutate_client_delete env p w)"
  "reports env (mutate_client_add env p w)" "reports env (mutate_client_edit env p w)"
  unfolding mutate_client_status_def mutate_client_delete_def mutate_client_add_def mutate_client_edit_def Let_def
  by (simp_all add: case_prod_beta split: option.split)

lemma tunnel_mutations_report:
  "reports env (mutate_tunnel_status env p b w)" "reports env (mutate_tunnel_delete env p w)"
  "reports env (mutate_tunnel_copy env p w)" "reports env (mutate_tunnel_add env p w)"
  "reports env (mutate_tunnel_edit env p w)"
  unfolding mutate_tunnel_status_def mutate_tunnel_delete_def mutate_tunnel_copy_def mutate_tunnel_add_def
    mutate_tunnel_edit_def Let_def
  by (simp_all add: case_prod_beta split: option.split sum.split)

lemma host_mutations_report:
  "reports env (mutate_host_status env p b w)" "reports env (mutate_host_delete env p w)"
  "reports env (mutate_host_add env p w)" "reports env (mutate_host_edit env p w)"
  "reports env (mutate_global_save env p w)"
  unfolding mutate_host_status_def mutate_host_delete_def mutate_host_add_def mutate_host_edit_def
    mutate_global_save_def Let_def
  by (simp_all add: case_prod_beta split: option.split sum.split)

lemma dispatch_reports: "reports env (dispatch_mutation env path p w)"
  unfolding dispatch_mutation_def
  by (simp add: client_mutations_report tunnel_mutations_report host_mutations_report)

text \<open>The name and password of a client: its own, or \<open>user\<close> and its key where it has none.\<close>

definition credentials :: "string \<Rightarrow> string \<Rightarrow> ClientRuntimeConfig \<Rightarrow> bool" where
  "credentials username password c \<longleftrightarrow>
     (if ci_web_username (rc_info c) = [] then ci_web_password (rc_info c) = [] \<and> username = ''user'' \<and> password = rc_vkey c
      else username = ci_web_username (rc_info c) \<and> password = ci_web_password (rc_info c))"

lemma client_login_Some:
  assumes "client_login username password c = Some session"
  shows "ci_status (rc_info c) \<and> \<not> rc_no_display c \<and> session = WebSession_client (rc_id c) username
     \<and> credentials username password c"
  using assms unfolding client_login_def Let_def credentials_def by (simp split: if_splits) blast

lemma authenticate_cases:
  assumes "authenticate_web_user username password r = Some session"
  shows "if ws_is_admin session then username = sc_web_username (re_server r) \<and> password = sc_web_password (re_server r)
     else sc_allow_user_login (re_server r) \<and> (\<exists>c \<in> set (hm_values (re_clients r)). ci_status (rc_info c) \<and> \<not> rc_no_display c
       \<and> ws_client_id session = Some (rc_id c) \<and> credentials username password c)"
proof (cases "username = sc_web_username (re_server r) \<and> password = sc_web_password (re_server r)")
  case True
  then show ?thesis using assms by (auto simp: authenticate_web_user_def WebSession_admin_def)
next
  case False
  then have login: "sc_allow_user_login (re_server r)"
    "find_map (client_login username password) (hm_values (re_clients r)) = Some session"
    using assms by (auto simp: authenticate_web_user_def split: if_splits)
  from find_map_Some [OF this(2)] obtain c where
    c: "c \<in> set (hm_values (re_clients r))" "client_login username password c = Some session"
    by blast
  from client_login_Some [OF this(2)] have "\<not> ws_is_admin session" "ws_client_id session = Some (rc_id c)"
    by (simp_all add: WebSession_client_def)
  with login(1) c(1) client_login_Some [OF c(2)] show ?thesis by auto
qed

lemma verify_captcha_fields [simp]:
  "re_server (snd (verify_login_captcha now token answer r)) = re_server r"
  "re_clients (snd (verify_login_captcha now token answer r)) = re_clients r"
  by (auto simp: verify_login_captcha_def Let_def split: option.split)

text \<open>The text of a digest.\<close>

definition hex_digits :: string where
  "hex_digits = ''0123456789abcdef''"

definition hex_text :: "string \<Rightarrow> bool" where
  "hex_text s \<longleftrightarrow> s \<noteq> [] \<and> set s \<subseteq> set hex_digits"

lemma hex_visible: "c \<in> set hex_digits \<Longrightarrow> visible c \<and> visible (ascii_upper c)"
proof -
  have "list_all (\<lambda>c. visible c \<and> visible (ascii_upper c)) hex_digits" by code_simp
  then show "c \<in> set hex_digits \<Longrightarrow> visible c \<and> visible (ascii_upper c)"
    unfolding list_all_iff by blast
qed

lemma hex_text_trim: "hex_text s \<Longrightarrow> trim s = s \<and> s \<noteq> []"
  using hex_visible hd_in_set [of s] last_in_set [of s] trim_visible [of s] unfolding hex_text_def by blast

lemma hex_text_code:
  assumes "hex_text (md5_hex token)"
  shows "trim (captcha_code_from_token md5_hex token) = captcha_code_from_token md5_hex token
     \<and> captcha_code_from_token md5_hex token \<noteq> []"
proof -
  let ?s = "take 5 (to_ascii_uppercase (md5_hex token))"
  have ne: "?s \<noteq> []" using assms by (simp add: hex_text_def to_ascii_uppercase_def)
  have "set ?s \<subseteq> ascii_upper ` set (md5_hex token)"
    using set_take_subset [of 5 "to_ascii_uppercase (md5_hex token)"] by (simp add: to_ascii_uppercase_def)
  then have "visible c" if "c \<in> set ?s" for c
    using that assms hex_visible unfolding hex_text_def by blast
  then have "trim ?s = ?s" using trim_visible [OF ne] hd_in_set [OF ne] last_in_set [OF ne] by blast
  with ne show ?thesis by (simp add: captcha_code_from_token_def)
qed

section \<open>Properties\<close>

text \<open>
  C31: A session belongs to whoever proved to be its user.  A login that yields a token
  passed the captcha where one is asked for; the token stands for an administrator only if
  the administrator's name and password were given, and otherwise for a client that is
  enabled and visible and whose own credentials were given.
\<close>

theorem login_session_sound:
  assumes "handle_login_verify md5_hex now now_debug remote params r = ((a, Some token), r')"
  shows "\<exists>session. hm_get (re_sessions r') token = Some session \<and> aj_status a = 1
     \<and> (sc_open_captcha (re_server r) \<longrightarrow>
          fst (verify_login_captcha now (param params ''captcha_token'') (param params ''captcha'') r))
     \<and> (if ws_is_admin session
        then param params ''username'' = sc_web_username (re_server r) \<and> param params ''password'' = sc_web_password (re_server r)
        else sc_allow_user_login (re_server r) \<and> (\<exists>c \<in> set (hm_values (re_clients r)). ci_status (rc_info c) \<and> \<not> rc_no_display c
          \<and> ws_client_id session = Some (rc_id c)
          \<and> credentials (param params ''username'') (param params ''password'') c))"
proof -
  define v where "v = (if sc_open_captcha (re_server r)
      then verify_login_captcha now (param params ''captcha_token'') (param params ''captcha'') r else (True, r))"
  have v: "re_server (snd v) = re_server r" "re_clients (snd v) = re_clients r"
    by (simp_all add: v_def)
  obtain session where s: "fst v" "authenticate_web_user (param params ''username'') (param params ''password'') (snd v) = Some session"
    "hm_get (re_sessions r') token = Some session" "aj_status a = 1"
    using assms unfolding handle_login_verify_def Let_def v_def [symmetric]
    by (auto simp: case_prod_beta hm_simps ajax_def split: if_splits option.splits)
  with authenticate_cases [OF s(2), unfolded v] show ?thesis
    by (intro exI [of _ session]) (simp add: v_def split: if_splits)
qed

theorem login_session_sound_witness:
  "\<exists>a token r' session. handle_login_verify rev 0 ''t'' ''10.0.0.9:1'' [(''username'', ''user''), (''password'', ''b'')]
       ((Registry_new ServerConfig_default)\<lparr>re_clients := [(''b'', rc_info_update (\<lambda>i. i\<lparr>ci_web_username := []\<rparr>) (demo_user ''b'' 2 7))]\<rparr>)
       = ((a, Some token), r')
     \<and> hm_get (re_sessions r') token = Some session \<and> aj_status a = 1"
proof -
  let ?h = "handle_login_verify rev 0 ''t'' ''10.0.0.9:1'' [(''username'', ''user''), (''password'', ''b'')]
       ((Registry_new ServerConfig_default)\<lparr>re_clients := [(''b'', rc_info_update (\<lambda>i. i\<lparr>ci_web_username := []\<rparr>) (demo_user ''b'' 2 7))]\<rparr>)"
  have "snd (fst ?h) = Some (rev ''user:b:t:1'')" by code_simp
  then have "?h = ((fst (fst ?h), Some (rev ''user:b:t:1'')), snd ?h)" by (simp add: prod_eq_iff)
  with login_session_sound [OF this] show ?thesis by blast
qed

text \<open>
  A captcha can be used once, and whoever has its token knows its answer.  Within five
  minutes of its issue the five characters computed from the token, which is sent to the
  browser beside the picture, pass the check; after any attempt with an answer the token
  is spent.  Of the digest it is assumed that it consists of hexadecimal digits.
\<close>

lemma captcha_token_reveals_code:
  assumes "sc_open_captcha (re_server r)" "\<forall>s. hex_text (md5_hex s)"
    and "issue_login_captcha md5_hex now now_debug r = (Some token, r1)" "later < now + secs 300"
  shows "fst (verify_login_captcha later token (captcha_code_from_token md5_hex token) r1)
     \<and> (\<forall>t answer answer'. trim answer \<noteq> [] \<longrightarrow>
          \<not> fst (verify_login_captcha t token answer' (snd (verify_login_captcha later token answer r1))))"
proof -
  let ?code = "captcha_code_from_token md5_hex token"
  define r2 where "r2 = r\<lparr>re_seq := re_seq r + 1\<rparr>"
  have r1: "r1 = r2\<lparr>re_captcha_store := hm_insert token \<lparr>ce_code = ?code, ce_expires_at = now + secs 300\<rparr> (re_captcha_store r2)\<rparr>"
    and tok: "token = md5_hex (now_debug @ '':'' @ show_nat (unat (re_seq r)))"
    using assms(3) by (auto simp: issue_login_captcha_def next_link_id_def Let_def r2_def)
  have "trim token = token" "token \<noteq> []"
    using hex_text_trim [of token] assms(2) tok by auto
  moreover have "trim ?code = ?code" "?code \<noteq> []"
    using hex_text_code [of md5_hex token] assms(2) by auto
  moreover have "sc_open_captcha (re_server r2)" using assms(1) by (simp add: r2_def)
  ultimately show ?thesis
    using assms(4) by (auto simp: verify_login_captcha_def r1 Let_def hm_simps)
qed

text \<open>
  C39: Registration returns and gives a working login.  If registration is open, the name is
  free and there are fewer clients than ids, the search for an unused key ends, one new
  client is added under a key that was free, nothing else changes, and the new client
  accepts exactly the name and password that were registered.
\<close>

theorem registration_returns:
  assumes "sc_allow_user_register (re_server (wb_reg w))" "\<not> username_taken (param params ''username'') (wb_reg w)"
    and "param params ''username'' \<notin> {[], sc_web_username (re_server (wb_reg w))}" "param params ''password'' \<noteq> []"
    and "length (re_clients (wb_reg w)) < 2 ^ 64"
  shows "\<exists>a w' v c. register_web_user env params w = Some (a, w') \<and> client_of v (wb_reg w) = None
     \<and> (\<forall>u. client_of u (wb_reg w') = (if u = v then Some c else client_of u (wb_reg w)))
     \<and> (\<forall>username password. client_login username password c \<noteq> None \<longleftrightarrow>
          username = param params ''username'' \<and> password = param params ''password'')"
proof -
  let ?r = "wb_reg w" and ?i = "re_seq (wb_reg w)"
  let ?r1 = "?r\<lparr>re_seq := ?i + 1\<rparr>"
  obtain d where "\<not> hm_contains (re_clients ?r) (user_key (?i + of_nat d))"
    using some_user_key_free [OF assms(5)] by blast
  then obtain v q where v: "fresh_user_vkey (user_key ?i) ?r1 = Some (v, ?r1\<lparr>re_seq := q\<rparr>)"
    "\<not> hm_contains (re_clients ?r) v"
    using fresh_user_vkey_returns [of ?r1 ?i d] by auto
  define c where "c = (rc_info_update
       (\<lambda>info. info\<lparr>ci_status := True, ci_web_username := param params ''username'',
                    ci_web_password := param params ''password'', ci_config_conn_allow := False\<rparr>)
       (rc_vkey_update v ClientRuntimeConfig_default))\<lparr>rc_id := ?i, rc_no_store := False, rc_create_time := we_now_text env\<rparr>"
  define w1 where "w1 = w\<lparr>wb_reg := ?r\<lparr>re_seq := q, re_clients := hm_insert v c (re_clients ?r)\<rparr>\<rparr>"
  have "register_web_user env params w = Some (persist_ajax env ''register success'' w1)"
    using assms(1-4) v(1)
    by (simp add: register_web_user_def Let_def next_link_id_def user_key_def c_def w1_def)
  moreover have "wb_reg (snd (persist_ajax env ''register success'' w1)) = wb_reg w1" by simp
  moreover have "client_login username password c \<noteq> None \<longleftrightarrow>
      username = param params ''username'' \<and> password = param params ''password''" for username password
    using assms(3) by (auto simp: client_login_def Let_def c_def rc_info_update_def rc_vkey_update_def
        ClientRuntimeConfig_default_def)
  moreover have "client_of v ?r = None" using v(2) by (simp add: hm_contains_def)
  ultimately show ?thesis
    by (intro exI [of _ "fst (persist_ajax env ''register success'' w1)"]
        exI [of _ "snd (persist_ajax env ''register success'' w1)"] exI [of _ v] exI [of _ c])
      (auto simp: w1_def hm_simps)
qed

theorem registration_returns_witness:
  "\<exists>a w' v c. register_web_user demo_web_env [(''username'', ''eve''), (''password'', ''pw'')]
       \<lparr>wb_reg = (Registry_new (ServerConfig_default\<lparr>sc_allow_user_register := True\<rparr>))\<lparr>re_clients := [(''user1'', demo_user ''user1'' 1 2)]\<rparr>,
        wb_files = \<lambda>_. None\<rparr> = Some (a, w') \<and> client_of v (wb_reg w') = Some c \<and> client_login ''eve'' ''pw'' c \<noteq> None"
proof -
  let ?w = "\<lparr>wb_reg = (Registry_new (ServerConfig_default\<lparr>sc_allow_user_register := True\<rparr>))\<lparr>re_clients := [(''user1'', demo_user ''user1'' 1 2)]\<rparr>,
        wb_files = \<lambda>_. None\<rparr>" and ?p = "[(''username'', ''eve''), (''password'', ''pw'')]"
  have h: "sc_allow_user_register (re_server (wb_reg ?w))" "\<not> username_taken (param ?p ''username'') (wb_reg ?w)"
    "param ?p ''username'' \<notin> {[], sc_web_username (re_server (wb_reg ?w))}" "param ?p ''password'' \<noteq> []"
    by code_simp+
  have "length (re_clients (wb_reg ?w)) < 2 ^ 64" by simp
  from registration_returns [OF h this, of demo_web_env] obtain a w' v c where
    "register_web_user demo_web_env ?p ?w = Some (a, w')"
    "\<forall>u. client_of u (wb_reg w') = (if u = v then Some c else client_of u (wb_reg ?w))"
    "\<forall>username password. client_login username password c \<noteq> None \<longleftrightarrow>
       username = param ?p ''username'' \<and> password = param ?p ''password''"
    by (elim exE conjE) (rule that, assumption+)
  moreover have "param ?p ''username'' = ''eve''" "param ?p ''password'' = ''pw''" by code_simp+
  ultimately show ?thesis by (metis (no_types, lifting))
qed

text \<open>
  A deleted client leaves nothing behind: after the deletion its key has no
  configuration, control connection, mux session, connection count, health state or flow
  counter, and all other clients have kept their configuration.
\<close>

lemma deleted_client_gone:
  assumes "quiet_wait (we_wait env)" "client_vkey_by_id (re_clients (wb_reg w)) (param_id params ''id'' 0) = Some v"
    and "hm_ok (re_clients (wb_reg w))" "mutate_client_delete env params w = (a, w')"
  shows "(\<forall>u. client_of u (wb_reg w') = (if u = v then None else client_of u (wb_reg w)))
     \<and> hm_get (re_controls (wb_reg w')) v = None \<and> hm_get (re_mux_sessions (wb_reg w')) v = None
     \<and> client_now_conn v (wb_reg w') = 0 \<and> removed_targets v (wb_reg w') = []
     \<and> client_flow_snapshot v (wb_reg w') = FlowCounter_default"
proof -
  obtain c where c: "client_of v (wb_reg w) = Some c"
    using client_vkey_by_id_Some [OF assms(2,3)] by blast
  define r2 where "r2 = stop_tunnel_runtimes (we_wait env) (rc_tunnels c) ((wb_reg w)\<lparr>re_clients := hm_remove v (re_clients (wb_reg w))\<rparr>)"
  let ?r5 = "rebuild_secret_registry (we_md5_hex env) (clear_client_runtime_state v (terminate_client_connection v ''client deleted'' r2))"
  have "snd (mutate_client_delete env params w) = snd (persist_ajax env ''delete success'' (w\<lparr>wb_reg := ?r5\<rparr>))"
    using assms(2) c by (simp add: mutate_client_delete_def Let_def r2_def)
  then have w': "wb_reg w' = ?r5" using assms(4) by simp
  have r2: "re_clients r2 = hm_remove v (re_clients (wb_reg w))"
    using quiet_wait.stop_tunnel_runtimes_config [OF assms(1)] unfolding r2_def same_config_def by simp
  have "same_config r2 ?r5"
    by (rule same_config_trans [OF same_config_trans [OF same_config_steps(4) same_config_steps(6)] same_config_steps(2)])
  then have "re_clients ?r5 = hm_remove v (re_clients (wb_reg w))" using r2 by (simp add: same_config_def)
  then show ?thesis
    unfolding w'
    by (auto simp: rebuild_secret_registry_def clear_client_runtime_state_def clear_client_health_runtime_state_def
        terminate_client_connection_def queue_send_def client_now_conn_def removed_targets_def
        client_flow_snapshot_def hm_simps Let_def split: option.splits)
qed

text \<open>
  C32: A success that the console reports is on disk.  When a request is answered with
  status 1 and the JSON library reads back what it wrote, loading the store gives exactly
  what the registry would store now.
\<close>

theorem reported_changes_saved:
  assumes "handle_post_mutation env cookie path params w = (Inr a, w')" "aj_status a = 1"
    and "codec_ok (we_codec env) (persistent_image (re_clients (wb_reg w')) (re_global (wb_reg w')))"
  shows "store_load (we_codec env) (wb_files w') = Inr (persistent_image (re_clients (wb_reg w')) (re_global (wb_reg w')))"
proof -
  obtain path' p where d: "dispatch_mutation env path' p w = (a, w')"
    using assms(1,2) by (auto simp: handle_post_mutation_def Let_def ajax_def split: option.splits sum.splits prod.splits)
  obtain fs where fs: "save_all (we_codec env) (re_clients (wb_reg w')) (re_global (wb_reg w')) fs = (Inr (), wb_files w')"
    using dispatch_reports [of env path' p w] assms(2) by (auto simp: d reports_def saved_def)
  obtain fs' where "save_all (we_codec env) (re_clients (wb_reg w')) (re_global (wb_reg w')) fs = (Inr (), fs')"
    "store_load (we_codec env) fs' = Inr (persistent_image (re_clients (wb_reg w')) (re_global (wb_reg w')))"
    using save_load [OF assms(3)] by blast
  with fs show ?thesis by simp
qed

theorem reported_changes_saved_witness:
  "let w = \<lparr>wb_reg = Registry_new (ServerConfig_default\<lparr>sc_web_username := []\<rparr>), wb_files = \<lambda>_. None\<rparr>;
       (res, w') = handle_post_mutation demo_web_env None ''/global/save'' [] w
   in res = Inr (ajax 1 ''save success'') \<and> store_load demo_codec (wb_files w') = Inr (persistent_image [] GlobalConfig_default)"
proof -
  let ?h = "handle_post_mutation demo_web_env None ''/global/save'' []
     \<lparr>wb_reg = Registry_new (ServerConfig_default\<lparr>sc_web_username := []\<rparr>), wb_files = \<lambda>_. None\<rparr>"
  have h: "fst ?h = Inr (ajax 1 ''save success'')" "re_clients (wb_reg (snd ?h)) = []"
    "re_global (wb_reg (snd ?h)) = GlobalConfig_default" "aj_status (ajax 1 ''save success'') = 1"
    by code_simp+
  have codec: "we_codec demo_web_env = demo_codec" by (simp add: demo_web_env_def)
  have "persistent_image [] GlobalConfig_default = \<lparr>ps_clients = [], ps_tunnels = [], ps_hosts = [], ps_global = GlobalConfig_default\<rparr>"
    by code_simp
  then have ok: "codec_ok demo_codec (persistent_image [] GlobalConfig_default)"
    by (simp add: codec_ok_def demo_codec_def)
  have "?h = (Inr (ajax 1 ''save success''), snd ?h)" using h(1) by (simp add: prod_eq_iff)
  from reported_changes_saved [OF this h(4)] ok h codec show ?thesis
    by (simp add: Let_def case_prod_beta)
qed

end
