(* ===== verification/Invariant.thy ===== *)
theory Invariant
  imports Hello Logins
begin

text \<open>
  The well-formed states of the server.  \<open>registry_ok\<close> says of every field of the
  \<open>Registry\<close> (\<open>src/server.rs\<close>) what the code takes for granted: no map holds a key twice,
  a client is stored under its own key and owns its tunnels and hosts, handles point to
  existing queues and flags and nobody shares one, only secret tunnels are offered as
  secrets, and so on.  One lemma per operation shows that it leaves a well-formed state
  well-formed; they are collected in \<open>ok_intros\<close>.
\<close>

section \<open>Maps with an invariant\<close>

named_theorems ok_intros \<open>operations that keep the registry well-formed\<close>

definition map_ok :: "('k \<Rightarrow> 'v \<Rightarrow> bool) \<Rightarrow> ('k \<times> 'v) list \<Rightarrow> bool" where
  "map_ok P m \<longleftrightarrow> hm_ok m \<and> list_all (\<lambda>(k, v). P k v) m"

lemma map_ok_iff: "map_ok P m \<longleftrightarrow> hm_ok m \<and> (\<forall>k v. hm_get m k = Some v \<longrightarrow> P k v)"
  by (auto simp: map_ok_def list_all_iff dest: hm_ok_get map_of_SomeD)

lemma map_ok_Nil [simp]: "map_ok P []"
  by (simp add: map_ok_def)

lemma map_ok_hm: "map_ok P m \<Longrightarrow> hm_ok m"
  by (simp add: map_ok_def)

lemma map_ok_get: "map_ok P m \<Longrightarrow> hm_get m k = Some v \<Longrightarrow> P k v"
  by (simp add: map_ok_iff)

text \<open>The entry of a key, or a first entry.\<close>

lemma map_ok_entry:
  "map_ok (\<lambda>_ v. P v) m \<Longrightarrow> P d \<Longrightarrow> P (case hm_get m k of None \<Rightarrow> d | Some v \<Rightarrow> v)"
  by (cases "hm_get m k") (auto dest: map_ok_get)

lemma map_ok_insert [simp]: "map_ok P m \<Longrightarrow> P k v \<Longrightarrow> map_ok P (hm_insert k v m)"
  by (simp add: map_ok_iff hm_simps inv_intros)

lemma map_ok_remove [simp]: "map_ok P m \<Longrightarrow> map_ok P (hm_remove k m)"
  by (simp add: map_ok_iff hm_simps inv_intros)

lemma map_ok_fold_insert:
  assumes "map_ok P m" "map_ok P kvs"
  shows "map_ok P (fold (\<lambda>(k, v). hm_insert k v) kvs m)"
proof -
  have "list_all (\<lambda>(k, v). P k v) kvs" using assms(2) by (simp add: map_ok_def)
  with assms(1) show ?thesis by (induction kvs arbitrary: m) auto
qed

lemma map_ok_update_first:
  assumes "update_first f m = Some (m', x)" "map_ok P m"
    and "\<And>k c c'. P k c \<Longrightarrow> f c = Some (c', x) \<Longrightarrow> P k c'"
  shows "map_ok P m'"
proof -
  have "map fst m' = map fst m \<and> list_all (\<lambda>(k, v). P k v) m'"
    using assms
  proof (induction m arbitrary: m')
    case (Cons p m)
    obtain k c where p: "p = (k, c)" by fastforce
    have ok: "P k c" "map_ok P m" using Cons.prems(2) by (simp_all add: p map_ok_def hm_ok_def)
    show ?case
    proof (cases "f c")
      case None
      then obtain m1 where "update_first f m = Some (m1, x)" "m' = (k, c) # m1"
        using Cons.prems(1) by (auto simp: p)
      with Cons.IH ok Cons.prems(3) show ?thesis by (simp add: p)
    next
      case (Some y)
      then obtain c' where "f c = Some (c', x)" "m' = (k, c') # m"
        using Cons.prems(1) by (cases y) (auto simp: p)
      with ok Cons.prems(3) show ?thesis by (simp add: p map_ok_def)
    qed
  qed simp
  with assms(2) show ?thesis by (simp add: map_ok_def hm_ok_def)
qed

text \<open>A map whose values hold numbers below \<open>n\<close>, each number at most once.\<close>

definition handles_ok :: "nat \<Rightarrow> ('v \<Rightarrow> nat) \<Rightarrow> ('k \<times> 'v) list \<Rightarrow> bool" where
  "handles_ok n f m \<longleftrightarrow> map_ok (\<lambda>k v. f v < n) m \<and> distinct (map (\<lambda>p. f (snd p)) m)"

lemma handles_ok_Nil [simp]: "handles_ok n f []"
  by (simp add: handles_ok_def)

lemma handles_ok_hm: "handles_ok n f m \<Longrightarrow> hm_ok m"
  by (auto simp: handles_ok_def intro: map_ok_hm)

lemma handles_ok_get: "handles_ok n f m \<Longrightarrow> hm_get m k = Some v \<Longrightarrow> f v < n"
  unfolding handles_ok_def by (blast dest: map_ok_get)

lemma handles_ok_remove [simp]: "handles_ok n f m \<Longrightarrow> handles_ok n f (hm_remove k m)"
  unfolding handles_ok_def by (auto simp: AList.delete_eq intro: distinct_map_filter map_ok_remove [unfolded AList.delete_eq])

lemma handles_ok_insert [simp]:
  assumes "handles_ok n f m" "f v = n"
  shows "handles_ok (Suc n) f (hm_insert k v m)"
proof -
  have "map_ok (\<lambda>k v. f v < Suc n) m"
    using assms(1) by (fastforce simp: handles_ok_def map_ok_def list_all_iff)
  moreover have "distinct (map (\<lambda>p. f (snd p)) m) \<Longrightarrow> n \<notin> f ` snd ` set m \<Longrightarrow>
      distinct (map (\<lambda>p. f (snd p)) (hm_insert k v m))
        \<and> set (map (\<lambda>p. f (snd p)) (hm_insert k v m)) \<subseteq> insert n (f ` snd ` set m)"
    by (induction m) (use assms(2) in \<open>auto simp: image_image\<close>)
  moreover have "n \<notin> f ` snd ` set m"
    using assms(1) by (force simp: handles_ok_def map_ok_def list_all_iff)
  ultimately show ?thesis
    using assms by (simp add: handles_ok_def)
qed

text \<open>Two keys never share a number.\<close>

lemma handles_ok_private:
  assumes "handles_ok n f m" "hm_get m k = Some v" "hm_get m k' = Some v'" "f v = f v'"
  shows "k = k'"
proof -
  have "inj_on (\<lambda>p. f (snd p)) (set m)" using assms(1) by (simp add: handles_ok_def distinct_map)
  from inj_onD [OF this, of "(k, v)" "(k', v')"] assms(2-4) show ?thesis by (auto dest: map_of_SomeD)
qed

section \<open>Well-formed registries\<close>

definition client_ok :: "string \<Rightarrow> ClientRuntimeConfig \<Rightarrow> bool" where
  "client_ok v c \<longleftrightarrow> v \<noteq> [] \<and> rc_vkey c = v \<and> ci_verify_key (rc_info c) = v
     \<and> list_all (\<lambda>t. tn_client_vkey t = v) (rc_tunnels c) \<and> list_all (\<lambda>h. ho_client_vkey h = v) (rc_hosts c)"

definition secret_ok :: "(string \<Rightarrow> string) \<Rightarrow> string \<Rightarrow> Tunnel \<Rightarrow> bool" where
  "secret_ok md5_hex key t \<longleftrightarrow> is_secret_mode (tn_mode t) \<and> tn_status t \<and> tn_password t \<noteq> []
     \<and> (key = tn_password t \<or> key = md5_hex (tn_password t))"

definition session_ok :: "string \<Rightarrow> WebSession \<Rightarrow> bool" where
  "session_ok token s \<longleftrightarrow> ws_is_admin s \<or> ws_client_id s \<noteq> None"

definition registry_ok :: "(string \<Rightarrow> string) \<Rightarrow> Registry \<Rightarrow> bool" where
  "registry_ok md5_hex r \<longleftrightarrow>
     map_ok client_ok (re_clients r)
   \<and> handles_ok (length (re_queues r)) ch_tx (re_controls r)
   \<and> handles_ok (length (re_flags r)) id (re_listener_shutdowns r)
   \<and> distinct (re_listeners r)
   \<and> map_ok (secret_ok md5_hex) (re_secrets r)
   \<and> map_ok session_ok (re_sessions r)
   \<and> map_ok (\<lambda>_ n. 0 < n) (re_conn_counts r)
   \<and> map_ok (\<lambda>_ targets. distinct targets) (re_health_targets r)
   \<and> map_ok (\<lambda>_ conns. conns \<noteq> [] \<and> hm_ok conns) (re_live_conns r)
   \<and> cache_ok (re_http_cache r)
   \<and> hm_ok (re_mux_sessions r) \<and> hm_ok (re_pending r) \<and> hm_ok (re_cursors r)
   \<and> hm_ok (re_captcha_store r) \<and> hm_ok (re_authorized_ips r) \<and> hm_ok (re_flow_counters r)"

lemma registry_ok_new: "registry_ok md5_hex (Registry_new server)"
  by (simp add: registry_ok_def Registry_new_def cache_ok_def)

section \<open>Elementary operations\<close>

lemma ids_ok [ok_intros]:
  assumes "registry_ok md5_hex r"
  shows "registry_ok md5_hex (r\<lparr>re_seq := q\<rparr>)" "registry_ok md5_hex (snd (next_link_id r))"
    "registry_ok md5_hex (observe_id i r)"
  using assms by (simp_all add: registry_ok_def next_link_id_def observe_id_def)

lemma renumbered_ok: "registry_ok md5_hex r \<Longrightarrow> renumbered r r' \<Longrightarrow> registry_ok md5_hex r'"
  by (auto simp: renumbered_def intro: ids_ok)

lemma slots_ok [ok_intros]:
  assumes "registry_ok md5_hex r"
  shows "registry_ok md5_hex (snd (acquire_client_connection_slot vkey r))"
    "registry_ok md5_hex (release_client_connection_slot vkey r)" "registry_ok md5_hex (give_back slot vkey r)"
  using assms
  by (auto simp: registry_ok_def acquire_client_connection_slot_def release_client_connection_slot_def give_back_def
      Let_def split: option.split)

lemma flow_ok [ok_intros]:
  assumes "registry_ok md5_hex r"
  shows "registry_ok md5_hex (snd (client_flow_counter vkey r))" "registry_ok md5_hex (snd (client_relay_policy vkey r))"
    "registry_ok md5_hex (snd (client_flow_limit_reached vkey r))"
proof -
  show counter: "registry_ok md5_hex (snd (client_flow_counter vkey r))"
    using assms by (simp add: registry_ok_def client_flow_counter_def inv_intros split: option.split)
  show "registry_ok md5_hex (snd (client_relay_policy vkey r))"
    using assms counter by (simp add: client_relay_policy_def case_prod_beta split: option.split)
  show "registry_ok md5_hex (snd (client_flow_limit_reached vkey r))"
    using assms counter by (simp add: client_flow_limit_reached_def Let_def case_prod_beta)
qed

lemma health_ok [ok_intros]:
  assumes "registry_ok md5_hex r"
  shows "registry_ok md5_hex (set_client_health_target_state vkey target enabled r)"
    "registry_ok md5_hex (clear_client_health_runtime_state vkey r)"
    "registry_ok md5_hex (clear_client_runtime_state vkey r)"
    "registry_ok md5_hex (sync_client_health_runtime_state vkey healths r)"
proof -
  have "distinct (case hm_get (re_health_targets r) vkey of None \<Rightarrow> [] | Some ts \<Rightarrow> ts)"
    by (rule map_ok_entry) (use assms in \<open>simp_all add: registry_ok_def\<close>)
  with assms show "registry_ok md5_hex (set_client_health_target_state vkey target enabled r)"
    by (simp add: registry_ok_def set_client_health_target_state_def Let_def distinct_removeAll)
  show "registry_ok md5_hex (clear_client_health_runtime_state vkey r)"
    "registry_ok md5_hex (clear_client_runtime_state vkey r)"
    using assms
    by (simp_all add: registry_ok_def clear_client_health_runtime_state_def clear_client_runtime_state_def inv_intros)
  show "registry_ok md5_hex (sync_client_health_runtime_state vkey healths r)"
    using assms
    by (auto simp: registry_ok_def sync_client_health_runtime_state_def Let_def split: option.split
        intro!: map_ok_insert distinct_filter dest: map_ok_get)
qed

lemma rekey_ok [ok_intros]:
  assumes "registry_ok md5_hex r"
  shows "registry_ok md5_hex (rekey_client_runtime_state old_vkey new_vkey keep r)"
proof -
  have fold: "distinct ts \<Longrightarrow> distinct (fold List.insert xs ts)" for ts xs :: "string list"
    by (induction xs arbitrary: ts) auto
  define old where "old = (case hm_get (hm_remove old_vkey (re_health_targets r)) new_vkey of None \<Rightarrow> [] | Some t \<Rightarrow> t)"
  have "distinct old"
    unfolding old_def by (rule map_ok_entry) (use assms in \<open>simp_all add: registry_ok_def\<close>)
  from fold [OF this] assms
  have "map_ok (\<lambda>_ targets. distinct targets) (re_health_targets (rekey_client_runtime_state old_vkey new_vkey keep r))"
    unfolding rekey_client_runtime_state_def Let_def registry_ok_def old_def [symmetric] by (simp split: option.split)
  moreover have "hm_ok (re_flow_counters (rekey_client_runtime_state old_vkey new_vkey keep r))"
    using assms by (simp add: registry_ok_def rekey_client_runtime_state_def Let_def inv_intros split: option.split)
  ultimately show ?thesis
    using assms by (simp add: registry_ok_def rekey_client_runtime_state_def Let_def)
qed

lemma live_conns_ok [ok_intros]:
  assumes "registry_ok md5_hex r"
  shows "registry_ok md5_hex (snd (register_tunnel_live_conn i sock r))"
    "registry_ok md5_hex (unregister_tunnel_live_conn i conn r)"
    "registry_ok md5_hex (disconnect_tunnel_live_conns i r)"
proof -
  have grp: "hm_ok (case hm_get (re_live_conns r) i of None \<Rightarrow> [] | Some g \<Rightarrow> g)"
    using assms map_ok_entry [of hm_ok "re_live_conns r" "[]" i] by (simp add: registry_ok_def map_ok_iff)
  then show "registry_ok md5_hex (snd (register_tunnel_live_conn i sock r))"
    using assms
    by (auto simp: registry_ok_def register_tunnel_live_conn_def next_link_id_def Let_def inv_intros update_nonempty
        split: option.split)
  show "registry_ok md5_hex (unregister_tunnel_live_conn i conn r)"
    using assms grp
    by (auto simp: registry_ok_def unregister_tunnel_live_conn_def Let_def inv_intros split: option.splits)
  show "registry_ok md5_hex (disconnect_tunnel_live_conns i r)"
    using assms by (simp add: registry_ok_def disconnect_tunnel_live_conns_def Let_def)
qed

lemma queue_ok [ok_intros]:
  assumes "registry_ok md5_hex r"
  shows "registry_ok md5_hex (snd (queue_send q msg r))"
    "registry_ok md5_hex (terminate_client_connection vkey reason r)"
proof -
  have send: "registry_ok md5_hex (snd (queue_send q msg s))" if "registry_ok md5_hex s" for q msg s
    using that by (simp add: registry_ok_def queue_send_def)
  show "registry_ok md5_hex (snd (queue_send q msg r))" using assms by (rule send)
  have "registry_ok md5_hex (r\<lparr>re_controls := hm_remove vkey (re_controls r),
      re_mux_sessions := hm_remove vkey (re_mux_sessions r), re_conn_counts := hm_remove vkey (re_conn_counts r)\<rparr>)"
    using assms by (simp add: registry_ok_def inv_intros)
  from send [OF this] this show "registry_ok md5_hex (terminate_client_connection vkey reason r)"
    by (simp add: terminate_client_connection_def Let_def split: option.split)
qed

lemma add_secret_ok:
  "map_ok (secret_ok md5_hex) m \<Longrightarrow> is_secret_mode (tn_mode t) \<Longrightarrow> tn_status t \<Longrightarrow> tn_password t \<noteq> [] \<Longrightarrow>
   map_ok (secret_ok md5_hex) (add_secret md5_hex t m)"
  by (simp add: add_secret_def secret_ok_def)

lemma secrets_ok [ok_intros]:
  assumes "registry_ok md5_hex r"
  shows "registry_ok md5_hex (rebuild_secret_registry md5_hex r)"
    "registry_ok md5_hex (refresh_tunnel_runtime_registry md5_hex r)"
proof -
  have "map_ok (secret_ok md5_hex) m \<Longrightarrow> list_all offers_secret ts \<Longrightarrow>
      map_ok (secret_ok md5_hex) (fold (add_secret md5_hex) ts m)" for ts m
    by (induction ts arbitrary: m) (auto simp: offers_secret_def intro: add_secret_ok)
  moreover have "list_all offers_secret (secret_tunnels r)"
    by (auto simp: secret_tunnels_def list_all_iff split: if_splits)
  ultimately have "map_ok (secret_ok md5_hex) (re_secrets (rebuild_secret_registry md5_hex r))"
    by (simp add: rebuild_secrets_fold)
  then show *: "registry_ok md5_hex (rebuild_secret_registry md5_hex r)"
    using assms by (simp add: registry_ok_def rebuild_secret_registry_def)
  then show "registry_ok md5_hex (refresh_tunnel_runtime_registry md5_hex r)"
    by (simp add: refresh_tunnel_runtime_registry_def)
qed

section \<open>Checks and targets\<close>

lemma filter_ok: "hm_ok m \<Longrightarrow> hm_ok (filter P m)"
  by (simp add: hm_ok_def distinct_map_filter)

lemma access_ok [ok_intros]:
  assumes "registry_ok md5_hex r"
  shows "registry_ok md5_hex (authorize_ip now remote hours r)"
    "registry_ok md5_hex (snd (is_ip_authorized now ip r))"
    "registry_ok md5_hex (snd (validate_client_access now vkey remote r))"
    "registry_ok md5_hex (snd (validate_client_handshake now vkey remote req r))"
proof -
  show "registry_ok md5_hex (authorize_ip now remote hours r)"
    using assms by (simp add: registry_ok_def authorize_ip_def Let_def inv_intros)
  have ip: "registry_ok md5_hex (snd (is_ip_authorized now ip r))" for ip
    using assms by (simp add: registry_ok_def is_ip_authorized_def Let_def filter_ok)
  then show "registry_ok md5_hex (snd (is_ip_authorized now ip r))" .
  show "registry_ok md5_hex (snd (validate_client_access now vkey remote r))"
    using assms flow_ok(3) ip
    by (simp add: validate_client_access_def Let_def case_prod_beta split: prod.split bool.split)
  show "registry_ok md5_hex (snd (validate_client_handshake now vkey remote req r))"
    using assms ip by (simp add: validate_client_handshake_def Let_def case_prod_beta)
qed

lemma select_target_ok [ok_intros]:
  "registry_ok md5_hex r \<Longrightarrow> registry_ok md5_hex (snd (select_target key tunnel r))"
  by (simp add: registry_ok_def select_target_def inv_intros split: option.split)

section \<open>Listener tasks\<close>

lemma start_tunnel_task_ok [ok_intros]:
  assumes "registry_ok md5_hex r"
  shows "registry_ok md5_hex (start_tunnel_task md5_hex t r)"
  using assms
  by (simp add: registry_ok_def start_tunnel_task_def add_secret_ok split: option.split)

lemma start_tunnel_tasks_ok [ok_intros]:
  "registry_ok md5_hex r \<Longrightarrow> registry_ok md5_hex (fold (start_tunnel_task md5_hex) ts r)"
  by (induction ts arbitrary: r) (auto intro: start_tunnel_task_ok)

lemma start_active_ok [ok_intros]:
  assumes "registry_ok md5_hex r"
  shows "registry_ok md5_hex (start_active_tunnels_for_client md5_hex config r)"
proof -
  have "registry_ok md5_hex (fold (\<lambda>t r. if tn_status t \<and> tn_run_status t then start_tunnel_task md5_hex t r else r) ts r)" for ts
    using assms by (induction ts arbitrary: r) (auto intro: start_tunnel_task_ok)
  with assms show ?thesis by (simp add: start_active_tunnels_for_client_def)
qed

lemma tunnel_task_end_ok [ok_intros]:
  "registry_ok md5_hex r \<Longrightarrow> registry_ok md5_hex (tunnel_task_end t r)"
  by (simp add: registry_ok_def tunnel_task_end_def distinct_removeAll split: option.split)

text \<open>
  Stopping a tunnel waits for its listener.  What the other threads do meanwhile is the
  argument \<open>wait\<close>; they keep the registry well-formed, which holds of a listener that ends.
\<close>

locale sound_wait =
  fixes md5_hex :: "string \<Rightarrow> string" and wait :: "Registry \<Rightarrow> Registry"
  assumes wait_ok: "registry_ok md5_hex r \<Longrightarrow> registry_ok md5_hex (wait r)"
begin

lemma stop_tunnel_ok:
  assumes "registry_ok md5_hex r"
  shows "registry_ok md5_hex (stop_tunnel_runtime wait t r)"
proof -
  define r1 where "r1 = (case hm_get (re_listener_shutdowns r) (tn_id t) of
       None \<Rightarrow> r
     | Some flag \<Rightarrow> r\<lparr>re_listener_shutdowns := hm_remove (tn_id t) (re_listener_shutdowns r),
                      re_flags := (re_flags r)[flag := True]\<rparr>)"
  have "registry_ok md5_hex r1"
    using assms by (simp add: r1_def registry_ok_def split: option.split)
  then have "registry_ok md5_hex (disconnect_tunnel_live_conns (tn_id t) r1)" by (rule live_conns_ok)
  then show ?thesis
    unfolding stop_tunnel_runtime_def Let_def r1_def [symmetric] by (simp add: wait_ok split: option.split)
qed

lemma stop_tunnels_ok: "registry_ok md5_hex r \<Longrightarrow> registry_ok md5_hex (stop_tunnel_runtimes wait ts r)"
  unfolding stop_tunnel_runtimes_def by (induction ts arbitrary: r) (auto intro: stop_tunnel_ok)

lemma runtime_change_ok:
  "registry_ok md5_hex r \<Longrightarrow> registry_ok md5_hex (apply_tunnel_runtime_change md5_hex wait previous current r)"
  by (auto simp: apply_tunnel_runtime_change_def Let_def intro: stop_tunnel_ok start_tunnel_task_ok split: option.split)

end

interpretation listener_done: sound_wait md5_hex "tunnel_task_end t" for md5_hex t
  by unfold_locales (rule tunnel_task_end_ok)

section \<open>Installing clients\<close>

lemma clients_ok [ok_intros]:
  assumes "registry_ok md5_hex r" "client_ok v c"
  shows "registry_ok md5_hex (r\<lparr>re_clients := hm_insert v c (re_clients r)\<rparr>)"
  using assms by (simp add: registry_ok_def)

lemma client_of_ok: "registry_ok md5_hex r \<Longrightarrow> client_of v r = Some c \<Longrightarrow> client_ok v c"
  by (auto simp: registry_ok_def dest: map_ok_get)

lemma expand_owned:
  assumes "list_all (\<lambda>t. tn_client_vkey t = v) (rc_tunnels c)"
  shows "list_all (\<lambda>t. tn_client_vkey t = v) (expand_runtime_tunnels c)"
proof -
  have "list_all (\<lambda>u. tn_client_vkey u = tn_client_vkey t) (expand_one t)" for t
    by (auto simp: expand_one_def Let_def list_all_iff)
  with assms show ?thesis by (fastforce simp: expand_runtime_tunnels_def list_all_iff)
qed

lemma install_hosts_owned: "list_all (\<lambda>h. ho_client_vkey h = v) (fst (install_hosts v hosts r))"
  by (induction v hosts r rule: install_hosts.induct) (auto simp: Let_def split: prod.split)

lemma install_tunnels_owned:
  "fst (install_tunnels v tunnels r) = Inr ts \<Longrightarrow> list_all (\<lambda>t. tn_client_vkey t = v) ts"
  by (induction v tunnels r arbitrary: ts rule: install_tunnels.induct)
    (auto simp: Let_def split: prod.splits sum.splits if_splits)

lemma merge_client_ok:
  assumes "registry_ok md5_hex r" "client_ok (rc_vkey config) config" "fst (merge_client now_text config r) = Inr merged"
  shows "client_ok (rc_vkey config) merged"
  using assms client_of_ok [OF assms(1), of "rc_vkey config"]
  by (auto simp: merge_client_def client_ok_def stored_tunnels_def stored_hosts_def list_all_iff next_link_id_def
      split: option.splits if_splits)

lemma install_client_config_ok [ok_intros]:
  assumes "registry_ok md5_hex r" "ci_verify_key (rc_info config) = rc_vkey config"
  shows "registry_ok md5_hex (snd (install_client_config md5_hex now_text config r))"
proof (cases "rc_vkey config = []")
  case True
  with assms(1) show ?thesis by (simp add: install_client_config_def)
next
  case ne: False
  let ?v = "rc_vkey config"
  obtain hosts r1 where 1: "install_hosts ?v (rc_hosts config) r = (hosts, r1)" by fastforce
  obtain res r2 where 2: "install_tunnels ?v (rc_tunnels config) r1 = (res, r2)" by fastforce
  have ok2: "registry_ok md5_hex r2"
    using install_hosts_renumbered [of r ?v "rc_hosts config"] install_tunnels_renumbered [of r1 ?v "rc_tunnels config"]
    by (auto simp: 1 2 intro: renumbered_ok [OF assms(1)] renumbered_trans)
  show ?thesis
  proof (cases res)
    case (Inl e)
    with ne 1 2 ok2 show ?thesis by (simp add: install_client_config_def)
  next
    case (Inr tunnels)
    let ?c = "config\<lparr>rc_hosts := hosts, rc_tunnels := tunnels\<rparr>"
    have c: "client_ok ?v ?c"
      using install_hosts_owned [of ?v "rc_hosts config" r] install_tunnels_owned [of ?v "rc_tunnels config" r1 tunnels]
        ne assms(2) Inr by (simp add: client_ok_def 1 2)
    obtain mr r3 where 3: "merge_client now_text ?c r2 = (mr, r3)" by fastforce
    have ok3: "registry_ok md5_hex r3"
      using merge_client_renumbered [of r2 now_text ?c] by (auto simp: 3 intro: renumbered_ok [OF ok2])
    show ?thesis
    proof (cases mr)
      case (Inl e)
      with ne 1 2 3 \<open>res = Inr tunnels\<close> ok3 show ?thesis by (simp add: install_client_config_def)
    next
      case m: (Inr merged)
      have "client_ok ?v merged" using merge_client_ok [OF ok2, of ?c now_text merged] c 3 m by simp
      then have "client_ok ?v (merged\<lparr>rc_tunnels := expand_runtime_tunnels merged\<rparr>)"
        by (simp add: client_ok_def expand_owned)
      moreover have "registry_ok md5_hex (observe_id (rc_id merged) r3)" using ok3 by (rule ids_ok)
      ultimately have "registry_ok md5_hex ((observe_id (rc_id merged) r3)
          \<lparr>re_clients := hm_insert ?v (merged\<lparr>rc_tunnels := expand_runtime_tunnels merged\<rparr>) (re_clients (observe_id (rc_id merged) r3)),
           re_health_targets := hm_remove ?v (re_health_targets (observe_id (rc_id merged) r3))\<rparr>)"
        by (simp add: registry_ok_def)
      with start_tunnel_tasks_ok ok3 ne 1 2 3 \<open>res = Inr tunnels\<close> m show ?thesis
        by (simp add: install_client_config_def Let_def split: sum.split)
    qed
  qed
qed

text \<open>
  What the store must hold: the rules inside the record of a client, if any, carry its key.
  The records that \<open>save_all\<close> writes hold none.
\<close>

definition stored_ok :: "PersistentState \<Rightarrow> bool" where
  "stored_ok state \<longleftrightarrow> list_all (\<lambda>c. list_all (\<lambda>t. tn_client_vkey t = stored_vkey c) (rc_tunnels c)
     \<and> list_all (\<lambda>h. ho_client_vkey h = stored_vkey c) (rc_hosts c)) (ps_clients state)"

lemma saved_state_ok: "stored_ok (persistent_image clients global)"
  by (simp add: stored_ok_def persistent_image_def client_record_def list_all_iff)

abbreviation loading_ok :: "(string \<Rightarrow> string) \<Rightarrow> clients_map \<times> Registry \<Rightarrow> bool" where
  "loading_ok md5_hex st \<equiv> map_ok client_ok (fst st) \<and> registry_ok md5_hex (snd st)"

lemma load_client_ok:
  assumes "loading_ok md5_hex st" "list_all (\<lambda>t. tn_client_vkey t = stored_vkey c) (rc_tunnels c)"
    "list_all (\<lambda>h. ho_client_vkey h = stored_vkey c) (rc_hosts c)"
  shows "loading_ok md5_hex (load_client c st)"
  using assms
  by (auto simp: load_client_def Let_def case_prod_beta client_ok_def rc_vkey_update_def intro!: map_ok_insert ok_intros)

lemma load_rule_ok:
  assumes "loading_ok md5_hex st"
  shows "loading_ok md5_hex (load_tunnel t st)" "loading_ok md5_hex (load_host h st)"
proof -
  have "client_ok v c" if "hm_get (fst st) v = Some c" for v c
    using assms that by (auto dest: map_ok_get)
  with assms show "loading_ok md5_hex (load_tunnel t st)" "loading_ok md5_hex (load_host h st)"
    by (auto simp: load_tunnel_def load_host_def Let_def case_prod_beta client_ok_def split: option.split
        intro!: map_ok_insert ok_intros)
qed

lemma install_persistent_state_ok [ok_intros]:
  assumes "registry_ok md5_hex r" "stored_ok state"
  shows "registry_ok md5_hex (install_persistent_state md5_hex state r)"
proof -
  have keep: "loading_ok md5_hex (fold f xs st)"
    if "loading_ok md5_hex st" "\<And>x st. x \<in> set xs \<Longrightarrow> loading_ok md5_hex st \<Longrightarrow> loading_ok md5_hex (f x st)"
    for f :: "'x \<Rightarrow> clients_map \<times> Registry \<Rightarrow> clients_map \<times> Registry" and xs st
    using that by (induction xs arbitrary: st) auto
  let ?r = "r\<lparr>re_global := ps_global state\<rparr>"
  have "loading_ok md5_hex ([], ?r)" using assms(1) by (simp add: registry_ok_def)
  then have "loading_ok md5_hex (fold load_client (ps_clients state) ([], ?r))"
    by (rule keep) (rule load_client_ok, use assms(2) in \<open>auto simp: stored_ok_def list_all_iff\<close>)
  then have "loading_ok md5_hex (fold load_tunnel (ps_tunnels state) (fold load_client (ps_clients state) ([], ?r)))"
    by (rule keep) (rule load_rule_ok)
  then have "loading_ok md5_hex (loaded_clients state ?r)"
    unfolding loaded_clients_def by (rule keep) (rule load_rule_ok)
  moreover obtain m r1 where m: "loaded_clients state ?r = (m, r1)" by fastforce
  ultimately have "map_ok client_ok m" "registry_ok md5_hex r1" by simp_all
  then have "registry_ok md5_hex (r1\<lparr>re_clients := fold (\<lambda>(v, c). hm_insert v c) m (re_clients r1)\<rparr>)"
    by (simp add: registry_ok_def map_ok_fold_insert)
  then show ?thesis by (simp add: install_persistent_state_def m Let_def start_tunnel_tasks_ok)
qed

section \<open>Requests\<close>

lemma pending_ok [ok_intros]:
  assumes "registry_ok md5_hex r"
  shows "registry_ok md5_hex (forget_pending link_id r)"
    "registry_ok md5_hex (r\<lparr>re_pending := hm_insert link_id n (re_pending r)\<rparr>)"
  using assms by (simp_all add: registry_ok_def forget_pending_def inv_intros)

lemma request_finish_ok [ok_intros]:
  "registry_ok md5_hex r \<Longrightarrow> registry_ok md5_hex (snd (request_finish res wrap vkey link slot link_id r))"
  by (auto simp: request_finish_def Let_def case_prod_beta intro: ok_intros split: recv_result.split sum.split)

lemma request_step_ok [ok_intros]:
  assumes "registry_ok md5_hex r"
  shows "registry_ok md5_hex (snd (request_step now res wrap n q r))"
proof (cases q)
  case (Located vkey link slot control)
  with assms show ?thesis by (simp add: case_prod_beta pending_ok(2) ids_ok)
next
  case (Started vkey link)
  with assms access_ok(3) [OF assms, of now vkey "lk_remote_addr link"] show ?thesis
    by (cases "validate_client_access now vkey (lk_remote_addr link) r") (simp split: sum.split)
next
  case (Checked vkey link)
  with assms slots_ok(1) [OF assms, of vkey] show ?thesis
    by (cases "acquire_client_connection_slot vkey r") (simp split: sum.split)
next
  case (Queued vkey link slot control link_id)
  with assms queue_ok(1) [OF assms, of "ch_tx control" "MsgOpen link_id link"] show ?thesis
    by (cases "queue_send (ch_tx control) (MsgOpen link_id link) r") (auto intro: ok_intros split: bool.split)
qed (use assms in \<open>auto intro: ok_intros split: option.split\<close>)

lemma request_client_stream_ok [ok_intros]:
  assumes "registry_ok md5_hex r"
  shows "registry_ok md5_hex (snd (request_client_stream now res wrap n vkey link r))"
proof -
  have advance: "registry_ok md5_hex (snd (request_advance now res wrap n st))" if "registry_ok md5_hex (snd st)" for st
  proof -
    obtain q s where st: "st = (q, s)" by fastforce
    have "request_advance now res wrap n st = request_step now res wrap n q s \<or> request_advance now res wrap n st = st"
      unfolding request_advance_def st by (cases q) simp_all
    with that request_step_ok [of md5_hex s now res wrap n q] show ?thesis by (auto simp: st)
  qed
  have "snd (request_result st) = snd st" for st
    by (simp add: request_result_def case_prod_beta)
  then show ?thesis
    unfolding request_client_stream_def Let_def using assms by (simp add: advance del: request_advance_simps)
qed

section \<open>Greetings\<close>

lemma update_addr_ok [ok_intros]:
  assumes "registry_ok md5_hex r"
  shows "registry_ok md5_hex (update_client_last_online_addr vkey addr r)"
proof (cases "client_of vkey r")
  case (Some c)
  with client_of_ok [OF assms Some] assms show ?thesis
    by (simp add: update_client_last_online_addr_def client_ok_def clients_ok)
qed (use assms in \<open>simp add: update_client_last_online_addr_def\<close>)

text \<open>The registry a handler returns.\<close>

abbreviation hello_ok :: "(string \<Rightarrow> string) \<Rightarrow> hello_result \<Rightarrow> bool" where
  "hello_ok md5_hex res \<equiv> registry_ok md5_hex (snd (snd res))"

lemma reply_ok:
  assumes "registry_ok md5_hex r" "\<And>s. registry_ok md5_hex s \<Longrightarrow> hello_ok md5_hex (k s)"
  shows "hello_ok md5_hex (reply wr msg r k)"
  using assms by (auto simp: reply_def case_prod_beta split: sum.split)

lemma finish_ok: "registry_ok md5_hex r \<Longrightarrow> hello_ok md5_hex (finish r)"
  by (simp add: finish_def)

lemma with_handshake_ok:
  assumes "registry_ok md5_hex r" "\<And>s. registry_ok md5_hex s \<Longrightarrow> hello_ok md5_hex (k s)"
  shows "hello_ok md5_hex (with_handshake wr now vkey remote req r k)"
proof -
  obtain v s where v: "validate_client_handshake now vkey remote req r = (v, s)" by fastforce
  have "registry_ok md5_hex s" using access_ok(4) [OF assms(1)] by (metis v snd_conv)
  with assms(2) show ?thesis by (simp add: with_handshake_def v reply_ok finish_ok split: sum.split)
qed

lemma new_control_ok:
  "registry_ok md5_hex r \<Longrightarrow> ch_tx handle = length (re_queues r) \<Longrightarrow>
   registry_ok md5_hex (r\<lparr>re_queues := re_queues r @ [q], re_controls := hm_insert vkey handle (re_controls r)\<rparr>)"
  by (simp add: registry_ok_def)

lemma hello_control_ok: "registry_ok md5_hex r \<Longrightarrow> hello_ok md5_hex (hello_control wr now remote vkey version r)"
  unfolding hello_control_def Let_def
  by (auto intro!: with_handshake_ok reply_ok update_addr_ok new_control_ok)

lemma hello_mux_ok:
  assumes "registry_ok md5_hex r"
  shows "hello_ok md5_hex (hello_mux wr now remote session vkey r)"
proof -
  have "registry_ok md5_hex (snd (mux_policy vkey s))" if "registry_ok md5_hex s" for s
    using flow_ok(1) [OF that] by (simp add: mux_policy_def case_prod_beta)
  then have "hello_ok md5_hex (case mux_policy vkey s of (policy, r1) \<Rightarrow>
      (case session of Inl e \<Rightarrow> ([], Inl e, r1)
       | Inr n \<Rightarrow> ([], Inr (MuxLoop vkey n policy), r1\<lparr>re_mux_sessions := hm_insert vkey n (re_mux_sessions r1)\<rparr>)))"
    if "registry_ok md5_hex s" for s
    using that by (simp add: registry_ok_def case_prod_beta inv_intros split: sum.split)
  with assms show ?thesis unfolding hello_mux_def by (intro with_handshake_ok reply_ok)
qed

lemma hello_config_ok:
  assumes "registry_ok md5_hex r"
  shows "hello_ok md5_hex (hello_config wr now md5_hex now_text remote vkey config r)"
proof -
  define config2 where "config2 = (let config1 = if rc_vkey config = [] then rc_vkey_update vkey config else config
     in rc_info_update (\<lambda>i. i\<lparr>ci_verify_key := rc_vkey config1\<rparr>) config1)"
  have own: "ci_verify_key (rc_info config2) = rc_vkey config2"
    by (simp add: config2_def Let_def rc_info_update_def)
  have "hello_ok md5_hex (case install_client_config md5_hex now_text config2 s of
      (Inl e, r1) \<Rightarrow> ([], Inl e, r1)
    | (Inr _, r1) \<Rightarrow> reply wr (msg_ok ''config accepted'') (update_client_last_online_addr vkey remote r1) finish)"
    if "registry_ok md5_hex s" for s
    using install_client_config_ok [OF that own, of now_text]
    by (auto intro!: reply_ok finish_ok update_addr_ok split: prod.split sum.split)
  with assms show ?thesis
    unfolding hello_config_def Let_def config2_def [unfolded Let_def, symmetric] by (intro with_handshake_ok)
qed

lemma handle_bridge_conn_ok [ok_intros]:
  assumes "registry_ok md5_hex r" "he_md5_hex env = md5_hex"
  shows "hello_ok md5_hex (handle_bridge_conn env remote hello r)"
proof -
  have secret: "hello_ok md5_hex (handle_secret_visitor wr now md5_hex res wrap n password target remote r)" for wr now res wrap n password target
  proof (cases "secret_tunnel md5_hex password r")
    case (Some t)
    let ?q = "request_client_stream now res wrap n (tn_client_vkey t) (secret_link t target remote r) r"
    have "registry_ok md5_hex (snd ?q)" by (rule request_client_stream_ok [OF assms(1)])
    with Some show ?thesis
      by (cases ?q) (auto simp: handle_secret_visitor_def intro!: reply_ok finish_ok split: sum.split)
  qed (use assms in \<open>simp add: handle_secret_visitor_def reply_ok finish_ok\<close>)
  have "hello_ok md5_hex (hello_health wr now remote vkey target status r)" for wr now vkey target status
    unfolding hello_health_def using assms(1) by (auto intro!: with_handshake_ok reply_ok finish_ok health_ok(1))
  moreover have "hello_ok md5_hex (hello_data wr link_id r)" for wr link_id
    using assms(1) by (auto simp: hello_data_def intro!: reply_ok finish_ok pending_ok split: option.split)
  moreover have "hello_ok md5_hex (hello_register_ip wr now remote vkey hours r)" for wr now vkey hours
    using assms(1) by (auto simp: hello_register_ip_def intro!: reply_ok finish_ok access_ok split: sum.split)
  ultimately show ?thesis
    using assms secret hello_control_ok hello_mux_ok hello_config_ok
    by (cases hello) (simp_all add: handle_bridge_conn_def)
qed

lemma connection_ok [ok_intros]:
  assumes "registry_ok md5_hex r"
  shows "registry_ok md5_hex (snd (control_step wr open_tx vkey q r))"
    "registry_ok md5_hex (snd (mux_accept_one stream_id r))" "registry_ok md5_hex (mux_accept_end vkey r)"
  using assms
  by (auto simp: registry_ok_def control_step_def control_end_def mux_accept_one_def mux_accept_end_def forget_pending_def
      inv_intros Let_def split: list.split sum.split)

end
