(* ===== verification/Dashboard.thy ===== *)
theory Dashboard
  imports Console
begin

text \<open>
  What the web console reports: the rows of clients, tunnels and hosts, the figures of the
  dashboard, the history of the system monitor (\<open>src/server.rs\<close>) and the request handlers
  that answer with them (\<open>src/web.rs\<close>).  An answer is a \<open>json\<close> value; a handler that refuses
  gives the number of the HTTP status.

  A floating point number is only copied from the operating system to the answer: it is
  represented by the text the JSON library prints for it.  The history of the monitor,
  \<open>system_history\<close> of the registry, is a value of its own, oldest snapshot first.
\<close>

section \<open>Numbers and lists as JSON\<close>

abbreviation jnat :: "nat \<Rightarrow> json" where
  "jnat n \<equiv> JU64 (of_nat n)"

abbreviation jword :: "'a :: len word \<Rightarrow> json" where
  "jword x \<equiv> JU64 (ucast x)"

abbreviation jstrings :: "string list \<Rightarrow> json" where
  "jstrings xs \<equiv> JArray (map JString xs)"

section \<open>The system monitor\<close>

record SystemSnapshot =
  sn_time :: string
  sn_load1 :: string
  sn_load5 :: string
  sn_load15 :: string
  sn_cpu :: string
  sn_virtual_mem :: u64
  sn_total_mem :: u64
  sn_swap_mem :: u64
  sn_tcp :: usize
  sn_udp :: usize
  sn_io_send :: u64
  sn_io_recv :: u64

definition SystemSnapshot_default :: SystemSnapshot where
  "SystemSnapshot_default =
     \<lparr>sn_time = [], sn_load1 = ''0.0'', sn_load5 = ''0.0'', sn_load15 = ''0.0'', sn_cpu = ''0.0'',
      sn_virtual_mem = 0, sn_total_mem = 0, sn_swap_mem = 0, sn_tcp = 0, sn_udp = 0,
      sn_io_send = 0, sn_io_recv = 0\<rparr>"

text \<open>
  What a round of the monitor reads from the operating system: the clock, the load, memory
  in bytes and, for every network interface, the bytes sent and received since the start.
\<close>

record SystemSample =
  sm_time :: string
  sm_load1 :: string
  sm_load5 :: string
  sm_load15 :: string
  sm_cpu :: string
  sm_used_memory :: u64
  sm_total_memory :: u64
  sm_used_swap :: u64
  sm_networks :: "(u64 \<times> u64) list"

record Monitor =
  mo_last_send :: u64
  mo_last_recv :: u64
  mo_first_run :: bool
  mo_history :: "SystemSnapshot list"

definition Monitor_new :: Monitor where
  "Monitor_new = \<lparr>mo_last_send = 0, mo_last_recv = 0, mo_first_run = True, mo_history = []\<rparr>"

definition tunnels_of_mode :: "string \<Rightarrow> Registry \<Rightarrow> usize" where
  "tunnels_of_mode mode r =
     sum_list (map (\<lambda>c. length (filter (\<lambda>t. tn_mode t = mode) (rc_tunnels c))) (hm_values (re_clients r)))"

definition push_history :: "SystemSnapshot \<Rightarrow> SystemSnapshot list \<Rightarrow> SystemSnapshot list" where
  "push_history snapshot history =
     (if 10 \<le> length history then drop 1 history else history) @ [snapshot]"

definition monitor_snapshot :: "SystemSample \<Rightarrow> Registry \<Rightarrow> Monitor \<Rightarrow> SystemSnapshot" where
  "monitor_snapshot s r m =
     (let current_send = sum_list (map fst (sm_networks s)); current_recv = sum_list (map snd (sm_networks s))
      in \<lparr>sn_time = sm_time s, sn_load1 = sm_load1 s, sn_load5 = sm_load5 s, sn_load15 = sm_load15 s,
          sn_cpu = sm_cpu s, sn_virtual_mem = sm_used_memory s div 1024 div 1024,
          sn_total_mem = sm_total_memory s div 1024 div 1024, sn_swap_mem = sm_used_swap s div 1024 div 1024,
          sn_tcp = tunnels_of_mode ''tcp'' r, sn_udp = tunnels_of_mode ''udp'' r,
          sn_io_send = (if mo_first_run m then 0 else saturating_sub current_send (mo_last_send m) div 3),
          sn_io_recv = (if mo_first_run m then 0 else saturating_sub current_recv (mo_last_recv m) div 3)\<rparr>)"

definition system_monitor_round :: "SystemSample \<Rightarrow> Registry \<Rightarrow> Monitor \<Rightarrow> Monitor" where
  "system_monitor_round s r m =
     \<lparr>mo_last_send = sum_list (map fst (sm_networks s)), mo_last_recv = sum_list (map snd (sm_networks s)),
      mo_first_run = False, mo_history = push_history (monitor_snapshot s r m) (mo_history m)\<rparr>"

definition start_system_monitor :: "(SystemSample \<times> Registry) list \<Rightarrow> Monitor" where
  "start_system_monitor rounds = fold (\<lambda>(s, r). system_monitor_round s r) rounds Monitor_new"

section \<open>Health of a client\<close>

definition client_health_down_targets :: "string \<Rightarrow> Registry \<Rightarrow> string list" where
  "client_health_down_targets vkey r = removed_targets vkey r"

definition health_rule_json :: "string list \<Rightarrow> HealthCheck \<Rightarrow> json" where
  "health_rule_json removed health =
     JObject [(''Remark'', JString (hc_remark health)), (''Kind'', JString (hc_kind health)),
       (''IntervalSecs'', JU64 (hc_interval_secs health)), (''TimeoutSecs'', JU64 (hc_timeout_secs health)),
       (''MaxFailed'', jword (hc_max_failed health)), (''HttpUrl'', JString (hc_http_url health)),
       (''Targets'', jstrings (hc_targets health)),
       (''DownTargets'', jstrings (filter (\<lambda>t. t \<in> set removed) (hc_targets health))),
       (''UpTargets'', jstrings (filter (\<lambda>t. t \<notin> set removed) (hc_targets health)))]"

definition unique_targets :: "ClientRuntimeConfig \<Rightarrow> string list" where
  "unique_targets config = remdups (concat (map hc_targets (rc_healths config)))"

definition health_state :: "ClientRuntimeConfig \<Rightarrow> string list \<Rightarrow> string" where
  "health_state config down_targets =
     (if \<not> ci_status (rc_info config) then ''disabled''
      else if rc_healths config = [] then ''disabled''
      else if down_targets = [] then ''healthy''
      else ''degraded'')"

definition client_health_summary :: "Registry \<Rightarrow> string \<Rightarrow> ClientRuntimeConfig \<Rightarrow> json" where
  "client_health_summary r vkey config =
     (let removed = removed_targets vkey r;
          down_targets = sort (filter (\<lambda>t. t \<in> set removed) (unique_targets config))
      in JObject [(''State'', JString (health_state config down_targets)),
           (''RuleCount'', jnat (length (rc_healths config))),
           (''UniqueTargetCount'', jnat (length (unique_targets config))),
           (''DownCount'', jnat (length down_targets)),
           (''DownTargets'', jstrings down_targets),
           (''Rules'', JArray (map (health_rule_json removed) (rc_healths config)))])"

section \<open>Rows\<close>

definition flow_json :: "FlowCounter \<Rightarrow> u64 \<Rightarrow> json" where
  "flow_json flow limit =
     JObject [(''InletFlow'', JU64 (fc_inlet_flow flow)), (''ExportFlow'', JU64 (fc_export_flow flow)),
       (''FlowLimit'', JU64 limit)]"

definition cnf_json :: "ClientInfo \<Rightarrow> json" where
  "cnf_json info =
     JObject [(''U'', JString (ci_basic_username info)), (''P'', JString (ci_basic_password info)),
       (''Compress'', JBool (ci_compress info)), (''Crypt'', JBool (ci_crypt info))]"

definition command_json :: "Registry \<Rightarrow> json" where
  "command_json r =
     JObject [(''Server'', JString (sc_bridge_ip (re_server r) @ '':'' @ show_nat (unat (sc_bridge_port (re_server r))))),
       (''Host'', JString ''127.0.0.1'')]"

definition control_version :: "Registry \<Rightarrow> string \<Rightarrow> string" where
  "control_version r vkey = (case hm_get (re_controls r) vkey of None \<Rightarrow> [] | Some h \<Rightarrow> ch_version h)"

definition row_addr :: "Registry \<Rightarrow> string \<Rightarrow> ClientRuntimeConfig \<Rightarrow> string" where
  "row_addr r vkey config =
     (case hm_get (re_controls r) vkey of
        None \<Rightarrow> rc_last_online_addr config
      | Some h \<Rightarrow> if ch_remote_addr h \<noteq> [] then ch_remote_addr h else rc_last_online_addr config)"

definition client_row :: "Registry \<Rightarrow> string \<Rightarrow> ClientRuntimeConfig \<Rightarrow> json" where
  "client_row r vkey config =
     (let info = rc_info config
      in JObject [(''Id'', JU64 (rc_id config)), (''Remark'', JString (ci_remark info)),
           (''Version'', JString (control_version r vkey)), (''VerifyKey'', JString vkey),
           (''Addr'', JString (row_addr r vkey config)), (''Cnf'', cnf_json info),
           (''Flow'', flow_json (client_flow_snapshot vkey r) (ci_flow_limit_mb info)),
           (''Rate'', JObject [(''NowRate'', JU64 0)]), (''RateLimit'', JU64 (ci_rate_limit_kb info)),
           (''MaxConn'', jnat (ci_max_conn info)), (''NowConn'', jnat (client_now_conn vkey r)),
           (''Status'', JBool (ci_status info)), (''IsConnect'', JBool (hm_contains (re_controls r) vkey)),
           (''Health'', client_health_summary r vkey config), (''NoStore'', JBool (rc_no_store config)),
           (''NoDisplay'', JBool (rc_no_display config)), (''MaxTunnelNum'', jnat (ci_max_tunnel_num info)),
           (''WebUserName'', JString (ci_web_username info)), (''WebPassword'', JString (ci_web_password info)),
           (''ConfigConnAllow'', JBool (ci_config_conn_allow info)),
           (''BlackIpList'', jstrings (ci_black_ip_list info)), (''IpWhite'', JBool (ci_ip_white info)),
           (''IpWhitePass'', JString (ci_ip_white_pass info)), (''IpWhiteList'', jstrings (ci_ip_white_list info)),
           (''CreateTime'', JString (rc_create_time config)), (''LastOnlineTime'', JString (rc_last_online_time config)),
           (''LastOnlineAddr'', JString (rc_last_online_addr config)), (''Command'', command_json r)])"

definition client_rows :: "Registry \<Rightarrow> json list" where
  "client_rows r =
     List.map_filter (\<lambda>vkey. map_option (client_row r vkey) (client_of vkey r)) (sort (hm_keys (re_clients r)))"

definition client_json :: "Registry \<Rightarrow> u64 \<Rightarrow> string \<Rightarrow> ClientRuntimeConfig \<Rightarrow> bool \<Rightarrow> string \<Rightarrow> json" where
  "client_json r i vkey config online version =
     (let info = rc_info config
      in JObject [(''Id'', JU64 i), (''Remark'', JString (ci_remark info)), (''Version'', JString version),
           (''VerifyKey'', JString vkey), (''Status'', JBool (ci_status info)), (''IsConnect'', JBool online),
           (''Cnf'', cnf_json info), (''Health'', client_health_summary r vkey config),
           (''Flow'', flow_json (client_flow_snapshot vkey r) (ci_flow_limit_mb info))])"

definition target_json :: "Target \<Rightarrow> json" where
  "target_json target =
     JObject [(''TargetStr'', JString (tg_target_str target)), (''LocalProxy'', JBool (tg_local_proxy target))]"

definition row_client_json :: "Registry \<Rightarrow> string \<Rightarrow> ClientRuntimeConfig \<Rightarrow> json" where
  "row_client_json r vkey config =
     client_json r (rc_id config) vkey config (hm_contains (re_controls r) vkey) (control_version r vkey)"

definition tunnel_row :: "Registry \<Rightarrow> string \<Rightarrow> ClientRuntimeConfig \<Rightarrow> Tunnel \<Rightarrow> json" where
  "tunnel_row r vkey config t =
     JObject [(''Id'', JU64 (tn_id t)), (''ClientId'', JU64 (rc_id config)), (''Remark'', JString (tn_remark t)),
       (''Mode'', JString (if eq_ignore_ascii_case (tn_mode t) ''all'' then ''tcp'' else tn_mode t)),
       (''Port'', jword (tn_server_port t)), (''Ports'', JString (tn_ports t)),
       (''ServerIp'', JString (tn_server_ip t)), (''Target'', target_json (tn_target t)),
       (''Password'', JString (tn_password t)), (''Status'', JBool (tn_status t)),
       (''RunStatus'', JBool (tn_run_status t)), (''LocalPath'', JString (tn_local_path t)),
       (''StripPre'', JString (tn_strip_pre t)), (''ProtoVersion'', JString (tn_proto_version t)),
       (''Flow'', flow_json FlowCounter_default 0), (''Client'', row_client_json r vkey config),
       (''Command'', command_json r)]"

definition tunnel_rows :: "Registry \<Rightarrow> json list" where
  "tunnel_rows r =
     concat (map (\<lambda>vkey. case client_of vkey r of
                           None \<Rightarrow> []
                         | Some config \<Rightarrow> map (tunnel_row r vkey config) (rc_tunnels config))
                 (sort (hm_keys (re_clients r))))"

definition host_row :: "Registry \<Rightarrow> string \<Rightarrow> ClientRuntimeConfig \<Rightarrow> Host \<Rightarrow> json" where
  "host_row r vkey config h =
     JObject [(''Id'', JU64 (ho_id h)), (''ClientId'', JU64 (rc_id config)), (''Remark'', JString (ho_remark h)),
       (''Host'', JString (ho_host h)), (''Scheme'', JString (ho_scheme h)), (''Target'', target_json (ho_target h)),
       (''Location'', JString (ho_location h)), (''HeaderChange'', JString (ho_header_change h)),
       (''HostChange'', JString (ho_host_change h)), (''ProtoVersion'', JString (ho_proto_version h)),
       (''IsClose'', JBool (ho_is_close h)), (''CertFilePath'', JString (ho_cert_file_path h)),
       (''KeyFilePath'', JString (ho_key_file_path h)), (''Flow'', flow_json FlowCounter_default 0),
       (''Client'', row_client_json r vkey config)]"

definition host_rows :: "Registry \<Rightarrow> json list" where
  "host_rows r =
     concat (map (\<lambda>vkey. case client_of vkey r of
                           None \<Rightarrow> []
                         | Some config \<Rightarrow> map (host_row r vkey config) (rc_hosts config))
                 (sort (hm_keys (re_clients r))))"

section \<open>Filters and pages\<close>

text \<open>\<open>row[key]\<close> is null where the row has no such field.\<close>

definition json_index :: "json \<Rightarrow> string \<Rightarrow> json" where
  "json_index row key = (case json_get row key of None \<Rightarrow> JNull | Some v \<Rightarrow> v)"

definition field_contains :: "json \<Rightarrow> string \<Rightarrow> string \<Rightarrow> bool" where
  "field_contains row key search = str_contains (to_ascii_lowercase (value_string row key)) search"

definition page_slice :: "params \<Rightarrow> json list \<Rightarrow> json list" where
  "page_slice params rows =
     (let offset = param_usize params ''offset'';
          limit = (case parse_usize (param params ''limit'') of None \<Rightarrow> max (length rows) 1 | Some n \<Rightarrow> n)
      in take limit (drop offset rows))"

definition rows_json :: "params \<Rightarrow> json list \<Rightarrow> json" where
  "rows_json params filtered =
     JObject [(''rows'', JArray (page_slice params filtered)), (''total'', jnat (length filtered))]"

definition client_row_shown :: "params \<Rightarrow> json \<Rightarrow> bool" where
  "client_row_shown params row =
     (let search = to_ascii_lowercase (param params ''search''); client_id = param_id params ''client_id'' 0
      in (client_id = 0 \<or> value_u64 row ''Id'' = client_id)
         \<and> (search = [] \<or> field_contains row ''Remark'' search \<or> field_contains row ''VerifyKey'' search))"

definition client_rows_json :: "Registry \<Rightarrow> params \<Rightarrow> json" where
  "client_rows_json r params = rows_json params (filter (client_row_shown params) (client_rows r))"

definition tunnel_row_shown :: "params \<Rightarrow> json \<Rightarrow> bool" where
  "tunnel_row_shown params row =
     (let type_filter = param params ''type''; client_id = param_id params ''client_id'' 0;
          search = to_ascii_lowercase (param params ''search'')
      in (type_filter = [] \<or> value_string row ''Mode'' = type_filter)
         \<and> (client_id = 0 \<or> value_u64 (json_index row ''Client'') ''Id'' = client_id)
         \<and> (search = [] \<or> field_contains row ''Remark'' search
             \<or> field_contains (json_index row ''Target'') ''TargetStr'' search))"

definition tunnel_rows_json :: "Registry \<Rightarrow> params \<Rightarrow> json" where
  "tunnel_rows_json r params = rows_json params (filter (tunnel_row_shown params) (tunnel_rows r))"

definition host_row_shown :: "params \<Rightarrow> json \<Rightarrow> bool" where
  "host_row_shown params row =
     (let client_id = param_id params ''client_id'' 0; search = to_ascii_lowercase (param params ''search'')
      in (client_id = 0 \<or> value_u64 (json_index row ''Client'') ''Id'' = client_id)
         \<and> (search = [] \<or> field_contains row ''Host'' search \<or> field_contains row ''Remark'' search))"

definition host_rows_json :: "Registry \<Rightarrow> params \<Rightarrow> json" where
  "host_rows_json r params = rows_json params (filter (host_row_shown params) (host_rows r))"

section \<open>The dashboard\<close>

definition scoped_clients :: "u64 option \<Rightarrow> Registry \<Rightarrow> ClientRuntimeConfig list" where
  "scoped_clients scope r =
     filter (\<lambda>c. case scope of None \<Rightarrow> True | Some i \<Rightarrow> rc_id c = i) (hm_values (re_clients r))"

definition scoped_tunnels :: "u64 option \<Rightarrow> Registry \<Rightarrow> Tunnel list" where
  "scoped_tunnels scope r = concat (map rc_tunnels (scoped_clients scope r))"

definition scoped_hosts :: "u64 option \<Rightarrow> Registry \<Rightarrow> Host list" where
  "scoped_hosts scope r = concat (map rc_hosts (scoped_clients scope r))"

definition mode_count :: "string \<Rightarrow> u64 option \<Rightarrow> Registry \<Rightarrow> nat" where
  "mode_count mode scope r = length (filter (\<lambda>t. eq_ignore_ascii_case (tn_mode t) mode) (scoped_tunnels scope r))"

definition online_clients :: "time \<Rightarrow> u64 option \<Rightarrow> Registry \<Rightarrow> json list" where
  "online_clients now scope r =
     map (\<lambda>(vkey, handle).
            JObject [(''vkey'', JString vkey), (''version'', JString (ch_version handle)),
              (''connectedSeconds'', jnat ((now - ch_connected_at handle) div secs 1))])
       (filter (\<lambda>(vkey, handle). case client_of vkey r of
                                   None \<Rightarrow> False
                                 | Some c \<Rightarrow> (case scope of None \<Rightarrow> True | Some i \<Rightarrow> rc_id c = i))
         (re_controls r))"

definition scoped_flow :: "u64 option \<Rightarrow> Registry \<Rightarrow> u64 \<times> u64" where
  "scoped_flow scope r =
     fold (\<lambda>c (inlet, export).
             let flow = client_flow_snapshot (rc_vkey c) r
             in (saturating_add inlet (fc_inlet_flow flow), saturating_add export (fc_export_flow flow)))
       (scoped_clients scope r) (0, 0)"

definition health_clients :: "u64 option \<Rightarrow> Registry \<Rightarrow> json list" where
  "health_clients scope r =
     List.map_filter
       (\<lambda>c. let health = client_health_summary r (rc_vkey c) c
            in if value_u64 health ''RuleCount'' = 0 then None
               else Some (JObject [(''Id'', JU64 (rc_id c)), (''Remark'', JString (ci_remark (rc_info c))),
                      (''VerifyKey'', JString (rc_vkey c)), (''Health'', health)]))
       (scoped_clients scope r)"

definition health_total :: "string \<Rightarrow> json list \<Rightarrow> nat" where
  "health_total key entries =
     sum_list (map (\<lambda>entry. unat (value_u64 (json_index entry ''Health'') key)) entries)"

definition snapshot_json :: "SystemSnapshot \<Rightarrow> json" where
  "snapshot_json s =
     JObject [(''time'', JString (sn_time s)), (''load1'', JNumber (sn_load1 s)), (''load5'', JNumber (sn_load5 s)),
       (''load15'', JNumber (sn_load15 s)), (''cpu'', JNumber (sn_cpu s)), (''virtual_mem'', JU64 (sn_virtual_mem s)),
       (''total_mem'', JU64 (sn_total_mem s)), (''swap_mem'', JU64 (sn_swap_mem s)), (''tcp'', jnat (sn_tcp s)),
       (''udp'', jnat (sn_udp s)), (''io_send'', JU64 (sn_io_send s)), (''io_recv'', JU64 (sn_io_recv s))]"

definition loads_text :: "SystemSnapshot \<Rightarrow> string" where
  "loads_text s = ''['' @ sn_load1 s @ '','' @ sn_load5 s @ '','' @ sn_load15 s @ '']''"

definition history_fields :: "SystemSnapshot list \<Rightarrow> (string \<times> json) list" where
  "history_fields history =
     map (\<lambda>i. (''sys'' @ show_nat i,
               snapshot_json (if i - 1 < length history then history ! (i - 1) else SystemSnapshot_default)))
       [1..<11]"

definition latest_snapshot :: "SystemSnapshot list \<Rightarrow> SystemSnapshot" where
  "latest_snapshot history = (if history = [] then SystemSnapshot_default else last history)"

definition count_fields :: "time \<Rightarrow> u64 option \<Rightarrow> Registry \<Rightarrow> (string \<times> json) list" where
  "count_fields now scope r =
     (let clients = scoped_clients scope r; tunnels = scoped_tunnels scope r; hosts = scoped_hosts scope r;
          online = online_clients now scope r;
          client_enabled = length (filter (\<lambda>c. ci_status (rc_info c)) clients);
          active_tunnels = length (filter (\<lambda>t. tn_status t \<and> tn_run_status t) tunnels);
          active_hosts = length (filter (\<lambda>h. \<not> ho_is_close h) hosts);
          (inlet_flow, export_flow) = scoped_flow scope r;
          health = health_clients scope r
      in [(''clientCount'', jnat (length clients)), (''clientOnlineCount'', jnat (length online)),
          (''onlineClients'', JArray online), (''clientEnabledCount'', jnat client_enabled),
          (''clientDisabledCount'', jnat (length clients - client_enabled)),
          (''hostCount'', jnat (length hosts)), (''activeHostCount'', jnat active_hosts),
          (''inactiveHostCount'', jnat (length hosts - active_hosts)),
          (''tunnelCount'', jnat (length tunnels)), (''activeTunnelCount'', jnat active_tunnels),
          (''inactiveTunnelCount'', jnat (length tunnels - active_tunnels)),
          (''tcpC'', jnat (mode_count ''tcp'' scope r)), (''udpCount'', jnat (mode_count ''udp'' scope r)),
          (''socks5Count'', jnat (mode_count ''socks5'' scope r)),
          (''httpProxyCount'', jnat (mode_count ''httpProxy'' scope r)),
          (''secretCount'', jnat (mode_count ''secret'' scope r)), (''p2pCount'', jnat (mode_count ''p2p'' scope r)),
          (''inletFlowCount'', JU64 inlet_flow), (''exportFlowCount'', JU64 export_flow),
          (''healthClientCount'', jnat (length health)),
          (''healthRuleCount'', jnat (health_total ''RuleCount'' health)),
          (''healthTargetCount'', jnat (health_total ''UniqueTargetCount'' health)),
          (''healthDownCount'', jnat (health_total ''DownCount'' health)), (''healthClients'', JArray health),
          (''tcpCount'', jnat (mode_count ''tcp'' scope r))])"

definition dashboard_json_scoped ::
  "time \<Rightarrow> SystemSnapshot list \<Rightarrow> Registry \<Rightarrow> u64 option \<Rightarrow> json" where
  "dashboard_json_scoped now history r scope =
     (let latest = latest_snapshot history; server = re_server r
      in JObject ([(''version'', JString VERSION), (''coreVersion'', JString CORE_VERSION)]
           @ count_fields now scope r
           @ [(''cpu'', JNumber (sn_cpu latest)), (''virtual_mem'', JU64 (sn_virtual_mem latest)),
              (''total_mem'', JU64 (sn_total_mem latest)), (''load'', JString (loads_text latest)),
              (''tcp'', jnat (sn_tcp latest)), (''udp'', jnat (sn_udp latest)),
              (''io_send'', JU64 (sn_io_send latest)), (''io_recv'', JU64 (sn_io_recv latest)),
              (''bridgeType'', JString (sc_bridge_type server)),
              (''httpProxyPort'', jword (sc_http_proxy_port server)),
              (''httpsProxyPort'', jword (sc_https_proxy_port server)), (''ipLimit'', JBool (sc_ip_limit server)),
              (''flowStoreInterval'', JU64 0), (''p2pPort'', jword (sc_p2p_port server)),
              (''serverIp'', JString (sc_p2p_ip server)), (''logLevel'', JU64 6)]
           @ history_fields history))"

section \<open>Handlers\<close>

definition list_api :: "(Registry \<Rightarrow> params \<Rightarrow> json) \<Rightarrow> Registry \<Rightarrow> string option \<Rightarrow> params \<Rightarrow> nat + json" where
  "list_api rows r cookie params =
     (case current_session r cookie of
        None \<Rightarrow> Inl 401
      | Some session \<Rightarrow> Inr (rows r (scoped_params session params)))"

definition handle_client_list_api :: "Registry \<Rightarrow> string option \<Rightarrow> params \<Rightarrow> nat + json" where
  "handle_client_list_api = list_api client_rows_json"

definition handle_host_list_api :: "Registry \<Rightarrow> string option \<Rightarrow> params \<Rightarrow> nat + json" where
  "handle_host_list_api = list_api host_rows_json"

definition handle_tunnel_list_api :: "Registry \<Rightarrow> string option \<Rightarrow> params \<Rightarrow> nat + json" where
  "handle_tunnel_list_api = list_api tunnel_rows_json"

definition handle_dashboard_api ::
  "time \<Rightarrow> SystemSnapshot list \<Rightarrow> Registry \<Rightarrow> string option \<Rightarrow> nat + json" where
  "handle_dashboard_api now history r cookie =
     (case current_session r cookie of
        None \<Rightarrow> Inl 401
      | Some session \<Rightarrow> Inr (dashboard_json_scoped now history r (scope_client_id session)))"

section \<open>The history of the monitor\<close>

text \<open>The snapshots of all rounds, in order; the monitor keeps the last ten.\<close>

fun snapshots :: "(SystemSample \<times> Registry) list \<Rightarrow> Monitor \<Rightarrow> SystemSnapshot list" where
  "snapshots [] m = []"
| "snapshots ((s, r) # rounds) m = monitor_snapshot s r m # snapshots rounds (system_monitor_round s r m)"

definition last_ten :: "'a list \<Rightarrow> 'a list" where
  "last_ten xs = drop (length xs - 10) xs"

lemma push_history_last_ten: "push_history x (last_ten xs) = last_ten (xs @ [x])"
proof (cases "10 \<le> length xs")
  case True
  then have "Suc (length xs - 10) = Suc (length xs) - 10" by simp
  with True show ?thesis by (simp add: push_history_def last_ten_def del: diff_Suc_Suc)
next
  case False
  then show ?thesis by (simp add: push_history_def last_ten_def)
qed

lemma monitor_history:
  "mo_history m = last_ten xs \<Longrightarrow>
     mo_history (fold (\<lambda>(s, r). system_monitor_round s r) rounds m) = last_ten (xs @ snapshots rounds m)"
proof (induction rounds m arbitrary: xs rule: snapshots.induct)
  case (1 m)
  then show ?case by simp
next
  case (2 s r rounds m)
  have "mo_history (system_monitor_round s r m) = last_ten (xs @ [monitor_snapshot s r m])"
    by (simp add: system_monitor_round_def 2(2) push_history_last_ten)
  from 2(1) [OF this] show ?case by simp
qed

section \<open>What a client owns\<close>

text \<open>The one client with an id, and the part of the state that belongs to it.\<close>

definition only_client :: "u64 \<Rightarrow> string \<Rightarrow> ClientRuntimeConfig \<Rightarrow> Registry \<Rightarrow> bool" where
  "only_client i v c r \<longleftrightarrow> hm_ok (re_clients r) \<and> filter (\<lambda>(k, d). rc_id d = i) (re_clients r) = [(v, c)]"

definition same_entries :: "string \<Rightarrow> Registry \<Rightarrow> Registry \<Rightarrow> bool" where
  "same_entries k r r' \<longleftrightarrow>
     hm_get (re_controls r) k = hm_get (re_controls r') k
     \<and> hm_get (re_flow_counters r) k = hm_get (re_flow_counters r') k
     \<and> hm_get (re_conn_counts r) k = hm_get (re_conn_counts r') k
     \<and> hm_get (re_health_targets r) k = hm_get (re_health_targets r') k"

definition same_view :: "u64 \<Rightarrow> Registry \<Rightarrow> Registry \<Rightarrow> bool" where
  "same_view i r r' \<longleftrightarrow>
     re_server r = re_server r' \<and> re_sessions r = re_sessions r'
     \<and> hm_ok (re_controls r) \<and> hm_ok (re_controls r')
     \<and> (\<exists>v c. only_client i v c r \<and> only_client i v c r' \<and> same_entries v r r' \<and> same_entries (rc_vkey c) r r')"

lemma only_client_get:
  assumes "only_client i v c r"
  shows "client_of v r = Some c" "rc_id c = i" "v \<in> set (hm_keys (re_clients r))"
proof -
  have "(v, c) \<in> set (filter (\<lambda>(k, d). rc_id d = i) (re_clients r))"
    using assms by (simp add: only_client_def)
  then have "(v, c) \<in> set (re_clients r) \<and> rc_id c = i" by simp
  then show "client_of v r = Some c" "rc_id c = i" "v \<in> set (hm_keys (re_clients r))"
    using assms by (force simp: only_client_def hm_keys_def intro: hm_ok_get)+
qed

lemma only_client_other:
  assumes "only_client i v c r" "client_of k r = Some d" "rc_id d = i"
  shows "k = v"
proof -
  have "(k, d) \<in> set (filter (\<lambda>(k, d). rc_id d = i) (re_clients r))"
    using assms(2,3) by (auto dest: map_of_SomeD)
  then have "(k, d) \<in> set [(v, c)]" using assms(1) unfolding only_client_def by (metis (no_types, lifting))
  then show ?thesis by simp
qed

lemma only_client_keys: "only_client i v c r \<Longrightarrow> distinct (sort (hm_keys (re_clients r)))"
  by (simp add: only_client_def hm_ok_def hm_keys_def)

lemma concat_only:
  assumes "distinct ks" "v \<in> set ks" "\<And>k. k \<in> set ks \<Longrightarrow> k \<noteq> v \<Longrightarrow> f k = []"
  shows "concat (map f ks) = f v"
  using assms
proof (induction ks)
  case (Cons k ks)
  show ?case
  proof (cases "k = v")
    case True
    then have "concat (map f ks) = []" using Cons.prems(1,3) by auto
    with True show ?thesis by simp
  next
    case False
    with Cons show ?thesis by simp
  qed
qed simp

lemma hm_ok_filter_key:
  "hm_ok m \<Longrightarrow> filter (\<lambda>(k, h). k = v) m = (case hm_get m v of None \<Rightarrow> [] | Some h \<Rightarrow> [(v, h)])"
proof (induction m)
  case (Cons kh m)
  obtain k h where kh: "kh = (k, h)" by (cases kh)
  have "hm_get m k = None" using Cons.prems by (simp add: kh hm_ok_def map_of_eq_None_iff)
  with Cons show ?case by (auto simp: kh hm_ok_def split: option.split)
qed (simp)

text \<open>
  The rows of one kind: each client contributes its own, tells its id in each of them and
  looks at nothing but its own part of the state.
\<close>

locale owned_rows =
  fixes rows :: "Registry \<Rightarrow> json list"
    and owner :: "json \<Rightarrow> u64"
    and rows_of :: "Registry \<Rightarrow> string \<Rightarrow> ClientRuntimeConfig \<Rightarrow> json list"
  assumes rows_split:
      "rows r = concat (map (\<lambda>v. case client_of v r of None \<Rightarrow> [] | Some c \<Rightarrow> rows_of r v c)
                         (sort (hm_keys (re_clients r))))"
    and owner_of: "row \<in> set (rows_of r v c) \<Longrightarrow> owner row = rc_id c"
    and rows_of_cong: "re_server r = re_server r' \<Longrightarrow> same_entries v r r' \<Longrightarrow> rows_of r v c = rows_of r' v c"
begin

lemma own_rows:
  assumes "only_client i v c r"
  shows "filter (\<lambda>row. owner row = i \<and> P row) (rows r) = filter P (rows_of r v c)"
proof -
  let ?Q = "\<lambda>row. owner row = i \<and> P row"
  let ?f = "\<lambda>k. case client_of k r of None \<Rightarrow> [] | Some d \<Rightarrow> rows_of r k d"
  have none: "filter ?Q (?f k) = []" if "k \<noteq> v" for k
  proof (cases "client_of k r")
    case (Some d)
    with that only_client_other [OF assms, of k d] have "rc_id d \<noteq> i" by blast
    with Some show ?thesis by (auto simp: filter_empty_conv dest: owner_of)
  qed simp
  have "filter ?Q (rows r) = concat (map (\<lambda>k. filter ?Q (?f k)) (sort (hm_keys (re_clients r))))"
    by (subst rows_split) (simp add: filter_concat o_def)
  also have "\<dots> = filter ?Q (?f v)"
    using only_client_keys [OF assms] only_client_get(3) [OF assms] none by (intro concat_only) simp_all
  also have "\<dots> = filter P (rows_of r v c)"
    using only_client_get(1,2) [OF assms] by (auto intro!: filter_cong dest: owner_of)
  finally show ?thesis .
qed

lemma own_rows_view:
  assumes "same_view i r r'"
  shows "filter (\<lambda>row. owner row = i \<and> P row) (rows r) = filter (\<lambda>row. owner row = i \<and> P row) (rows r')"
proof -
  obtain v c where "only_client i v c r" "only_client i v c r'" "same_entries v r r'" "re_server r = re_server r'"
    using assms by (auto simp: same_view_def)
  then show ?thesis by (simp add: own_rows rows_of_cong)
qed

end

lemma same_entries_cong:
  assumes "same_entries v r r'"
  shows "control_version r v = control_version r' v" "row_addr r v c = row_addr r' v c"
    "client_flow_snapshot v r = client_flow_snapshot v r'" "client_now_conn v r = client_now_conn v r'"
    "hm_contains (re_controls r) v = hm_contains (re_controls r') v" "removed_targets v r = removed_targets v r'"
    "client_health_summary r v c = client_health_summary r' v c"
  using assms
  by (simp_all add: same_entries_def control_version_def row_addr_def client_flow_snapshot_def client_now_conn_def
      hm_contains_def removed_targets_def client_health_summary_def)

lemma row_client_json_cong: "same_entries v r r' \<Longrightarrow> row_client_json r v c = row_client_json r' v c"
  by (simp add: row_client_json_def client_json_def same_entries_cong [of v r r'] Let_def)

lemma command_json_cong: "re_server r = re_server r' \<Longrightarrow> command_json r = command_json r'"
  by (simp add: command_json_def)

definition row_client :: "json \<Rightarrow> u64" where
  "row_client row = value_u64 (json_index row ''Client'') ''Id''"

definition row_id :: "json \<Rightarrow> u64" where
  "row_id row = value_u64 row ''Id''"

lemma row_owners:
  "row_id (client_row r v c) = rc_id c" "row_client (tunnel_row r v c t) = rc_id c"
  "row_client (host_row r v c h) = rc_id c"
  by (simp_all add: row_id_def row_client_def client_row_def tunnel_row_def host_row_def row_client_json_def
      client_json_def json_index_def value_u64_def Let_def)

lemma map_filter_rows:
  "List.map_filter (\<lambda>v. map_option (f v) (g v)) vs = concat (map (\<lambda>v. case g v of None \<Rightarrow> [] | Some c \<Rightarrow> [f v c]) vs)"
  by (induction vs) (auto split: option.split)

interpretation clients: owned_rows client_rows row_id "\<lambda>r v c. [client_row r v c]"
proof unfold_locales
  fix r
  show "client_rows r = concat (map (\<lambda>v. case client_of v r of None \<Rightarrow> [] | Some c \<Rightarrow> [client_row r v c])
      (sort (hm_keys (re_clients r))))"
    unfolding client_rows_def by (rule map_filter_rows)
next
  fix r r' v c assume "re_server r = re_server r'" "same_entries v r r'"
  then show "[client_row r v c] = [client_row r' v c]"
    by (simp add: client_row_def same_entries_cong [of v r r'] command_json_cong [of r r'] Let_def)
qed (simp add: row_owners)

interpretation tunnels: owned_rows tunnel_rows row_client "\<lambda>r v c. map (tunnel_row r v c) (rc_tunnels c)"
proof unfold_locales
  fix r r' v c assume "re_server r = re_server r'" "same_entries v r r'"
  then show "map (tunnel_row r v c) (rc_tunnels c) = map (tunnel_row r' v c) (rc_tunnels c)"
    by (simp add: tunnel_row_def row_client_json_cong [of v r r'] command_json_cong [of r r'])
qed (auto simp: tunnel_rows_def row_owners)

interpretation hosts: owned_rows host_rows row_client "\<lambda>r v c. map (host_row r v c) (rc_hosts c)"
proof unfold_locales
  fix r r' v c assume "re_server r = re_server r'" "same_entries v r r'"
  then show "map (host_row r v c) (rc_hosts c) = map (host_row r' v c) (rc_hosts c)"
    by (simp add: host_row_def row_client_json_cong [of v r r'])
qed (auto simp: host_rows_def row_owners)

lemma own_values:
  assumes "only_client i v c r"
  shows "filter (\<lambda>d. rc_id d = i) (hm_values (re_clients r)) = [c]" "c \<in> set (hm_values (re_clients r))"
proof -
  have "filter (\<lambda>d. rc_id d = i) (hm_values (re_clients r)) = map snd (filter (\<lambda>(k, d). rc_id d = i) (re_clients r))"
    by (simp add: hm_values_def filter_map o_def split_def)
  with assms show "filter (\<lambda>d. rc_id d = i) (hm_values (re_clients r)) = [c]" by (simp add: only_client_def)
  show "c \<in> set (hm_values (re_clients r))"
    using only_client_get(1) [OF assms] by (rule hm_get_values)
qed

lemma scoped_clients_own: "only_client i v c r \<Longrightarrow> scoped_clients (Some i) r = [c]"
  by (simp add: scoped_clients_def own_values(1))

lemma own_online:
  assumes "only_client i v c r" "hm_ok (re_controls r)"
  shows "filter (\<lambda>(k, h). case client_of k r of None \<Rightarrow> False | Some d \<Rightarrow> (case Some i of None \<Rightarrow> True | Some j \<Rightarrow> rc_id d = j))
           (re_controls r) = (case hm_get (re_controls r) v of None \<Rightarrow> [] | Some h \<Rightarrow> [(v, h)])"
proof -
  have "(case client_of k r of None \<Rightarrow> False | Some d \<Rightarrow> (case Some i of None \<Rightarrow> True | Some j \<Rightarrow> rc_id d = j)) \<longleftrightarrow> k = v" for k
    using only_client_get [OF assms(1)] only_client_other [OF assms(1), of k] by (auto split: option.split)
  then show ?thesis by (simp only: hm_ok_filter_key [OF assms(2)])
qed

text \<open>The figures of the dashboard, in the scope of one client.\<close>

lemma dashboard_view:
  assumes "same_view i r r'"
  shows "dashboard_json_scoped now history r (Some i) = dashboard_json_scoped now history r' (Some i)"
proof -
  obtain v c where own: "only_client i v c r" "only_client i v c r'"
    and same: "same_entries v r r'" "same_entries (rc_vkey c) r r'" "re_server r = re_server r'"
    and ok: "hm_ok (re_controls r)" "hm_ok (re_controls r')"
    using assms by (auto simp: same_view_def)
  note clients = scoped_clients_own [OF own(1)] scoped_clients_own [OF own(2)]
  have tunnels: "scoped_tunnels (Some i) r = scoped_tunnels (Some i) r'" "scoped_hosts (Some i) r = scoped_hosts (Some i) r'"
    by (simp_all only: scoped_tunnels_def scoped_hosts_def clients)
  have flow: "scoped_flow (Some i) r = scoped_flow (Some i) r'"
    by (simp add: scoped_flow_def clients same_entries_cong(3) [OF same(2)])
  have health: "health_clients (Some i) r = health_clients (Some i) r'"
    by (simp only: health_clients_def clients List.map_filter_simps same_entries_cong(7) [OF same(2)])
  have "hm_get (re_controls r) v = hm_get (re_controls r') v" using same(1) by (simp add: same_entries_def)
  then have online: "online_clients now (Some i) r = online_clients now (Some i) r'"
    by (simp only: online_clients_def own_online [OF own(1) ok(1)] own_online [OF own(2) ok(2)])
  have modes: "mode_count mode (Some i) r = mode_count mode (Some i) r'" for mode
    by (simp only: mode_count_def tunnels)
  have "count_fields now (Some i) r = count_fields now (Some i) r'"
    by (simp only: count_fields_def clients tunnels flow health online modes)
  then show ?thesis by (simp only: dashboard_json_scoped_def same(3))
qed

text \<open>The rows, when the parameters ask for one client.\<close>

lemma rows_json_view:
  assumes "same_view i r r'" "i \<noteq> 0" "param_id p ''client_id'' 0 = i"
  shows "client_rows_json r p = client_rows_json r' p" "tunnel_rows_json r p = tunnel_rows_json r' p"
    "host_rows_json r p = host_rows_json r' p"
proof -
  let ?search = "to_ascii_lowercase (param p ''search'')" and ?type = "param p ''type''"
  have "client_row_shown p = (\<lambda>row. row_id row = i \<and> (?search = [] \<or> field_contains row ''Remark'' ?search
      \<or> field_contains row ''VerifyKey'' ?search))"
    using assms(2,3) by (auto simp: client_row_shown_def row_id_def Let_def)
  then show "client_rows_json r p = client_rows_json r' p"
    by (simp only: client_rows_json_def clients.own_rows_view [OF assms(1)])
  have "tunnel_row_shown p = (\<lambda>row. row_client row = i \<and> (?type = [] \<or> value_string row ''Mode'' = ?type)
      \<and> (?search = [] \<or> field_contains row ''Remark'' ?search
        \<or> field_contains (json_index row ''Target'') ''TargetStr'' ?search))"
    using assms(2,3) by (auto simp: tunnel_row_shown_def row_client_def Let_def)
  then show "tunnel_rows_json r p = tunnel_rows_json r' p"
    by (simp only: tunnel_rows_json_def tunnels.own_rows_view [OF assms(1)])
  have "host_row_shown p = (\<lambda>row. row_client row = i \<and> (?search = [] \<or> field_contains row ''Host'' ?search
      \<or> field_contains row ''Remark'' ?search))"
    using assms(2,3) by (auto simp: host_row_shown_def row_client_def Let_def)
  then show "host_rows_json r p = host_rows_json r' p"
    by (simp only: host_rows_json_def hosts.own_rows_view [OF assms(1)])
qed

text \<open>The session of a user: no administrator, and bound to a client.\<close>

definition user_session :: "u64 \<Rightarrow> string option \<Rightarrow> Registry \<Rightarrow> bool" where
  "user_session i cookie r =
     (case current_session r cookie of
        None \<Rightarrow> False
      | Some s \<Rightarrow> \<not> ws_is_admin s \<and> ws_client_id s = Some i)"

lemma user_session_Some:
  assumes "user_session i cookie r"
  obtains s where "current_session r cookie = Some s" "\<not> ws_is_admin s" "ws_client_id s = Some i"
  using assms by (auto simp: user_session_def split: option.splits)

lemma same_view_session:
  "same_view i r r' \<Longrightarrow> current_session r' cookie = current_session r cookie"
  by (auto simp: same_view_def current_session_def split: option.split)

lemma scoped_params_user:
  assumes "\<not> ws_is_admin s" "ws_client_id s = Some i"
  shows "param_id (scoped_params s p) ''client_id'' 0 = i"
  using assms by (simp add: scoped_params_def)

lemma list_api_view:
  assumes "same_view i r r'" "i \<noteq> 0" "user_session i cookie r"
  shows "handle_client_list_api r' cookie p = handle_client_list_api r cookie p"
    "handle_tunnel_list_api r' cookie p = handle_tunnel_list_api r cookie p"
    "handle_host_list_api r' cookie p = handle_host_list_api r cookie p"
  using assms(3) same_view_session [OF assms(1)]
  by (auto elim!: user_session_Some simp: handle_client_list_api_def handle_tunnel_list_api_def
      handle_host_list_api_def list_api_def rows_json_view [OF assms(1,2) scoped_params_user])

lemma dashboard_api_view:
  assumes "same_view i r r'" "user_session i cookie r"
  shows "handle_dashboard_api now history r' cookie = handle_dashboard_api now history r cookie"
  using assms(2) same_view_session [OF assms(1)] dashboard_view [OF assms(1)]
  by (auto elim!: user_session_Some simp: handle_dashboard_api_def scope_client_id_def)

section \<open>Pages of rows\<close>

text \<open>
  Pages of the same size follow one another: together they show every row that passed the
  filter, once and in order, and each of them tells how many there are.
\<close>

lemma take_drop_tile:
  "0 < n \<Longrightarrow> length xs \<le> n * k \<Longrightarrow> concat (map (\<lambda>j. take n (drop (j * n) xs)) [0..<k]) = xs"
proof (induction k arbitrary: xs)
  case (Suc k)
  have "concat (map (\<lambda>j. take n (drop (j * n) xs)) [0..<Suc k])
      = take n xs @ concat (map (\<lambda>j. take n (drop (j * n) (drop n xs))) [0..<k])"
    by (subst upt_conv_Cons) (simp_all add: map_Suc_upt [symmetric] o_def add.commute del: upt_Suc)
  also have "\<dots> = take n xs @ drop n xs" using Suc.IH [of "drop n xs"] Suc.prems by (simp del: drop_drop)
  finally show ?case by simp
qed simp

lemma parse_usize_show: "n < 2 ^ 64 \<Longrightarrow> parse_usize (show_nat n) = Some n"
  by (simp add: parse_usize_def parse_uint_show_nat)

text \<open>The parameters of a page, and the rows of an answer.\<close>

definition page_params :: "nat \<Rightarrow> nat \<Rightarrow> params \<Rightarrow> params" where
  "page_params offset limit p = hm_insert ''offset'' (show_nat offset) (hm_insert ''limit'' (show_nat limit) p)"

definition answer_rows :: "json \<Rightarrow> json list" where
  "answer_rows v = (case as_array (json_index v ''rows'') of None \<Rightarrow> [] | Some rows \<Rightarrow> rows)"

lemma page_slice_params:
  "offset < 2 ^ 64 \<Longrightarrow> limit < 2 ^ 64 \<Longrightarrow>
     page_slice (page_params offset limit p) rows = take limit (drop offset rows)"
  by (simp add: page_slice_def page_params_def param_usize_def param_def hm_simps parse_usize_show)

lemma page_params_other:
  "key \<notin> {''offset'', ''limit''} \<Longrightarrow> param (page_params offset limit p) key = param p key"
  by (simp add: page_params_def param_def hm_simps)

lemma shown_page_params:
  "client_row_shown (page_params offset limit p) = client_row_shown p"
  "tunnel_row_shown (page_params offset limit p) = tunnel_row_shown p"
  "host_row_shown (page_params offset limit p) = host_row_shown p"
  by (simp_all add: fun_eq_iff client_row_shown_def tunnel_row_shown_def host_row_shown_def param_id_def page_params_other)

lemma answer_rows_json: "answer_rows (rows_json p rows) = page_slice p rows"
  by (simp add: answer_rows_def rows_json_def json_index_def)

lemma pages_tile:
  assumes "0 < n" "length rows \<le> n * k" "n * k < 2 ^ 64"
  shows "concat (map (\<lambda>j. page_slice (page_params (j * n) n p) rows) [0..<k]) = rows"
proof (cases "k = 0")
  case False
  then have "n \<le> n * k" by simp
  then have "n < 2 ^ 64" using assms(3) by (rule le_less_trans)
  moreover have "j * n < 2 ^ 64" if "j < k" for j
  proof -
    have "j * n \<le> n * k" using that by (simp add: mult.commute)
    then show ?thesis using assms(3) by (rule le_less_trans)
  qed
  ultimately have "map (\<lambda>j. page_slice (page_params (j * n) n p) rows) [0..<k] = map (\<lambda>j. take n (drop (j * n) rows)) [0..<k]"
    by (simp add: page_slice_params)
  with take_drop_tile [OF assms(1,2)] show ?thesis by (simp only:)
qed (use assms in simp)

section \<open>Properties\<close>

text \<open>
  The pages of a listing are complete.  Asked for pages of the same size one after the
  other, the console shows every client, tunnel or host that passes the filters of the
  request, once and in the order of the listing, whatever the other parameters are.
\<close>

lemma listing_pages_complete:
  assumes "0 < n" "n * k < 2 ^ 64"
    and "length (client_rows r) \<le> n * k" "length (tunnel_rows r) \<le> n * k" "length (host_rows r) \<le> n * k"
  shows "concat (map (\<lambda>j. answer_rows (client_rows_json r (page_params (j * n) n p))) [0..<k])
       = filter (client_row_shown p) (client_rows r)
     \<and> concat (map (\<lambda>j. answer_rows (tunnel_rows_json r (page_params (j * n) n p))) [0..<k])
       = filter (tunnel_row_shown p) (tunnel_rows r)
     \<and> concat (map (\<lambda>j. answer_rows (host_rows_json r (page_params (j * n) n p))) [0..<k])
       = filter (host_row_shown p) (host_rows r)"
proof -
  have le: "length (filter P xs) \<le> n * k" if "length xs \<le> n * k" for P and xs :: "json list"
    using that length_filter_le [of P xs] by linarith
  note tile = pages_tile [OF assms(1) le assms(2)]
  show ?thesis
    by (simp only: simp_thms client_rows_json_def tunnel_rows_json_def host_rows_json_def answer_rows_json shown_page_params
        tile [OF assms(3)] tile [OF assms(4)] tile [OF assms(5)])
qed

text \<open>
  The history of the monitor is bounded and current: whatever was measured, it holds the
  snapshots of the last ten rounds, oldest first.
\<close>

lemma system_history_recent: "mo_history (start_system_monitor rounds) = last_ten (snapshots rounds Monitor_new)"
  using monitor_history [of Monitor_new "[]" rounds]
  by (simp add: start_system_monitor_def Monitor_new_def last_ten_def)

end
