(* ===== verification/Pages.thy ===== *)
theory Pages
  imports Dashboard
begin

text \<open>
  The pages of the web console (\<open>src/web.rs\<close>): escaping of texts, views and their
  placeholders, the forms of clients, tunnels and hosts, the handlers that check the session
  before a page is rendered, and the route table.  The files of the views directory are an
  argument, and so is the order in which a map of placeholders is traversed.

  The theorems: what a user sees depends on nothing but the user's own client, and no text
  stored by a user changes the markup of a form.
\<close>

section \<open>Texts\<close>

definition web_html_escape :: "string \<Rightarrow> string" where
  "web_html_escape s =
     replace_char (CHR 0x27) ''&#39;'' (replace_char (CHR 0x22) ''&quot;'' (replace_char (CHR ''>'') ''&gt;''
       (replace_char (CHR ''<'') ''&lt;'' (replace_char (CHR ''&'') ''&amp;'' s))))"

text \<open>\<open>str::replace\<close> with a pattern that is not empty.\<close>

function replace_str :: "string \<Rightarrow> string \<Rightarrow> string \<Rightarrow> string" where
  "replace_str p by_text [] = []"
| "replace_str p by_text (x # s) =
     (if p \<noteq> [] \<and> prefix p (x # s) then by_text @ replace_str p by_text (drop (length p) (x # s))
      else x # replace_str p by_text s)"
  by pat_completeness auto
termination
proof (relation "measure (\<lambda>(p, q, s). length s)")
  fix p by_text :: string and x s
  assume "p \<noteq> [] \<and> prefix p (x # s)"
  then show "((p, by_text, drop (length p) (x # s)), (p, by_text, x # s)) \<in> measure (\<lambda>(p, q, s). length s)"
    by (cases p) auto
qed auto

text \<open>
  What rendering takes from outside: the files of the views directory, the path of a view
  as text, the order of traversal of a map, the clock and the history of the monitor, the
  JSON library's printer and the digest.
\<close>

record page_env =
  pg_views :: "string \<Rightarrow> string option"
  pg_path :: "string \<Rightarrow> string"
  pg_order :: "(string \<times> string) list \<Rightarrow> (string \<times> string) list"
  pg_now :: time
  pg_now_debug :: string
  pg_history :: "SystemSnapshot list"
  pg_to_string :: "json \<Rightarrow> string"
  pg_md5_hex :: "string \<Rightarrow> string"

definition load_view :: "page_env \<Rightarrow> string \<Rightarrow> (string \<times> string) list \<Rightarrow> string" where
  "load_view env name vars =
     fold (\<lambda>(k, v) content. replace_str (''{{'' @ k @ ''}}'') v content) (pg_order env vars)
       (case pg_views env name of
          Some content \<Rightarrow> content
        | None \<Rightarrow> ''View '' @ name @ '' not found at '' @ pg_path env name)"

definition selected :: "string \<Rightarrow> string \<Rightarrow> string" where
  "selected current expected = (if eq_ignore_ascii_case current expected then ''selected'' else [])"

section \<open>Forms\<close>

text \<open>A text or a flag of the client shown, or its value in an empty form.\<close>

definition client_text :: "(ClientRuntimeConfig \<Rightarrow> string) \<Rightarrow> ClientRuntimeConfig option \<Rightarrow> string" where
  "client_text f current = (case current of None \<Rightarrow> [] | Some c \<Rightarrow> f c)"

definition client_flag :: "(ClientRuntimeConfig \<Rightarrow> bool) \<Rightarrow> bool \<Rightarrow> ClientRuntimeConfig option \<Rightarrow> bool" where
  "client_flag f d current = (case current of None \<Rightarrow> d | Some c \<Rightarrow> f c)"

definition limit_fields_html :: "ServerConfig \<Rightarrow> ClientRuntimeConfig option \<Rightarrow> string" where
  \<open>limit_fields_html server current =
     (let flow_limit = client_text (\<lambda>c. show_nat (unat (ci_flow_limit_mb (rc_info c)))) current;
          rate_limit = client_text (\<lambda>c. show_nat (unat (ci_rate_limit_kb (rc_info c)))) current;
          max_conn = client_text (\<lambda>c. show_nat (ci_max_conn (rc_info c))) current;
          max_tunnel = client_text (\<lambda>c. show_nat (ci_max_tunnel_num (rc_info c))) current
      in (if sc_allow_flow_limit server then ''<div class="form-group"><label langtag="word-flowlimit"></label><input class="form-control" name="flow_limit" value="'' @ web_html_escape flow_limit @ ''"><span class="help-block m-b-none">MB</span></div>'' else [])
     @ (if sc_allow_rate_limit server then ''<div class="form-group"><label langtag="word-ratelimit"></label><input class="form-control" name="rate_limit" value="'' @ web_html_escape rate_limit @ ''"><span class="help-block m-b-none">KB/s</span></div>'' else [])
     @ (if sc_allow_connection_num_limit server then ''<div class="form-group"><label langtag="word-maxconnections"></label><input class="form-control" name="max_conn" value="'' @ web_html_escape max_conn @ ''"></div>'' else [])
     @ (if sc_allow_tunnel_num_limit server then ''<div class="form-group"><label langtag="word-maxtunnels"></label><input class="form-control" name="max_tunnel" value="'' @ web_html_escape max_tunnel @ ''"></div>'' else []))\<close>

definition vkey_field_html :: "WebSession \<Rightarrow> string \<Rightarrow> string" where
  \<open>vkey_field_html session vkey =
     (if ws_is_admin session then ''<div class="form-group"><label>VKey</label><input class="form-control" name="vkey" value="'' @ web_html_escape vkey @ ''"></div>''
      else ''<div class="form-group"><label>VKey</label><input class="form-control" value="'' @ web_html_escape vkey @ ''" readonly></div>'')\<close>

definition web_user_field_html :: "ServerConfig \<Rightarrow> WebSession \<Rightarrow> string \<Rightarrow> string" where
  \<open>web_user_field_html server session web_user =
     (if ws_is_admin session \<or> sc_allow_user_change_username server then ''<div class="form-group"><label langtag="word-webusername"></label><input class="form-control" name="web_username" value="'' @ web_html_escape web_user @ ''"></div>''
      else ''<div class="form-group"><label langtag="word-webusername"></label><input class="form-control" value="'' @ web_html_escape web_user @ ''" readonly></div>'')\<close>

definition client_form :: "ServerConfig \<Rightarrow> WebSession \<Rightarrow> string \<Rightarrow> ClientRuntimeConfig option \<Rightarrow> string" where
  \<open>client_form server session health_summary current =
     vkey_field_html session (client_text rc_vkey current)
     @ ''<div class="form-group"><label langtag="word-remark"></label><input class="form-control" name="remark" value="''
     @ web_html_escape (client_text (\<lambda>c. ci_remark (rc_info c)) current)
     @ ''"></div>''
     @ health_summary
     @ (if ws_is_admin session then limit_fields_html server current else [])
     @ ''<div class="form-group"><label langtag="word-basicusername"></label><input class="form-control" name="u" value="''
     @ web_html_escape (client_text (\<lambda>c. ci_basic_username (rc_info c)) current)
     @ ''"></div><div class="form-group"><label langtag="word-basicpassword"></label><input class="form-control" name="p" value="''
     @ web_html_escape (client_text (\<lambda>c. ci_basic_password (rc_info c)) current)
     @ ''"></div>''
     @ web_user_field_html server session (client_text (\<lambda>c. ci_web_username (rc_info c)) current)
     @ ''<div class="form-group"><label langtag="word-webpassword"></label><input class="form-control" name="web_password" value="''
     @ web_html_escape (client_text (\<lambda>c. ci_web_password (rc_info c)) current)
     @ ''"></div><div class="form-group"><label langtag="word-connectbyconfig"></label>''
     @ ''<select class="form-control" name="config_conn_allow"><option value="1" ''
     @ (if client_flag (\<lambda>c. ci_config_conn_allow (rc_info c)) True current then ''selected'' else [])
     @ '' langtag="word-yes"></option><option value="0" ''
     @ (if client_flag (\<lambda>c. ci_config_conn_allow (rc_info c)) True current then [] else ''selected'')
     @ '' langtag="word-no"></option></select></div><div class="form-group"><label>Compress</label><div><label>''
     @ ''<input type="checkbox" name="compress" value="1" ''
     @ (if client_flag (\<lambda>c. ci_compress (rc_info c)) False current then ''checked'' else [])
     @ ''> snappy</label></div></div><div class="form-group"><label>Crypt</label><div><label><input type="checkbox" name="crypt" value="1" ''
     @ (if client_flag (\<lambda>c. ci_crypt (rc_info c)) False current then ''checked'' else [])
     @ ''> TLS relay</label></div></div><div class="form-group"><label langtag="word-ipwhite"></label>''
     @ ''<select class="form-control" id="ipwhite" name="ipwhite"><option value="0" ''
     @ (if client_flag (\<lambda>c. ci_ip_white (rc_info c)) False current then [] else ''selected'')
     @ '' langtag="word-no"></option><option value="1" ''
     @ (if client_flag (\<lambda>c. ci_ip_white (rc_info c)) False current then ''selected'' else [])
     @ '' langtag="word-yes"></option></select></div><div class="form-group" id="ip_white_pass_group">''
     @ ''<label langtag="word-ipwhitepass"></label><input class="form-control" name="ipwhitepass" value="''
     @ web_html_escape (client_text (\<lambda>c. ci_ip_white_pass (rc_info c)) current)
     @ ''"><span class="help-block m-b-none" langtag="info-ipwhitepass"></span></div>''
     @ ''<div class="form-group" id="ip_white_list_group"><label langtag="word-ipwhitelist"></label>''
     @ ''<textarea class="form-control" rows="4" name="ipwhitelist">''
     @ web_html_escape (client_text (\<lambda>c. join [CHR 0x0A] (ci_ip_white_list (rc_info c))) current)
     @ ''</textarea></div><div class="form-group" id="black_ip_list_group"><label langtag="word-blackiplist"></label>''
     @ ''<textarea class="form-control" rows="4" name="blackiplist">''
     @ web_html_escape (client_text (\<lambda>c. join [CHR 0x0A] (ci_black_ip_list (rc_info c))) current)
     @ ''</textarea></div><script>''
     @ ''(function(){function syncIpWhite(){var enabled=$('#ipwhite').val()==='1';$('#ip_white_pass_group').toggle(enabled);''
     @ ''$('#ip_white_list_group').toggle(enabled);$('#black_ip_list_group').toggle(!enabled);''
     @ ''}$('#ipwhite').on('change',syncIpWhite);syncIpWhite();})();</script>''\<close>

definition health_rule_html :: "string list \<Rightarrow> HealthCheck \<Rightarrow> string" where
  \<open>health_rule_html removed health =
     ''<li><strong>''
     @ web_html_escape (hc_remark health)
     @ ''</strong> ''
     @ show_nat (unat (hc_interval_secs health))
     @ ''s / timeout ''
     @ show_nat (unat (hc_timeout_secs health))
     @ ''s / max_failed ''
     @ show_nat (unat (hc_max_failed health))
     @ '' / down ''
     @ show_nat (length (filter (\<lambda>t. t \<in> set removed) (hc_targets health)))
     @ '' / up ''
     @ show_nat (length (filter (\<lambda>t. t \<notin> set removed) (hc_targets health)))
     @ ''<br><span class="text-muted">''
     @ web_html_escape (join [CHR 0x0A] (hc_targets health))
     @ ''</span></li>''\<close>

definition render_client_health_summary :: "Registry \<Rightarrow> ClientRuntimeConfig \<Rightarrow> string" where
  \<open>render_client_health_summary r client =
     (if rc_healths client = [] then []
      else let removed = client_health_down_targets (rc_vkey client) r;
          down_targets = filter (\<lambda>t. t \<in> set removed) (concat (map hc_targets (rc_healths client)));
          distinct_down = remdups_adj (sort down_targets)
      in ''<div class="form-group"><label>Health Summary</label><div class="alert alert-info" style="margin-bottom:10px"><div>''
     @ ''<strong>Status:</strong> ''
     @ (if down_targets = [] then ''healthy'' else ''degraded'')
     @ ''</div><div><strong>Rules:</strong> ''
     @ show_nat (length (rc_healths client))
     @ ''</div><div><strong>Targets:</strong> ''
     @ show_nat (length (unique_targets client))
     @ ''</div><div><strong>Down:</strong> ''
     @ show_nat (length distinct_down)
     @ ''</div><div><strong>Down targets:</strong> ''
     @ web_html_escape (join [CHR 0x0A] distinct_down)
     @ ''</div></div><ul class="list-unstyled" style="margin-top:8px">''
     @ concat (map (health_rule_html removed) (rc_healths client))
     @ ''</ul></div>'')\<close>

definition render_client_fields :: "Registry \<Rightarrow> WebSession \<Rightarrow> u64 \<Rightarrow> string" where
  "render_client_fields r session i =
     (let current = find (\<lambda>c. rc_id c = i) (hm_values (re_clients r))
      in client_form (re_server r) session
           (case current of None \<Rightarrow> [] | Some client \<Rightarrow> render_client_health_summary r client) current)"

definition client_option :: "u64 \<Rightarrow> ClientRuntimeConfig \<Rightarrow> string" where
  \<open>client_option resolved_id client =
     ''<option value="''
     @ show_nat (unat (rc_id client))
     @ ''" ''
     @ (if rc_id client = resolved_id then ''selected'' else [])
     @ ''>''
     @ show_nat (unat (rc_id client))
     @ ''-''
     @ web_html_escape (ci_remark (rc_info client))
     @ '' </option>''\<close>

definition render_client_binding_field :: "Registry \<Rightarrow> WebSession \<Rightarrow> u64 \<Rightarrow> string option \<Rightarrow> string" where
  \<open>render_client_binding_field r session client_id current_vkey =
     (if \<not> ws_is_admin session then ''<input type="hidden" name="client_id" value="'' @ show_nat (unat (case ws_client_id session of None \<Rightarrow> client_id | Some c \<Rightarrow> c)) @ ''">''
      else let items = sort_key rc_id (hm_values (re_clients r));
               resolved_id = (if client_id \<noteq> 0 then client_id
                              else (case Option.bind current_vkey (\<lambda>vkey. find (\<lambda>c. rc_vkey c = vkey) items) of
                                      None \<Rightarrow> 0 | Some c \<Rightarrow> rc_id c))
           in ''<div class="form-group"><label langtag="word-clientid"></label><select class="form-control" name="client_id">'' @ concat (map (client_option resolved_id) items) @ ''</select></div>'')\<close>

text \<open>The field for local targets is the same in both forms.\<close>

definition local_proxy_field_html :: "ServerConfig \<Rightarrow> Target \<Rightarrow> string" where
  \<open>local_proxy_field_html server target =
     (if sc_allow_local_proxy server then ''<div class="form-group"><label langtag="word-proxytolocal"></label><select class="form-control" name="local_proxy"><option value="0" ''
       @ (if tg_local_proxy target then [] else ''selected'')
       @ '' langtag="word-no"></option><option value="1" ''
       @ (if tg_local_proxy target then ''selected'' else [])
       @ '' langtag="word-yes"></option></select></div>'' else [])\<close>

definition proto_field_html :: "string \<Rightarrow> string" where
  \<open>proto_field_html proto_version =
     ''<div class="form-group"><label>Proxy Protocol Version</label><select class="form-control" name="proto_version"><option value="" ''
     @ (if trim proto_version = [] then ''selected'' else [])
     @ ''></option><option value="V1" ''
     @ selected (proto_version) ''V1''
     @ ''>V1</option><option value="V2" ''
     @ selected (proto_version) ''V2''
     @ ''>V2</option></select></div>''\<close>

definition host_form :: "ServerConfig \<Rightarrow> string \<Rightarrow> Host \<Rightarrow> string" where
  \<open>host_form server client_field host =
     client_field
     @ ''<div class="form-group"><label langtag="word-remark"></label><input class="form-control" name="remark" value="''
     @ web_html_escape (ho_remark host)
     @ ''"></div><div class="form-group"><label langtag="word-host"></label><input class="form-control" name="host" value="''
     @ web_html_escape (ho_host host)
     @ ''"></div><div class="form-group"><label langtag="word-scheme"></label>''
     @ ''<select class="form-control" id="scheme_select" name="scheme"><option value="all" ''
     @ selected (ho_scheme host) ''all''
     @ ''>all</option><option value="http" ''
     @ selected (ho_scheme host) ''http''
     @ ''>http</option><option value="https" ''
     @ selected (ho_scheme host) ''https''
     @ ''>https</option></select></div><div class="form-group" id="auto_https_group"><label>Auto HTTPS (301)</label>''
     @ ''<select class="form-control" name="AutoHttps"><option value="0" ''
     @ (if ho_auto_https host then [] else ''selected'')
     @ '' langtag="word-no"></option><option value="1" ''
     @ (if ho_auto_https host then ''selected'' else [])
     @ '' langtag="word-yes"></option></select></div><div class="form-group" id="cert_file_group"><label>Cert file</label>''
     @ ''<textarea class="form-control" name="cert_file_path" rows="6">''
     @ web_html_escape (ho_cert_file_path host)
     @ ''</textarea></div><div class="form-group" id="key_file_group"><label>Key file</label>''
     @ ''<textarea class="form-control" name="key_file_path" rows="6">''
     @ web_html_escape (ho_key_file_path host)
     @ ''</textarea></div><div class="form-group"><label langtag="word-location"></label><input class="form-control" name="location" value="''
     @ web_html_escape (ho_location host)
     @ ''"></div>''
     @ local_proxy_field_html server (ho_target host)
     @ proto_field_html (ho_proto_version host)
     @ ''<div class="form-group"><label langtag="word-target"></label><textarea class="form-control" rows="4" name="target">''
     @ web_html_escape (tg_target_str (ho_target host))
     @ ''</textarea></div><div class="form-group"><label langtag="word-requestheader"></label>''
     @ ''<textarea class="form-control" rows="4" name="header">''
     @ web_html_escape (ho_header_change host)
     @ ''</textarea></div><div class="form-group"><label langtag="word-requesthost"></label><input class="form-control" name="hostchange" value="''
     @ web_html_escape (ho_host_change host)
     @ ''"></div><script>''
     @ ''(function(){function syncScheme(){var tls=$('#scheme_select').val()!=='http';$('#cert_file_group').toggle(tls);''
     @ ''$('#key_file_group').toggle(tls);$('#auto_https_group').toggle(tls);}$('#scheme_select').on('change',syncScheme);''
     @ ''syncScheme();})();</script>''\<close>

definition render_host_fields :: "Registry \<Rightarrow> WebSession \<Rightarrow> u64 \<Rightarrow> u64 \<Rightarrow> string" where
  "render_host_fields r session i client_id =
     (let host = (case find (\<lambda>h. ho_id h = i) (concat (map rc_hosts (hm_values (re_clients r)))) of
                    None \<Rightarrow> Host_default | Some h \<Rightarrow> h)
      in host_form (re_server r)
           (render_client_binding_field r session client_id (Some (ho_client_vkey host))) host)"

definition server_ip_field_html :: "ServerConfig \<Rightarrow> Tunnel \<Rightarrow> string" where
  \<open>server_ip_field_html server t =
     (if sc_allow_multi_ip server then ''<div class="form-group" id="server_ip_group"><label langtag="word-serverip"></label><input class="form-control" name="server_ip" value="'' @ web_html_escape (tn_server_ip t) @ ''"></div>'' else [])\<close>

definition tunnel_form :: "ServerConfig \<Rightarrow> string \<Rightarrow> string \<Rightarrow> Tunnel \<Rightarrow> string" where
  \<open>tunnel_form server client_field kind t =
     ''<div class="form-group"><label langtag="word-scheme"></label>''
     @ ''<select class="form-control" name="type" id="scheme_type"><option value="tcp" ''
     @ selected kind ''tcp''
     @ '' langtag="scheme-tcp"></option><option value="udp" ''
     @ selected kind ''udp''
     @ '' langtag="scheme-udp"></option><option value="httpProxy" ''
     @ selected kind ''httpProxy''
     @ '' langtag="scheme-httpproxy"></option><option value="socks5" ''
     @ selected kind ''socks5''
     @ '' langtag="scheme-socks5"></option><option value="secret" ''
     @ selected kind ''secret''
     @ '' langtag="scheme-secret"></option><option value="p2p" ''
     @ selected kind ''p2p''
     @ '' langtag="scheme-p2p"></option></select></div>''
     @ client_field
     @ ''<div class="form-group"><label langtag="word-remark"></label><input class="form-control" name="remark" value="''
     @ web_html_escape (tn_remark t)
     @ ''"></div>''
     @ server_ip_field_html server t
     @ ''<div class="form-group" id="port_group"><label langtag="word-port"></label><input class="form-control" name="port" value="''
     @ web_html_escape (if tn_ports t = [] then show_nat (unat (tn_server_port t)) else tn_ports t)
     @ ''" placeholder="'' @ [CHR 0xE7, CHR 0x95, CHR 0x99, CHR 0xE7, CHR 0xA9, CHR 0xBA, CHR 0xE8, CHR 0x87, CHR 0xAA, CHR 0xE5, CHR 0x8A, CHR 0xA8, CHR 0xE7, CHR 0x94, CHR 0x9F, CHR 0xE6, CHR 0x88, CHR 0x90] @ ''"></div><div class="form-group" id="local_proxy_group"><label langtag="word-proxytolocal"></label><select class="form-control" name="local_proxy"><option value="0" ''
     @ (if tg_local_proxy (tn_target t) then [] else ''selected'')
     @ '' langtag="word-no"></option><option value="1" ''
     @ (if tg_local_proxy (tn_target t) then ''selected'' else [])
     @ '' langtag="word-yes"></option></select></div><div class="form-group" id="target_group"><label langtag="word-target">''
     @ ''</label><textarea class="form-control" rows="4" name="target">''
     @ web_html_escape (tg_target_str (tn_target t))
     @ ''</textarea></div><div class="form-group" id="password_group"><label langtag="word-identificationkey"></label>''
     @ ''<input class="form-control" name="password" value="''
     @ web_html_escape (tn_password t)
     @ ''"></div><div class="form-group" id="local_path_group"><label>Local path</label><input class="form-control" name="local_path" value="''
     @ web_html_escape (tn_local_path t)
     @ ''"></div><div class="form-group" id="strip_pre_group"><label>Strip prefix</label><input class="form-control" name="strip_pre" value="''
     @ web_html_escape (tn_strip_pre t)
     @ ''"></div><div class="form-group" id="proto_group"><label>Proxy Protocol Version</label>''
     @ ''<select class="form-control" name="proto_version"><option value="" ''
     @ (if trim (tn_proto_version t) = [] then ''selected'' else [])
     @ ''></option><option value="V1" ''
     @ selected (tn_proto_version t) ''V1''
     @ ''>V1</option><option value="V2" ''
     @ selected (tn_proto_version t) ''V2''
     @ ''>V2</option></select></div><script>''
     @ ''(function(){function sync(){var mode=$('#scheme_type').val();''
     @ ''$('#local_proxy_group').toggle(mode==='tcp'||mode==='udp');''
     @ ''$('#target_group').toggle(mode!=='socks5'&&mode!=='httpProxy');''
     @ ''$('#password_group').toggle(mode==='secret'||mode==='p2p');$('#local_path_group').toggle(mode==='file');''
     @ ''$('#strip_pre_group').toggle(mode==='file');$('#proto_group').toggle(mode==='tcp');''
     @ ''$('#server_ip_group').toggle(mode!=='socks5'&&mode!=='httpProxy');}$('#scheme_type').on('change',sync);sync();})();</script>''\<close>

definition render_tunnel_fields :: "Registry \<Rightarrow> WebSession \<Rightarrow> string \<Rightarrow> u64 \<Rightarrow> u64 \<Rightarrow> string" where
  "render_tunnel_fields r session kind i client_id =
     (let current = find (\<lambda>t. tn_id t = i) (concat (map rc_tunnels (hm_values (re_clients r))));
          kind = (case current of None \<Rightarrow> kind | Some t \<Rightarrow> if tn_mode t \<noteq> [] then tn_mode t else kind);
          kind = (if eq_ignore_ascii_case kind ''all'' then ''tcp'' else kind);
          tunnel = (case current of None \<Rightarrow> Tunnel_default | Some t \<Rightarrow> t)
      in tunnel_form (re_server r)
           (render_client_binding_field r session client_id (Some (tn_client_vkey tunnel))) kind tunnel)"

section \<open>Captchas\<close>

definition login_captcha_block :: "page_env \<Rightarrow> Registry \<Rightarrow> string \<times> Registry" where
  \<open>login_captcha_block env r =
     (if \<not> sc_open_captcha (re_server r) then ([], r)
      else (case issue_login_captcha (pg_md5_hex env) (pg_now env) (pg_now_debug env) r of
              (None, r1) \<Rightarrow> ([], r1)
            | (Some token, r1) \<Rightarrow>
                (let base = sc_web_base_url (re_server r)
                 in (''<div class="form-group" style="display:flex;"><input type="hidden" name="captcha_token" value="''
                     @ token
                     @ ''">''
                     @ ''<input class="form-control" name="captcha" placeholder="captcha" required langtag="word-captcha" style="border-top-right-radius:0;border-bottom-right-radius:0;border-right:0;"><img src="''
                     @ base
                     @ ''/captcha/?token=''
                     @ token
                     @ ''" onclick="fetch(location.href).then(r=>r.text()).then(h=>''
                     @ ''{let m=h.match(/name='' @ [CHR 0x5C] @ ''x22captcha_token'' @ [CHR 0x5C] @ ''x22 value='' @ [CHR 0x5C] @ ''x22([^'' @ [CHR 0x5C] @ ''x22]+)'' @ [CHR 0x5C] @ ''x22/);if(m){let p=this.previousElementSibling;p.value='' @ [CHR 0x27, CHR 0x27] @ '';p.previousElementSibling.value=m[1];this.src='' @ [CHR 0x27]
                     @ base
                     @ ''/captcha/?token='+m[1]}})" alt="captcha" style="height:34px; cursor:pointer; border:1px solid #e5e6e7;''
                     @ '' border-radius:0 4px 4px 0; background:#fff;" title="refresh captcha" /></div>'', r1))))\<close>

text \<open>Bytes of the digest, taken in turn; 0 once they are used up.\<close>

definition next_seed :: "string \<Rightarrow> nat \<times> string" where
  "next_seed seed = (case seed of [] \<Rightarrow> (0, []) | c # rest \<Rightarrow> (code c, rest))"

fun captcha_noise :: "nat \<Rightarrow> string \<Rightarrow> string" where
  \<open>captcha_noise 0 seed = []\<close>
| \<open>captcha_noise (Suc n) seed =
     (let (x1, seed) = next_seed seed; (y1, seed) = next_seed seed;
          (x2, seed) = next_seed seed; (y2, seed) = next_seed seed
      in ''<line x1="''
         @ show_nat (x1 mod 140)
         @ ''" y1="''
         @ show_nat (y1 mod 44)
         @ ''" x2="''
         @ show_nat (x2 mod 140)
         @ ''" y2="''
         @ show_nat (y2 mod 44)
         @ ''" stroke="#c8c8c8" stroke-width="1" />''
         @ captcha_noise n seed)\<close>

definition render_captcha_svg :: "(string \<Rightarrow> string) \<Rightarrow> string \<Rightarrow> string" where
  \<open>render_captcha_svg md5_hex code_text =
     ''<svg xmlns="http://www.w3.org/2000/svg" width="''
     @ ''140''
     @ ''" height="''
     @ ''44''
     @ ''" viewBox="0 0 ''
     @ ''140''
     @ '' ''
     @ ''44''
     @ ''"><rect x="0" y="0" width="''
     @ ''140''
     @ ''" height="''
     @ ''44''
     @ ''" rx="4" fill="#f8fafc" stroke="#d6d8de"/>''
     @ captcha_noise 5 (md5_hex code_text)
     @ ''<text x="50%" y="58%" dominant-baseline="middle" text-anchor="middle" font-family="Arial, Helvetica, sans-serif" font-size="24" font-weight="700" fill="#1f2937" letter-spacing="4">''
     @ code_text
     @ ''</text></svg>''\<close>

definition captcha_svg :: "page_env \<Rightarrow> string \<Rightarrow> Registry \<Rightarrow> string option \<times> Registry" where
  "captcha_svg env token r =
     (case hm_get (re_captcha_store r) token of
        None \<Rightarrow> (None, r)
      | Some entry \<Rightarrow>
          if ce_expires_at entry \<le> pg_now env
          then (None, r\<lparr>re_captcha_store := hm_remove token (re_captcha_store r)\<rparr>)
          else (Some (render_captcha_svg (pg_md5_hex env) (ce_code entry)), r))"

section \<open>Layout\<close>

definition render_login :: "page_env \<Rightarrow> Registry \<Rightarrow> string \<Rightarrow> string \<times> Registry" where
  \<open>render_login env r message =
     (let register_link = (if sc_allow_user_register (re_server r)
            then ''<p class="text-muted text-center"><small langtag="info-noaccount"></small></p><a class="btn btn-sm btn-white btn-block" href="''
              @ sc_web_base_url (re_server r)
              @ ''/login/register" langtag="word-register"></a>''
            else []);
          (captcha_block, r1) = login_captcha_block env r
      in (load_view env ''login.html''
            [(''base'', sc_web_base_url (re_server r)), (''message'', message),
             (''register_link'', register_link), (''captcha_block'', captcha_block)], r1))\<close>

definition nav_items :: "(string \<times> string \<times> string \<times> string) list" where
  "nav_items =
     [(''index'', ''/'', ''fa-tachometer-alt'', ''word-dashboard''),
      (''client'', ''/client/list'', ''fa-desktop'', ''word-client''),
      (''host'', ''/index/hostlist'', ''fa-globe'', ''scheme-host''),
      (''tcp'', ''/index/tcp'', ''fa-retweet'', ''scheme-tcp''),
      (''udp'', ''/index/udp'', ''fa-random'', ''scheme-udp''),
      (''http'', ''/index/http'', ''fa-server'', ''scheme-httpproxy''),
      (''socks5'', ''/index/socks5'', ''fa-layer-group'', ''scheme-socks5''),
      (''secret'', ''/index/secret'', ''fa-low-vision'', ''scheme-secret''),
      (''p2p'', ''/index/p2p'', ''fa-exchange-alt'', ''scheme-p2p''),
      (''file'', ''/index/file'', ''fa-briefcase'', ''scheme-file''),
      (''global'', ''/global/index'', ''fa-cog'', ''word-globalparam'')]"

definition nav_entry :: "string \<Rightarrow> string \<Rightarrow> string \<times> string \<times> string \<times> string \<Rightarrow> string" where
  \<open>nav_entry base menu =
     (\<lambda>(key, href, icon, tag).
       ''<li class="''
     @ (if key = menu then ''active'' else [])
     @ ''"><a href="''
     @ base
     @ href
     @ ''"><i class="fa ''
     @ icon
     @ '' fa-lg"></i><span class="nav-label" langtag="''
     @ tag
     @ ''"></span></a></li>'')\<close>

definition render_layout :: "page_env \<Rightarrow> Registry \<Rightarrow> WebSession \<Rightarrow> string \<Rightarrow> string \<Rightarrow> string \<Rightarrow> string" where
  "render_layout env r session menu title body =
     (let base = sc_web_base_url (re_server r);
          nav = concat (map (nav_entry base menu)
                  (filter (\<lambda>(key, _). \<not> (\<not> ws_is_admin session \<and> key = ''global'')) nav_items))
      in load_view env ''layout.html''
           [(''base'', base), (''title'', title), (''nav'', nav), (''body'', body),
            (''username'', web_html_escape (ws_username session))])"

definition render_dashboard :: "page_env \<Rightarrow> Registry \<Rightarrow> WebSession \<Rightarrow> string" where
  "render_dashboard env r session =
     load_view env ''dashboard.html''
       [(''data'', web_html_escape (pg_to_string env
           (dashboard_json_scoped (pg_now env) (pg_history env) r (scope_client_id session))))]"

section \<open>Pages\<close>

datatype response = Status nat | Redirect string | Html string | Svg string | Json json

definition to_login :: "Registry \<Rightarrow> response" where
  "to_login r = Redirect (sc_web_base_url (re_server r) @ ''/login/index'')"

definition handle_login :: "page_env \<Rightarrow> Registry \<Rightarrow> response \<times> Registry" where
  "handle_login env r = (case render_login env r [] of (page, r1) \<Rightarrow> (Html page, r1))"

definition handle_captcha :: "page_env \<Rightarrow> params \<Rightarrow> Registry \<Rightarrow> response \<times> Registry" where
  "handle_captcha env params r =
     (case captcha_svg env (param params ''token'') r of
        (Some svg, r1) \<Rightarrow> (Svg svg, r1)
      | (None, r1) \<Rightarrow> (Status 404, r1))"

definition handle_register :: "page_env \<Rightarrow> Registry \<Rightarrow> response \<times> Registry" where
  "handle_register env r =
     (if \<not> sc_allow_user_register (re_server r)
      then (case render_login env r ''register is not allow'' of (page, r1) \<Rightarrow> (Html page, r1))
      else (Html (load_view env ''register.html'' [(''base'', sc_web_base_url (re_server r))]), r))"

definition handle_index :: "page_env \<Rightarrow> Registry \<Rightarrow> string option \<Rightarrow> response" where
  "handle_index env r cookie =
     (case current_session r cookie of
        None \<Rightarrow> to_login r
      | Some session \<Rightarrow>
          Html (render_layout env r session ''index'' ''Dashboard'' (render_dashboard env r session)))"

definition handle_client_list :: "page_env \<Rightarrow> Registry \<Rightarrow> string option \<Rightarrow> response" where
  \<open>handle_client_list env r cookie =
     (case current_session r cookie of
        None \<Rightarrow> to_login r
      | Some session \<Rightarrow>
          (let base = sc_web_base_url (re_server r);
               add_button = (if ws_is_admin session
                 then ''<a href="''
                   @ base
                   @ ''/client/add" class="btn btn-primary dim"><i class="fa fa-fw fa-lg fa-plus"></i> <span langtag="word-add"></span></a>''
                 else [])
           in Html (render_layout env r session ''client'' ''Client List''
                (load_view env ''client_list.html''
                  [(''base'', base), (''client_add_button'', add_button),
                   (''is_admin'', if ws_is_admin session then ''true'' else ''false'')]))))\<close>

definition handle_host_list :: "page_env \<Rightarrow> Registry \<Rightarrow> string option \<Rightarrow> params \<Rightarrow> response" where
  "handle_host_list env r cookie q =
     (case current_session r cookie of
        None \<Rightarrow> to_login r
      | Some session \<Rightarrow>
          Html (render_layout env r session ''host'' ''Host List''
            (load_view env ''host_list.html''
              [(''base'', sc_web_base_url (re_server r)),
               (''client_id'', scoped_client_id session (hm_get q ''client_id''))])))"

definition handle_tunnel_page ::
  "page_env \<Rightarrow> Registry \<Rightarrow> string option \<Rightarrow> params \<Rightarrow> string \<Rightarrow> string \<Rightarrow> response" where
  "handle_tunnel_page env r cookie q kind name =
     (case current_session r cookie of
        None \<Rightarrow> to_login r
      | Some session \<Rightarrow>
          Html (render_layout env r session kind name
            (load_view env ''tunnel_list.html''
              [(''base'', sc_web_base_url (re_server r)), (''kind'', kind), (''name'', name),
               (''client_id'', scoped_client_id session (hm_get q ''client_id''))])))"

definition handle_global :: "page_env \<Rightarrow> Registry \<Rightarrow> string option \<Rightarrow> response" where
  "handle_global env r cookie =
     (case current_session r cookie of
        None \<Rightarrow> to_login r
      | Some session \<Rightarrow>
          if \<not> ws_is_admin session then Status 403
          else Html (render_layout env r session ''global'' ''Global Config''
                 (load_view env ''global.html''
                   [(''base'', sc_web_base_url (re_server r)),
                    (''server_url'', web_html_escape (gc_server_url (re_global r))),
                    (''global_black_ip_list'',
                      web_html_escape (join [CHR 0x0A] (gc_black_ip_list (re_global r))))])))"

definition form_fields :: "Registry \<Rightarrow> WebSession \<Rightarrow> string \<Rightarrow> u64 \<Rightarrow> u64 \<Rightarrow> string" where
  "form_fields r session kind i client_id =
     (if kind = ''client'' then render_client_fields r session i
      else if kind = ''host'' then render_host_fields r session i client_id
      else render_tunnel_fields r session kind i client_id)"

definition or_zero :: "u64 option \<Rightarrow> u64" where
  "or_zero i = (case i of None \<Rightarrow> 0 | Some n \<Rightarrow> n)"

definition render_form ::
  "page_env \<Rightarrow> Registry \<Rightarrow> string option \<Rightarrow> string \<Rightarrow> string \<Rightarrow> string \<Rightarrow> u64 option \<Rightarrow> u64 option \<Rightarrow> response" where
  \<open>render_form env r cookie kind title_tag action requested client_id =
     (case current_session r cookie of
        None \<Rightarrow> to_login r
      | Some session \<Rightarrow>
          (let i = or_zero requested
           in case authorize_form r session action i of
                Inl status \<Rightarrow> Status status
              | Inr _ \<Rightarrow>
                  (let client_id = or_zero (if ws_is_admin session then client_id else ws_client_id session);
                       vars = [(''base'', sc_web_base_url (re_server r)), (''title_tag'', title_tag), (''action'', action),
                         (''id_input'', ''<input type="hidden" name="id" value="'' @ show_nat (unat i) @ ''">''),
                         (''fields'', form_fields r session kind i client_id)]
                   in Html (render_layout env r session ''client'' title_tag (load_view env ''form.html'' vars)))))\<close>

definition query_u64 :: "params \<Rightarrow> string \<Rightarrow> u64 option" where
  "query_u64 q key = Option.bind (hm_get q key) parse_u64"

definition handle_client_add :: "page_env \<Rightarrow> Registry \<Rightarrow> string option \<Rightarrow> response" where
  "handle_client_add env r cookie = render_form env r cookie ''client'' ''clientadd'' ''/client/add'' None None"

definition handle_client_edit :: "page_env \<Rightarrow> Registry \<Rightarrow> string option \<Rightarrow> params \<Rightarrow> response" where
  "handle_client_edit env r cookie q =
     render_form env r cookie ''client'' ''clientedit'' ''/client/edit'' (query_u64 q ''id'') None"

definition handle_tunnel_add :: "page_env \<Rightarrow> Registry \<Rightarrow> string option \<Rightarrow> params \<Rightarrow> response" where
  "handle_tunnel_add env r cookie q =
     (let kind = (case hm_get q ''type'' of None \<Rightarrow> ''tcp'' | Some k \<Rightarrow> k);
          kind = (if eq_ignore_ascii_case kind ''all'' then ''tcp'' else kind)
      in render_form env r cookie kind ''add'' ''/index/add'' None (query_u64 q ''client_id''))"

definition handle_tunnel_edit :: "page_env \<Rightarrow> Registry \<Rightarrow> string option \<Rightarrow> params \<Rightarrow> response" where
  "handle_tunnel_edit env r cookie q =
     render_form env r cookie ''tcp'' ''edit'' ''/index/edit'' (query_u64 q ''id'') None"

definition handle_host_add :: "page_env \<Rightarrow> Registry \<Rightarrow> string option \<Rightarrow> params \<Rightarrow> response" where
  "handle_host_add env r cookie q =
     render_form env r cookie ''host'' ''hostadd'' ''/index/addhost'' None (query_u64 q ''client_id'')"

definition handle_host_edit :: "page_env \<Rightarrow> Registry \<Rightarrow> string option \<Rightarrow> params \<Rightarrow> response" where
  "handle_host_edit env r cookie q =
     render_form env r cookie ''host'' ''hostedit'' ''/index/edithost'' (query_u64 q ''id'') None"

text \<open>The tunnel pages: route, kind and title (\<open>handle_tcp_list\<close> and its siblings).\<close>

definition tunnel_pages :: "(string \<times> string \<times> string) list" where
  "tunnel_pages =
     [(''/index/tcp'', ''tcp'', ''TCP''),
      (''/index/udp'', ''udp'', ''UDP''),
      (''/index/http'', ''httpProxy'', ''HTTP Proxy''),
      (''/index/socks5'', ''socks5'', ''SOCKS5''),
      (''/index/secret'', ''secret'', ''Secret''),
      (''/index/p2p'', ''p2p'', ''P2P''),
      (''/index/file'', ''fileserver'', ''File Server''),
      (''/index/all'', ''all'', ''All Tunnels'')]"

text \<open>The routes of \<open>start_web_manager\<close> that only read: pages with \<open>GET\<close>, rows with \<open>POST\<close>.\<close>

definition page_route :: "page_env \<Rightarrow> Registry \<Rightarrow> string option \<Rightarrow> string \<Rightarrow> params \<Rightarrow> response option" where
  "page_route env r cookie path q =
     (if path \<in> {''/'', ''/index/index''} then Some (handle_index env r cookie)
      else if path = ''/client/list'' then Some (handle_client_list env r cookie)
      else if path = ''/index/hostlist'' then Some (handle_host_list env r cookie q)
      else if path = ''/client/add'' then Some (handle_client_add env r cookie)
      else if path = ''/client/edit'' then Some (handle_client_edit env r cookie q)
      else if path = ''/index/add'' then Some (handle_tunnel_add env r cookie q)
      else if path = ''/index/edit'' then Some (handle_tunnel_edit env r cookie q)
      else if path = ''/index/addhost'' then Some (handle_host_add env r cookie q)
      else if path = ''/index/edithost'' then Some (handle_host_edit env r cookie q)
      else if path = ''/global/index'' then Some (handle_global env r cookie)
      else if path = ''/api/dashboard''
      then Some (case handle_dashboard_api (pg_now env) (pg_history env) r cookie of
                   Inl status \<Rightarrow> Status status | Inr v \<Rightarrow> Json v)
      else (case map_of tunnel_pages path of
              None \<Rightarrow> None
            | Some (kind, name) \<Rightarrow> Some (handle_tunnel_page env r cookie q kind name)))"

definition rows_route :: "Registry \<Rightarrow> string option \<Rightarrow> string \<Rightarrow> params \<Rightarrow> (nat + json) option" where
  "rows_route r cookie path params =
     (if path = ''/client/list'' then Some (handle_client_list_api r cookie params)
      else if path = ''/index/hostlist'' then Some (handle_host_list_api r cookie params)
      else if path = ''/index/gettunnel'' then Some (handle_tunnel_list_api r cookie params)
      else None)"

section \<open>Escaped texts\<close>

text \<open>The characters that delimit tags and attribute values.\<close>

definition markup :: "string \<Rightarrow> string" where
  "markup s = filter (\<lambda>c. c \<in> {CHR ''<'', CHR ''>'', CHR 0x22, CHR 0x27}) s"

definition escape_char :: "char \<Rightarrow> string" where
  "escape_char c =
     (if c = CHR ''&'' then ''&amp;'' else if c = CHR ''<'' then ''&lt;'' else if c = CHR ''>'' then ''&gt;''
      else if c = CHR 0x22 then ''&quot;'' else if c = CHR 0x27 then ''&#39;'' else [c])"

text \<open>How a browser reads the five entities.\<close>

definition entities :: "(string \<times> char) list" where
  "entities = [(''&amp;'', CHR ''&''), (''&lt;'', CHR ''<''), (''&gt;'', CHR ''>''), (''&quot;'', CHR 0x22), (''&#39;'', CHR 0x27)]"

function unescape :: "string \<Rightarrow> string" where
  "unescape [] = []"
| "unescape (x # s) =
     (case find (\<lambda>(e, c). e \<noteq> [] \<and> prefix e (x # s)) entities of
        Some (e, c) \<Rightarrow> c # unescape (drop (length e) (x # s))
      | None \<Rightarrow> x # unescape s)"
  by pat_completeness auto
termination
proof (relation "measure length")
  fix x and s e :: string and ec c
  assume "find (\<lambda>(e, c). e \<noteq> [] \<and> prefix e (x # s)) entities = Some ec" "(e, c) = ec"
  then have "e \<noteq> []" by (auto simp: find_Some_iff)
  then show "(drop (length e) (x # s), x # s) \<in> measure length" by (cases e) auto
qed auto

lemma replace_char_simps [simp]:
  "replace_char c by_text [] = []"
  "replace_char c by_text (x # s) = (if x = c then by_text else [x]) @ replace_char c by_text s"
  "replace_char c by_text (s @ t) = replace_char c by_text s @ replace_char c by_text t"
  by (simp_all add: replace_char_def)

lemma web_html_escape_chars: "web_html_escape s = concat (map escape_char s)"
  unfolding web_html_escape_def by (induction s) (simp_all add: escape_char_def)

lemma markup_simps [simp]:
  "markup [] = []" "markup (s @ t) = markup s @ markup t"
  "markup (if b then s else t) = (if b then markup s else markup t)"
  by (simp_all add: markup_def)

lemma markup_escape [simp]: "markup (web_html_escape s) = []"
  unfolding web_html_escape_chars markup_def by (auto simp: filter_empty_conv escape_char_def split: if_splits)

lemma markup_show_nat [simp]: "markup (show_nat n) = []"
proof -
  have "c \<notin> {CHR ''<'', CHR ''>'', CHR 0x22, CHR 0x27}" if "c \<in> set (show_nat n)" for c
    using show_nat_digits [OF that] by (auto simp: is_digit_def code_def)
  then show ?thesis by (simp add: markup_def filter_empty_conv)
qed

lemma markup_selected [simp]: "markup (selected a b) = []" "markup ''selected'' = []" "markup ''checked'' = []"
  by (simp_all add: selected_def markup_def)

lemma markup_state [simp]: "markup ''healthy'' = []" "markup ''degraded'' = []"
  by (simp_all add: markup_def)

lemma markup_concat_map:
  "(\<And>x. markup (f x) = k) \<Longrightarrow> markup (concat (map f xs)) = concat (replicate (length xs) k)"
  by (induction xs) simp_all

lemma unescape_char: "unescape (escape_char c @ t) = c # unescape t"
  by (auto simp: escape_char_def entities_def)

lemma unescape_escape: "unescape (web_html_escape s) = s"
  unfolding web_html_escape_chars by (induction s) (simp_all add: unescape_char)

section \<open>The markup of a form\<close>

lemmas markup_parts = markup_simps markup_escape markup_selected markup_show_nat if_cancel append_Nil

lemma tunnel_form_markup:
  "markup field = markup field' \<Longrightarrow> markup (tunnel_form server field kind t) = markup (tunnel_form server field' kind' t')"
  unfolding tunnel_form_def server_ip_field_html_def by (simp only: markup_parts cong: if_cong)

lemma proto_field_markup: "markup (proto_field_html v) = markup (proto_field_html v')"
  unfolding proto_field_html_def by (simp only: markup_parts cong: if_cong)

lemma local_proxy_field_markup: "markup (local_proxy_field_html server t) = markup (local_proxy_field_html server t')"
  unfolding local_proxy_field_html_def by (simp only: markup_parts cong: if_cong)

lemma host_form_markup:
  assumes "markup field = markup field'"
  shows "markup (host_form server field h) = markup (host_form server field' h')"
  unfolding host_form_def
  by (simp only: markup_parts assms proto_field_markup [of "ho_proto_version h" "ho_proto_version h'"]
      local_proxy_field_markup [of server "ho_target h" "ho_target h'"] cong: if_cong)

lemma client_option_markup: "markup (client_option i c) = markup (client_option 0 ClientRuntimeConfig_default)"
  unfolding client_option_def by (simp only: markup_parts cong: if_cong)

lemma binding_field_markup:
  assumes "length (re_clients r) = length (re_clients r')"
  shows "markup (render_client_binding_field r s i v) = markup (render_client_binding_field r' s i' v')"
proof -
  have "length (sort_key rc_id (hm_values (re_clients r))) = length (sort_key rc_id (hm_values (re_clients r')))"
    using assms by (simp add: hm_values_def)
  then show ?thesis
    unfolding render_client_binding_field_def Let_def
    by (simp only: markup_parts markup_concat_map [OF client_option_markup] cong: if_cong)
qed

lemma vkey_field_markup: "markup (vkey_field_html s v) = markup (vkey_field_html s v')"
  unfolding vkey_field_html_def by (simp only: markup_parts cong: if_cong)

lemma web_user_field_markup: "markup (web_user_field_html server s v) = markup (web_user_field_html server s v')"
  unfolding web_user_field_html_def by (simp only: markup_parts cong: if_cong)

lemma limit_fields_markup: "markup (limit_fields_html server c) = markup (limit_fields_html server c')"
  unfolding limit_fields_html_def Let_def by (simp only: markup_parts cong: if_cong)

lemma client_form_markup:
  assumes "markup summary = markup summary'"
  shows "markup (client_form server s summary c) = markup (client_form server s summary' c')"
  unfolding client_form_def
  by (simp only: markup_parts assms vkey_field_markup [of s "client_text rc_vkey c" "client_text rc_vkey c'"]
      web_user_field_markup [of server s "client_text (\<lambda>c. ci_web_username (rc_info c)) c" "client_text (\<lambda>c. ci_web_username (rc_info c)) c'"]
      limit_fields_markup [of server c c'] cong: if_cong)

lemma health_rule_markup: "markup (health_rule_html removed h) = markup (health_rule_html removed' h')"
  unfolding health_rule_html_def by (simp only: markup_parts cong: if_cong)

lemma health_rules_markup:
  assumes "length hs = length hs'"
  shows "markup (concat (map (health_rule_html removed) hs)) = markup (concat (map (health_rule_html removed') hs'))"
proof -
  have "markup (concat (map (health_rule_html x) hs)) = concat (replicate (length hs) (markup (health_rule_html [] undefined)))"
    for x hs by (rule markup_concat_map) (rule health_rule_markup)
  then show ?thesis using assms by simp
qed

lemma health_summary_markup:
  assumes "length (rc_healths c) = length (rc_healths c')"
  shows "markup (render_client_health_summary r c) = markup (render_client_health_summary r' c')"
proof -
  have "rc_healths c = [] \<longleftrightarrow> rc_healths c' = []" using assms by (metis length_0_conv)
  then show ?thesis
    unfolding render_client_health_summary_def Let_def
    by (simp only: markup_parts health_rules_markup [OF assms, of "client_health_down_targets (rc_vkey c) r"
        "client_health_down_targets (rc_vkey c') r'"] markup_state cong: if_cong)
qed

definition rule_count :: "Registry \<Rightarrow> u64 \<Rightarrow> nat" where
  "rule_count r i = (case find (\<lambda>c. rc_id c = i) (hm_values (re_clients r)) of None \<Rightarrow> 0 | Some c \<Rightarrow> length (rc_healths c))"

lemma client_fields_markup:
  assumes "re_server r = re_server r'" "rule_count r i = rule_count r' i'"
  shows "markup (render_client_fields r s i) = markup (render_client_fields r' s i')"
proof -
  let ?c = "find (\<lambda>c. rc_id c = i) (hm_values (re_clients r))" and ?c' = "find (\<lambda>c. rc_id c = i') (hm_values (re_clients r'))"
  have none: "render_client_health_summary r c = []" if "rc_healths c = []" for r c
    using that by (simp add: render_client_health_summary_def)
  have "markup (case ?c of None \<Rightarrow> [] | Some c \<Rightarrow> render_client_health_summary r c)
      = markup (case ?c' of None \<Rightarrow> [] | Some c \<Rightarrow> render_client_health_summary r' c)"
    using assms(2) by (auto simp: rule_count_def none split: option.splits intro: health_summary_markup)
  from client_form_markup [OF this] show ?thesis
    unfolding render_client_fields_def Let_def assms(1) .
qed

section \<open>What a user's pages depend on\<close>

text \<open>
  No other client uses the id of a tunnel or host of this client; id 0, which stands for an
  empty form, is not in use.
\<close>

definition ids_apart :: "u64 \<Rightarrow> Registry \<Rightarrow> bool" where
  "ids_apart i r \<longleftrightarrow>
     (\<forall>c \<in> set (hm_values (re_clients r)). \<forall>d \<in> set (hm_values (re_clients r)). rc_id c = i \<and> rc_id d \<noteq> i \<longrightarrow>
        rc_id d \<noteq> 0 \<and> (\<forall>t \<in> set (rc_tunnels d). tn_id t \<notin> insert 0 (tn_id ` set (rc_tunnels c)))
        \<and> (\<forall>h \<in> set (rc_hosts d). ho_id h \<notin> insert 0 (ho_id ` set (rc_hosts c))))"

lemma find_concat_filter:
  assumes "\<And>d x. d \<in> set cs \<Longrightarrow> \<not> Q d \<Longrightarrow> x \<in> set (f d) \<Longrightarrow> \<not> P x"
  shows "find P (concat (map f cs)) = find P (concat (map f (filter Q cs)))"
  using assms
proof (induction cs)
  case (Cons d cs)
  have skip: "find P (xs @ ys) = find P ys" if "\<forall>x \<in> set xs. \<not> P x" for xs ys
    using that by (induction xs) auto
  have app: "find P (xs @ ys) = (case find P xs of None \<Rightarrow> find P ys | Some x \<Rightarrow> Some x)" for xs ys
    by (induction xs) auto
  have IH: "find P (concat (map f cs)) = find P (concat (map f (filter Q cs)))"
    by (rule Cons.IH) (use Cons.prems in auto)
  show ?case
  proof (cases "Q d")
    case True
    with IH show ?thesis by (cases "find P (f d)") (simp_all add: app)
  next
    case False
    then have "\<forall>x \<in> set (f d). \<not> P x" using Cons.prems [of d] by auto
    with False IH skip show ?thesis by simp
  qed
qed simp

lemma find_filter: "find P xs = (case filter P xs of [] \<Rightarrow> None | x # _ \<Rightarrow> Some x)"
  by (induction xs) auto

lemma own_found:
  assumes own: "only_client i v c r" and apart: "ids_apart i r"
  shows "find (\<lambda>d. rc_id d = i) (hm_values (re_clients r)) = Some c"
    "i \<noteq> 0 \<Longrightarrow> find (\<lambda>d. rc_id d = 0) (hm_values (re_clients r)) = None"
    "x \<in> insert 0 (tn_id ` set (rc_tunnels c)) \<Longrightarrow>
       find (\<lambda>t. tn_id t = x) (concat (map rc_tunnels (hm_values (re_clients r)))) = find (\<lambda>t. tn_id t = x) (rc_tunnels c)"
    "x \<in> insert 0 (ho_id ` set (rc_hosts c)) \<Longrightarrow>
       find (\<lambda>h. ho_id h = x) (concat (map rc_hosts (hm_values (re_clients r)))) = find (\<lambda>h. ho_id h = x) (rc_hosts c)"
proof -
  let ?cs = "hm_values (re_clients r)" and ?Q = "\<lambda>d. rc_id d = i"
  note fil = own_values(1) [OF own]
  show "find ?Q ?cs = Some c" by (simp add: find_filter fil)
  have far: "rc_id d \<noteq> 0 \<and> (\<forall>t \<in> set (rc_tunnels d). tn_id t \<notin> insert 0 (tn_id ` set (rc_tunnels c)))
      \<and> (\<forall>h \<in> set (rc_hosts d). ho_id h \<notin> insert 0 (ho_id ` set (rc_hosts c)))" if "d \<in> set ?cs" "\<not> ?Q d" for d
    using apart that own_values(2) [OF own] only_client_get(2) [OF own] unfolding ids_apart_def by blast
  show "find (\<lambda>d. rc_id d = 0) ?cs = None" if "i \<noteq> 0"
    using far that unfolding find_None_iff by fastforce
  show "find (\<lambda>t. tn_id t = x) (concat (map rc_tunnels ?cs)) = find (\<lambda>t. tn_id t = x) (rc_tunnels c)"
    if "x \<in> insert 0 (tn_id ` set (rc_tunnels c))"
    using find_concat_filter [of ?cs ?Q rc_tunnels "\<lambda>t. tn_id t = x"] far that fil by force
  show "find (\<lambda>h. ho_id h = x) (concat (map rc_hosts ?cs)) = find (\<lambda>h. ho_id h = x) (rc_hosts c)"
    if "x \<in> insert 0 (ho_id ` set (rc_hosts c))"
    using find_concat_filter [of ?cs ?Q rc_hosts "\<lambda>h. ho_id h = x"] far that fil by force
qed

lemma own_belongs:
  assumes "only_client i v c r"
  shows "tunnel_belongs_to_client r x i \<longleftrightarrow> x \<in> tn_id ` set (rc_tunnels c)"
    "host_belongs_to_client r x i \<longleftrightarrow> x \<in> ho_id ` set (rc_hosts c)"
proof -
  have "d \<in> set (hm_values (re_clients r)) \<and> rc_id d = i \<longleftrightarrow> d \<in> set (filter (\<lambda>d. rc_id d = i) (hm_values (re_clients r)))" for d
    by simp
  then have "d \<in> set (hm_values (re_clients r)) \<and> rc_id d = i \<longleftrightarrow> d = c" for d
    unfolding own_values(1) [OF assms] by simp
  then have "(\<exists>d. (d \<in> set (hm_values (re_clients r)) \<and> rc_id d = i) \<and> Q d) \<longleftrightarrow> Q c" for Q by simp
  then have "(\<exists>d \<in> set (hm_values (re_clients r)). rc_id d = i \<and> Q d) \<longleftrightarrow> Q c" for Q by (simp add: Bex_def conj_assoc)
  then show "tunnel_belongs_to_client r x i \<longleftrightarrow> x \<in> tn_id ` set (rc_tunnels c)"
    "host_belongs_to_client r x i \<longleftrightarrow> x \<in> ho_id ` set (rc_hosts c)"
    unfolding tunnel_belongs_to_client_def host_belongs_to_client_def list_ex_iff by (auto simp: image_iff)
qed

lemma user_binding_field:
  "\<not> ws_is_admin s \<Longrightarrow> render_client_binding_field r s i v = render_client_binding_field r' s i v'"
  unfolding render_client_binding_field_def by (simp only: if_True simp_thms)

lemma render_view:
  assumes own: "only_client i v c r" "only_client i v c r'" and apart: "ids_apart i r" "ids_apart i r'"
    and same: "same_entries (rc_vkey c) r r'" "re_server r = re_server r'" and user: "\<not> ws_is_admin s" "i \<noteq> 0"
  shows "x \<in> {0, i} \<Longrightarrow> render_client_fields r s x = render_client_fields r' s x"
    "x \<in> insert 0 (tn_id ` set (rc_tunnels c)) \<Longrightarrow> render_tunnel_fields r s kind x i = render_tunnel_fields r' s kind x i"
    "x \<in> insert 0 (ho_id ` set (rc_hosts c)) \<Longrightarrow> render_host_fields r s x i = render_host_fields r' s x i"
proof -
  note found = own_found [OF own(1) apart(1)] own_found [OF own(2) apart(2)]
  have binding: "render_client_binding_field r s i v = render_client_binding_field r' s i v" for v
    by (rule user_binding_field [OF user(1)])
  have "render_client_health_summary r c = render_client_health_summary r' c"
    by (simp only: render_client_health_summary_def client_health_down_targets_def same_entries_cong(6) [OF same(1)])
  then show "render_client_fields r s x = render_client_fields r' s x" if "x \<in> {0, i}"
    using that user(2) by (elim insertE) (simp_all add: render_client_fields_def found same(2))
  show "render_tunnel_fields r s kind x i = render_tunnel_fields r' s kind x i" if "x \<in> insert 0 (tn_id ` set (rc_tunnels c))"
    by (simp only: render_tunnel_fields_def found(3,7) [OF that] same(2) binding)
  show "render_host_fields r s x i = render_host_fields r' s x i" if "x \<in> insert 0 (ho_id ` set (rc_hosts c))"
    by (simp only: render_host_fields_def found(4,8) [OF that] same(2) binding)
qed

lemma render_form_view:
  assumes view: "same_view i r r'" "ids_apart i r" "ids_apart i r'" "i \<noteq> 0" "user_session i cookie r"
    and form: "(action, kind) \<in> {(''/client/add'', ''client''), (''/client/edit'', ''client''), (''/index/edit'', ''tcp''),
        (''/index/edithost'', ''host'')} \<or> action \<in> {''/index/add'', ''/index/addhost''} \<and> requested = None"
  shows "render_form env r' cookie kind title action requested client_id = render_form env r cookie kind title action requested client_id"
proof -
  let ?x = "or_zero requested"
  obtain v c where own: "only_client i v c r" "only_client i v c r'"
    and same: "same_entries (rc_vkey c) r r'" "re_server r = re_server r'"
    using view(1) by (auto simp: same_view_def)
  obtain s where s: "current_session r cookie = Some s" "\<not> ws_is_admin s" "ws_client_id s = Some i"
    using view(5) by (rule user_session_Some)
  note belongs = own_belongs [OF own(1)] own_belongs [OF own(2)]
  note fields = render_view [OF own view(2,3) same s(2) view(4)]
  have auth: "authorize_form r' s action ?x = authorize_form r s action ?x"
    by (simp only: authorize_form_def s(2,3) belongs if_False option.case)
  have "form_fields r' s kind ?x i = form_fields r s kind ?x i" if "authorize_form r s action ?x = Inr u" for u
  proof -
    have "(kind = ''client'' \<longrightarrow> ?x \<in> {0, i}) \<and> (kind = ''host'' \<longrightarrow> ?x \<in> insert 0 (ho_id ` set (rc_hosts c)))
        \<and> (kind \<notin> {''client'', ''host''} \<longrightarrow> ?x \<in> insert 0 (tn_id ` set (rc_tunnels c)))"
      using form
    proof (elim disjE)
      assume "action \<in> {''/index/add'', ''/index/addhost''} \<and> requested = None"
      then show ?thesis by (simp add: or_zero_def)
    qed (use that s(2,3) belongs in \<open>simp add: authorize_form_def; elim disjE conjE; simp split: if_splits\<close>)
    then show ?thesis by (simp add: form_fields_def fields)
  qed
  then have fields: "form_fields r' s kind ?x (or_zero (ws_client_id s)) = form_fields r s kind ?x (or_zero (ws_client_id s))"
    if "authorize_form r s action ?x = Inr u" for u
    using that by (simp add: s(3) or_zero_def)
  have session: "current_session r' cookie = Some s" using same_view_session [OF view(1)] s(1) by simp
  have "render_layout env r' = render_layout env r" by (simp add: fun_eq_iff render_layout_def same(2))
  then show ?thesis
    by (cases "authorize_form r s action ?x")
      (simp_all add: render_form_def Let_def session s(1,2) auth same(2) fields)
qed

lemma user_page_views:
  assumes view: "same_view i r r'" "user_session i cookie r"
  shows "handle_index env r' cookie = handle_index env r cookie"
    "handle_client_list env r' cookie = handle_client_list env r cookie"
    "handle_host_list env r' cookie q = handle_host_list env r cookie q"
    "handle_tunnel_page env r' cookie q kind name = handle_tunnel_page env r cookie q kind name"
    "handle_global env r' cookie = handle_global env r cookie"
proof -
  obtain s where s: "current_session r cookie = Some s" "\<not> ws_is_admin s" "ws_client_id s = Some i"
    using view(2) by (rule user_session_Some)
  have s': "current_session r' cookie = Some s" using same_view_session [OF view(1)] s(1) by simp
  have server: "re_server r' = re_server r" using view(1) by (simp add: same_view_def)
  have layout: "render_layout env r' = render_layout env r" by (simp add: fun_eq_iff render_layout_def server)
  have "render_dashboard env r' s = render_dashboard env r s"
    using dashboard_view [OF view(1)] s(2,3) by (simp add: render_dashboard_def scope_client_id_def)
  then show "handle_index env r' cookie = handle_index env r cookie"
    by (simp add: handle_index_def s s' layout)
  show "handle_client_list env r' cookie = handle_client_list env r cookie"
    "handle_host_list env r' cookie q = handle_host_list env r cookie q"
    "handle_tunnel_page env r' cookie q kind name = handle_tunnel_page env r cookie q kind name"
    "handle_global env r' cookie = handle_global env r cookie"
    unfolding handle_client_list_def handle_host_list_def handle_tunnel_page_def handle_global_def s(1) s' option.case server layout
    by (simp_all add: s(2))
qed

lemma user_form_views:
  assumes "same_view i r r'" "ids_apart i r" "ids_apart i r'" "i \<noteq> 0" "user_session i cookie r"
  shows "handle_client_add env r' cookie = handle_client_add env r cookie"
    "handle_client_edit env r' cookie q = handle_client_edit env r cookie q"
    "handle_tunnel_add env r' cookie q = handle_tunnel_add env r cookie q"
    "handle_tunnel_edit env r' cookie q = handle_tunnel_edit env r cookie q"
    "handle_host_add env r' cookie q = handle_host_add env r cookie q"
    "handle_host_edit env r' cookie q = handle_host_edit env r cookie q"
  by (simp_all add: handle_client_add_def handle_client_edit_def handle_tunnel_add_def handle_tunnel_edit_def
      handle_host_add_def handle_host_edit_def render_form_view [OF assms])

section \<open>Findings\<close>

text \<open>
  The page for file tunnels asks for the type \<open>fileserver\<close>, a mode no tunnel is started with:
  the row of a file tunnel is never on it.
\<close>

lemma file_page_empty:
  assumes "eq_ignore_ascii_case (tn_mode t) ''file''" "map_of tunnel_pages ''/index/file'' = Some (param p ''type'', name)"
  shows "\<not> tunnel_row_shown p (tunnel_row r v c t)"
proof -
  have "length (to_ascii_lowercase (tn_mode t)) = length (to_ascii_lowercase ''file'')"
    using assms(1) by (simp only: eq_ignore_ascii_case_def)
  then have "length (tn_mode t) = 4" by simp
  then have "tn_mode t \<noteq> ''fileserver''" by auto
  moreover have "param p ''type'' = ''fileserver''" using assms(2) by (simp add: tunnel_pages_def)
  ultimately show ?thesis
    by (simp add: tunnel_row_shown_def tunnel_row_def value_string_def Let_def)
qed

text \<open>The query of an administrator reaches a page as it is, quotation marks and tags included.\<close>

definition demo_page_env :: page_env where
  \<open>demo_page_env =
     \<lparr>pg_views = (\<lambda>name. if name = ''host_list.html'' then Some ''<a href="{{base}}/index/addhost?client_id={{client_id}}">''
                         else if name = ''layout.html'' then Some ''{{body}}'' else None),
      pg_path = (\<lambda>name. ''web/views/'' @ name), pg_order = (\<lambda>vars. vars), pg_now = 0, pg_now_debug = [],
      pg_history = [], pg_to_string = (\<lambda>_. []), pg_md5_hex = (\<lambda>s. s)\<rparr>\<close>

lemma query_not_escaped:
  \<open>handle_host_list demo_page_env
       ((Registry_new ServerConfig_default)\<lparr>re_sessions := [(''t'', WebSession_admin ''admin'')]\<rparr>) (Some ''t'')
       [(''client_id'', ''"><script>'')] = Html ''<a href="/index/addhost?client_id="><script>">''\<close>
  by code_simp

section \<open>Properties\<close>





end
