(* ===== verification/Router.thy ===== *)
theory Router
  imports Logins Pages
begin

text \<open>
  The routes of the web console, \<open>start_web_manager\<close> of \<open>src/web.rs\<close>: which handler answers which
  method and path.  The package that serves HTTP finds the path inside a nested router
  (\<open>nest\<close>); files under \<open>/static\<close> are served by it too and are left out.
\<close>

section \<open>The router\<close>

datatype http_method = Get | Post

datatype web_answer =
    PageAnswer response
  | RowsAnswer "nat + json"
  | ChangeAnswer "nat + Ajax"
  | LoginAnswer Ajax "string option"
  | RegisterAnswer Ajax
  | NoRoute

definition mutation_routes :: "string list" where
  "mutation_routes =
     [''/client/changestatus'', ''/client/del'', ''/client/add'', ''/client/edit'', ''/index/stop'', ''/index/start'',
      ''/index/del'', ''/index/copy'', ''/index/add'', ''/index/edit'', ''/index/hoststop'', ''/index/hoststart'',
      ''/index/delhost'', ''/index/addhost'', ''/index/edithost'', ''/global/save'']"

definition handle_register_submit :: "web_env \<Rightarrow> params \<Rightarrow> Web \<Rightarrow> (Ajax \<times> Web) option" where
  "handle_register_submit env params w = register_web_user env params w"

text \<open>The routes with \<open>GET\<close>; the pages that only read are those of \<open>page_route\<close>.\<close>

definition get_route :: "page_env \<Rightarrow> string option \<Rightarrow> string \<Rightarrow> params \<Rightarrow> Registry \<Rightarrow> web_answer \<times> Registry" where
  "get_route env cookie path q r =
     (if path \<in> {''/login/index'', ''/login/''} then map_prod PageAnswer id (handle_login env r)
      else if path = ''/captcha/'' then map_prod PageAnswer id (handle_captcha env q r)
      else if path = ''/login/register'' then map_prod PageAnswer id (handle_register env r)
      else if path = ''/login/out'' then (PageAnswer (to_login r), handle_logout cookie r)
      else (case page_route env r cookie path q of
              Some page \<Rightarrow> (PageAnswer page, r)
            | None \<Rightarrow> (NoRoute, r)))"

text \<open>
  The routes with \<open>POST\<close>.  A change is looked up by the full path of the request, the other
  handlers by the path inside the router.  Registration may not return.
\<close>

definition post_route ::
  "page_env \<Rightarrow> web_env \<Rightarrow> string \<Rightarrow> string option \<Rightarrow> string \<Rightarrow> string \<Rightarrow> params \<Rightarrow> Web \<Rightarrow> (web_answer \<times> Web) option" where
  "post_route env wenv remote cookie full_path path q w =
     (if path = ''/login/verify''
      then (case handle_login_verify (pg_md5_hex env) (pg_now env) (pg_now_debug env) remote q (wb_reg w) of
              ((res, token), r) \<Rightarrow> Some (LoginAnswer res token, w\<lparr>wb_reg := r\<rparr>))
      else if path = ''/login/register'' then map_option (map_prod RegisterAnswer id) (handle_register_submit wenv q w)
      else if path \<in> set mutation_routes
      then Some (map_prod ChangeAnswer id (handle_post_mutation wenv cookie full_path q w))
      else (case rows_route (wb_reg w) cookie path q of
              Some rows \<Rightarrow> Some (RowsAnswer rows, w)
            | None \<Rightarrow> Some (NoRoute, w)))"

definition web_request ::
  "page_env \<Rightarrow> web_env \<Rightarrow> (string \<Rightarrow> string \<Rightarrow> string option) \<Rightarrow> string \<Rightarrow> http_method \<Rightarrow> string \<Rightarrow> string option \<Rightarrow> params \<Rightarrow> Web
     \<Rightarrow> (web_answer \<times> Web) option" where
  "web_request env wenv nest remote m full_path cookie q w =
     (let base = sc_web_base_url (re_server (wb_reg w))
      in case (if base \<noteq> [] \<and> base \<noteq> ''/'' then nest base full_path else Some full_path) of
           None \<Rightarrow> Some (NoRoute, w)
         | Some path \<Rightarrow>
             (case m of
                Get \<Rightarrow> (case get_route env cookie path q (wb_reg w) of (a, r) \<Rightarrow> Some (a, w\<lparr>wb_reg := r\<rparr>))
              | Post \<Rightarrow> post_route env wenv remote cookie full_path path q w))"

section \<open>What a request leaves alone\<close>

lemma captcha_config:
  "same_config r (snd (issue_login_captcha digest now now_debug r))" "same_config r (snd (verify_login_captcha now token ans r))"
  "same_config r (snd (captcha_svg env token r))"
  by (auto simp: same_config_def issue_login_captcha_def next_link_id_def verify_login_captcha_def captcha_svg_def Let_def
      split: option.split)

lemma get_route_config: "same_config r (snd (get_route env cookie path q r))"
proof -
  have "same_config r (snd (login_captcha_block env r))"
    using captcha_config(1) [of r "pg_md5_hex env" "pg_now env" "pg_now_debug env"]
    by (cases "issue_login_captcha (pg_md5_hex env) (pg_now env) (pg_now_debug env) r")
      (auto simp: login_captcha_block_def Let_def split: option.split)
  then have "same_config r (snd (render_login env r msg))" for msg
    by (simp add: render_login_def Let_def case_prod_beta)
  moreover have "same_config r (snd (handle_captcha env q r))"
    using captcha_config(3) [of r env "param q ''token''"]
    by (cases "captcha_svg env (param q ''token'') r") (simp add: handle_captcha_def split: option.split)
  moreover have "same_config r (handle_logout cookie r)" by (simp add: same_config_def handle_logout_def split: option.split)
  ultimately show ?thesis
    by (simp add: get_route_def handle_login_def handle_register_def case_prod_beta split: option.split)
qed

lemma login_config: "same_config r (snd (handle_login_verify digest now now_debug remote q r))"
proof -
  define v where "v = (if sc_open_captcha (re_server r)
      then verify_login_captcha now (param q ''captcha_token'') (param q ''captcha'') r else (True, r))"
  have "same_config r (snd v)" by (simp add: v_def captcha_config)
  then show ?thesis
    unfolding handle_login_verify_def Let_def v_def [symmetric]
    by (auto simp: case_prod_beta same_config_def authorize_web_login_ip_def authorize_ip_def next_link_id_def Let_def
        split: option.split)
qed

text \<open>Registration adds one client under a free key, which may not install configurations.\<close>

definition registered :: "Registry \<Rightarrow> Registry \<Rightarrow> bool" where
  "registered r r' \<longleftrightarrow> sc_allow_user_register (re_server r) \<and> re_global r' = re_global r \<and> re_server r' = re_server r
     \<and> (\<exists>v c. client_of v r = None \<and> re_clients r' = hm_insert v c (re_clients r)
          \<and> rc_tunnels c = [] \<and> rc_hosts c = [] \<and> \<not> ci_config_conn_allow (rc_info c))"

lemma fresh_user_vkey_free:
  assumes "fresh_user_vkey v r = Some (v', r')"
  shows "client_of v' r = None \<and> renumbered r r' \<and> (v \<noteq> [] \<longrightarrow> v' \<noteq> [])"
proof -
  let ?P = "\<lambda>v r res. client_of (fst res) r = None \<and> renumbered r (snd res) \<and> (v \<noteq> [] \<longrightarrow> fst res \<noteq> [])"
  have "?P v r (v', r')"
  proof (rule fresh_user_vkey.raw_induct [where P = ?P, OF _ assms])
    fix f v r res
    assume IH: "\<And>v r res. f v r = Some res \<Longrightarrow> ?P v r res"
      and res: "(if hm_contains (re_clients r) v then (case next_link_id r of (i, r') \<Rightarrow> f (''user'' @ show_nat (unat i)) r')
             else Some (v, r)) = Some res"
    show "?P v r res"
    proof (cases "hm_contains (re_clients r) v")
      case True
      then have "f (''user'' @ show_nat (unat (re_seq r))) (r\<lparr>re_seq := re_seq r + 1\<rparr>) = Some res"
        using res by (simp add: next_link_id_def)
      from IH [OF this] show ?thesis by (auto simp: renumbered_def)
    qed (use res in \<open>auto simp: hm_contains_def\<close>)
  qed
  then show ?thesis by simp
qed

lemma register_effect:
  assumes "register_web_user env params w = Some (a, w')"
  shows "w' = w \<or> registered (wb_reg w) (wb_reg w')"
proof (cases "fresh_user_vkey (''user'' @ show_nat (unat (re_seq (wb_reg w)))) ((wb_reg w)\<lparr>re_seq := re_seq (wb_reg w) + 1\<rparr>)")
  case None
  show ?thesis
    using assms unfolding register_web_user_def Let_def next_link_id_def prod.case None option.case
    by (simp split: if_splits)
next
  case (Some y)
  obtain v r2 where y: "y = (v, r2)" by fastforce
  have v: "client_of v (wb_reg w) = None" "renumbered ((wb_reg w)\<lparr>re_seq := re_seq (wb_reg w) + 1\<rparr>) r2"
    using fresh_user_vkey_free [OF Some [unfolded y]] by auto
  have reg: "wb_reg x = wb_reg z" if "persist_ajax e m z = (b, x)" for e m z b x
    using that persist_reg(1) by (metis snd_conv)
  show ?thesis
    using assms v unfolding register_web_user_def Let_def next_link_id_def prod.case Some y option.case
    by (auto simp: registered_def renumbered_def rc_info_update_def rc_vkey_update_def ClientRuntimeConfig_default_def
        split: if_splits dest!: reg)
      (rule exI [of _ v], rule conjI, assumption, rule exI, rule conjI, rule refl, simp)
qed

lemma refused_change: "current_session (wb_reg w) cookie = None \<Longrightarrow> handle_post_mutation env cookie path p w = (Inl 401, w)"
  by (simp add: handle_post_mutation_def Let_def)

lemma web_request_cases:
  assumes "web_request env wenv nest remote m full_path cookie q w = Some (a, w')"
  obtains (same) "w' = w"
  | (page) r' where "w' = w\<lparr>wb_reg := r'\<rparr>" "same_config (wb_reg w) r'"
  | (register) b where "handle_register_submit wenv q w = Some (b, w')"
  | (change) "a = ChangeAnswer (fst (handle_post_mutation wenv cookie full_path q w))"
      "w' = snd (handle_post_mutation wenv cookie full_path q w)"
proof (cases m)
  case Get
  with assms page get_route_config same show thesis
    by (auto simp: web_request_def Let_def case_prod_beta split: option.splits if_splits)
next
  case Post
  have login: "same_config (wb_reg w) r'" if "handle_login_verify digest now now_debug remote q (wb_reg w) = (x, r')" for digest now now_debug x r'
    using login_config [of "wb_reg w" digest now now_debug remote q] that by simp
  from Post assms have "w' = w \<or> (\<exists>path. post_route env wenv remote cookie full_path path q w = Some (a, w'))"
    by (auto simp: web_request_def Let_def split: option.splits if_splits)
  with same page register change show thesis
    by (auto simp: post_route_def map_prod_def case_prod_beta [of _ "handle_post_mutation wenv cookie full_path q w"]
        split: if_splits option.splits prod.splits dest!: login)
qed

text \<open>
  With \<open>web_base_url\<close> set to a single slash the router is not nested, but the slash is still cut
  off the path of a change: no change is recognised any more.
\<close>

lemma root_base_unsupported:
  assumes "sc_web_base_url (re_server (wb_reg w)) = ''/''" "path \<in> set mutation_routes"
    and "current_session (wb_reg w) cookie = Some session" "ws_is_admin session"
  shows "handle_post_mutation env cookie path p w = (Inr (ajax 0 ''unsupported''), w)"
proof -
  have "list_all (\<lambda>path. prefix ''/'' path \<and> tl path \<notin> set mutation_routes) mutation_routes" by code_simp
  then have "clean_path ''/'' path = tl path" "tl path \<notin> set mutation_routes"
    using assms(2) by (auto simp: list_all_iff clean_path_def drop_Suc)
  then show ?thesis
    using assms by (simp add: handle_post_mutation_def authorize_mutation_def dispatch_mutation_def mutation_routes_def)
qed

section \<open>Properties\<close>

text \<open>
  C8: Without a session nobody changes the configuration.  Whatever request arrives without a
  valid session cookie, with whatever method, path and parameters: clients, tunnels, hosts,
  global settings and the files of the store stay as they are, unless the administrator allows
  users to register and the request adds one client, under a key that was free, without tunnels
  or hosts and without the right to install configurations.
\<close>

theorem anonymous_changes_nothing:
  assumes "web_request env wenv nest remote m full_path cookie q w = Some (a, w')" "current_session (wb_reg w) cookie = None"
  shows "(same_config (wb_reg w) (wb_reg w') \<and> wb_files w' = wb_files w) \<or> registered (wb_reg w) (wb_reg w')"
  using assms(1)
proof (cases rule: web_request_cases)
  case (register b)
  then show ?thesis using register_effect by (fastforce simp: handle_register_submit_def)
next
  case change
  then show ?thesis by (simp add: refused_change [OF assms(2)])
qed auto

definition demo_console :: Web where
  "demo_console = \<lparr>wb_reg = (Registry_new ServerConfig_default)\<lparr>re_clients :=
     [(''k'', (rc_vkey_update ''k'' ClientRuntimeConfig_default)\<lparr>rc_id := 1\<rparr>)]\<rparr>, wb_files = (\<lambda>_. None)\<rparr>"

definition demo_delete :: "string option \<Rightarrow> (web_answer \<times> Web) option" where
  "demo_delete cookie = web_request demo_page_env demo_web_env (\<lambda>_ _. None) ''1.2.3.4:5'' Post ''/client/del'' cookie
     [(''id'', ''1'')] demo_console"

theorem anonymous_changes_nothing_witness:
  "\<exists>w'. demo_delete (Some ''made up'') = Some (ChangeAnswer (Inl 401), w') \<and> re_clients (wb_reg w') \<noteq> []"
proof -
  have s: "current_session (wb_reg demo_console) (Some ''made up'') = None" "re_clients (wb_reg demo_console) \<noteq> []" by code_simp+
  have d: "demo_delete (Some ''made up'') = Some (ChangeAnswer (Inl 401), demo_console)"
    unfolding demo_delete_def web_request_def
    by (simp add: demo_console_def Registry_new_def ServerConfig_default_def post_route_def mutation_routes_def
        handle_post_mutation_def current_session_def)
  from anonymous_changes_nothing [OF d [unfolded demo_delete_def] s(1)] d s(2) show ?thesis
    by (auto simp: same_config_def registered_def)
qed

end
