(* ===== verification/FileServer.thy ===== *)
theory FileServer
  imports Http Protocol
begin

text \<open>
  The file server of the client (\<open>serve_file\<close> and its helpers in \<open>src/client.rs\<close>) and what
  it uses of \<open>std::path\<close> on Unix.  The file system is a record of what the operating system
  answers; the response is the text written to the stream.

  \<open>file_server_confined\<close> states that nothing outside the root directory has an influence
  on what the server answers.
\<close>

section \<open>Paths\<close>

datatype path_component = RootDir | CurDir | ParentDir | NormalPart string

text \<open>
  \<open>Path::components\<close>: repeated separators and dots count only where a relative path begins
  with a dot.
\<close>

definition body_component :: "string \<Rightarrow> path_component list" where
  "body_component s =
     (if s = [] \<or> s = ''.'' then [] else if s = ''..'' then [ParentDir] else [NormalPart s])"

definition path_components :: "string \<Rightarrow> path_component list" where
  "path_components p =
     (if prefix ''/'' p then RootDir # concat (map body_component (split_on (CHR ''/'') p))
      else (case split_on (CHR ''/'') p of
              [] \<Rightarrow> []
            | x # xs \<Rightarrow> (if x = ''.'' then [CurDir] else body_component x) @ concat (map body_component xs)))"

text \<open>\<open>PathBuf::push\<close>; \<open>Path::join\<close> pushes onto a copy.\<close>

definition path_push :: "string \<Rightarrow> string \<Rightarrow> string" where
  "path_push p part =
     (if prefix ''/'' part then part
      else if p \<noteq> [] \<and> last p \<noteq> CHR ''/'' then p @ ''/'' @ part
      else p @ part)"

definition component_text :: "path_component \<Rightarrow> string" where
  "component_text c =
     (case c of RootDir \<Rightarrow> ''/'' | CurDir \<Rightarrow> ''.'' | ParentDir \<Rightarrow> ''..'' | NormalPart s \<Rightarrow> s)"

text \<open>
  \<open>strip_prefix\<close>, on paths whose remaining part has no repeated separators: the components
  after those of the base.
\<close>

definition path_strip_prefix :: "string \<Rightarrow> string \<Rightarrow> string option" where
  "path_strip_prefix base p =
     (if prefix (path_components base) (path_components p)
      then Some (join ''/'' (map component_text (drop (length (path_components base)) (path_components p))))
      else None)"

definition path_extension :: "string \<Rightarrow> string option" where
  "path_extension p =
     (let cs = path_components p
      in if cs = [] then None
         else (case last cs of
                 NormalPart name \<Rightarrow>
                   (case rsplit_once (CHR ''.'') name of
                      None \<Rightarrow> None
                    | Some (before, after) \<Rightarrow> if before = [] then None else Some after)
               | _ \<Rightarrow> None))"

section \<open>The file server\<close>

record file_system =
  fs_is_dir :: "string \<Rightarrow> bool"
  fs_read :: "string \<Rightarrow> string io_result"
  fs_read_dir :: "string \<Rightarrow> string io_result list io_result"

definition html_escape :: "string \<Rightarrow> string" where
  "html_escape s =
     replace_char (CHR 0x22) ''&quot;'' (replace_char (CHR ''>'') ''&gt;''
       (replace_char (CHR ''<'') ''&lt;'' (replace_char (CHR ''&'') ''&amp;'' s)))"

definition parse_request_path :: "string \<Rightarrow> string option" where
  "parse_request_path head =
     (case lines (utf8_lossy head) of
        [] \<Rightarrow> None
      | first # _ \<Rightarrow> (case split_whitespace first of _ # p # _ \<Rightarrow> Some p | _ \<Rightarrow> None))"

fun clean_components :: "string \<Rightarrow> path_component list \<Rightarrow> string option" where
  "clean_components clean [] = Some clean"
| "clean_components clean (NormalPart part # cs) = clean_components (path_push clean part) cs"
| "clean_components clean (CurDir # cs) = clean_components clean cs"
| "clean_components clean (RootDir # cs) = None"
| "clean_components clean (ParentDir # cs) = None"

definition safe_join :: "string \<Rightarrow> string \<Rightarrow> string option" where
  "safe_join root_dir relative =
     map_option (path_push root_dir) (clean_components [] (path_components relative))"

definition content_type :: "string \<Rightarrow> string" where
  "content_type path =
     (let ext = to_ascii_lowercase (case path_extension path of
                  Some e \<Rightarrow> if utf8_valid e then e else [] | None \<Rightarrow> [])
      in if ext \<in> {''html'', ''htm''} then ''text/html; charset=utf-8''
         else if ext = ''css'' then ''text/css; charset=utf-8''
         else if ext = ''js'' then ''application/javascript; charset=utf-8''
         else if ext = ''json'' then ''application/json''
         else if ext = ''png'' then ''image/png''
         else if ext \<in> {''jpg'', ''jpeg''} then ''image/jpeg''
         else if ext = ''gif'' then ''image/gif''
         else if ext = ''svg'' then ''image/svg+xml''
         else if ext \<in> {''txt'', ''log''} then ''text/plain; charset=utf-8''
         else ''application/octet-stream'')"

definition dir_item :: "string \<Rightarrow> string \<Rightarrow> string \<Rightarrow> string" where
  "dir_item root_dir dir name =
     (let path = path_push dir name;
          rel = (case path_strip_prefix root_dir path of Some r \<Rightarrow> r | None \<Rightarrow> path)
      in ''<li><a href='' @ [CHR 0x22] @ ''/'' @ html_escape (utf8_lossy rel) @ [CHR 0x22] @ ''>''
         @ html_escape (utf8_lossy name) @ ''</a></li>'')"

fun dir_items :: "string \<Rightarrow> string \<Rightarrow> string io_result list \<Rightarrow> string io_result" where
  "dir_items root_dir dir [] = Inr []"
| "dir_items root_dir dir (Inl e # es) = Inl e"
| "dir_items root_dir dir (Inr name # es) =
     (case dir_items root_dir dir es of Inl e \<Rightarrow> Inl e | Inr r \<Rightarrow> Inr (dir_item root_dir dir name @ r))"

definition serve_dir :: "file_system \<Rightarrow> string \<Rightarrow> string \<Rightarrow> string io_result" where
  "serve_dir fs root_dir dir =
     (case fs_read_dir fs dir of
        Inl e \<Rightarrow> Inl e
      | Inr entries \<Rightarrow>
          (case dir_items root_dir dir entries of
             Inl e \<Rightarrow> Inl e
           | Inr items \<Rightarrow>
               Inr (write_http_response ''200 OK'' ''text/html; charset=utf-8''
                 (''<!doctype html><meta charset='' @ [CHR 0x22] @ ''utf-8'' @ [CHR 0x22] @ ''><ul>''
                  @ items @ ''</ul>''))))"

text \<open>The path of the request, without query and prefix.\<close>

definition requested_file :: "FileServe \<Rightarrow> string \<Rightarrow> string" where
  "requested_file file head =
     (let path = (case parse_request_path head of Some p \<Rightarrow> p | None \<Rightarrow> ''/'');
          path = trim_start_matches (CHR ''/'') (hd (split_on (CHR ''?'') path));
          strip = trim_start_matches (CHR ''/'') (fs_strip_pre file)
      in if strip \<noteq> [] \<and> prefix strip path
         then trim_start_matches (CHR ''/'') (drop (length strip) path)
         else path)"

definition serve_file :: "file_system \<Rightarrow> Link \<Rightarrow> string \<Rightarrow> string io_result" where
  "serve_file fs link stream =
     (case lk_file link of
        None \<Rightarrow> Inr (write_http_response ''500 Internal Server Error'' ''text/plain'' ''missing file route'')
      | Some file \<Rightarrow>
          (case fst (read_http_head stream (32 * 1024)) of
             Inl e \<Rightarrow> Inl e
           | Inr head \<Rightarrow>
               (let root_dir = fs_local_path file
                in case safe_join root_dir (requested_file file head) of
                     None \<Rightarrow> Inr (write_http_response ''403 Forbidden'' ''text/plain'' ''forbidden'')
                   | Some full_path \<Rightarrow>
                       if fs_is_dir fs full_path then serve_dir fs root_dir full_path
                       else (case fs_read fs full_path of
                               Inr bytes \<Rightarrow> Inr (write_http_response ''200 OK'' (content_type full_path) bytes)
                             | Inl _ \<Rightarrow> Inr (write_http_response ''404 Not Found'' ''text/plain'' ''not found'')))))"

section \<open>Facts\<close>

text \<open>A path is below a directory if it continues the directory's components with names only.\<close>

definition below :: "string \<Rightarrow> string \<Rightarrow> bool" where
  "below root_dir p \<longleftrightarrow> (\<exists>names. path_components p = path_components root_dir @ map NormalPart names)"

definition file_name_ok :: "string \<Rightarrow> bool" where
  "file_name_ok s \<longleftrightarrow> s \<notin> {[], ''.'', ''..''} \<and> CHR ''/'' \<notin> set s"

lemma body_component_name [simp]: "file_name_ok s \<Longrightarrow> body_component s = [NormalPart s]"
  by (simp add: file_name_ok_def body_component_def)

lemma split_on_append_all:
  "split_on c (a @ c # s) = split_on c a @ split_on c s"
  by (induction a) (auto split: list.splits)

lemma path_components_names:
  assumes "NormalPart s \<in> set (path_components p)"
  shows "file_name_ok s"
proof -
  have "\<exists>x \<in> set (split_on (CHR ''/'') p). NormalPart s \<in> set (body_component x)"
    using assms by (cases "split_on (CHR ''/'') p") (auto simp: path_components_def split: if_splits)
  then obtain x where "x \<in> set (split_on (CHR ''/'') p)" "NormalPart s \<in> set (body_component x)" by blast
  moreover have "CHR ''/'' \<notin> set x" by (rule split_on_no_sep) fact
  ultimately show ?thesis by (auto simp: body_component_def file_name_ok_def split: if_splits)
qed

text \<open>Joining names gives the path of these names.\<close>

lemma join_components:
  assumes "list_all file_name_ok names"
  shows "concat (map body_component (split_on (CHR ''/'') (join ''/'' names))) = map NormalPart names"
  using assms
proof (induction "''/''" names rule: join.induct)
  case (2 x)
  then show ?case by (simp add: split_on_absent file_name_ok_def [of x])
next
  case (3 x y xs)
  then show ?case
    by (simp add: split_on_append file_name_ok_def [of x])
qed (simp add: body_component_def)

lemma join_relative: "list_all file_name_ok names \<Longrightarrow> \<not> prefix ''/'' (join ''/'' names)"
  by (cases "(''/'', names)" rule: join.cases) (auto simp: file_name_ok_def neq_Nil_conv)

lemma join_last: "list_all file_name_ok names \<Longrightarrow> names \<noteq> [] \<Longrightarrow> join ''/'' names \<noteq> [] \<and> last (join ''/'' names) \<noteq> CHR ''/''"
proof (induction "''/''" names rule: join.induct)
  case (2 x)
  then have "x \<noteq> []" "CHR ''/'' \<notin> set x" by (simp_all add: file_name_ok_def)
  then show ?case by (metis join.simps(2) last_in_set)
qed auto

lemma join_snoc: "names \<noteq> [] \<Longrightarrow> join sep (names @ [n]) = join sep names @ sep @ n"
  by (induction sep names rule: join.induct) auto

lemma push_name:
  assumes "list_all file_name_ok names" "file_name_ok n"
  shows "path_push (join ''/'' names) n = join ''/'' (names @ [n])"
proof -
  have "\<not> prefix ''/'' n" using assms(2) by (auto simp: file_name_ok_def neq_Nil_conv)
  then show ?thesis
    using join_last [OF assms(1)] by (cases "names = []") (auto simp: path_push_def join_snoc)
qed

lemma clean_components_Some:
  assumes "clean_components (join ''/'' names) cs = Some clean" "list_all file_name_ok names"
    "\<And>s. NormalPart s \<in> set cs \<Longrightarrow> file_name_ok s"
  shows "\<exists>rest. clean = join ''/'' (names @ rest) \<and> list_all file_name_ok rest
     \<and> cs = filter (\<lambda>c. c = CurDir \<or> (\<exists>s. c = NormalPart s)) cs \<and> map NormalPart rest = filter (\<lambda>c. c \<noteq> CurDir) cs"
  using assms
proof (induction cs arbitrary: names)
  case Nil
  then show ?case by (intro exI [of _ "[]"]) simp
next
  case (Cons c cs)
  show ?case
  proof (cases c)
    case (NormalPart s)
    then have ok: "file_name_ok s" using Cons.prems(3) by simp
    then have "clean_components (join ''/'' (names @ [s])) cs = Some clean" "list_all file_name_ok (names @ [s])"
      using Cons.prems(1,2) NormalPart by (simp_all add: push_name)
    from Cons.IH [OF this] Cons.prems(3) obtain rest where
      "clean = join ''/'' ((names @ [s]) @ rest)" "list_all file_name_ok rest"
      "cs = filter (\<lambda>c. c = CurDir \<or> (\<exists>s. c = NormalPart s)) cs" "map NormalPart rest = filter (\<lambda>c. c \<noteq> CurDir) cs"
      by fastforce
    with ok NormalPart show ?thesis by (intro exI [of _ "s # rest"]) auto
  next
    case CurDir
    with Cons show ?thesis by fastforce
  qed (use Cons.prems in auto)
qed

lemma components_append:
  assumes "p \<noteq> []" "\<not> prefix ''/'' s"
  shows "path_components (p @ ''/'' @ s) = path_components p @ concat (map body_component (split_on (CHR ''/'') s))"
proof -
  have "split_on (CHR ''/'') (p @ ''/'' @ s) = split_on (CHR ''/'') p @ split_on (CHR ''/'') s"
    using split_on_append_all [of "CHR ''/''" p s] by simp
  moreover have "prefix ''/'' (p @ ''/'' @ s) \<longleftrightarrow> prefix ''/'' p"
    using assms(1) by (cases p) auto
  ultimately show ?thesis
    by (cases "split_on (CHR ''/'') p") (auto simp: path_components_def)
qed

lemma push_names:
  assumes "list_all file_name_ok names"
  shows "path_components (path_push root_dir (join ''/'' names)) = path_components root_dir @ map NormalPart names"
proof -
  let ?s = "join ''/'' names"
  note rel = join_relative [OF assms] and names = join_components [OF assms]
  consider (empty) "root_dir = []" | (sep) d where "root_dir = d @ ''/''" | (open_end) "root_dir \<noteq> []" "last root_dir \<noteq> CHR ''/''"
    by (metis append_butlast_last_id)
  then show ?thesis
  proof cases
    case empty
    have "path_components ?s = map NormalPart names"
    proof (cases "split_on (CHR ''/'') ?s")
      case (Cons x xs)
      have "x \<noteq> ''.''"
        using names Cons assms
        by (cases "(''/'', names)" rule: join.cases) (auto simp: split_on_append split_on_absent file_name_ok_def)
      with rel names Cons show ?thesis by (simp add: path_components_def)
    qed simp
    then show ?thesis by (simp add: empty path_push_def path_components_def [of "[]"] body_component_def rel)
  next
    case (sep d)
    show ?thesis
    proof (cases "d = []")
      case True
      have "split_on (CHR ''/'') (''/'' @ ?s) = [] # split_on (CHR ''/'') ?s" by simp
      then show ?thesis
        using rel names by (simp add: sep True path_push_def path_components_def body_component_def [of "[]"])
    next
      case False
      have "path_components (d @ ''/'') = path_components d"
        using components_append [OF False, of "[]"] by (simp add: body_component_def)
      then show ?thesis
        using components_append [OF False rel] names by (simp add: sep path_push_def rel)
    qed
  next
    case open_end
    then show ?thesis
      using components_append [OF open_end(1) rel] names by (simp add: path_push_def rel)
  qed
qed

text \<open>What \<open>safe_join\<close> accepts and where it leads.\<close>

lemma safe_join_below:
  assumes "safe_join root_dir relative = Some p"
  shows "below root_dir p"
proof -
  obtain clean where c: "clean_components (join ''/'' []) (path_components relative) = Some clean" "p = path_push root_dir clean"
    using assms by (auto simp: safe_join_def)
  obtain names where "clean = join ''/'' names" "list_all file_name_ok names"
    using clean_components_Some [OF c(1)] path_components_names [of _ relative] by auto
  then show ?thesis
    using push_names [of names root_dir] c(2) by (auto simp: below_def)
qed

lemma clean_components_names:
  assumes "list_all file_name_ok names" "list_all file_name_ok rest"
  shows "clean_components (join ''/'' names) (map NormalPart rest) = Some (join ''/'' (names @ rest))"
  using assms
proof (induction rest arbitrary: names)
  case (Cons n rest)
  then show ?case using Cons.IH [of "names @ [n]"] by (simp add: push_name)
qed simp

lemma clean_components_None:
  "clean_components clean cs = None \<longleftrightarrow> RootDir \<in> set cs \<or> ParentDir \<in> set cs"
  by (induction clean cs rule: clean_components.induct) auto

lemma names_components:
  "list_all file_name_ok names \<Longrightarrow> path_components (join ''/'' names) = map NormalPart names"
  using push_names [of names "[]"] join_relative [of names]
  by (simp add: path_push_def path_components_def [of "[]"] body_component_def)

section \<open>Properties\<close>

text \<open>
  C22: The file server is confined to its directory and serves all of it.  Two file systems
  that agree on the directory's files and folders, whatever else they hold, give the same
  answer to every request; a request path is turned down exactly if it is absolute or goes
  up; and every path of names below the directory is reached.
\<close>

theorem file_server_confined:
  assumes "lk_file link = Some file"
    and "\<forall>p. below (fs_local_path file) p \<longrightarrow>
      fs_is_dir fs p = fs_is_dir fs' p \<and> fs_read fs p = fs_read fs' p \<and> fs_read_dir fs p = fs_read_dir fs' p"
  shows "serve_file fs link s = serve_file fs' link s
    \<and> (safe_join (fs_local_path file) relative = None
         \<longleftrightarrow> RootDir \<in> set (path_components relative) \<or> ParentDir \<in> set (path_components relative))
    \<and> (list_all file_name_ok names \<longrightarrow>
         safe_join (fs_local_path file) (join ''/'' names) = Some (path_push (fs_local_path file) (join ''/'' names)))"
proof (intro conjI impI)
  let ?root = "fs_local_path file"
  have "fs_is_dir fs p = fs_is_dir fs' p" "fs_read fs p = fs_read fs' p" "serve_dir fs ?root p = serve_dir fs' ?root p"
    if "safe_join ?root rel = Some p" for rel p
    using assms(2) safe_join_below [OF that] by (simp_all add: serve_dir_def)
  then show "serve_file fs link s = serve_file fs' link s"
    unfolding serve_file_def assms(1) Let_def by (auto split: sum.split option.split)
  show "safe_join ?root relative = None
      \<longleftrightarrow> RootDir \<in> set (path_components relative) \<or> ParentDir \<in> set (path_components relative)"
    by (simp add: safe_join_def clean_components_None)
  show "safe_join ?root (join ''/'' names) = Some (path_push ?root (join ''/'' names))" if "list_all file_name_ok names"
    using clean_components_names [of "[]" names] that by (simp add: safe_join_def names_components)
qed

definition demo_files :: "string \<Rightarrow> file_system" where
  "demo_files secret =
     \<lparr>fs_is_dir = (\<lambda>p. False),
      fs_read = (\<lambda>p. if p = ''/srv/a.txt'' then Inr ''hello'' else if p = ''/etc/passwd'' then Inr secret
                    else Inl (IoError NotFound ''missing'')),
      fs_read_dir = (\<lambda>p. Inl (IoError NotFound ''missing''))\<rparr>"

definition demo_file_link :: Link where
  "demo_file_link = (Link_tcp [] [] False False)
     \<lparr>lk_kind := LkFile, lk_file := Some \<lparr>fs_local_path = ''/srv'', fs_strip_pre = []\<rparr>\<rparr>"

theorem file_server_confined_witness:
  "serve_file (demo_files ''x'') demo_file_link (''GET /../etc/passwd HTTP/1.1'' @ CRLF @ CRLF)
     = serve_file (demo_files ''y'') demo_file_link (''GET /../etc/passwd HTTP/1.1'' @ CRLF @ CRLF)
   \<and> serve_file (demo_files ''x'') demo_file_link (''GET /a.txt HTTP/1.1'' @ CRLF @ CRLF)
     = Inr (write_http_response ''200 OK'' ''text/plain; charset=utf-8'' ''hello'')"
proof
  have "path_components ''/etc/passwd'' = [RootDir, NormalPart ''etc'', NormalPart ''passwd'']"
    "path_components ''/srv'' = [RootDir, NormalPart ''srv'']"
    by code_simp+
  then have "\<not> below ''/srv'' ''/etc/passwd''" by (simp add: below_def)
  then have agree: "below ''/srv'' p \<Longrightarrow> fs_is_dir (demo_files ''x'') p = fs_is_dir (demo_files ''y'') p
      \<and> fs_read (demo_files ''x'') p = fs_read (demo_files ''y'') p
      \<and> fs_read_dir (demo_files ''x'') p = fs_read_dir (demo_files ''y'') p" for p
    by (auto simp: demo_files_def)
  show "serve_file (demo_files ''x'') demo_file_link (''GET /../etc/passwd HTTP/1.1'' @ CRLF @ CRLF)
     = serve_file (demo_files ''y'') demo_file_link (''GET /../etc/passwd HTTP/1.1'' @ CRLF @ CRLF)"
    using file_server_confined [of demo_file_link "\<lparr>fs_local_path = ''/srv'', fs_strip_pre = []\<rparr>"
        "demo_files ''x''" "demo_files ''y''"] agree
    by (simp add: demo_file_link_def)
  show "serve_file (demo_files ''x'') demo_file_link (''GET /a.txt HTTP/1.1'' @ CRLF @ CRLF)
     = Inr (write_http_response ''200 OK'' ''text/plain; charset=utf-8'' ''hello'')"
    by code_simp
qed

end
