(* ===== verification/Socks5.thy ===== *)
theory Socks5
  imports Frames RustNet
begin

text \<open>
  The handshake of a SOCKS5 visitor (\<open>src/socks5.rs\<close>).  The visitor's bytes are the
  argument, the bytes written to it are returned with the outcome, and the outcome of a
  success holds the bytes that have not been read.  \<open>wr\<close> is the result of a write.

  \<open>socks5_accepts_iff\<close> compares the parser with the grammar of the protocol, given as an
  encoder of requests.
\<close>

section \<open>The handshake\<close>

definition byte_string :: "bytes \<Rightarrow> string" where
  "byte_string bs = map (\<lambda>b. char_of (unat b)) bs"

text \<open>\<open>{:02x}\<close>\<close>

definition hex2 :: "u8 \<Rightarrow> string" where
  "hex2 b = [hex_digit (unat b div 16), hex_digit (unat b mod 16)]"

text \<open>\<open>chunks(2)\<close>, on a slice of even length.\<close>

fun chunks2 :: "'a list \<Rightarrow> ('a \<times> 'a) list" where
  "chunks2 (a # b # r) = (a, b) # chunks2 r"
| "chunks2 _ = []"

definition socks_segments :: "bytes \<Rightarrow> string" where
  "socks_segments ip = join '':'' (map (\<lambda>(a, b). hex2 a @ hex2 b) (chunks2 ip))"

definition socks_host :: "u8 \<Rightarrow> bytes \<Rightarrow> (string \<times> bytes) io_result" where
  "socks_host address_type s =
     (if address_type = 0x01
      then (case read_exact 4 s of
              Inl e \<Rightarrow> Inl e
            | Inr (ip, s') \<Rightarrow> Inr (show_ipv4 ip, s'))
      else if address_type = 0x03
      then (case read_exact 1 s of
              Inl e \<Rightarrow> Inl e
            | Inr (len, s1) \<Rightarrow>
                (case read_exact (unat (hd len)) s1 of
                   Inl e \<Rightarrow> Inl e
                 | Inr (name, s2) \<Rightarrow> Inr (utf8_lossy (byte_string name), s2)))
      else if address_type = 0x04
      then (case read_exact 16 s of
              Inl e \<Rightarrow> Inl e
            | Inr (ip, s') \<Rightarrow> Inr (socks_segments ip, s'))
      else Inl (IoError InvalidData ''unsupported address type''))"

text \<open>\<open>stream.write_all(...)?\<close> followed by the rest of the handshake.\<close>

definition send_bytes ::
  "(bytes \<Rightarrow> unit io_result) \<Rightarrow> bytes \<Rightarrow> bytes list \<times> 'a io_result \<Rightarrow> bytes list \<times> 'a io_result" where
  "send_bytes wr b k =
     (case wr b of Inl e \<Rightarrow> ([], Inl e) | Inr _ \<Rightarrow> (b # fst k, snd k))"

definition socks_connected :: bytes where
  "socks_connected = [0x05, 0x00, 0x00, 0x01, 0, 0, 0, 0, 0, 0]"

definition socks_request ::
  "(bytes \<Rightarrow> unit io_result) \<Rightarrow> bytes \<Rightarrow> bytes list \<times> (string \<times> bytes) io_result" where
  "socks_request wr s =
     (case read_exact 4 s of
        Inl e \<Rightarrow> ([], Inl e)
      | Inr (req, s1) \<Rightarrow>
          if req ! 0 \<noteq> 0x05 \<or> req ! 1 \<noteq> 0x01
          then ([], Inl (IoError Unsupported ''only CONNECT is supported''))
          else
          (case socks_host (req ! 3) s1 of
             Inl e \<Rightarrow> ([], Inl e)
           | Inr (host, s2) \<Rightarrow>
               (case read_exact 2 s2 of
                  Inl e \<Rightarrow> ([], Inl e)
                | Inr (port, s3) \<Rightarrow>
                    send_bytes wr socks_connected
                      ([], Inr (host @ '':'' @ show_nat (be_decode port), s3)))))"

definition accept_socks5 ::
  "(bytes \<Rightarrow> unit io_result) \<Rightarrow> bytes \<Rightarrow> bytes list \<times> (string \<times> bytes) io_result" where
  "accept_socks5 wr stream =
     (case read_exact 2 stream of
        Inl e \<Rightarrow> ([], Inl e)
      | Inr (head, s1) \<Rightarrow>
          if head ! 0 \<noteq> 0x05 then ([], Inl (IoError InvalidData ''not socks5''))
          else
          (case read_exact (unat (head ! 1)) s1 of
             Inl e \<Rightarrow> ([], Inl e)
           | Inr (methods, s2) \<Rightarrow>
               if 0x00 \<notin> set methods
               then send_bytes wr [0x05, 0xff] ([], Inl (IoError PermissionDenied ''no supported auth''))
               else send_bytes wr [0x05, 0x00] (socks_request wr s2)))"

section \<open>The grammar\<close>

datatype socks_addr = SocksV4 bytes | SocksName bytes | SocksV6 bytes

fun socks_addr_ok :: "socks_addr \<Rightarrow> bool" where
  "socks_addr_ok (SocksV4 ip) \<longleftrightarrow> length ip = 4"
| "socks_addr_ok (SocksName name) \<longleftrightarrow> length name < 256"
| "socks_addr_ok (SocksV6 ip) \<longleftrightarrow> length ip = 16"

fun socks_addr_bytes :: "socks_addr \<Rightarrow> bytes" where
  "socks_addr_bytes (SocksV4 ip) = 0x01 # ip"
| "socks_addr_bytes (SocksName name) = 0x03 # of_nat (length name) # name"
| "socks_addr_bytes (SocksV6 ip) = 0x04 # ip"

fun socks_addr_text :: "socks_addr \<Rightarrow> string" where
  "socks_addr_text (SocksV4 ip) = show_ipv4 ip"
| "socks_addr_text (SocksName name) = utf8_lossy (byte_string name)"
| "socks_addr_text (SocksV6 ip) = socks_segments ip"

definition socks_greeting :: "bytes \<Rightarrow> bytes" where
  "socks_greeting methods = 0x05 # of_nat (length methods) # methods"

definition socks_connect :: "u8 \<Rightarrow> socks_addr \<Rightarrow> u16 \<Rightarrow> bytes" where
  "socks_connect reserved addr port =
     [0x05, 0x01, reserved] @ socks_addr_bytes addr @ be_encode 2 (unat port)"

section \<open>Facts\<close>

lemma read_exact_iff: "read_exact n s = Inr (a, b) \<longleftrightarrow> s = a @ b \<and> length a = n"
  by (auto simp: read_exact_Inr)

lemma unat_lt_u8: "unat (b :: u8) < 256"
  using unsigned_less [of b] by simp

lemma unat_lt_u16: "unat (b :: u16) < 65536"
  using unsigned_less [of b] by simp

lemma be_encode_decode: "be_encode (length bs) (be_decode bs) = bs"
proof -
  have "le_encode (length bs) (le_decode bs) = bs" for bs :: bytes
    by (induction bs) (auto simp: unat_lt_u8)
  then show ?thesis by (metis be_decode_def be_encode_def length_rev rev_rev_ident)
qed

lemma port_bytes:
  assumes "length p = 2"
  obtains port :: u16 where "p = be_encode 2 (unat port)" "be_decode p = unat port"
proof -
  have "be_decode p < 2 ^ 16"
    using le_decode_bound [of "rev p"] assms by (simp add: be_decode_def)
  then have "unat (of_nat (be_decode p) :: u16) = be_decode p" by (simp add: unat_of_nat)
  with that [of "of_nat (be_decode p)"] show thesis
    using be_encode_decode [of p] assms by simp
qed

lemma be_decode_port: "be_decode (be_encode 2 (unat (port :: u16))) = unat port"
  by (rule be_decode_encode) (use unat_lt_u16 [of port] in simp)

lemma socks_host_iff:
  "socks_host t s = Inr (host, rest) \<longleftrightarrow>
   (\<exists>addr. socks_addr_ok addr \<and> t # s = socks_addr_bytes addr @ rest \<and> host = socks_addr_text addr)"
  (is "?l \<longleftrightarrow> ?r")
proof
  assume ?l
  then consider (v4) "t = 1" | (name) "t = 3" | (v6) "t = 4"
    by (auto simp: socks_host_def split: if_splits)
  then show ?r
  proof cases
    case v4
    with \<open>?l\<close> obtain ip where "s = ip @ rest" "length ip = 4" "host = show_ipv4 ip"
      by (auto simp: socks_host_def read_exact_iff split: sum.splits)
    with v4 show ?thesis by (intro exI [of _ "SocksV4 ip"]) simp
  next
    case name
    with \<open>?l\<close> obtain len n where "s = len # n @ rest" "length n = unat len" "host = utf8_lossy (byte_string n)"
      by (auto simp: socks_host_def read_exact_iff length_Suc_conv split: sum.splits)
    with name show ?thesis
      using unat_lt_u8 [of len] by (intro exI [of _ "SocksName n"]) simp
  next
    case v6
    with \<open>?l\<close> obtain ip where "s = ip @ rest" "length ip = 16" "host = socks_segments ip"
      by (auto simp: socks_host_def read_exact_iff split: sum.splits)
    with v6 show ?thesis by (intro exI [of _ "SocksV6 ip"]) simp
  qed
next
  assume ?r
  then obtain addr where "socks_addr_ok addr" "t # s = socks_addr_bytes addr @ rest" "host = socks_addr_text addr"
    by blast
  then show ?l
    by (cases addr) (auto simp: socks_host_def read_exact_def unat_of_nat)
qed

lemma send_bytes_Inr:
  "send_bytes wr b k = (out, Inr v) \<longleftrightarrow> wr b = Inr () \<and> (\<exists>out'. k = (out', Inr v) \<and> out = b # out')"
  by (cases k) (auto simp: send_bytes_def split: sum.splits)

lemma length_4: "length xs = 4 \<Longrightarrow> xs = [xs ! 0, xs ! 1, xs ! 2, xs ! 3]"
  by (auto simp: length_Suc_conv numeral_eq_Suc)

lemma length_2: "length xs = 2 \<Longrightarrow> xs = [xs ! 0, xs ! 1]"
  by (auto simp: length_Suc_conv numeral_eq_Suc)

lemma socks_request_iff:
  "socks_request wr s = (out, Inr (target, rest)) \<longleftrightarrow>
   (\<exists>reserved addr port. socks_addr_ok addr \<and> s = socks_connect reserved addr port @ rest
      \<and> target = socks_addr_text addr @ '':'' @ show_nat (unat port)
      \<and> wr socks_connected = Inr () \<and> out = [socks_connected])"
  (is "?l \<longleftrightarrow> ?r")
proof
  assume ?l
  then obtain req s1 host s2 p where req: "s = req @ s1" "length req = 4" "req ! 0 = 5" "req ! 1 = 1"
    and host: "socks_host (req ! 3) s1 = Inr (host, s2)" and p: "s2 = p @ rest" "length p = 2"
    and out: "target = host @ '':'' @ show_nat (be_decode p)" "wr socks_connected = Inr ()" "out = [socks_connected]"
    by (auto simp: socks_request_def read_exact_iff send_bytes_Inr split: sum.splits if_splits)
  obtain addr where addr: "socks_addr_ok addr" "req ! 3 # s1 = socks_addr_bytes addr @ s2" "host = socks_addr_text addr"
    using host unfolding socks_host_iff by blast
  have "req = [5, 1, req ! 2, req ! 3]"
    using length_4 [OF req(2)] req(3,4) by simp
  then have "s = [5, 1, req ! 2] @ socks_addr_bytes addr @ p @ rest"
    using req(1) addr(2) p(1) by (metis append_Cons append_Nil)
  moreover obtain port :: u16 where "p = be_encode 2 (unat port)" "be_decode p = unat port"
    using p(2) by (rule port_bytes)
  ultimately show ?r
    using addr out by (intro exI [of _ "req ! 2"] exI [of _ addr] exI [of _ port]) (simp add: socks_connect_def)
next
  assume ?r
  then obtain reserved addr port where a: "socks_addr_ok addr" "s = socks_connect reserved addr port @ rest"
    and out: "target = socks_addr_text addr @ '':'' @ show_nat (unat port)" "wr socks_connected = Inr ()" "out = [socks_connected]"
    by blast
  obtain t bs where bs: "socks_addr_bytes addr = t # bs" by (cases addr) auto
  then have "socks_host t (bs @ be_encode 2 (unat port) @ rest)
      = Inr (socks_addr_text addr, be_encode 2 (unat port) @ rest)"
    using a(1) by (auto simp: socks_host_iff)
  moreover have "read_exact 4 s = Inr ([5, 1, reserved, t], bs @ be_encode 2 (unat port) @ rest)"
    using a(2) bs by (simp add: socks_connect_def read_exact_def)
  ultimately show ?l
    using out by (simp add: socks_request_def send_bytes_def be_decode_port)
qed

lemma greeting_head:
  assumes "length head = 2" "head ! 0 = 5" "length methods = unat (head ! 1)"
  shows "head @ methods = socks_greeting methods \<and> length methods < 256"
proof -
  have "of_nat (length methods) = head ! 1" by (simp add: assms(3))
  then have "head = [5, of_nat (length methods)]" using length_2 [OF assms(1)] assms(2) by simp
  then show ?thesis
    using assms(3) unat_lt_u8 [of "head ! 1"] by (simp add: socks_greeting_def)
qed

lemma accept_greeting:
  assumes "length methods < 256"
  shows "accept_socks5 wr (socks_greeting methods @ s) =
     (if 0 \<notin> set methods then send_bytes wr [5, 0xff] ([], Inl (IoError PermissionDenied ''no supported auth''))
      else send_bytes wr [5, 0] (socks_request wr s))"
  using assms by (simp add: accept_socks5_def socks_greeting_def read_exact_def unat_of_nat)

section \<open>Properties\<close>

text \<open>
  C29: A SOCKS5 visitor is accepted exactly when it speaks the protocol: its bytes are a
  greeting that offers the method without authentication, then a CONNECT request; the
  answer names the requested address and port, the method and the success are confirmed,
  and not one byte of the data behind the request is consumed.  A greeting that does not
  offer the method is turned down, whatever follows it.
\<close>

theorem socks5_accepts_iff:
  "(accept_socks5 wr s = (out, Inr (target, rest)) \<longleftrightarrow>
     (\<exists>methods reserved addr port. length methods < 256 \<and> 0 \<in> set methods \<and> socks_addr_ok addr
        \<and> s = socks_greeting methods @ socks_connect reserved addr port @ rest
        \<and> target = socks_addr_text addr @ '':'' @ show_nat (unat port)
        \<and> wr [5, 0] = Inr () \<and> wr socks_connected = Inr () \<and> out = [[5, 0], socks_connected]))
   \<and> (accept_socks5 wr s = ([[5, 0xff]], Inl (IoError PermissionDenied ''no supported auth'')) \<longleftrightarrow>
     (\<exists>methods rest. length methods < 256 \<and> 0 \<notin> set methods \<and> s = socks_greeting methods @ rest
        \<and> wr [5, 0xff] = Inr ()))"
proof (intro conjI iffI)
  assume l: "accept_socks5 wr s = (out, Inr (target, rest))"
  then obtain head methods s2 out' where h: "s = head @ methods @ s2" "length head = 2" "head ! 0 = 5" "length methods = unat (head ! 1)"
    and m: "0 \<in> set methods" "wr [5, 0] = Inr ()" "socks_request wr s2 = (out', Inr (target, rest))" "out = [5, 0] # out'"
    by (auto simp: accept_socks5_def read_exact_iff send_bytes_Inr split: sum.splits if_splits)
  show "\<exists>methods reserved addr port. length methods < 256 \<and> 0 \<in> set methods \<and> socks_addr_ok addr
        \<and> s = socks_greeting methods @ socks_connect reserved addr port @ rest
        \<and> target = socks_addr_text addr @ '':'' @ show_nat (unat port)
        \<and> wr [5, 0] = Inr () \<and> wr socks_connected = Inr () \<and> out = [[5, 0], socks_connected]"
    using m(3) unfolding socks_request_iff
    using greeting_head [OF h(2-4)] h(1) m by (metis append_assoc)
next
  assume "\<exists>methods reserved addr port. length methods < 256 \<and> 0 \<in> set methods \<and> socks_addr_ok addr
        \<and> s = socks_greeting methods @ socks_connect reserved addr port @ rest
        \<and> target = socks_addr_text addr @ '':'' @ show_nat (unat port)
        \<and> wr [5, 0] = Inr () \<and> wr socks_connected = Inr () \<and> out = [[5, 0], socks_connected]"
  then obtain methods s2 where m: "length methods < 256" "0 \<in> set methods" "s = socks_greeting methods @ s2"
    and q: "socks_request wr s2 = ([socks_connected], Inr (target, rest))"
    and o: "wr [5, 0] = Inr ()" "out = [[5, 0], socks_connected]"
    unfolding socks_request_iff by blast
  show "accept_socks5 wr s = (out, Inr (target, rest))"
    using o(1) q unfolding m(3) accept_greeting [OF m(1)] by (simp add: m(2) o(2) send_bytes_def)
next
  assume l: "accept_socks5 wr s = ([[5, 0xff]], Inl (IoError PermissionDenied ''no supported auth''))"
  then obtain head methods s2 where h: "s = head @ methods @ s2" "length head = 2" "head ! 0 = 5" "length methods = unat (head ! 1)"
    and m: "0 \<notin> set methods" "wr [5, 0xff] = Inr ()"
    by (auto simp: accept_socks5_def read_exact_iff send_bytes_def split: sum.splits if_splits)
  with greeting_head [OF h(2-4)] show "\<exists>methods rest. length methods < 256 \<and> 0 \<notin> set methods
      \<and> s = socks_greeting methods @ rest \<and> wr [5, 0xff] = Inr ()"
    by (metis append_assoc)
next
  assume "\<exists>methods rest. length methods < 256 \<and> 0 \<notin> set methods \<and> s = socks_greeting methods @ rest
        \<and> wr [5, 0xff] = Inr ()"
  then obtain methods s2 where m: "length methods < 256" "0 \<notin> set methods" "s = socks_greeting methods @ s2" "wr [5, 0xff] = Inr ()"
    by blast
  show "accept_socks5 wr s = ([[5, 0xff]], Inl (IoError PermissionDenied ''no supported auth''))"
    using m(4) unfolding m(3) accept_greeting [OF m(1)] by (simp add: m(2) send_bytes_def)
qed

end
