(* ===== verification/Links.thy ===== *)
theory Links
  imports FileServer Socks5
begin

text \<open>
  How the client serves a link (\<open>serve_link\<close> of \<open>src/client.rs\<close>): the PROXY protocol header
  for the target, the relay of TCP and HTTP links, datagrams and files.  The stream from the
  server is given as the bytes it will carry, after the wrappers for encryption and
  compression; the calls of the operating system are fields of a record.
\<close>

section \<open>The PROXY protocol\<close>

definition v6_octets :: "u16 list \<Rightarrow> bytes" where
  "v6_octets gs = concat (map (\<lambda>g. be_encode 2 (unat g)) gs)"

definition write_proxy_protocol_v1 :: "socket_addr \<Rightarrow> socket_addr \<Rightarrow> string" where
  "write_proxy_protocol_v1 remote near =
     (let line = (\<lambda>family src dst.
            ''PROXY '' @ family @ '' '' @ src @ '' '' @ dst @ '' '' @ show_nat (unat (sa_port remote)) @ '' ''
            @ show_nat (unat (sa_port near)) @ CRLF)
      in case (sa_ip remote, sa_ip near) of
           (V4 s, V4 d) \<Rightarrow> line ''TCP4'' (show_ipv4 s) (show_ipv4 d)
         | (V6 s, V6 d) \<Rightarrow> line ''TCP6'' (show_ipv6 s) (show_ipv6 d)
         | _ \<Rightarrow> [])"

definition proxy_signature :: bytes where
  "proxy_signature = [0x0d, 0x0a, 0x0d, 0x0a, 0x00, 0x0d, 0x0a, 0x51, 0x55, 0x49, 0x54, 0x0a]"

definition write_proxy_protocol_v2 :: "socket_addr \<Rightarrow> socket_addr \<Rightarrow> bytes" where
  "write_proxy_protocol_v2 remote near =
     (let ports = be_encode 2 (unat (sa_port remote)) @ be_encode 2 (unat (sa_port near))
      in case (sa_ip remote, sa_ip near) of
           (V4 s, V4 d) \<Rightarrow> proxy_signature @ [0x21, 0x11] @ be_encode 2 12 @ s @ d @ ports
         | (V6 s, V6 d) \<Rightarrow> proxy_signature @ [0x21, 0x21] @ be_encode 2 36 @ v6_octets s @ v6_octets d @ ports
         | _ \<Rightarrow> [])"

text \<open>
  The header for a connection whose own address is \<open>local_addr\<close>: nothing without a version
  or without an address of the visitor.
\<close>

definition write_proxy_protocol_if_needed :: "socket_addr io_result \<Rightarrow> string \<Rightarrow> string \<Rightarrow> string io_result" where
  "write_proxy_protocol_if_needed local_addr proto_version remote_addr =
     (let version = to_ascii_uppercase (trim proto_version)
      in if version = [] then Inr []
         else (case parse_socket_addr remote_addr of
                 None \<Rightarrow> Inr []
               | Some remote \<Rightarrow>
                   (case local_addr of
                      Inl e \<Rightarrow> Inl e
                    | Inr near \<Rightarrow>
                        if version = ''V1'' then Inr (write_proxy_protocol_v1 remote near)
                        else if version = ''V2'' then Inr (byte_string (write_proxy_protocol_v2 remote near))
                        else Inr [])))"

section \<open>Serving a link\<close>

text \<open>
  \<open>le_wrap\<close> is the result of the wrappers, \<open>le_connect\<close> connects to a target and gives the
  local address (or the failure to read it), \<open>le_write\<close> writes to the target, and
  \<open>le_exchange\<close> sends the \<open>n\<close>-th datagram to the target and waits for one answer.
\<close>

record link_env =
  le_wrap :: "unit io_result"
  le_connect :: "string \<Rightarrow> socket_addr io_result io_result"
  le_write :: "string \<Rightarrow> unit io_result"
  le_files :: file_system
  le_bind :: "unit io_result"
  le_exchange :: "nat \<Rightarrow> string \<Rightarrow> bytes \<Rightarrow> bytes io_result"

text \<open>
  What serving a link amounts to: datagrams written to the server, a response of the file
  server, or a relay, with what the target has been sent before it and what is left to copy.
\<close>

datatype link_served =
    UdpServed bytes
  | FileServed string
  | RelayStarted string string

lemma read_blob_shorter: "read_blob s = Inr (d, rest) \<Longrightarrow> length rest < length s"
  by (auto simp: read_blob_def read_exact_def Let_def split: if_splits)

function serve_udp :: "(nat \<Rightarrow> bytes \<Rightarrow> bytes io_result) \<Rightarrow> nat \<Rightarrow> bytes \<Rightarrow> bytes \<times> unit io_result" where
  "serve_udp exchange n stream =
     (case read_blob stream of
        Inl e \<Rightarrow>
          if err_kind e \<in> {UnexpectedEof, BrokenPipe, ConnectionReset} then ([], Inr ()) else ([], Inl e)
      | Inr (packet, rest) \<Rightarrow>
          (case exchange n packet of
             Inl e \<Rightarrow> ([], Inl e)
           | Inr answer \<Rightarrow>
               (case write_blob (take (64 * 1024) answer) of
                  Inl e \<Rightarrow> ([], Inl e)
                | Inr b \<Rightarrow> (case serve_udp exchange (Suc n) rest of (out, res) \<Rightarrow> (b @ out, res)))))"
  by pat_completeness auto
termination
  by (relation "measure (\<lambda>(_, _, s). length s)") (auto dest: read_blob_shorter)

declare serve_udp.simps [simp del]

definition relay_target :: "link_env \<Rightarrow> Link \<Rightarrow> string \<Rightarrow> string io_result" where
  "relay_target env link head =
     (case le_connect env (lk_target link) of
        Inl e \<Rightarrow> Inl e
      | Inr local_addr \<Rightarrow>
          (case write_proxy_protocol_if_needed local_addr (lk_proto_version link) (lk_remote_addr link) of
             Inl e \<Rightarrow> Inl e
           | Inr header \<Rightarrow>
               (case (if header = [] then Inr () else le_write env header) of
                  Inl e \<Rightarrow> Inl e
                | Inr _ \<Rightarrow> (case (if head = [] then Inr () else le_write env head) of
                             Inl e \<Rightarrow> Inl e
                           | Inr _ \<Rightarrow> Inr (header @ head)))))"

definition serve_link :: "link_env \<Rightarrow> bytes \<Rightarrow> Link \<Rightarrow> link_served io_result" where
  "serve_link env stream link =
     (case le_wrap env of
        Inl e \<Rightarrow> Inl e
      | Inr _ \<Rightarrow>
          (case lk_kind link of
             LkUdp \<Rightarrow>
               (case le_bind env of
                  Inl e \<Rightarrow> Inl e
                | Inr _ \<Rightarrow>
                    (case serve_udp (\<lambda>n. le_exchange env n (lk_target link)) 0 stream of
                       (out, Inl e) \<Rightarrow> Inl e
                     | (out, Inr _) \<Rightarrow> Inr (UdpServed out)))
           | LkFile \<Rightarrow> map_sum id FileServed (serve_file (le_files env) link (byte_string stream))
           | LkHttp \<Rightarrow>
               (case read_http_head (byte_string stream) (64 * 1024) of
                  (Inl e, _) \<Rightarrow> Inl e
                | (Inr head, rest) \<Rightarrow> map_sum id (\<lambda>sent. RelayStarted sent rest) (relay_target env link head))
           | _ \<Rightarrow> map_sum id (\<lambda>sent. RelayStarted sent (byte_string stream)) (relay_target env link [])))"

section \<open>The PROXY protocol, seen by the target\<close>

text \<open>A reader of version 2 headers that follows the published format.\<close>

definition v6_groups :: "bytes \<Rightarrow> u16 list" where
  "v6_groups bs = map (\<lambda>(a, b). of_nat (be_decode [a, b])) (chunks2 bs)"

definition proxy_v2_read :: "bytes \<Rightarrow> (socket_addr \<times> socket_addr \<times> bytes) option" where
  "proxy_v2_read s =
     (let port = (\<lambda>i bs. of_nat (be_decode (take 2 (drop i bs))) :: u16)
      in if take 13 s \<noteq> proxy_signature @ [0x21] \<or> length s < 16 then None
         else (let body = drop 16 s; len = be_decode (take 2 (drop 14 s))
               in if length body < len then None
                  else if s ! 13 = 0x11 \<and> len = 12
                  then Some (\<lparr>sa_ip = V4 (take 4 body), sa_port = port 8 body\<rparr>,
                             \<lparr>sa_ip = V4 (take 4 (drop 4 body)), sa_port = port 10 body\<rparr>, drop 12 body)
                  else if s ! 13 = 0x21 \<and> len = 36
                  then Some (\<lparr>sa_ip = V6 (v6_groups (take 16 body)), sa_port = port 32 body\<rparr>,
                             \<lparr>sa_ip = V6 (v6_groups (take 16 (drop 16 body))), sa_port = port 34 body\<rparr>, drop 36 body)
                  else None))"

definition addr_ok :: "socket_addr \<Rightarrow> bool" where
  "addr_ok a \<longleftrightarrow> (case sa_ip a of V4 os \<Rightarrow> length os = 4 | V6 gs \<Rightarrow> length gs = 8)"

definition same_family :: "socket_addr \<Rightarrow> socket_addr \<Rightarrow> bool" where
  "same_family a b \<longleftrightarrow> (case (sa_ip a, sa_ip b) of (V4 _, V4 _) \<Rightarrow> True | (V6 _, V6 _) \<Rightarrow> True | _ \<Rightarrow> False)"

section \<open>Facts\<close>

lemma be_encode_2: "be_encode 2 n = [of_nat (n div 256 mod 256), of_nat (n mod 256)]"
  by (simp add: be_encode_def numeral_2_eq_2)

lemma length_v6_octets [simp]: "length (v6_octets gs) = 2 * length gs"
  by (induction gs) (simp_all add: v6_octets_def)

lemma v6_groups_octets [simp]: "v6_groups (v6_octets gs) = gs"
proof (induction gs)
  case (Cons g gs)
  have "be_decode (be_encode 2 (unat g)) = unat g" by (rule be_decode_port)
  then show ?case using Cons by (simp add: v6_groups_def v6_octets_def be_encode_2)
qed (simp add: v6_groups_def v6_octets_def)

lemma proxy_v2_round_trip:
  assumes "addr_ok remote" "addr_ok near" "same_family remote near"
  shows "proxy_v2_read (write_proxy_protocol_v2 remote near @ payload) = Some (remote, near, payload)"
proof -
  have len: "be_decode (be_encode 2 12) = 12" "be_decode (be_encode 2 36) = 36"
    using be_decode_encode [of 12 2] be_decode_encode [of 36 2] by simp_all
  consider (v4) s d where "sa_ip remote = V4 s" "sa_ip near = V4 d" "length s = 4" "length d = 4"
    | (v6) s d where "sa_ip remote = V6 s" "sa_ip near = V6 d" "length s = 8" "length d = 8"
    using assms by (auto simp: addr_ok_def same_family_def split: ip_addr.splits)
  then show ?thesis
  proof cases
    case v4
    then show ?thesis
      by (simp add: proxy_v2_read_def write_proxy_protocol_v2_def proxy_signature_def len Let_def be_decode_port)
  next
    case v6
    then show ?thesis
      by (simp add: proxy_v2_read_def write_proxy_protocol_v2_def proxy_signature_def len Let_def be_decode_port)
  qed
qed

lemma read_quad_length: "read_quad i k s = Some (vs, r) \<Longrightarrow> length vs = k"
  by (induction i k s arbitrary: vs r rule: read_quad.induct) (auto split: option.splits)

lemma read_groups_length: "length (fst (read_groups i k s)) \<le> k"
proof (induction i k s rule: read_groups.induct)
  case (2 i k s)
  then show ?case
    by (auto simp: case_prod_beta le_SucI split: option.splits list.splits if_splits)
qed simp

lemma read_ipv6_length:
  assumes "read_ipv6_addr s = Some (gs, r)"
  shows "length gs = 8"
proof -
  let ?n = "length (fst (read_groups 0 8 s))"
  consider "length gs = 8"
    | x where "?n \<noteq> 8" "gs = fst (read_groups 0 8 s)
        @ replicate (8 - ?n - length (fst (read_groups 0 (8 - (?n + 1)) x))) 0 @ fst (read_groups 0 (8 - (?n + 1)) x)"
    using assms by (auto simp: read_ipv6_addr_def case_prod_beta split: if_splits option.splits)
  then show ?thesis
  proof cases
    case (2 x)
    then show ?thesis
      using read_groups_length [of 0 8 s] read_groups_length [of 0 "8 - (?n + 1)" x] by simp
  qed
qed

lemma parse_addr_ok: "parse_socket_addr s = Some a \<Longrightarrow> addr_ok a"
  by (auto simp: parse_socket_addr_def parse_socket_addr_v4_def parse_socket_addr_v6_def read_ipv4_addr_def addr_ok_def
      dest: read_quad_length read_ipv6_length split: option.splits prod.splits if_splits)

lemma read_head_split: "read_head buf m s = (Inr h, rest) \<Longrightarrow> h @ rest = buf @ s"
  by (induction buf m s rule: read_head.induct)
    (subst (asm) (2) read_head.simps, auto simp: Let_def split: if_splits list.splits)

lemma proxy_header_written: "\<exists>h. write_proxy_protocol_if_needed (Inr near) version remote_addr = Inr h"
  by (cases "parse_socket_addr remote_addr") (simp_all add: write_proxy_protocol_if_needed_def Let_def)

lemma serve_udp_frames:
  assumes "list_all (\<lambda>p. length p \<le> MAX_FRAME) ps" "length answers = length ps"
    and "\<forall>i < length ps. exchange (n + i) (ps ! i) = Inr (answers ! i) \<and> length (answers ! i) \<le> 64 * 1024"
    and "write_frames write_blob ps = Inr bs"
  shows "\<exists>out. write_frames write_blob answers = Inr out \<and> serve_udp exchange n bs = (out, Inr ())"
  using assms
proof (induction ps arbitrary: answers n bs)
  case Nil
  then show ?case by (simp add: serve_udp.simps [of _ _ "[]"] read_blob_def read_exact_def)
next
  case (Cons p ps)
  then obtain a as where answers: "answers = a # as" "length as = length ps" by (cases answers) auto
  obtain b bs' where b: "write_blob p = Inr b" "write_frames write_blob ps = Inr bs'" "bs = b @ bs'"
    using Cons.prems(4) by (auto split: sum.splits)
  have a: "exchange n p = Inr a" "length a \<le> 64 * 1024"
    using Cons.prems(3) answers by force+
  have "exchange (Suc n + i) (ps ! i) = Inr (as ! i) \<and> length (as ! i) \<le> 64 * 1024" if "i < length ps" for i
    using Cons.prems(3) [rule_format, of "Suc i"] that answers(1) by simp
  with Cons.IH [OF _ answers(2) _ b(2), of "Suc n"] Cons.prems(1) obtain out where
    out: "write_frames write_blob as = Inr out" "serve_udp exchange (Suc n) bs' = (out, Inr ())"
    by auto
  have "write_blob a = Inr (le_encode 4 (length a) @ a)" using a(2) by (simp add: write_blob_def MAX_FRAME_def)
  moreover have "read_blob bs = Inr (p, bs')"
    using blob.dec_enc [of p b bs'] Cons.prems(1) b by simp
  ultimately show ?case
    using a out answers(1) by (subst serve_udp.simps) simp
qed

section \<open>Properties\<close>

text \<open>
  C27: A link reaches its target unchanged.  Where the calls of the operating system succeed,
  serving a TCP, secret, p2p or HTTP link starts a relay, and what the target receives is
  the PROXY header, if the link asks for one, followed by the bytes of the visitor, none
  lost or repeated.  A version 2 header tells the target the address of the visitor and
  the address it is connected from, and ends before the first byte of the visitor.
\<close>

theorem link_reaches_target:
  assumes "le_wrap env = Inr ()" "le_connect env (lk_target link) = Inr (Inr near)" "\<forall>b. le_write env b = Inr ()"
    and "lk_kind link \<in> {LkTcp, LkSecret, LkP2p}
      \<or> lk_kind link = LkHttp \<and> is_ok (fst (read_http_head (byte_string stream) (64 * 1024)))"
  shows "\<exists>sent rest header. serve_link env stream link = Inr (RelayStarted sent rest)
     \<and> sent @ rest = header @ byte_string stream
     \<and> (if to_ascii_uppercase (trim (lk_proto_version link)) \<notin> {''V1'', ''V2''} then header = []
        else case parse_socket_addr (lk_remote_addr link) of
               None \<Rightarrow> header = []
             | Some remote \<Rightarrow>
                 if to_ascii_uppercase (trim (lk_proto_version link)) = ''V1'' then header = write_proxy_protocol_v1 remote near
                 else \<exists>h. header = byte_string h
                   \<and> (addr_ok near \<and> same_family remote near \<longrightarrow>
                        (\<forall>payload. proxy_v2_read (h @ payload) = Some (remote, near, payload))))"
proof -
  obtain header where h: "write_proxy_protocol_if_needed (Inr near) (lk_proto_version link) (lk_remote_addr link) = Inr header"
    using proxy_header_written by blast
  have target: "relay_target env link head = Inr (header @ head)" for head
    using assms(2,3) h by (simp add: relay_target_def)
  obtain sent rest where s: "serve_link env stream link = Inr (RelayStarted sent rest)" "sent @ rest = header @ byte_string stream"
  proof (cases "lk_kind link = LkHttp")
    case True
    then obtain head rest where "read_http_head (byte_string stream) (64 * 1024) = (Inr head, rest)"
      using assms(4) by (cases "read_http_head (byte_string stream) (64 * 1024)") (auto simp: is_ok_iff)
    then show thesis
      using that [of "header @ head" rest] True assms(1) read_head_split [of "[]"]
      by (auto simp: serve_link_def target read_http_head_def)
  next
    case False
    then show thesis
      using that [of header "byte_string stream"] assms(1,4) by (auto simp: serve_link_def target)
  qed
  have "if to_ascii_uppercase (trim (lk_proto_version link)) \<notin> {''V1'', ''V2''} then header = []
        else case parse_socket_addr (lk_remote_addr link) of
               None \<Rightarrow> header = []
             | Some remote \<Rightarrow>
                 if to_ascii_uppercase (trim (lk_proto_version link)) = ''V1'' then header = write_proxy_protocol_v1 remote near
                 else \<exists>h. header = byte_string h
                   \<and> (addr_ok near \<and> same_family remote near \<longrightarrow>
                        (\<forall>payload. proxy_v2_read (h @ payload) = Some (remote, near, payload)))"
    using h proxy_v2_round_trip parse_addr_ok [of "lk_remote_addr link"]
    by (auto simp: write_proxy_protocol_if_needed_def Let_def split: option.splits if_splits)
  with s show ?thesis by blast
qed

definition demo_link_env :: link_env where
  "demo_link_env = \<lparr>le_wrap = Inr (), le_connect = \<lambda>_. Inr (Inr \<lparr>sa_ip = V4 [10, 0, 0, 1], sa_port = 4000\<rparr>),
     le_write = \<lambda>_. Inr (), le_files = \<lparr>fs_is_dir = \<lambda>_. False, fs_read = \<lambda>_. Inr [], fs_read_dir = \<lambda>_. Inr []\<rparr>,
     le_bind = Inr (), le_exchange = \<lambda>n _ p. Inr (rev p)\<rparr>"

theorem link_reaches_target_witness:
  "\<exists>sent rest h. serve_link demo_link_env [71, 69, 84] ((Link_tcp ''10.0.0.7:80'' ''192.168.1.2:5000'' False False)\<lparr>lk_proto_version := ''v2''\<rparr>)
       = Inr (RelayStarted sent rest)
     \<and> sent @ rest = byte_string h @ ''GET''
     \<and> proxy_v2_read (h @ [71, 69, 84]) = Some (\<lparr>sa_ip = V4 [192, 168, 1, 2], sa_port = 5000\<rparr>,
         \<lparr>sa_ip = V4 [10, 0, 0, 1], sa_port = 4000\<rparr>, [71, 69, 84])"
proof -
  let ?l = "(Link_tcp ''10.0.0.7:80'' ''192.168.1.2:5000'' False False)\<lparr>lk_proto_version := ''v2''\<rparr>"
  have p: "parse_socket_addr ''192.168.1.2:5000'' = Some \<lparr>sa_ip = V4 [192, 168, 1, 2], sa_port = 5000\<rparr>"
    "to_ascii_uppercase (trim ''v2'') = ''V2''" "byte_string [71, 69, 84] = ''GET''"
    by code_simp+
  have env: "le_wrap demo_link_env = Inr ()" "\<forall>b. le_write demo_link_env b = Inr ()" "lk_kind ?l = LkTcp"
    "le_connect demo_link_env (lk_target ?l) = Inr (Inr \<lparr>sa_ip = V4 [10, 0, 0, 1], sa_port = 4000\<rparr>)"
    by (simp_all add: demo_link_env_def Link_tcp_def)
  from link_reaches_target [OF env(1,4,2), of "[71, 69, 84]"] env(3) show ?thesis
    by (auto simp: p addr_ok_def same_family_def Link_tcp_def)
qed

end
