(* ===== verification/Visitors.thy ===== *)
theory Visitors
  imports Mutations Links Hello
begin

text \<open>
  The visitors of the tunnels: what the threads do that the listeners of \<open>src/server.rs\<close>
  start for a TCP, file, HTTP proxy or SOCKS5 connection, and how the UDP listener spreads
  datagrams over its workers.

  A visitor's bytes are an argument.  A handler ends by dropping the connection, by writing
  an answer, or by copying in both directions (\<open>copy_bidirectional\<close>); in the last case the
  result holds what has been written to the visitor and to the client before, and what
  the visitor has sent that is still to be copied.
\<close>

section \<open>Outcomes\<close>

datatype visit_end =
    Dropped
  | Answered string
  | Relaying string string string CountedRelayStream

text \<open>What \<open>request_client_stream\<close> meets, and the results of writes to both sides.\<close>

record visit_env =
  ve_now :: time
  ve_recv :: recv_result
  ve_wrap :: "unit io_result"
  ve_request :: nat
  ve_reply :: "bytes \<Rightarrow> unit io_result"

definition ask_client :: "visit_env \<Rightarrow> string \<Rightarrow> Link \<Rightarrow> Registry \<Rightarrow> CountedRelayStream io_result \<times> Registry" where
  "ask_client env vkey link r = request_client_stream (ve_now env) (ve_recv env) (ve_wrap env) (ve_request env) vkey link r"

text \<open>The relay after a request, if it returns a stream.\<close>

definition relay_visitor ::
  "visit_env \<Rightarrow> string \<Rightarrow> Link \<Rightarrow> string \<Rightarrow> string \<Rightarrow> string \<Rightarrow> Registry \<Rightarrow> visit_end \<times> Registry" where
  "relay_visitor env vkey link to_visitor to_client rest r =
     (case ask_client env vkey link r of
        (Inr client_stream, r') \<Rightarrow> (Relaying to_visitor to_client rest client_stream, r')
      | (Inl _, r') \<Rightarrow> (Dropped, r'))"

section \<open>TCP and file tunnels\<close>

definition is_file_mode :: "Tunnel \<Rightarrow> bool" where
  "is_file_mode tunnel = eq_ignore_ascii_case (tn_mode tunnel) ''file''"

definition tcp_link :: "Tunnel \<Rightarrow> string \<Rightarrow> string \<Rightarrow> Registry \<Rightarrow> Link" where
  "tcp_link tunnel target remote r =
     (let (crypt, compress) = client_transport_flags r (tn_client_vkey tunnel) (is_file_mode tunnel)
      in \<lparr>lk_kind = (if is_file_mode tunnel then LkFile else LkTcp), lk_target = target, lk_remote_addr = remote,
          lk_crypt = crypt, lk_compress = compress, lk_local_proxy = tg_local_proxy (tn_target tunnel),
          lk_proto_version = tn_proto_version tunnel,
          lk_file = (if is_file_mode tunnel
                     then Some \<lparr>fs_local_path = tn_local_path tunnel, fs_strip_pre = tn_strip_pre tunnel\<rparr> else None)\<rparr>)"

definition tcp_visitor :: "visit_env \<Rightarrow> Tunnel \<Rightarrow> string \<Rightarrow> string \<Rightarrow> Registry \<Rightarrow> visit_end \<times> Registry" where
  "tcp_visitor env tunnel remote stream r =
     (if \<not> tunnel_is_active r (tn_id tunnel) then (Dropped, r)
      else (case select_target (tn_client_vkey tunnel @ '':'' @ tn_remark tunnel) tunnel r of
              (None, r1) \<Rightarrow> (Answered (write_http_response ''502 Bad Gateway'' ''text/plain'' ''no target''), r1)
            | (Some target, r1) \<Rightarrow>
                relay_visitor env (tn_client_vkey tunnel) (tcp_link tunnel target remote r1) [] [] stream r1))"

section \<open>HTTP proxy tunnels\<close>

definition http_link :: "string \<Rightarrow> Target \<Rightarrow> string \<Rightarrow> string \<Rightarrow> string \<Rightarrow> Registry \<Rightarrow> Link" where
  "http_link vkey tunnel_target proto_version target remote r =
     (let (crypt, compress) = client_transport_flags r vkey False
      in \<lparr>lk_kind = LkHttp, lk_target = target, lk_remote_addr = remote, lk_crypt = crypt, lk_compress = compress,
          lk_local_proxy = tg_local_proxy tunnel_target, lk_proto_version = proto_version, lk_file = None\<rparr>)"

definition connection_established :: string where
  "connection_established = ''HTTP/1.1 200 Connection established'' @ CRLF @ CRLF"

text \<open>The target of the request; a tunnel with targets of its own overrides it.\<close>

definition proxy_target :: "Tunnel \<Rightarrow> string \<times> bool \<Rightarrow> Registry \<Rightarrow> (string \<times> bool) \<times> Registry" where
  "proxy_target tunnel requested r =
     (if trim (tg_target_str (tn_target tunnel)) = [] then (requested, r)
      else (case select_target (''http_relay:'' @ tn_client_vkey tunnel @ '':'' @ tn_remark tunnel) tunnel r of
              (Some own, r1) \<Rightarrow> ((own, False), r1)
            | (None, r1) \<Rightarrow> (requested, r1)))"

definition http_proxy_visitor :: "visit_env \<Rightarrow> Tunnel \<Rightarrow> string \<Rightarrow> string \<Rightarrow> Registry \<Rightarrow> visit_end \<times> Registry" where
  "http_proxy_visitor env tunnel remote stream r =
     (if \<not> tunnel_is_active r (tn_id tunnel) then (Dropped, r)
      else (case read_http_head stream (64 * 1024) of
              (Inl _, _) \<Rightarrow> (Dropped, r)
            | (Inr head, rest) \<Rightarrow>
                (case parse_http_target head of
                   None \<Rightarrow> (Answered (write_http_response ''400 Bad Request'' ''text/plain'' ''missing host''), r)
                 | Some requested \<Rightarrow>
                     (case proxy_target tunnel requested r of
                        ((target, is_connect), r1) \<Rightarrow>
                          relay_visitor env (tn_client_vkey tunnel)
                            (http_link (tn_client_vkey tunnel) (tn_target tunnel) (tn_proto_version tunnel) target remote r1)
                            (if is_connect then connection_established else [])
                            (if is_connect then [] else head) rest r1))))"

section \<open>SOCKS5 tunnels\<close>

definition socks5_link :: "Tunnel \<Rightarrow> string \<Rightarrow> string \<Rightarrow> Registry \<Rightarrow> Link" where
  "socks5_link tunnel target remote r =
     (let (crypt, compress) = client_transport_flags r (tn_client_vkey tunnel) False
      in \<lparr>lk_kind = LkTcp, lk_target = target, lk_remote_addr = remote, lk_crypt = crypt, lk_compress = compress,
          lk_local_proxy = tg_local_proxy (tn_target tunnel), lk_proto_version = [], lk_file = None\<rparr>)"

definition socks5_visitor :: "visit_env \<Rightarrow> Tunnel \<Rightarrow> string \<Rightarrow> bytes \<Rightarrow> Registry \<Rightarrow> visit_end \<times> Registry" where
  "socks5_visitor env tunnel remote stream r =
     (if \<not> tunnel_is_active r (tn_id tunnel) then (Dropped, r)
      else (case accept_socks5 (ve_reply env) stream of
              (out, Inl _) \<Rightarrow> (Answered (byte_string (concat out)), r)
            | (out, Inr (target, rest)) \<Rightarrow>
                relay_visitor env (tn_client_vkey tunnel) (socks5_link tunnel target remote r)
                  (byte_string (concat out)) [] (byte_string rest) r))"

section \<open>Tracking of connections\<close>

text \<open>
  A handler of a tunnel runs inside \<open>TunnelConnGuard\<close>: the connection is on the list of the
  tunnel's live connections from its arrival until the thread ends, which for a relay is
  later than the handler's result here.
\<close>

definition tracked_visit ::
  "u64 \<Rightarrow> nat option \<Rightarrow> (Registry \<Rightarrow> visit_end \<times> Registry) \<Rightarrow> Registry \<Rightarrow> visit_end \<times> u64 option \<times> Registry" where
  "tracked_visit tunnel_id sock handler r =
     (case register_tunnel_live_conn tunnel_id sock r of
        (conn, r1) \<Rightarrow>
          (case handler r1 of
             (Relaying a b c s, r2) \<Rightarrow> (Relaying a b c s, conn, r2)
           | (res, r2) \<Rightarrow> (res, conn, unregister_tunnel_live_conn tunnel_id conn r2)))"

section \<open>UDP tunnels\<close>

text \<open>
  The workers by the address of their visitor, with the datagrams that wait for them.  A
  datagram goes to the worker of its visitor, or starts one.
\<close>

definition udp_arrives :: "string \<Rightarrow> bytes \<Rightarrow> (string \<times> bytes list) list \<Rightarrow> bool \<times> (string \<times> bytes list) list" where
  "udp_arrives peer packet workers =
     (case hm_get workers peer of
        Some queue \<Rightarrow> (False, hm_insert peer (queue @ [packet]) workers)
      | None \<Rightarrow> (True, hm_insert peer [packet] workers))"

definition udp_worker_ends :: "string \<Rightarrow> (string \<times> bytes list) list \<Rightarrow> (string \<times> bytes list) list" where
  "udp_worker_ends peer workers = hm_remove peer workers"

definition udp_link :: "Tunnel \<Rightarrow> string \<Rightarrow> string \<Rightarrow> Registry \<Rightarrow> Link" where
  "udp_link tunnel target peer r = (socks5_link tunnel target peer r)\<lparr>lk_kind := LkUdp\<rparr>"

definition udp_visitor :: "visit_env \<Rightarrow> Tunnel \<Rightarrow> string \<Rightarrow> Registry \<Rightarrow> CountedRelayStream option \<times> Registry" where
  "udp_visitor env tunnel peer r =
     (if \<not> tunnel_is_active r (tn_id tunnel) then (None, r)
      else (case select_target (tn_client_vkey tunnel @ '':'' @ tn_remark tunnel) tunnel r of
              (None, r1) \<Rightarrow> (None, r1)
            | (Some target, r1) \<Rightarrow>
                (case ask_client env (tn_client_vkey tunnel) (udp_link tunnel target peer r1) r1 of
                   (Inr stream, r2) \<Rightarrow> (Some stream, r2)
                 | (Inl _, r2) \<Rightarrow> (None, r2))))"

text \<open>
  The loop of a worker: a datagram is framed and written to the client, one reply is read
  from it and sent to the visitor.  \<open>active\<close> says for each round whether the tunnel still
  runs, \<open>wr\<close> is the result of a write, \<open>replies\<close> are the bytes the client will send.  The
  result is what the client receives and what the visitor receives.
\<close>

fun udp_worker :: "(nat \<Rightarrow> bool) \<Rightarrow> (bytes \<Rightarrow> unit io_result) \<Rightarrow> nat \<Rightarrow> bytes list \<Rightarrow> bytes \<Rightarrow> bytes \<times> bytes list" where
  "udp_worker active wr n [] replies = ([], [])"
| "udp_worker active wr n (packet # queue) replies =
     (if \<not> active n then ([], [])
      else (case write_blob packet of
              Inl _ \<Rightarrow> ([], [])
            | Inr framed \<Rightarrow>
                (case wr framed of
                   Inl _ \<Rightarrow> ([], [])
                 | Inr _ \<Rightarrow>
                     (case read_blob replies of
                        Inl _ \<Rightarrow> (framed, [])
                      | Inr (answer, replies') \<Rightarrow>
                          (case udp_worker active wr (Suc n) queue replies' of
                             (out, answers) \<Rightarrow> (framed @ out, answer # answers))))))"

section \<open>Facts\<close>

text \<open>What the access check looks at; the cursors of the tunnels are not part of it.\<close>

lemma flow_limit_cong:
  assumes "re_server r' = re_server r" "re_clients r' = re_clients r" "re_flow_counters r' = re_flow_counters r"
  shows "fst (client_flow_limit_reached vkey r') = fst (client_flow_limit_reached vkey r)"
  using assms
  by (cases "hm_get (re_flow_counters r) vkey") (simp_all add: client_flow_limit_reached_def client_flow_counter_def Let_def)

lemma access_form:
  "fst (validate_client_access now vkey remote r) =
     (let ip = remote_ip remote
      in if ip = [] then Inr ()
         else if sc_ip_limit (re_server r) \<and> \<not> fst (is_ip_authorized now ip r) then denied (not_in_validation_list ip)
         else if fst (client_flow_limit_reached vkey r) then denied ''traffic exceeded''
         else if ip_in_list ip (gc_black_ip_list (re_global r)) then denied ''remote ip is in global blacklist''
         else check_client_access vkey ip r)"
proof -
  let ?i = "snd (is_ip_authorized now (remote_ip remote) r)"
  have "fst (client_flow_limit_reached vkey ?i) = fst (client_flow_limit_reached vkey r)"
    by (rule flow_limit_cong) simp_all
  moreover have "check_client_access vkey ip (snd (client_flow_limit_reached vkey x)) = check_client_access vkey ip x" for x ip
    by (rule check_client_access_cong) simp
  moreover have "check_client_access vkey ip ?i = check_client_access vkey ip r" for ip
    by (rule check_client_access_cong) simp
  ultimately show ?thesis
    by (simp add: validate_client_access_def Let_def case_prod_beta split: bool.split)
qed

lemma access_cursors:
  "fst (validate_client_access now vkey remote (r\<lparr>re_cursors := c\<rparr>)) = fst (validate_client_access now vkey remote r)"
proof -
  have "fst (client_flow_limit_reached vkey (r\<lparr>re_cursors := c\<rparr>)) = fst (client_flow_limit_reached vkey r)"
    by (rule flow_limit_cong) simp_all
  then show ?thesis
    by (simp add: access_form is_ip_authorized_def check_client_access_def Let_def)
qed

lemma same_cursors: "\<exists>c. r = r\<lparr>re_cursors := c\<rparr>"
  by (rule exI [of _ "re_cursors r"]) simp

lemma select_target_shape: "\<exists>c. snd (select_target key tunnel r) = r\<lparr>re_cursors := c\<rparr>"
  using same_cursors [of r] by (auto simp: select_target_def split: option.splits)

definition admitted :: "visit_env \<Rightarrow> Tunnel \<Rightarrow> string \<Rightarrow> Registry \<Rightarrow> CountedRelayStream \<Rightarrow> bool" where
  "admitted env tunnel remote r s \<longleftrightarrow> tunnel_is_active r (tn_id tunnel) \<and> cr_vkey s = tn_client_vkey tunnel
     \<and> fst (validate_client_access (ve_now env) (tn_client_vkey tunnel) remote r) = Inr ()"

lemma ask_client_ok:
  assumes "ask_client env vkey link r = (Inr s, r')"
  shows "cr_vkey s = vkey \<and> fst (validate_client_access (ve_now env) vkey (lk_remote_addr link) r) = Inr ()"
  using request_served assms by (fastforce simp: ask_client_def)

lemma ask_client_cursors:
  "ask_client env vkey link (r\<lparr>re_cursors := c\<rparr>) = (Inr s, r') \<Longrightarrow>
   cr_vkey s = vkey \<and> fst (validate_client_access (ve_now env) vkey (lk_remote_addr link) r) = Inr ()"
  using ask_client_ok access_cursors by metis

lemma relay_visitor_Relaying:
  "relay_visitor env vkey link a b c r = (Relaying a' b' c' s, r') \<longleftrightarrow>
   a' = a \<and> b' = b \<and> c' = c \<and> ask_client env vkey link r = (Inr s, r')"
  by (auto simp: relay_visitor_def split: sum.splits prod.splits)

lemma link_remote [simp]:
  "lk_remote_addr (tcp_link tunnel target remote r) = remote"
  "lk_remote_addr (http_link vkey tt pv target remote r) = remote"
  "lk_remote_addr (socks5_link tunnel target remote r) = remote"
  "lk_remote_addr (udp_link tunnel target remote r) = remote"
  "lk_kind (http_link vkey tt pv target remote r) = LkHttp"
  by (simp_all add: tcp_link_def http_link_def socks5_link_def udp_link_def case_prod_beta)

lemma tcp_visitor_Relaying:
  assumes "tcp_visitor env tunnel remote stream r = (Relaying a b c s, r')"
  shows "admitted env tunnel remote r s \<and> a = [] \<and> b = [] \<and> c = stream"
proof -
  obtain cs where cs: "snd (select_target (tn_client_vkey tunnel @ '':'' @ tn_remark tunnel) tunnel r) = r\<lparr>re_cursors := cs\<rparr>"
    using select_target_shape by blast
  then show ?thesis
    using assms
    by (auto simp: tcp_visitor_def relay_visitor_Relaying admitted_def split: if_splits option.splits prod.splits
        dest!: ask_client_cursors)
qed

lemma udp_visitor_stream:
  assumes "udp_visitor env tunnel remote r = (Some s, r')"
  shows "admitted env tunnel remote r s"
proof -
  obtain cs where cs: "snd (select_target (tn_client_vkey tunnel @ '':'' @ tn_remark tunnel) tunnel r) = r\<lparr>re_cursors := cs\<rparr>"
    using select_target_shape by blast
  then show ?thesis
    using assms
    by (auto simp: udp_visitor_def admitted_def split: if_splits option.splits prod.splits sum.splits
        dest!: ask_client_cursors)
qed

lemma proxy_target_shape: "\<exists>c. snd (proxy_target tunnel requested r) = r\<lparr>re_cursors := c\<rparr>"
  using select_target_shape [of "''http_relay:'' @ tn_client_vkey tunnel @ '':'' @ tn_remark tunnel" tunnel r] same_cursors [of r]
  by (auto simp: proxy_target_def case_prod_beta split: option.splits)

lemma http_proxy_visitor_Relaying:
  assumes "http_proxy_visitor env tunnel remote stream r = (Relaying a b c s, r')"
  shows "admitted env tunnel remote r s \<and> (a = [] \<and> b @ c = stream
     \<or> a = connection_established \<and> b = [] \<and> read_http_head stream (64 * 1024) = (Inr (take (length stream - length c) stream), c))"
proof -
  obtain head rest requested where h: "read_http_head stream (64 * 1024) = (Inr head, rest)" "parse_http_target head = Some requested"
    using assms by (auto simp: http_proxy_visitor_def split: if_splits sum.splits option.splits prod.splits)
  obtain cs where cs: "snd (proxy_target tunnel requested r) = r\<lparr>re_cursors := cs\<rparr>" using proxy_target_shape by blast
  have stream: "stream = head @ rest" using h(1) read_head_split [of "[]"] by (auto simp: read_http_head_def)
  obtain target is_connect where t: "proxy_target tunnel requested r = ((target, is_connect), r\<lparr>re_cursors := cs\<rparr>)"
    using cs by (metis prod.collapse)
  from assms h t have "tunnel_is_active r (tn_id tunnel)"
    "a = (if is_connect then connection_established else [])" "b = (if is_connect then [] else head)" "c = rest"
    "cr_vkey s = tn_client_vkey tunnel \<and> fst (validate_client_access (ve_now env) (tn_client_vkey tunnel) remote (r\<lparr>re_cursors := cs\<rparr>)) = Inr ()"
    using ask_client_ok [of env "tn_client_vkey tunnel" "http_link (tn_client_vkey tunnel) (tn_target tunnel) (tn_proto_version tunnel) target remote (r\<lparr>re_cursors := cs\<rparr>)" "r\<lparr>re_cursors := cs\<rparr>" s r']
    by (simp_all add: http_proxy_visitor_def relay_visitor_Relaying split: if_splits)
  with h(1) stream show ?thesis by (simp add: admitted_def access_cursors)
qed

lemma socks5_visitor_Relaying:
  assumes "socks5_visitor env tunnel remote stream r = (Relaying a b c s, r')"
  shows "admitted env tunnel remote r s \<and> b = [] \<and> (\<exists>out target rest.
     accept_socks5 (ve_reply env) stream = (out, Inr (target, rest)) \<and> a = byte_string (concat out) \<and> c = byte_string rest)"
  using assms
  by (auto simp: socks5_visitor_def relay_visitor_Relaying admitted_def split: if_splits sum.splits prod.splits
      dest!: ask_client_ok)

lemma udp_worker_frames:
  assumes "length answers = length ps" "list_all (\<lambda>p. length p \<le> MAX_FRAME) answers"
    and "write_frames write_blob answers = Inr out" "write_frames write_blob ps = Inr bs"
  shows "udp_worker (\<lambda>_. True) (\<lambda>_. Inr ()) n ps (out @ rest) = (bs, answers)"
  using assms
proof (induction ps arbitrary: answers n out bs)
  case (Cons p ps)
  then obtain a as where a: "answers = a # as" "length as = length ps" by (cases answers) auto
  obtain b out' where o: "write_blob a = Inr b" "write_frames write_blob as = Inr out'" "out = b @ out'"
    using Cons.prems(3) a(1) by (auto split: sum.splits)
  obtain q bs' where p: "write_blob p = Inr q" "write_frames write_blob ps = Inr bs'" "bs = q @ bs'"
    using Cons.prems(4) by (auto split: sum.splits)
  have "read_blob (out @ rest) = Inr (a, out' @ rest)"
    using blob.dec_enc [of a b "out' @ rest"] Cons.prems(2) a(1) o by simp
  then show ?case
    using Cons.IH [OF a(2) _ o(2) p(2), of "Suc n"] Cons.prems(2) a(1) p by simp
qed simp

section \<open>Properties\<close>

text \<open>
  C10: Who gets through a tunnel, and with what.  Whenever a visitor of a TCP, file, HTTP
  proxy, SOCKS5 or UDP tunnel is connected to a client, the tunnel was active, the client is
  the one the tunnel belongs to, and the visitor passed the access check of that client.
  The bytes of the visitor are handed on completely: all of them for TCP; the head and
  the rest for an HTTP request; what follows the handshake for CONNECT and SOCKS5.
\<close>

theorem tunnel_visitors_admitted:
  "(tcp_visitor env tunnel remote stream r = (Relaying a b c s, r') \<longrightarrow>
      admitted env tunnel remote r s \<and> a = [] \<and> b = [] \<and> c = stream)
   \<and> (http_proxy_visitor env tunnel remote stream r = (Relaying a b c s, r') \<longrightarrow>
      admitted env tunnel remote r s \<and> (a = [] \<and> b @ c = stream
        \<or> a = connection_established \<and> b = [] \<and> read_http_head stream (64 * 1024) = (Inr (take (length stream - length c) stream), c)))
   \<and> (socks5_visitor env tunnel remote bs r = (Relaying a b c s, r') \<longrightarrow>
      admitted env tunnel remote r s \<and> b = [] \<and> (\<exists>out target rest.
        accept_socks5 (ve_reply env) bs = (out, Inr (target, rest)) \<and> a = byte_string (concat out) \<and> c = byte_string rest))
   \<and> (udp_visitor env tunnel remote r = (Some s, r') \<longrightarrow> admitted env tunnel remote r s)"
  using tcp_visitor_Relaying [of env tunnel remote stream r a b c s r']
    http_proxy_visitor_Relaying [of env tunnel remote stream r a b c s r']
    socks5_visitor_Relaying [of env tunnel remote bs r a b c s r'] udp_visitor_stream [of env tunnel remote r s r']
  by blast

definition demo_visit :: visit_env where
  "demo_visit = \<lparr>ve_now = 0, ve_recv = Received 5 False, ve_wrap = Inr (), ve_request = 0, ve_reply = \<lambda>_. Inr ()\<rparr>"

definition demo_tunnel :: "string \<Rightarrow> string \<Rightarrow> Tunnel" where
  "demo_tunnel mode target = Tunnel_default\<lparr>tn_id := 3, tn_mode := mode, tn_client_vkey := ''k'', tn_status := True,
     tn_run_status := True, tn_target := Target_default\<lparr>tg_target_str := target\<rparr>\<rparr>"

definition demo_visited :: "Tunnel \<Rightarrow> Registry" where
  "demo_visited t = (Registry_new ServerConfig_default)
     \<lparr>re_clients := [(''k'', (rc_vkey_update ''k'' ClientRuntimeConfig_default)\<lparr>rc_tunnels := [t]\<rparr>)],
      re_controls := [(''k'', \<lparr>ch_tx = 0, ch_version = [], ch_connected_at = 0, ch_remote_addr = []\<rparr>)],
      re_queues := [([], True)]\<rparr>"

theorem tunnel_visitors_admitted_witness:
  "\<exists>s r'. tcp_visitor demo_visit (demo_tunnel ''tcp'' ''10.0.0.7:22'') ''1.2.3.4:5'' ''ssh'' (demo_visited (demo_tunnel ''tcp'' ''10.0.0.7:22''))
       = (Relaying [] [] ''ssh'' s, r')
     \<and> admitted demo_visit (demo_tunnel ''tcp'' ''10.0.0.7:22'') ''1.2.3.4:5'' (demo_visited (demo_tunnel ''tcp'' ''10.0.0.7:22'')) s"
proof -
  let ?v = "tcp_visitor demo_visit (demo_tunnel ''tcp'' ''10.0.0.7:22'') ''1.2.3.4:5'' ''ssh'' (demo_visited (demo_tunnel ''tcp'' ''10.0.0.7:22''))"
  have "(case fst ?v of Relaying a b c s \<Rightarrow> True | _ \<Rightarrow> False)" by code_simp
  then obtain a b c s where v: "?v = (Relaying a b c s, snd ?v)" by (cases ?v) (auto split: visit_end.splits)
  with tunnel_visitors_admitted [of demo_visit "demo_tunnel ''tcp'' ''10.0.0.7:22''" "''1.2.3.4:5''" "''ssh''"
      "demo_visited (demo_tunnel ''tcp'' ''10.0.0.7:22'')" a b c s "snd ?v"]
  show ?thesis by metis
qed

text \<open>
  CONNECT does not work through an HTTP proxy tunnel.  The server confirms the connection
  and asks the client for a link of the kind HTTP, to which it forwards nothing of the
  request; the client waits on such a link for the head of an HTTP request.  A visitor that
  now speaks any other protocol, TLS for instance, is not connected: serving the link
  fails with the error of the missing head.
\<close>

lemma connect_needs_http_head:
  assumes "read_http_head stream (64 * 1024) = (Inr head, rest)" "parse_http_target head = Some (target, True)"
    and "trim (tg_target_str (tn_target tunnel)) = []" "tunnel_is_active r (tn_id tunnel)"
    and "fst (read_http_head (byte_string bs) (64 * 1024)) = Inl e" "le_wrap lenv = Inr ()"
  shows "\<exists>link. http_proxy_visitor env tunnel remote stream r
        = relay_visitor env (tn_client_vkey tunnel) link connection_established [] rest r
     \<and> lk_target link = target \<and> serve_link lenv bs link = Inl e"
proof -
  let ?l = "http_link (tn_client_vkey tunnel) (tn_target tunnel) (tn_proto_version tunnel) target remote r"
  obtain s where "read_http_head (byte_string bs) (64 * 1024) = (Inl e, s)" using assms(5) by (metis prod.collapse)
  then have "serve_link lenv bs ?l = Inl e" using assms(6) by (simp add: serve_link_def)
  moreover have "lk_target ?l = target" by (simp add: http_link_def case_prod_beta)
  ultimately show ?thesis
    using assms(1-4) by (intro exI [of _ ?l]) (simp add: http_proxy_visitor_def proxy_target_def)
qed

text \<open>
  C28: Datagrams make the round trip through both programs.  If every packet of a visitor and
  every answer of the target fits a frame, what the server's worker writes is what the
  client serves, what the client writes back is what the worker reads, and the visitor
  receives exactly the answers of the target, one per packet and in order.
\<close>

theorem udp_round_trip:
  assumes "list_all (\<lambda>p. length p \<le> MAX_FRAME) ps" "length answers = length ps"
    and "\<forall>i < length ps. le_exchange env i (lk_target link) (ps ! i) = Inr (answers ! i) \<and> length (answers ! i) \<le> 64 * 1024"
    and "le_wrap env = Inr ()" "le_bind env = Inr ()" "lk_kind link = LkUdp"
  shows "\<exists>sent replies. serve_link env sent link = Inr (UdpServed replies)
     \<and> udp_worker (\<lambda>_. True) (\<lambda>_. Inr ()) 0 ps (replies @ rest) = (sent, answers)"
proof -
  obtain bs where bs: "write_frames write_blob ps = Inr bs" using blob.write_ok [OF assms(1)] by blast
  obtain out where out: "write_frames write_blob answers = Inr out"
    "serve_udp (\<lambda>n. le_exchange env n (lk_target link)) 0 bs = (out, Inr ())"
    using serve_udp_frames [OF assms(1,2) _ bs, of "\<lambda>n. le_exchange env n (lk_target link)" 0] assms(3) by auto
  have "list_all (\<lambda>p. length p \<le> MAX_FRAME) answers"
    using assms(2,3) by (force simp: list_all_length MAX_FRAME_def)
  from udp_worker_frames [OF assms(2) this out(1) bs] out(2) assms(4-6) show ?thesis
    by (intro exI [of _ bs] exI [of _ out]) (simp add: serve_link_def)
qed

theorem udp_round_trip_witness:
  "\<exists>sent replies. serve_link demo_link_env sent ((Link_tcp ''10.0.0.7:53'' [] False False)\<lparr>lk_kind := LkUdp\<rparr>) = Inr (UdpServed replies)
     \<and> udp_worker (\<lambda>_. True) (\<lambda>_. Inr ()) 0 [[1, 2], [3]] (replies @ []) = (sent, [[2, 1], [3]])"
proof -
  have "list_all (\<lambda>p. length p \<le> MAX_FRAME) [[1, 2], [3 :: u8]]" by (simp add: MAX_FRAME_def)
  from udp_round_trip [OF this, of "[[2, 1], [3]]" demo_link_env "(Link_tcp ''10.0.0.7:53'' [] False False)\<lparr>lk_kind := LkUdp\<rparr>" "[]"]
  show ?thesis by (auto simp: demo_link_env_def Link_tcp_def less_Suc_eq numeral_2_eq_2)
qed

end
