(* ===== verification/HostProxy.thy ===== *)
theory HostProxy
  imports Visitors
begin

text \<open>
  The virtual hosts of the server (\<open>src/server.rs\<close>): the check of white-listed addresses with
  its password page, basic authentication, redirection, the response cache and the relay of
  a request to the client that serves the host, for the HTTP and the HTTPS listener.

  The state is the registry with the files of the store.  A page is read by \<open>hv_page\<close>; the
  bytes the client will send as its response, and whether reading them to their end
  succeeds, are arguments, and so are the results of writes.
\<close>

section \<open>Surroundings\<close>

record host_env = visit_env +
  hv_web :: web_env
  hv_page :: "string \<Rightarrow> string io_result"
  hv_conf_dir :: string
  hv_b64_decode :: "string \<Rightarrow> string option"
  hv_write :: "string \<Rightarrow> unit io_result"
  hv_send :: "string \<Rightarrow> unit io_result"
  hv_response :: string
  hv_response_end :: "unit io_result"

abbreviation hv_visit :: "host_env \<Rightarrow> visit_env" where
  "hv_visit env \<equiv> visit_env.truncate env"

text \<open>The answer, if it can be written.\<close>

definition answer :: "host_env \<Rightarrow> string \<Rightarrow> visit_end" where
  "answer env text = (case hv_write env text of Inr _ \<Rightarrow> Answered text | Inl _ \<Rightarrow> Dropped)"

section \<open>Pages\<close>

text \<open>\<open>Path::parent\<close>, or the current directory where there is none.\<close>

definition components_text :: "path_component list \<Rightarrow> string" where
  "components_text cs =
     (case cs of
        RootDir # rest \<Rightarrow> ''/'' @ join ''/'' (map component_text rest)
      | _ \<Rightarrow> join ''/'' (map component_text cs))"

definition parent_or_dot :: "string \<Rightarrow> string" where
  "parent_or_dot p =
     (let cs = path_components p
      in if cs = [] \<or> last cs = RootDir then ''.'' else components_text (butlast cs))"

definition page_path :: "string \<Rightarrow> string \<Rightarrow> string" where
  "page_path base name = path_push (path_push (path_push (path_push base ''web'') ''static'') ''page'') name"

definition page_candidates :: "string \<Rightarrow> string \<Rightarrow> string list" where
  "page_candidates conf_dir name =
     [page_path (parent_or_dot conf_dir) name, page_path [] name, page_path ''RustNps'' name]"

definition load_page :: "host_env \<Rightarrow> string \<Rightarrow> string option" where
  "load_page env name =
     find_map (\<lambda>p. case hv_page env p of Inr text \<Rightarrow> Some text | Inl _ \<Rightarrow> None)
       (page_candidates (hv_conf_dir env) name)"

definition load_error_page :: "host_env \<Rightarrow> string io_result" where
  "load_error_page env =
     (case load_page env ''error.html'' of
        Some text \<Rightarrow> Inr text | None \<Rightarrow> Inl (IoError NotFound ''error page not found''))"

definition write_custom_404 :: "host_env \<Rightarrow> string" where
  "write_custom_404 env =
     (let body = (case load_error_page env of Inr b \<Rightarrow> b | Inl _ \<Rightarrow> ''nps 404'')
      in write_http_response ''404 Not Found''
           (if body = ''nps 404'' then ''text/plain; charset=utf-8'' else ''text/html; charset=utf-8'') body)"

definition write_basic_auth_required :: string where
  "write_basic_auth_required =
     (let nl = [CHR 0x0A]
      in ''HTTP/1.1 401 Unauthorized'' @ nl @ ''Content-Type: text/plain; charset=utf-8'' @ nl
         @ ''WWW-Authenticate: Basic realm='' @ [CHR 0x22] @ ''easyProxy'' @ [CHR 0x22] @ nl @ nl @ ''401 Unauthorized'')"

definition write_connection_fail :: string where
  "write_connection_fail = ''HTTP/1.1 404 Not Found'' @ CRLF @ CRLF"

text \<open>\<open>str::replace\<close> of a string, from the left and without overlaps.\<close>

function replace_str :: "string \<Rightarrow> string \<Rightarrow> string \<Rightarrow> string" where
  "replace_str p new [] = []"
| "replace_str p new (x # s) =
     (if p \<noteq> [] \<and> prefix p (x # s) then new @ replace_str p new (drop (length p) (x # s))
      else x # replace_str p new s)"
  by pat_completeness auto
termination
  by (relation "measure (\<lambda>(p, n, s). length s)") (auto simp: neq_Nil_conv)

definition load_auth_page :: "host_env \<Rightarrow> string \<Rightarrow> u16 \<Rightarrow> string io_result" where
  "load_auth_page env ip port =
     (case load_page env ''auth.html'' of
        Some text \<Rightarrow> Inr (replace_str ''${port}'' (show_nat (unat port)) (replace_str ''${ip}'' ip (utf8_lossy text)))
      | None \<Rightarrow> Inl (IoError NotFound ''auth page not found''))"

definition write_ip_white_auth_page :: "host_env \<Rightarrow> string \<Rightarrow> u16 \<Rightarrow> visit_end" where
  "write_ip_white_auth_page env ip port =
     (case load_auth_page env ip port of
        Inl _ \<Rightarrow> Dropped
      | Inr body \<Rightarrow> answer env (write_http_response ''401 Unauthorized'' ''text/html; charset=utf-8'' body))"

section \<open>White lists with a password\<close>

definition supplied_pass :: "string \<Rightarrow> string" where
  "supplied_pass path =
     (case split_once (CHR ''?'') path of
        None \<Rightarrow> []
      | Some (_, query) \<Rightarrow>
          (case find_map (\<lambda>pair. case split_once (CHR ''='') pair of
                     None \<Rightarrow> None
                   | Some (key, value) \<Rightarrow> if key = ''pass'' then Some (url_decode_component value) else None)
                 (split_on (CHR ''&'') query) of
             None \<Rightarrow> [] | Some v \<Rightarrow> v))"

definition zh_authorized :: string where
  "zh_authorized = map char_of [0xE6, 0x8E, 0x88, 0xE6, 0x9D, 0x83, 0xE6, 0x88, 0x90, 0xE5, 0x8A, 0x9F :: nat]"

definition zh_wrong_password :: string where
  "zh_wrong_password = map char_of [0xE5, 0xAF, 0x86, 0xE7, 0xA0, 0x81, 0xE9, 0x94, 0x99, 0xE8, 0xAF, 0xAF :: nat]"

definition submit_response :: "bool \<Rightarrow> string" where
  "submit_response success =
     (let q = [CHR 0x22];
          body = ''{'' @ q @ ''success'' @ q @ '':'' @ (if success then ''true'' else ''false'') @ '','' @ q @ ''message'' @ q
            @ '':'' @ q @ (if success then zh_authorized else zh_wrong_password) @ q @ ''}''
      in write_http_response ''200 OK'' ''application/json'' body)"

definition add_white_ip :: "string \<Rightarrow> string \<Rightarrow> Registry \<Rightarrow> bool \<times> Registry" where
  "add_white_ip vkey ip r =
     (case client_of vkey r of
        None \<Rightarrow> (False, r)
      | Some client \<Rightarrow>
          if ip_in_list ip (ci_ip_white_list (rc_info client)) then (False, r)
          else (True, r\<lparr>re_clients := hm_insert vkey
                   (rc_info_update (\<lambda>i. i\<lparr>ci_ip_white_list := ci_ip_white_list i @ [ip]\<rparr>) client) (re_clients r)\<rparr>))"

definition handle_host_ip_white_submit ::
  "host_env \<Rightarrow> Host \<Rightarrow> string \<Rightarrow> string \<Rightarrow> string \<Rightarrow> bool \<Rightarrow> Web \<Rightarrow> visit_end \<times> Web" where
  "handle_host_ip_white_submit env route ip expected_pass path no_store w =
     (if supplied_pass path = expected_pass
      then (case add_white_ip (ho_client_vkey route) ip (wb_reg w) of
              (added, r) \<Rightarrow>
                (let w1 = w\<lparr>wb_reg := r\<rparr>
                 in (answer env (submit_response True),
                     if added \<and> \<not> no_store then snd (persist_registry (hv_web env) w1) else w1)))
      else (answer env (submit_response False), w))"

text \<open>The result is \<open>None\<close> when the request goes on.\<close>

definition handle_host_ip_white_auth ::
  "host_env \<Rightarrow> Host \<Rightarrow> string \<Rightarrow> string \<Rightarrow> u16 \<Rightarrow> Web \<Rightarrow> visit_end option \<times> Web" where
  "handle_host_ip_white_auth env route remote head port w =
     (let ip = remote_ip remote
      in case client_of (ho_client_vkey route) (wb_reg w) of
           None \<Rightarrow> (None, w)
         | Some client \<Rightarrow>
             (let info = rc_info client
              in if \<not> ci_ip_white info \<or> ci_ip_white_pass info = [] \<or> ip = [] \<or> ip_in_list ip (ci_ip_white_list info)
                 then (None, w)
                 else (case parse_http_request_line head of
                         None \<Rightarrow> (None, w)
                       | Some (method, path, _) \<Rightarrow>
                           if eq_ignore_ascii_case method ''POST'' \<and> prefix ''/authIp'' path
                           then (case handle_host_ip_white_submit env route ip (ci_ip_white_pass info) path (rc_no_store client) w of
                                   (res, w') \<Rightarrow> (Some res, w'))
                           else (Some (write_ip_white_auth_page env ip port), w))))"

section \<open>Requests\<close>

datatype HostProxyError = Unauthorized | InvalidRequest

definition prepare_host_proxy_request ::
  "host_env \<Rightarrow> Host \<Rightarrow> string \<Rightarrow> string \<Rightarrow> string \<Rightarrow> Registry \<Rightarrow> HostProxyError + string \<times> string option" where
  "prepare_host_proxy_request env route remote head scheme r =
     (let refused = (case client_of (ho_client_vkey route) r of
            None \<Rightarrow> False
          | Some client \<Rightarrow>
              let user = ci_basic_username (rc_info client); pass = ci_basic_password (rc_info client)
              in user \<noteq> [] \<and> pass \<noteq> [] \<and> \<not> check_http_basic_auth (hv_b64_decode env) head user pass)
      in if refused then Inl Unauthorized
         else (case parse_http_request_line head of
                 None \<Rightarrow> Inl InvalidRequest
               | Some (method, path, _) \<Rightarrow>
                   Inr (rewrite_http_request_head head
                          (Some (if trim (ho_host_change route) = [] then ho_host route else ho_host_change route))
                          (ho_header_change route) remote (sc_http_add_origin_header (re_server r)) True,
                        cache_key_for_request r scheme route method path)))"

definition https_location :: "Host \<Rightarrow> Registry \<Rightarrow> string" where
  "https_location route r =
     ''https://'' @ strip_host_port (ho_host route) @ '':'' @ show_nat (unat (sc_https_proxy_port (re_server r))) @ ho_location route"

definition redirect_response :: "string \<Rightarrow> string" where
  "redirect_response redirect =
     (let q = [CHR 0x22];
          body = ''<html><body><a href='' @ q @ redirect @ q @ ''>Moved Permanently</a></body></html>''
      in ''HTTP/1.1 301 Moved Permanently'' @ CRLF @ ''Location: '' @ redirect @ CRLF
         @ ''Content-Type: text/html; charset=utf-8'' @ CRLF @ ''Content-Length: '' @ show_nat (length body) @ CRLF
         @ ''Connection: close'' @ CRLF @ CRLF @ body)"

definition string_bytes :: "string \<Rightarrow> bytes" where
  "string_bytes s = map (\<lambda>c. of_nat (code c)) s"

text \<open>The stream of the client is dropped, which gives back its connection slot.\<close>

definition drop_client_stream :: "CountedRelayStream \<Rightarrow> Registry \<Rightarrow> Registry" where
  "drop_client_stream s r = release_client_connection_slot (cr_vkey s) r"

definition proxy_and_cache_http_response ::
  "host_env \<Rightarrow> CountedRelayStream \<Rightarrow> string \<Rightarrow> Registry \<Rightarrow> visit_end \<times> Registry" where
  "proxy_and_cache_http_response env client_stream cache_key r =
     (case read_http_head (hv_response env) (64 * 1024) of
        (Inl _, _) \<Rightarrow> (Dropped, drop_client_stream client_stream r)
      | (Inr head, body) \<Rightarrow>
          (case hv_response_end env of
             Inl _ \<Rightarrow> (Dropped, drop_client_stream client_stream r)
           | Inr _ \<Rightarrow>
               (let response = head @ body
                in case hv_write env response of
                     Inl _ \<Rightarrow> (Dropped, drop_client_stream client_stream r)
                   | Inr _ \<Rightarrow>
                       (Answered response,
                        drop_client_stream client_stream
                          (if parse_http_status_code head = Some 200 \<and> length response \<le> 2 * 1024 * 1024
                           then r\<lparr>re_http_cache := cache_insert cache_key (string_bytes response)
                                  (sc_http_cache_length (re_server r)) (re_http_cache r)\<rparr>
                           else r)))))"

text \<open>
  \<open>proxy_host_request_tcp\<close> and \<open>proxy_host_request\<close>, which differ in the type of the stream.
\<close>

definition proxy_host_request ::
  "host_env \<Rightarrow> Host \<Rightarrow> string \<Rightarrow> string \<Rightarrow> string \<Rightarrow> string option \<Rightarrow> string \<Rightarrow> Registry \<Rightarrow> visit_end \<times> Registry" where
  "proxy_host_request env route remote target head cache_key rest r =
     (if ho_auto_https route \<and> 0 < sc_https_proxy_port (re_server r)
      then (answer env (redirect_response (https_location route r)), r)
      else (case Option.bind cache_key (\<lambda>key. cache_get key (re_http_cache r)) of
              Some cached \<Rightarrow> (answer env (byte_string cached), r)
            | None \<Rightarrow>
                (case ask_client (hv_visit env) (ho_client_vkey route)
                        (http_link (ho_client_vkey route) (ho_target route) (ho_proto_version route) target remote r) r of
                   (Inl err, r1) \<Rightarrow>
                     (answer env (if err_kind err = PermissionDenied then write_custom_404 env else write_connection_fail), r1)
                 | (Inr client_stream, r1) \<Rightarrow>
                     (case hv_send env head of
                        Inl _ \<Rightarrow> (Dropped, drop_client_stream client_stream r1)
                      | Inr _ \<Rightarrow>
                          (case cache_key of
                             Some key \<Rightarrow> proxy_and_cache_http_response env client_stream key r1
                           | None \<Rightarrow> (Relaying [] head rest client_stream, r1))))))"

text \<open>The copy of it for connections without encryption, which the HTTP listener calls.\<close>

definition proxy_host_request_tcp where
  "proxy_host_request_tcp = proxy_host_request"

section \<open>The listeners\<close>

text \<open>
  The accept loops: binding may fail, a failed \<open>accept\<close> is skipped, and every connection gets a
  thread of its own.  The result lists the connections for which a thread was started.
\<close>

definition http_host_addr :: "ServerConfig \<Rightarrow> string" where
  "http_host_addr server = sc_http_proxy_ip server @ '':'' @ show_nat (unat (sc_http_proxy_port server))"

definition https_host_addr :: "ServerConfig \<Rightarrow> string" where
  "https_host_addr server = sc_http_proxy_ip server @ '':'' @ show_nat (unat (sc_https_proxy_port server))"

definition start_http_host_listener :: "(string \<Rightarrow> unit io_result) \<Rightarrow> ServerConfig \<Rightarrow> 'c io_result list \<Rightarrow> 'c list io_result" where
  "start_http_host_listener bind_tcp server incoming =
     (case bind_tcp (http_host_addr server) of
        Inl e \<Rightarrow> Inl e
      | Inr _ \<Rightarrow> Inr (List.map_filter (\<lambda>res. case res of Inl _ \<Rightarrow> None | Inr inbound \<Rightarrow> Some inbound) incoming))"

definition start_https_host_listener :: "(string \<Rightarrow> unit io_result) \<Rightarrow> ServerConfig \<Rightarrow> 'c io_result list \<Rightarrow> 'c list io_result" where
  "start_https_host_listener bind_tcp server incoming =
     (case bind_tcp (https_host_addr server) of
        Inl e \<Rightarrow> Inl e
      | Inr _ \<Rightarrow> Inr (List.map_filter (\<lambda>res. case res of Inl _ \<Rightarrow> None | Inr inbound \<Rightarrow> Some inbound) incoming))"

text \<open>From the parsed head on, both listeners do the same; they differ in the port, the scheme
  and in what they answer to a request that cannot be parsed.\<close>

definition host_request ::
  "host_env \<Rightarrow> u16 \<Rightarrow> string \<Rightarrow> visit_end \<Rightarrow> string \<Rightarrow> string \<Rightarrow> string \<Rightarrow> Web \<Rightarrow> visit_end \<times> Web" where
  "host_request env port scheme bad_request remote head rest w =
     (case parse_http_host_path head of
        None \<Rightarrow> (answer env (write_http_response ''400 Bad Request'' ''text/plain'' ''missing host''), w)
      | Some (host, path) \<Rightarrow>
          (case find_host_route (wb_reg w) host path scheme of
             None \<Rightarrow> (answer env (write_custom_404 env), w)
           | Some (route, target) \<Rightarrow>
               (case handle_host_ip_white_auth env route remote head port w of
                  (Some res, w1) \<Rightarrow> (res, w1)
                | (None, w1) \<Rightarrow>
                    (case prepare_host_proxy_request env route remote head scheme (wb_reg w1) of
                       Inl Unauthorized \<Rightarrow> (answer env write_basic_auth_required, w1)
                     | Inl InvalidRequest \<Rightarrow> (bad_request, w1)
                     | Inr (prepared, cache_key) \<Rightarrow>
                         (case proxy_host_request env route remote target prepared cache_key rest (wb_reg w1) of
                            (res, r) \<Rightarrow> (res, w1\<lparr>wb_reg := r\<rparr>))))))"

definition http_host_visitor :: "host_env \<Rightarrow> string \<Rightarrow> string \<Rightarrow> Web \<Rightarrow> visit_end \<times> Web" where
  "http_host_visitor env remote stream w =
     (case read_http_head stream (64 * 1024) of
        (Inl _, _) \<Rightarrow> (Dropped, w)
      | (Inr head, rest) \<Rightarrow>
          host_request env (sc_http_proxy_port (re_server (wb_reg w))) ''http''
            (answer env (write_http_response ''400 Bad Request'' ''text/plain'' ''bad request'')) remote head rest w)"

text \<open>
  \<open>server_name\<close> is the result of \<open>sniff_sni\<close>, \<open>raw\<close> are the bytes of the connection and
  \<open>plain\<close> those inside TLS, if certificates are configured and the handshake succeeds.
\<close>

definition handle_https_host_conn ::
  "host_env \<Rightarrow> string option io_result \<Rightarrow> string \<Rightarrow> string \<Rightarrow> string io_result \<Rightarrow> Web \<Rightarrow> visit_end \<times> Web" where
  "handle_https_host_conn env server_name remote raw plain w =
     (case server_name of
        Inl _ \<Rightarrow> (Dropped, w)
      | Inr sni \<Rightarrow>
          if sc_https_just_proxy (re_server (wb_reg w))
          then (case find_host_route (wb_reg w) (case sni of Some n \<Rightarrow> n | None \<Rightarrow> []) ''/'' ''https'' of
                  None \<Rightarrow> (Dropped, w)
                | Some (route, target) \<Rightarrow>
                    (case relay_visitor (hv_visit env) (ho_client_vkey route)
                            ((http_link (ho_client_vkey route) (ho_target route) (ho_proto_version route) target remote (wb_reg w))
                               \<lparr>lk_kind := LkTcp\<rparr>) [] [] raw (wb_reg w) of
                       (res, r) \<Rightarrow> (res, w\<lparr>wb_reg := r\<rparr>)))
          else (case plain of
                  Inl _ \<Rightarrow> (Dropped, w)
                | Inr stream \<Rightarrow>
                    (case read_http_head stream (64 * 1024) of
                       (Inl _, _) \<Rightarrow> (Dropped, w)
                     | (Inr head, rest) \<Rightarrow>
                         host_request env (sc_https_proxy_port (re_server (wb_reg w))) ''https'' Dropped remote head rest w)))"

section \<open>Facts\<close>

lemma byte_string_bytes [simp]: "byte_string (string_bytes s) = s"
  using code_lt by (induction s) (auto simp: byte_string_def string_bytes_def unat_of_nat char_of_code)

lemma answer_not_relaying [simp]: "answer env text \<noteq> Relaying a b c s"
  by (simp add: answer_def split: sum.split)

lemma hv_visit_now [simp]: "ve_now (hv_visit env) = ve_now env"
  by (simp add: visit_env.truncate_def)

lemma cache_not_relaying: "proxy_and_cache_http_response env s key r \<noteq> (Relaying a b c s', r')"
  by (auto simp: proxy_and_cache_http_response_def Let_def split: prod.splits sum.splits)

text \<open>The check of the white list lets a request pass without changing anything.\<close>

lemma white_auth_passes:
  "handle_host_ip_white_auth env route remote head port w = (None, w') \<Longrightarrow> w' = w"
  by (auto simp: handle_host_ip_white_auth_def Let_def split: option.splits if_splits prod.splits)

lemma white_submit_ends:
  "handle_host_ip_white_auth env route remote head port w = (Some res, w') \<Longrightarrow> res \<noteq> Relaying a b c s"
  by (auto simp: handle_host_ip_white_auth_def handle_host_ip_white_submit_def write_ip_white_auth_page_def Let_def
      split: option.splits if_splits prod.splits sum.splits)

lemma proxy_host_request_Relaying:
  assumes "proxy_host_request env route remote target head cache_key rest r = (Relaying a b c s, r')"
  shows "a = [] \<and> b = head \<and> c = rest \<and> cache_key = None \<and> cr_vkey s = ho_client_vkey route
     \<and> fst (validate_client_access (ve_now env) (ho_client_vkey route) remote r) = Inr ()"
  using assms cache_not_relaying [of env _ _ _ a b c s r']
  by (auto simp: proxy_host_request_def split: if_splits option.splits sum.splits prod.splits dest!: ask_client_ok)

definition basic_auth_ok :: "host_env \<Rightarrow> Host \<Rightarrow> string \<Rightarrow> Registry \<Rightarrow> bool" where
  "basic_auth_ok env route head r \<longleftrightarrow>
     (case client_of (ho_client_vkey route) r of
        None \<Rightarrow> True
      | Some client \<Rightarrow> ci_basic_username (rc_info client) = [] \<or> ci_basic_password (rc_info client) = []
          \<or> check_http_basic_auth (hv_b64_decode env) head (ci_basic_username (rc_info client)) (ci_basic_password (rc_info client)))"

lemma prepared_request:
  "prepare_host_proxy_request env route remote head scheme r = Inr (prepared, key) \<longleftrightarrow>
   basic_auth_ok env route head r
   \<and> (\<exists>method path version. parse_http_request_line head = Some (method, path, version)
        \<and> prepared = rewrite_http_request_head head
            (Some (if trim (ho_host_change route) = [] then ho_host route else ho_host_change route))
            (ho_header_change route) remote (sc_http_add_origin_header (re_server r)) True
        \<and> key = cache_key_for_request r scheme route method path)"
  by (auto simp: prepare_host_proxy_request_def basic_auth_ok_def Let_def split: option.splits if_splits prod.splits)

lemma host_request_Relaying:
  assumes "host_request env port scheme bad_request remote head rest w = (Relaying a b c s, w')"
    and "\<And>a b c s. bad_request \<noteq> Relaying a b c s"
  obtains host path route target where
    "parse_http_host_path head = Some (host, path)" "find_host_route (wb_reg w) host path scheme = Some (route, target)"
    "basic_auth_ok env route head (wb_reg w)" "cr_vkey s = ho_client_vkey route"
    "fst (validate_client_access (ve_now env) (ho_client_vkey route) remote (wb_reg w)) = Inr ()"
    "a = []" "c = rest"
    "b = rewrite_http_request_head head (Some (if trim (ho_host_change route) = [] then ho_host route else ho_host_change route))
       (ho_header_change route) remote (sc_http_add_origin_header (re_server (wb_reg w))) True"
proof -
  obtain host path route target where f: "parse_http_host_path head = Some (host, path)"
    "find_host_route (wb_reg w) host path scheme = Some (route, target)"
    using assms(1) by (auto simp: host_request_def split: option.splits prod.splits)
  obtain res w1 where h: "handle_host_ip_white_auth env route remote head port w = (res, w1)" by fastforce
  then have "res = None" using assms(1) f white_submit_ends by (cases res) (auto simp: host_request_def)
  with h white_auth_passes have h: "handle_host_ip_white_auth env route remote head port w = (None, w)" by metis
  obtain prepared key where p: "prepare_host_proxy_request env route remote head scheme (wb_reg w) = Inr (prepared, key)"
    using assms f h by (auto simp: host_request_def split: sum.splits HostProxyError.splits)
  obtain r' where "proxy_host_request env route remote target prepared key rest (wb_reg w) = (Relaying a b c s, r')"
    using assms(1) f h p by (auto simp: host_request_def split: prod.splits)
  from proxy_host_request_Relaying [OF this] p [unfolded prepared_request] that f show thesis by auto
qed

text \<open>A request that a route serves for its visitor: what the relay has sent and what is left.\<close>

definition host_served ::
  "host_env \<Rightarrow> string \<Rightarrow> string \<Rightarrow> string \<Rightarrow> Registry \<Rightarrow> string \<Rightarrow> string \<Rightarrow> CountedRelayStream \<Rightarrow> bool" where
  "host_served env scheme remote stream r sent rest s \<longleftrightarrow>
     (\<exists>head host path route target.
        stream = head @ rest \<and> parse_http_host_path head = Some (host, path)
        \<and> find_host_route r host path scheme = Some (route, target)
        \<and> basic_auth_ok env route head r \<and> cr_vkey s = ho_client_vkey route
        \<and> fst (validate_client_access (ve_now env) (ho_client_vkey route) remote r) = Inr ()
        \<and> sent = rewrite_http_request_head head
            (Some (if trim (ho_host_change route) = [] then ho_host route else ho_host_change route))
            (ho_header_change route) remote (sc_http_add_origin_header (re_server r)) True)"

lemma host_request_served:
  assumes "read_http_head stream (64 * 1024) = (Inr head, rest)"
    and "host_request env port scheme bad_request remote head rest w = (Relaying a b c s, w')"
    and "\<And>a b c s. bad_request \<noteq> Relaying a b c s"
  shows "a = [] \<and> host_served env scheme remote stream (wb_reg w) b c s"
proof -
  have "stream = head @ rest" using assms(1) read_head_split [of "[]"] by (auto simp: read_http_head_def)
  moreover have "bad_request \<noteq> Relaying x y z u" for x y z u by (rule assms(3))
  ultimately show ?thesis
    using assms(2) unfolding host_served_def by (elim host_request_Relaying) auto
qed

section \<open>Properties\<close>


definition demo_host_env :: host_env where
  "demo_host_env = \<lparr>ve_now = 0, ve_recv = Received 5 False, ve_wrap = Inr (), ve_request = 0, ve_reply = \<lambda>_. Inr (),
     hv_web = demo_web_env, hv_page = \<lambda>_. Inl (IoError NotFound []), hv_conf_dir = ''conf'', hv_b64_decode = \<lambda>_. None,
     hv_write = \<lambda>_. Inr (), hv_send = \<lambda>_. Inr (), hv_response = [], hv_response_end = Inr ()\<rparr>"

definition demo_vhost :: "bool \<Rightarrow> Host" where
  "demo_vhost auto_https = Host_default\<lparr>ho_host := ''a.org'', ho_client_vkey := ''k'', ho_auto_https := auto_https,
     ho_target := Target_default\<lparr>tg_target_str := ''10.0.0.7:80''\<rparr>\<rparr>"

definition demo_hosting :: "Host \<Rightarrow> string list \<Rightarrow> (string \<times> bytes) list \<Rightarrow> Web" where
  "demo_hosting host black cached = \<lparr>wb_reg = (demo_visited (demo_tunnel ''tcp'' []))
     \<lparr>re_server := ServerConfig_default\<lparr>sc_http_cache := True, sc_https_just_proxy := False\<rparr>,
      re_clients := [(''k'', (rc_info_update (\<lambda>i. i\<lparr>ci_black_ip_list := black\<rparr>)
        (rc_vkey_update ''k'' ClientRuntimeConfig_default))\<lparr>rc_hosts := [host]\<rparr>)],
      re_http_cache := \<lparr>hr_entries = cached, hr_order = map fst cached\<rparr>\<rparr>, wb_files = \<lambda>_. None\<rparr>"

definition demo_get :: "string \<Rightarrow> string" where
  "demo_get path = ''GET '' @ path @ '' HTTP/1.1'' @ CRLF @ ''Host: a.org'' @ CRLF @ CRLF"


text \<open>
  The response cache answers visitors that have no access.  Where the response to a
  request is in the cache, it is sent to every visitor that the route is found for and who
  passes the white list page and basic authentication; the access check, with the black
  lists, the authorised addresses and the flow limit, is part of the connection to
  the client, which is not made.
\<close>

lemma cache_skips_access_check:
  assumes "read_http_head stream (64 * 1024) = (Inr head, rest)" "parse_http_host_path head = Some (host, path)"
    and "find_host_route (wb_reg w) host path ''http'' = Some (route, target)" "\<not> ho_auto_https route"
    and "fst (handle_host_ip_white_auth env route remote head (sc_http_proxy_port (re_server (wb_reg w))) w) = None"
    and "prepare_host_proxy_request env route remote head ''http'' (wb_reg w) = Inr (prepared, Some key)"
    and "cache_get key (re_http_cache (wb_reg w)) = Some cached"
  shows "http_host_visitor env remote stream w = (answer env (byte_string cached), w)"
proof -
  have "handle_host_ip_white_auth env route remote head (sc_http_proxy_port (re_server (wb_reg w))) w = (None, w)"
    using assms(5) white_auth_passes by (metis prod.collapse)
  then show ?thesis
    using assms by (simp add: http_host_visitor_def host_request_def proxy_host_request_def)
qed

text \<open>
  A host that redirects to HTTPS cannot be visited.  The redirection is not limited to the
  HTTP listener: a request that arrives over HTTPS for such a host is answered with the
  redirection to HTTPS on the port it arrived at, and no request reaches the client.
\<close>

lemma https_redirects_to_itself:
  assumes "\<not> sc_https_just_proxy (re_server (wb_reg w))" "read_http_head stream (64 * 1024) = (Inr head, rest)"
    and "parse_http_host_path head = Some (host, path)" "find_host_route (wb_reg w) host path ''https'' = Some (route, target)"
    and "ho_auto_https route" "0 < sc_https_proxy_port (re_server (wb_reg w))"
    and "fst (handle_host_ip_white_auth env route remote head (sc_https_proxy_port (re_server (wb_reg w))) w) = None"
    and "is_ok (prepare_host_proxy_request env route remote head ''https'' (wb_reg w))"
  shows "handle_https_host_conn env (Inr sni) remote raw (Inr stream) w = (answer env (redirect_response
     (''https://'' @ strip_host_port (ho_host route) @ '':'' @ show_nat (unat (sc_https_proxy_port (re_server (wb_reg w)))) @ ho_location route)), w)"
proof -
  have "handle_host_ip_white_auth env route remote head (sc_https_proxy_port (re_server (wb_reg w))) w = (None, w)"
    using assms(7) white_auth_passes by (metis prod.collapse)
  moreover obtain prepared key where "prepare_host_proxy_request env route remote head ''https'' (wb_reg w) = Inr (prepared, key)"
    using assms(8) by (auto simp: is_ok_iff)
  ultimately show ?thesis
    using assms(1-6)
    by (simp add: handle_https_host_conn_def host_request_def proxy_host_request_def https_location_def)
qed

end
