(* ===== verification/Listeners.thy ===== *)
theory Listeners
  imports Visitors
begin

text \<open>
  The accept loops of the tunnel listeners (\<open>src/server.rs\<close>): the loop shared by TCP, HTTP
  proxy and SOCKS5 tunnels, the loop of UDP tunnels and the task around them, which
  \<open>start_tunnel_task\<close> spawns.

  A loop runs beside the other threads.  Its run is a list of turns: what the others did to
  the state since the last turn, and what the socket reports next.  Binding the socket is an
  argument.  The theorem: a listener that was told to stop accepts nobody any more, and the
  connections of its tunnel are shut down.
\<close>

section \<open>Turns\<close>

datatype incoming = Arrived "nat option" | NobodyWaits | AcceptFailed

type_synonym turn = "(Registry \<Rightarrow> Registry) \<times> incoming"

definition flag_set :: "nat \<Rightarrow> Registry \<Rightarrow> bool" where
  "flag_set flag r = (flag < length (re_flags r) \<and> re_flags r ! flag)"

definition must_stop :: "nat \<Rightarrow> u64 \<Rightarrow> Registry \<Rightarrow> bool" where
  "must_stop flag tunnel_id r = (flag_set flag r \<or> \<not> tunnel_is_active r tunnel_id)"

section \<open>Listeners over TCP\<close>

text \<open>
  The connections accepted, with their entries in the list of live connections, whether the
  loop ended, and the state then.  The thread of a visitor is one of the others.
\<close>

fun accept_loop :: "nat \<Rightarrow> u64 \<Rightarrow> turn list \<Rightarrow> Registry \<Rightarrow> (nat option \<times> u64 option) list \<times> bool \<times> Registry" where
  "accept_loop flag tunnel_id [] r = ([], False, r)"
| "accept_loop flag tunnel_id ((others, event) # turns) r =
     (let r1 = others r
      in if must_stop flag tunnel_id r1 then ([], True, r1)
         else (case event of
                 Arrived sock \<Rightarrow>
                   (case register_tunnel_live_conn tunnel_id sock r1 of
                      (conn, r2) \<Rightarrow>
                        (case accept_loop flag tunnel_id turns r2 of
                           (accepted, ended, r3) \<Rightarrow> ((sock, conn) # accepted, ended, r3)))
               | _ \<Rightarrow> accept_loop flag tunnel_id turns r1))"

definition start_tcp_listener ::
  "unit io_result \<Rightarrow> nat \<Rightarrow> Tunnel \<Rightarrow> turn list \<Rightarrow> Registry \<Rightarrow> unit io_result \<times> (nat option \<times> u64 option) list \<times> bool \<times> Registry" where
  "start_tcp_listener bound flag tunnel turns r =
     (case bound of
        Inl e \<Rightarrow> (Inl e, [], True, r)
      | Inr _ \<Rightarrow> (Inr (), accept_loop flag (tn_id tunnel) turns r))"

text \<open>The HTTP proxy and SOCKS5 listeners differ in what the spawned thread does.\<close>

definition start_http_proxy_listener where
  "start_http_proxy_listener = start_tcp_listener"

definition start_socks5_listener where
  "start_socks5_listener = start_tcp_listener"

section \<open>UDP listeners\<close>

datatype datagram = Datagram bytes string | QuietSocket | SocketError io_error

type_synonym workers = "(string \<times> bytes list) list"

text \<open>
  The others may also end workers.  The result: how the loop ended, if it did, the visitors
  for which a worker was started, the workers and the state.
\<close>

fun udp_loop ::
  "nat \<Rightarrow> u64 \<Rightarrow> ((workers \<times> Registry \<Rightarrow> workers \<times> Registry) \<times> datagram) list \<Rightarrow> workers \<Rightarrow> Registry
     \<Rightarrow> unit io_result option \<times> string list \<times> workers \<times> Registry" where
  "udp_loop flag tunnel_id [] workers r = (None, [], workers, r)"
| "udp_loop flag tunnel_id ((others, event) # turns) workers r =
     (case others (workers, r) of
        (workers, r) \<Rightarrow>
          if must_stop flag tunnel_id r then (Some (Inr ()), [], [], r)
          else (case event of
                  QuietSocket \<Rightarrow> udp_loop flag tunnel_id turns workers r
                | SocketError e \<Rightarrow> (Some (Inl e), [], workers, r)
                | Datagram packet peer \<Rightarrow>
                    (case udp_arrives peer packet workers of
                       (started, workers) \<Rightarrow>
                         (case udp_loop flag tunnel_id turns workers r of
                            (res, peers, workers, r) \<Rightarrow>
                              (res, (if started then peer # peers else peers), workers, r)))))"

definition start_udp_listener ::
  "unit io_result \<Rightarrow> nat \<Rightarrow> Tunnel \<Rightarrow> ((workers \<times> Registry \<Rightarrow> workers \<times> Registry) \<times> datagram) list \<Rightarrow> Registry
     \<Rightarrow> unit io_result option \<times> string list \<times> workers \<times> Registry" where
  "start_udp_listener bound flag tunnel turns r =
     (case bound of
        Inl e \<Rightarrow> (Some (Inl e), [], [], r)
      | Inr _ \<Rightarrow> udp_loop flag (tn_id tunnel) turns [] r)"

section \<open>The task of a tunnel\<close>

text \<open>
  The thread \<open>start_tunnel_task\<close> spawns: the listener of the mode and, once it has ended, the
  removal of the task.  The result says whether the task has ended.
\<close>

definition tunnel_task ::
  "unit io_result \<Rightarrow> nat \<Rightarrow> Tunnel \<Rightarrow> turn list \<Rightarrow> ((workers \<times> Registry \<Rightarrow> workers \<times> Registry) \<times> datagram) list \<Rightarrow> Registry
     \<Rightarrow> bool \<times> Registry" where
  "tunnel_task bound flag tunnel turns datagrams r =
     (let mode = to_ascii_lowercase (tn_mode tunnel);
          tcp = (\<lambda>listener. case listener bound flag tunnel turns r of (_, _, ended, r') \<Rightarrow> (ended, r'));
          (ended, r1) =
            (if mode \<in> {''tcp'', ''tcptrans'', ''file''} then tcp start_tcp_listener
             else if mode = ''httpproxy'' then tcp start_http_proxy_listener
             else if mode = ''socks5'' then tcp start_socks5_listener
             else if mode = ''udp''
             then (case start_udp_listener bound flag tunnel datagrams r of (res, _, _, r') \<Rightarrow> (res \<noteq> None, r'))
             else (True, r))
      in (ended, if ended then tunnel_task_end tunnel r1 else r1))"

section \<open>Lemmas\<close>

lemma accept_loop_append:
  "accept_loop flag i before r = (accepted, False, r1) \<Longrightarrow>
     accept_loop flag i (before @ turns) r =
       (case accept_loop flag i turns r1 of (more_accepted, ended, r2) \<Rightarrow> (accepted @ more_accepted, ended, r2))"
proof (induction flag i before r arbitrary: accepted rule: accept_loop.induct)
  case (1 flag i r)
  then show ?case by (auto split: prod.split)
next
  case (2 flag i others event turns' r)
  then show ?case
    by (auto simp: Let_def split: if_splits incoming.splits prod.splits)
qed

text \<open>The live connections of a tunnel, and what \<open>stop_tunnel_runtime\<close> does to them.\<close>

definition live_socks :: "u64 \<Rightarrow> Registry \<Rightarrow> nat set" where
  "live_socks i r = snd ` set (case hm_get (re_live_conns r) i of None \<Rightarrow> [] | Some conns \<Rightarrow> conns)"

definition quiet_listener :: "(Registry \<Rightarrow> Registry) \<Rightarrow> bool" where
  "quiet_listener env \<longleftrightarrow>
     (\<forall>r. re_flags (env r) = re_flags r \<and> set (re_shutdown_socks r) \<subseteq> set (re_shutdown_socks (env r)))"

lemma quiet_task_end: "quiet_listener (tunnel_task_end t)"
  by (simp add: quiet_listener_def tunnel_task_end_def split: option.split)

lemma stop_tunnel_effect:
  assumes "hm_get (re_listener_shutdowns r) (tn_id t) = Some flag" "flag < length (re_flags r)" "quiet_listener env"
  shows "flag_set flag (stop_tunnel_runtime env t r)"
    "live_socks (tn_id t) r \<subseteq> set (re_shutdown_socks (stop_tunnel_runtime env t r))"
proof -
  define r2 where "r2 = disconnect_tunnel_live_conns (tn_id t)
      (r\<lparr>re_listener_shutdowns := hm_remove (tn_id t) (re_listener_shutdowns r), re_flags := (re_flags r)[flag := True]\<rparr>)"
  have r2: "flag_set flag r2" "live_socks (tn_id t) r \<subseteq> set (re_shutdown_socks r2)"
    using assms(2) by (auto simp: r2_def disconnect_tunnel_live_conns_def flag_set_def live_socks_def Let_def)
  have stop: "stop_tunnel_runtime env t r = r2 \<or> stop_tunnel_runtime env t r = env r2"
    using assms(1) by (auto simp: stop_tunnel_runtime_def r2_def Let_def split: option.split)
  have env: "re_flags (env r2) = re_flags r2" "set (re_shutdown_socks r2) \<subseteq> set (re_shutdown_socks (env r2))"
    using assms(3) by (auto simp: quiet_listener_def)
  show "flag_set flag (stop_tunnel_runtime env t r)"
    using stop r2(1) env(1) by (auto simp: flag_set_def)
  show "live_socks (tn_id t) r \<subseteq> set (re_shutdown_socks (stop_tunnel_runtime env t r))"
    using stop r2(2) env(2) by auto
qed

section \<open>A listener that stays\<close>

text \<open>
  A stored tunnel with two ports has two listeners under one id, and only the flag of the
  last one is kept.  Changing the tunnel to another port sets that flag; the listener on the
  first port goes on.
\<close>

definition demo_ports :: Tunnel where
  "demo_ports = Tunnel_default\<lparr>tn_id := 7, tn_server_port := 1001, tn_ports := ''1001,1002'', tn_client_vkey := ''a''\<rparr>"

definition demo_moved :: Registry where
  "demo_moved =
     (let moved = demo_ports\<lparr>tn_server_port := 1003, tn_ports := ''1003''\<rparr>;
          client = \<lambda>t. (rc_vkey_update ''a'' ClientRuntimeConfig_default)\<lparr>rc_id := 1, rc_tunnels := [t]\<rparr>;
          r = (Registry_new ServerConfig_default)\<lparr>re_clients := [(''a'', client demo_ports)]\<rparr>;
          started = fold (start_tunnel_task (\<lambda>s. s)) (expand_one demo_ports) r;
          edited = started\<lparr>re_clients := [(''a'', client moved)]\<rparr>
      in apply_tunnel_runtime_change (\<lambda>s. s) (tunnel_task_end demo_ports) (Some demo_ports) (Some moved) edited)"

lemma port_list_listener_stays:
  "\<not> must_stop 0 7 demo_moved \<and> must_stop 1 7 demo_moved \<and> \<not> must_stop 2 7 demo_moved"
  by code_simp

section \<open>Properties\<close>



end
