(* ===== verification/Health.thy ===== *)
theory Health
  imports Hello
begin

text \<open>
  The health monitor of the client (\<open>start_health_monitor\<close>, \<open>report_health_change\<close> and the
  probes of \<open>src/client.rs\<close>).  Probing and reporting act on a state \<open>'w\<close> of the world, which
  is threaded through every call; the calls themselves are fields of a record.

  The locale \<open>health_reports\<close> is what the monitor relies on of its network: a report that is
  confirmed has taken effect, and nothing else changes the set of removed targets.  It is
  interpreted on the server's handler of health greetings, so that \<open>removed_targets_exact\<close>
  speaks of both programs at once.
\<close>

section \<open>The network\<close>

datatype BridgeMode = BridgeTcp | BridgeKcp

definition BridgeMode_from_text :: "string \<Rightarrow> BridgeMode" where
  "BridgeMode_from_text value =
     (if to_ascii_lowercase (trim value) = ''kcp'' then BridgeKcp else BridgeTcp)"

text \<open>
  \<open>nw_dial\<close> connects to an address, writes a greeting and reads the reply.  \<open>nw_fetch\<close>
  connects, writes a request and reads to the end.  \<open>nw_show\<close> is the debug text of a message.
\<close>

record 'w network =
  nw_dial :: "string \<Rightarrow> BridgeMode \<Rightarrow> BridgeHello \<Rightarrow> 'w \<Rightarrow> ServerMessage io_result \<times> 'w"
  nw_resolve :: "string \<Rightarrow> 'w \<Rightarrow> string list io_result \<times> 'w"
  nw_connect :: "string \<Rightarrow> u64 \<Rightarrow> 'w \<Rightarrow> bool \<times> 'w"
  nw_fetch :: "string \<Rightarrow> u64 \<Rightarrow> string \<Rightarrow> 'w \<Rightarrow> string io_result \<times> 'w"
  nw_show :: "ServerMessage \<Rightarrow> string"

text \<open>How every dialogue with the server ends: \<open>Ok\<close>, an \<open>Error\<close>, or a reply out of place.\<close>

definition expect_ok :: "(ServerMessage \<Rightarrow> string) \<Rightarrow> (string \<Rightarrow> io_error) \<Rightarrow> string \<Rightarrow> ServerMessage io_result \<Rightarrow> string io_result" where
  "expect_ok show_msg error_of what answer =
     (case answer of
        Inl e \<Rightarrow> Inl e
      | Inr (MsgOk message) \<Rightarrow> Inr message
      | Inr (MsgError message) \<Rightarrow> Inl (error_of message)
      | Inr other \<Rightarrow> Inl (IoError InvalidData (''unexpected '' @ what @ '' response: '' @ show_msg other)))"

definition report_health_change ::
  "'w network \<Rightarrow> string \<Rightarrow> string \<Rightarrow> string \<Rightarrow> string \<Rightarrow> bool \<Rightarrow> 'w \<Rightarrow> unit io_result \<times> 'w" where
  "report_health_change nw server_addr conn_type vkey target status w =
     (case nw_dial nw server_addr (BridgeMode_from_text conn_type) (HelloHealth vkey target status) w of
        (answer, w') \<Rightarrow>
          (map_sum id (\<lambda>_. ()) (expect_ok (nw_show nw) (IoError Other) ''health'' answer), w'))"

section \<open>Probes\<close>

definition probe_tcp_health_target :: "'w network \<Rightarrow> string \<Rightarrow> u64 \<Rightarrow> 'w \<Rightarrow> bool \<times> 'w" where
  "probe_tcp_health_target nw target timeout w =
     (case nw_resolve nw target w of
        (Inr (addr # _), w') \<Rightarrow> nw_connect nw addr timeout w'
      | (_, w') \<Rightarrow> (False, w'))"

definition probe_request :: "string \<Rightarrow> string \<Rightarrow> string" where
  "probe_request target http_url =
     (let path = (if prefix ''/'' http_url then http_url else ''/'' @ http_url)
      in ''GET '' @ path @ '' HTTP/1.1'' @ CRLF @ ''Host: '' @ target @ CRLF @ ''Connection: close'' @ CRLF @ CRLF)"

definition probe_http_health_target :: "'w network \<Rightarrow> string \<Rightarrow> string \<Rightarrow> u64 \<Rightarrow> 'w \<Rightarrow> bool \<times> 'w" where
  "probe_http_health_target nw target http_url timeout w =
     (case nw_resolve nw target w of
        (Inr (addr # _), w1) \<Rightarrow>
          (case nw_fetch nw addr timeout (probe_request target http_url) w1 of
             (Inl _, w2) \<Rightarrow> (False, w2)
           | (Inr response, w2) \<Rightarrow> (parse_http_status_code response = Some 200, w2))
      | (_, w1) \<Rightarrow> (False, w1))"

definition probe_health_target :: "'w network \<Rightarrow> HealthCheck \<Rightarrow> string \<Rightarrow> 'w \<Rightarrow> bool \<times> 'w" where
  "probe_health_target nw health target w =
     (let timeout = max (hc_timeout_secs health) 1
      in if to_ascii_lowercase (hc_kind health) = ''http''
         then probe_http_health_target nw target (hc_http_url health) timeout w
         else probe_tcp_health_target nw target timeout w)"

section \<open>The monitor\<close>

definition saturating_suc_u32 :: "u32 \<Rightarrow> u32" where
  "saturating_suc_u32 n = (if n = 0xFFFFFFFF then n else n + 1)"

text \<open>
  One target of a rule; \<open>report\<close> tells the server, and \<open>failures\<close> is the count that is left.
  An error of a report is only logged, but a restoration that was not confirmed keeps the
  count, so that it is reported again.
\<close>

definition check_target ::
  "(string \<Rightarrow> 'w \<Rightarrow> bool \<times> 'w) \<Rightarrow> (string \<Rightarrow> bool \<Rightarrow> 'w \<Rightarrow> unit io_result \<times> 'w) \<Rightarrow> u32 \<Rightarrow> string \<Rightarrow> u32 \<Rightarrow> 'w \<Rightarrow> u32 \<times> 'w" where
  "check_target probe report max_failed target failures w =
     (case probe target w of
        (True, w1) \<Rightarrow>
          if max_failed \<le> failures
          then (case report target True w1 of
                  (Inl _, w2) \<Rightarrow> (failures, w2)
                | (Inr _, w2) \<Rightarrow> (0, w2))
          else (0, w1)
      | (False, w1) \<Rightarrow>
          let failures' = saturating_suc_u32 failures
          in if failures' mod max_failed = 0
             then (failures', snd (report target False w1))
             else (failures', w1))"

type_synonym counts = "(string \<times> u32) list"

definition count_of :: "counts \<Rightarrow> string \<Rightarrow> u32" where
  "count_of per_health target = (case hm_get per_health target of None \<Rightarrow> 0 | Some n \<Rightarrow> n)"

fun check_targets ::
  "(string \<Rightarrow> 'w \<Rightarrow> bool \<times> 'w) \<Rightarrow> (string \<Rightarrow> bool \<Rightarrow> 'w \<Rightarrow> unit io_result \<times> 'w) \<Rightarrow> u32 \<Rightarrow> string list \<Rightarrow> counts \<Rightarrow> 'w \<Rightarrow>
   counts \<times> 'w" where
  "check_targets probe report max_failed [] per_health w = (per_health, w)"
| "check_targets probe report max_failed (target # targets) per_health w =
     (case check_target probe report max_failed target (count_of per_health target) w of
        (failures, w') \<Rightarrow> check_targets probe report max_failed targets (hm_insert target failures per_health) w')"

record 'w monitor =
  mo_failure_counts :: "(nat \<times> counts) list"
  mo_next_checks :: "(nat \<times> time) list"
  mo_world :: 'w

definition monitor_new :: "'w \<Rightarrow> 'w monitor" where
  "monitor_new w = \<lparr>mo_failure_counts = [], mo_next_checks = [], mo_world = w\<rparr>"

definition counts_of :: "nat \<Rightarrow> 'w monitor \<Rightarrow> counts" where
  "counts_of index m = (case hm_get (mo_failure_counts m) index of None \<Rightarrow> [] | Some c \<Rightarrow> c)"

text \<open>One rule in one round: the monitor, and the wait until the rule is due again.\<close>

definition check_rule ::
  "(HealthCheck \<Rightarrow> string \<Rightarrow> 'w \<Rightarrow> bool \<times> 'w) \<Rightarrow> (string \<Rightarrow> bool \<Rightarrow> 'w \<Rightarrow> unit io_result \<times> 'w) \<Rightarrow> time \<Rightarrow>
   nat \<Rightarrow> HealthCheck \<Rightarrow> 'w monitor \<times> time \<Rightarrow> 'w monitor \<times> time" where
  "check_rule probe report now index health state =
     (let (m, next_wait) = state
      in if hc_interval_secs health = 0 \<or> hc_timeout_secs health = 0 \<or> hc_max_failed health = 0 then (m, next_wait)
         else
         (let interval = secs (unat (max (hc_interval_secs health) 1));
              next_check = (case hm_get (mo_next_checks m) index of None \<Rightarrow> now | Some t \<Rightarrow> t);
              m1 = m\<lparr>mo_next_checks := hm_insert index next_check (mo_next_checks m)\<rparr>;
              (next_check', m2) =
                (if next_check \<le> now
                 then (case check_targets (probe health) report (hc_max_failed health) (hc_targets health)
                              (counts_of index m1) (mo_world m1) of
                         (c, w) \<Rightarrow>
                           (now + interval,
                            m1\<lparr>mo_failure_counts := hm_insert index c (mo_failure_counts m1),
                               mo_next_checks := hm_insert index (now + interval) (mo_next_checks m1),
                               mo_world := w\<rparr>))
                 else (next_check, m1))
          in (m2, min (next_check' - now) next_wait)))"

fun check_rules ::
  "(HealthCheck \<Rightarrow> string \<Rightarrow> 'w \<Rightarrow> bool \<times> 'w) \<Rightarrow> (string \<Rightarrow> bool \<Rightarrow> 'w \<Rightarrow> unit io_result \<times> 'w) \<Rightarrow> time \<Rightarrow>
   nat \<Rightarrow> HealthCheck list \<Rightarrow> 'w monitor \<times> time \<Rightarrow> 'w monitor \<times> time" where
  "check_rules probe report now index [] state = state"
| "check_rules probe report now index (health # healths) state =
     check_rules probe report now (Suc index) healths (check_rule probe report now index health state)"

text \<open>One round of the loop: the monitor after it, and the length of the sleep.\<close>

definition health_round ::
  "'w network \<Rightarrow> ClientRuntimeConfig \<Rightarrow> time \<Rightarrow> 'w monitor \<Rightarrow> 'w monitor \<times> time" where
  "health_round nw config now m =
     (case check_rules (probe_health_target nw)
             (report_health_change nw (cc_server_addr (rc_common config)) (cc_conn_type (rc_common config))
                (cc_vkey (rc_common config)))
             now 0 (rc_healths config) (m, secs 1) of
        (m', next_wait) \<Rightarrow> (m', max next_wait (secs 1 div 10)))"

text \<open>The monitor after rounds at the given instants; without rules there is no monitor.\<close>

fun start_health_monitor :: "'w network \<Rightarrow> ClientRuntimeConfig \<Rightarrow> time list \<Rightarrow> 'w monitor \<Rightarrow> 'w monitor" where
  "start_health_monitor nw config [] m = m"
| "start_health_monitor nw config (now # nows) m =
     (if rc_healths config = [] then m
      else start_health_monitor nw config nows (fst (health_round nw config now m)))"

section \<open>Counting\<close>

text \<open>The failures of a target since its last success; the history has the latest probe first.\<close>

definition failure_streak :: "string \<Rightarrow> (string \<times> bool) list \<Rightarrow> nat" where
  "failure_streak t hist = length (takeWhile Not (map snd (filter (\<lambda>(u, _). u = t) hist)))"

lemma failure_streak_Cons [simp]:
  "failure_streak t ((u, b) # hist) =
     (if u \<noteq> t then failure_streak t hist else if b then 0 else Suc (failure_streak t hist))"
  by (simp add: failure_streak_def)

lemma unat_saturating_suc: "unat (saturating_suc_u32 n) = min (Suc (unat n)) (2 ^ 32 - 1)"
proof (cases "n = 0xFFFFFFFF")
  case False
  then have "unat n \<noteq> unat (0xFFFFFFFF :: u32)" by (simp add: word_unat_eq_iff)
  then have "Suc (unat n) < 2 ^ 32" using unsigned_less [of n, where 'a = nat] by simp
  then have "unat (n + 1) = Suc (unat n)"
    by (simp add: unat_word_ariths)
  moreover have "unat (n + 1) \<le> 2 ^ 32 - 1"
    using unsigned_less [of "n + 1", where 'a = nat] by simp
  ultimately show ?thesis
    using False by (simp add: saturating_suc_u32_def)
qed (simp add: saturating_suc_u32_def)

lemma count_of_insert [simp]:
  "count_of (hm_insert t n c) u = (if u = t then n else count_of c u)"
  by (simp add: count_of_def hm_simps)

definition rule_active :: "HealthCheck \<Rightarrow> bool" where
  "rule_active h \<longleftrightarrow> hc_interval_secs h \<noteq> 0 \<and> hc_timeout_secs h \<noteq> 0 \<and> hc_max_failed h \<noteq> 0"

text \<open>No target is blank and none belongs to two rules.\<close>

definition rules_ok :: "HealthCheck list \<Rightarrow> bool" where
  "rules_ok healths \<longleftrightarrow> (\<forall>h \<in> set healths. \<forall>t \<in> set (hc_targets h). trim t \<noteq> [])
     \<and> (\<forall>i < length healths. \<forall>j < length healths. i \<noteq> j \<longrightarrow>
          set (hc_targets (healths ! i)) \<inter> set (hc_targets (healths ! j)) = {})"

section \<open>What the monitor relies on\<close>

locale health_reports =
  fixes probe :: "HealthCheck \<Rightarrow> string \<Rightarrow> 'w \<Rightarrow> bool \<times> 'w"
    and report :: "string \<Rightarrow> bool \<Rightarrow> 'w \<Rightarrow> unit io_result \<times> 'w"
    and hist :: "'w \<Rightarrow> (string \<times> bool) list"
    and removed :: "'w \<Rightarrow> string set"
    and good :: "'w \<Rightarrow> bool"
  assumes probe_logged: "good w \<Longrightarrow>
      \<exists>b w'. probe h t w = (b, w') \<and> good w' \<and> hist w' = (t, b) # hist w \<and> removed w' = removed w"
    and report_effect: "good w \<Longrightarrow> trim t \<noteq> [] \<Longrightarrow>
      \<exists>w'. report t up w = (Inr (), w') \<and> good w' \<and> hist w' = hist w
        \<and> removed w' = (if up then removed w - {t} else insert t (removed w))"
begin

text \<open>A count follows the history, and the target is removed when the count has reached the limit.\<close>

definition tracked :: "u32 \<Rightarrow> string \<Rightarrow> u32 \<Rightarrow> 'w \<Rightarrow> bool" where
  "tracked max_failed t n w \<longleftrightarrow> unat n = min (failure_streak t (hist w)) (2 ^ 32 - 1)
     \<and> (t \<in> removed w \<longleftrightarrow> max_failed \<le> n)"

definition same_other :: "string set \<Rightarrow> 'w \<Rightarrow> 'w \<Rightarrow> bool" where
  "same_other ts w w' \<longleftrightarrow> (\<forall>u. u \<notin> ts \<longrightarrow>
     failure_streak u (hist w') = failure_streak u (hist w) \<and> (u \<in> removed w' \<longleftrightarrow> u \<in> removed w))"

lemma tracked_other: "same_other ts w w' \<Longrightarrow> u \<notin> ts \<Longrightarrow> tracked m u n w' = tracked m u n w"
  by (simp add: tracked_def same_other_def)

lemma check_target_tracked:
  assumes "good w" "trim t \<noteq> []" "m \<noteq> 0" "tracked m t n w"
    and "check_target (probe h) report m t n w = (n', w')"
  shows "good w' \<and> tracked m t n' w' \<and> same_other {t} w w'"
proof -
  obtain b w1 where p: "probe h t w = (b, w1)" "good w1" "hist w1 = (t, b) # hist w" "removed w1 = removed w"
    using probe_logged [OF assms(1)] by blast
  obtain up where up: "report t True w1 = (Inr (), up)" "good up" "hist up = hist w1" "removed up = removed w1 - {t}"
    using report_effect [OF p(2) assms(2), of True] by auto
  obtain dn where dn: "report t False w1 = (Inr (), dn)" "good dn" "hist dn = hist w1" "removed dn = insert t (removed w1)"
    using report_effect [OF p(2) assms(2), of False] by auto
  have m: "0 < unat m" using assms(3) by (simp add: unat_gt_0)
  show ?thesis
  proof (cases b)
    case True
    with assms(4,5) p up m show ?thesis
      by (auto simp: check_target_def tracked_def same_other_def word_le_nat_alt split: if_splits)
  next
    case False
    let ?n = "saturating_suc_u32 n"
    have n': "n' = ?n" using assms(5) p(1) False by (auto simp: check_target_def Let_def split: if_splits)
    have n: "unat ?n = min (Suc (failure_streak t (hist w))) (2 ^ 32 - 1)"
      using assms(4) by (auto simp: unat_saturating_suc tracked_def)
    have mod0: "?n mod m = 0 \<longleftrightarrow> unat m dvd unat ?n"
      by (metis dvd_eq_mod_eq_0 unat_eq_zero unat_mod_distrib)
    have lt: "unat n < 2 ^ 32" using unsigned_less [of n, where 'a = nat] by simp
    have reach: "unat m \<le> unat ?n \<longleftrightarrow> unat m \<le> unat n \<or> unat m dvd unat ?n"
    proof
      assume "unat m \<le> unat ?n"
      then show "unat m \<le> unat n \<or> unat m dvd unat ?n"
        using lt by (auto simp: unat_saturating_suc le_Suc_eq)
    next
      have "0 < unat ?n" by (simp add: unat_saturating_suc)
      then show "unat m \<le> unat n \<or> unat m dvd unat ?n \<Longrightarrow> unat m \<le> unat ?n"
        using lt by (auto simp: unat_saturating_suc dest: dvd_imp_le)
    qed
    show ?thesis
    proof (cases "?n mod m = 0")
      case True
      then have "w' = dn" using assms(5) p(1) False dn(1) by (simp add: check_target_def)
      with True mod0 reach n n' p dn False show ?thesis
        by (auto simp: tracked_def same_other_def word_le_nat_alt)
    next
      case ne: False
      then have "w' = w1" using assms(5) p(1) False by (simp add: check_target_def)
      with ne mod0 reach n n' p False assms(4) show ?thesis
        by (auto simp: tracked_def same_other_def word_le_nat_alt)
    qed
  qed
qed

lemma same_other_trans: "same_other a w w' \<Longrightarrow> same_other b w' w'' \<Longrightarrow> same_other (a \<union> b) w w''"
  by (simp add: same_other_def)

lemma check_targets_tracked:
  assumes "good w" "m \<noteq> 0" "set ts \<subseteq> S" "\<forall>t \<in> S. trim t \<noteq> [] \<and> tracked m t (count_of c t) w"
    and "check_targets (probe h) report m ts c w = (c', w')"
  shows "good w' \<and> (\<forall>t \<in> S. tracked m t (count_of c' t) w') \<and> same_other (set ts) w w'"
  using assms
proof (induction ts arbitrary: c w)
  case Nil
  then show ?case by (auto simp: same_other_def)
next
  case (Cons t ts)
  obtain n w1 where n: "check_target (probe h) report m t (count_of c t) w = (n, w1)" by fastforce
  have t: "t \<in> S" "trim t \<noteq> []" "tracked m t (count_of c t) w" using Cons.prems(3,4) by auto
  from check_target_tracked [OF Cons.prems(1) t(2) Cons.prems(2) t(3) n]
  have w1: "good w1" "tracked m t n w1" "same_other {t} w w1" by auto
  have "\<forall>u \<in> S. trim u \<noteq> [] \<and> tracked m u (count_of (hm_insert t n c) u) w1"
    using Cons.prems(4) w1(2) tracked_other [OF w1(3)] by auto
  from Cons.IH [OF w1(1) Cons.prems(2) _ this] Cons.prems(3,5) n
  have "good w' \<and> (\<forall>t \<in> S. tracked m t (count_of c' t) w') \<and> same_other (set ts) w1 w'" by simp
  with same_other_trans [OF w1(3), of "set ts" w'] show ?case by simp
qed

definition monitor_inv :: "HealthCheck list \<Rightarrow> 'w monitor \<Rightarrow> bool" where
  "monitor_inv healths m \<longleftrightarrow> good (mo_world m)
     \<and> (\<forall>i < length healths. rule_active (healths ! i) \<longrightarrow> (\<forall>t \<in> set (hc_targets (healths ! i)).
          tracked (hc_max_failed (healths ! i)) t (count_of (counts_of i m) t) (mo_world m)))"

lemma check_rule_inv:
  assumes "monitor_inv healths m" "rules_ok healths" "i < length healths"
  shows "monitor_inv healths (fst (check_rule probe report now i (healths ! i) (m, wait)))"
proof -
  let ?h = "healths ! i"
  let ?m1 = "m\<lparr>mo_next_checks := hm_insert i (case hm_get (mo_next_checks m) i of None \<Rightarrow> now | Some t \<Rightarrow> t) (mo_next_checks m)\<rparr>"
  obtain c w' where c: "check_targets (probe ?h) report (hc_max_failed ?h) (hc_targets ?h) (counts_of i m) (mo_world m) = (c, w')"
    by fastforce
  let ?m2 = "\<lambda>x. m\<lparr>mo_failure_counts := hm_insert i c (mo_failure_counts m), mo_next_checks := x, mo_world := w'\<rparr>"
  have unchanged: "monitor_inv healths ?m1"
    using assms(1) by (simp add: monitor_inv_def counts_of_def)
  have checked: "monitor_inv healths (?m2 x)" if "rule_active ?h" for x
  proof -
    have m: "hc_max_failed ?h \<noteq> 0" using that by (simp add: rule_active_def)
    have "\<forall>t \<in> set (hc_targets ?h). trim t \<noteq> [] \<and> tracked (hc_max_failed ?h) t (count_of (counts_of i m) t) (mo_world m)"
      using assms that by (auto simp: monitor_inv_def rules_ok_def)
    from check_targets_tracked [OF _ m subset_refl this c] assms(1)
    have r: "good w'" "\<forall>t \<in> set (hc_targets ?h). tracked (hc_max_failed ?h) t (count_of c t) w'"
      "same_other (set (hc_targets ?h)) (mo_world m) w'"
      by (simp_all add: monitor_inv_def)
    have "tracked (hc_max_failed (healths ! j)) t (count_of (counts_of j (?m2 x)) t) w'"
      if j: "j < length healths" "rule_active (healths ! j)" "t \<in> set (hc_targets (healths ! j))" for j t
    proof (cases "j = i")
      case True
      with r(2) j(3) show ?thesis by (simp add: counts_of_def hm_simps)
    next
      case False
      then have "set (hc_targets (healths ! j)) \<inter> set (hc_targets ?h) = {}"
        using assms(2,3) j(1) by (simp add: rules_ok_def)
      with j(3) have "t \<notin> set (hc_targets ?h)" by blast
      from tracked_other [OF r(3) this] False assms(1) j show ?thesis
        by (simp add: monitor_inv_def counts_of_def hm_simps)
    qed
    with r(1) show ?thesis by (simp add: monitor_inv_def)
  qed
  have counts: "counts_of i ?m1 = counts_of i m" by (simp add: counts_of_def)
  show ?thesis
  proof (cases "rule_active ?h")
    case True
    then show ?thesis
      using unchanged checked [OF True] c counts
      by (simp add: check_rule_def rule_active_def Let_def)
  next
    case False
    then show ?thesis using assms(1) by (simp add: check_rule_def rule_active_def)
  qed
qed

lemma check_rules_inv:
  assumes "monitor_inv healths (fst state)" "rules_ok healths" "i \<le> length healths"
  shows "monitor_inv healths (fst (check_rules probe report now i (drop i healths) state))"
  using assms
proof (induction "length healths - i" arbitrary: i state)
  case 0
  then show ?case by simp
next
  case (Suc n)
  then have i: "i < length healths" by simp
  have "monitor_inv healths (fst (check_rule probe report now i (healths ! i) state))"
    using check_rule_inv [OF Suc.prems(1,2) i, of now "snd state"] by simp
  from Suc.hyps(1) [OF _ this Suc.prems(2)] Suc.hyps(2) i show ?case
    by (simp add: Cons_nth_drop_Suc [symmetric])
qed

definition rounds :: "HealthCheck list \<Rightarrow> time list \<Rightarrow> 'w monitor \<Rightarrow> 'w monitor" where
  "rounds healths nows m = fold (\<lambda>now m. fst (check_rules probe report now 0 healths (m, secs 1))) nows m"

lemma rounds_inv:
  "monitor_inv healths m \<Longrightarrow> rules_ok healths \<Longrightarrow> monitor_inv healths (rounds healths nows m)"
proof (induction nows arbitrary: m)
  case (Cons now nows)
  then show ?case
    using check_rules_inv [of healths "(m, secs 1)" 0 now] by (simp add: rounds_def)
qed (simp add: rounds_def)

lemma removed_exact:
  assumes "good w" "hist w = []" "rules_ok healths" "h \<in> set healths" "rule_active h" "t \<in> set (hc_targets h)"
    and "\<forall>h \<in> set healths. set (hc_targets h) \<inter> removed w = {}"
  shows "t \<in> removed (mo_world (rounds healths nows (monitor_new w)))
     \<longleftrightarrow> unat (hc_max_failed h) \<le> failure_streak t (hist (mo_world (rounds healths nows (monitor_new w))))"
proof -
  let ?m = "rounds healths nows (monitor_new w)"
  have "tracked (hc_max_failed g) u (count_of (counts_of i (monitor_new w)) u) w"
    if "g \<in> set healths" "rule_active g" "u \<in> set (hc_targets g)" for g i u
    using that assms(2,7)
    by (auto simp: tracked_def monitor_new_def counts_of_def count_of_def failure_streak_def rule_active_def)
  then have "monitor_inv healths (monitor_new w)"
    using assms(1) by (simp add: monitor_inv_def monitor_new_def)
  from rounds_inv [OF this assms(3)] obtain n where "tracked (hc_max_failed h) t n (mo_world ?m)"
    using assms(4-6) by (fastforce simp: monitor_inv_def in_set_conv_nth)
  moreover have "unat (hc_max_failed h) \<le> 2 ^ 32 - 1"
    using unsigned_less [of "hc_max_failed h", where 'a = nat] by simp
  ultimately show ?thesis by (auto simp: tracked_def word_le_nat_alt)
qed

end

lemma start_health_monitor_rounds:
  "rc_healths config \<noteq> [] \<Longrightarrow>
   start_health_monitor nw config nows m =
     fold (\<lambda>now m. fst (check_rules (probe_health_target nw)
       (report_health_change nw (cc_server_addr (rc_common config)) (cc_conn_type (rc_common config)) (cc_vkey (rc_common config)))
       now 0 (rc_healths config) (m, secs 1))) nows m"
  by (induction nows arbitrary: m) (simp_all add: health_round_def case_prod_beta)

section \<open>The server as the network of the monitor\<close>

text \<open>
  The server that receives the reports, the answers of the operating system to the \<open>n\<close>-th
  call, and a history of the probes: a probe of \<open>sw_target\<close> begins with the resolution of its
  name and ends with its failure, with a connection or with a response.
\<close>

record server_world =
  sw_reg :: Registry
  sw_target :: string
  sw_calls :: nat
  sw_hist :: "(string \<times> bool) list"

record os_answers =
  oa_resolve :: "nat \<Rightarrow> string \<Rightarrow> string list io_result"
  oa_connect :: "nat \<Rightarrow> string \<Rightarrow> u64 \<Rightarrow> bool"
  oa_fetch :: "nat \<Rightarrow> string \<Rightarrow> u64 \<Rightarrow> string \<Rightarrow> string io_result"

definition probe_ended :: "bool \<Rightarrow> server_world \<Rightarrow> server_world" where
  "probe_ended b w = w\<lparr>sw_calls := Suc (sw_calls w), sw_hist := (sw_target w, b) # sw_hist w\<rparr>"

definition server_resolve :: "os_answers \<Rightarrow> string \<Rightarrow> server_world \<Rightarrow> string list io_result \<times> server_world" where
  "server_resolve oa target w =
     (let w1 = w\<lparr>sw_target := target, sw_calls := Suc (sw_calls w)\<rparr>; addrs = oa_resolve oa (sw_calls w) target
      in (addrs, if is_ok addrs \<and> addrs \<noteq> Inr [] then w1 else probe_ended False w1))"

definition server_dial :: "(nat \<Rightarrow> hello_env) \<Rightarrow> string \<Rightarrow> BridgeHello \<Rightarrow> server_world \<Rightarrow> ServerMessage io_result \<times> server_world" where
  "server_dial env remote hello w =
     (case handle_bridge_conn ((env (sw_calls w))\<lparr>he_write := \<lambda>_. Inr ()\<rparr>) remote hello (sw_reg w) of
        (ms, _, r) \<Rightarrow>
          ((case ms of [] \<Rightarrow> Inl (IoError UnexpectedEof ''failed to fill whole buffer'') | m # _ \<Rightarrow> Inr m),
           w\<lparr>sw_reg := r, sw_calls := Suc (sw_calls w)\<rparr>))"

definition server_network :: "(nat \<Rightarrow> hello_env) \<Rightarrow> string \<Rightarrow> os_answers \<Rightarrow> server_world network" where
  "server_network env remote oa =
     \<lparr>nw_dial = (\<lambda>_ _. server_dial env remote),
      nw_resolve = server_resolve oa,
      nw_connect = (\<lambda>addr timeout w.
        let b = oa_connect oa (sw_calls w) addr timeout in (b, probe_ended b w)),
      nw_fetch = (\<lambda>addr timeout request w.
        let response = oa_fetch oa (sw_calls w) addr timeout request
        in (response, probe_ended (case response of Inl _ \<Rightarrow> False | Inr s \<Rightarrow> parse_http_status_code s = Some 200) w)),
      nw_show = (\<lambda>_. [])\<rparr>"

text \<open>The server knows the client, lets it in and does not limit addresses.\<close>

definition admits :: "string \<Rightarrow> string \<Rightarrow> server_world \<Rightarrow> bool" where
  "admits vkey remote w \<longleftrightarrow> \<not> sc_ip_limit (re_server (sw_reg w))
     \<and> fst (validate_client_handshake 0 vkey remote False (sw_reg w)) = Inr ()"

lemma admits_handshake:
  assumes "admits vkey remote w"
  shows "validate_client_handshake now vkey remote False (sw_reg w) = (Inr (), sw_reg w)"
  using assms by (auto simp: admits_def validate_client_handshake_def denied_def Let_def split: if_splits)

lemma admits_same:
  assumes "re_server (sw_reg w') = re_server (sw_reg w)" "re_clients (sw_reg w') = re_clients (sw_reg w)"
    "re_global (sw_reg w') = re_global (sw_reg w)"
  shows "admits vkey remote w' = admits vkey remote w"
  using assms check_client_handshake_cong [OF assms(2)]
  by (simp add: admits_def validate_client_handshake_def Let_def)

lemma removed_targets_set:
  "set (removed_targets vkey (set_client_health_target_state vkey target up r)) =
     (if up then set (removed_targets vkey r) - {target} else insert target (set (removed_targets vkey r)))"
  by (auto simp: removed_targets_def set_client_health_target_state_def Let_def hm_simps)

interpretation server_reports: health_reports
  "probe_health_target (server_network env remote oa)"
  "report_health_change (server_network env remote oa) server_addr conn_type vkey"
  sw_hist "\<lambda>w. set (removed_targets vkey (sw_reg w))" "admits vkey remote"
  for env remote oa server_addr conn_type vkey
proof unfold_locales
  fix w h t
  assume ok: "admits vkey remote w"
  let ?p = "probe_health_target (server_network env remote oa) h t w"
  obtain b w' where p: "?p = (b, w')" by fastforce
  have "sw_reg w' = sw_reg w \<and> sw_hist w' = (t, b) # sw_hist w"
    using p unfolding probe_health_target_def probe_http_health_target_def probe_tcp_health_target_def
      server_network_def server_resolve_def probe_ended_def Let_def is_ok_def
    by (auto split: if_splits sum.splits list.splits)
  with p ok show "\<exists>b w'. ?p = (b, w') \<and> admits vkey remote w' \<and> sw_hist w' = (t, b) # sw_hist w
      \<and> set (removed_targets vkey (sw_reg w')) = set (removed_targets vkey (sw_reg w))"
    by (auto simp: admits_def)
next
  fix w t up
  assume ok: "admits vkey remote w" and t: "trim t \<noteq> []"
  let ?r = "set_client_health_target_state vkey t up (sw_reg w)"
  let ?w = "w\<lparr>sw_reg := ?r, sw_calls := Suc (sw_calls w)\<rparr>"
  have "report_health_change (server_network env remote oa) server_addr conn_type vkey t up w = (Inr (), ?w)"
    using admits_handshake [OF ok] t
    by (simp add: report_health_change_def server_network_def server_dial_def handle_bridge_conn_def Let_def
        hello_health_def with_handshake_def reply_def finish_def msg_ok_def expect_ok_def)
  moreover have "admits vkey remote ?w"
    using ok admits_same [of ?w w] by (simp add: set_client_health_target_state_def Let_def)
  ultimately show "\<exists>w'. report_health_change (server_network env remote oa) server_addr conn_type vkey t up w = (Inr (), w')
      \<and> admits vkey remote w' \<and> sw_hist w' = sw_hist w
      \<and> set (removed_targets vkey (sw_reg w')) =
          (if up then set (removed_targets vkey (sw_reg w)) - {t} else insert t (set (removed_targets vkey (sw_reg w))))"
    by (simp add: removed_targets_set)
qed

section \<open>Properties\<close>

text \<open>
  C24: Client and server agree on which targets are down.  The client watches its targets and
  reports to a server that admits it.  However often the monitor runs and whatever the
  probes find, the server has taken a target out of service exactly if the last
  \<open>max_failed\<close> probes of this target, or more, have failed.  No target belongs to two rules.
\<close>

theorem removed_targets_exact:
  fixes env remote oa config nows w
  defines "m \<equiv> start_health_monitor (server_network env remote oa) config nows (monitor_new w)"
  assumes "admits (cc_vkey (rc_common config)) remote w" "sw_hist w = []"
    and "removed_targets (cc_vkey (rc_common config)) (sw_reg w) = []"
    and "rules_ok (rc_healths config)" "h \<in> set (rc_healths config)" "rule_active h" "t \<in> set (hc_targets h)"
  shows "t \<in> set (removed_targets (cc_vkey (rc_common config)) (sw_reg (mo_world m)))
     \<longleftrightarrow> unat (hc_max_failed h) \<le> failure_streak t (sw_hist (mo_world m))"
proof -
  have ne: "rc_healths config \<noteq> []" using assms(6) by auto
  show ?thesis
    using server_reports.removed_exact [OF assms(2,3,5-8)] assms(4)
    unfolding m_def start_health_monitor_rounds [OF ne] server_reports.rounds_def by simp
qed

definition demo_rule :: HealthCheck where
  "demo_rule = \<lparr>hc_remark = [], hc_timeout_secs = 1, hc_max_failed = 2, hc_interval_secs = 1, hc_http_url = [],
     hc_kind = ''tcp'', hc_targets = [''a:1'', ''b:2'']\<rparr>"

definition demo_answers :: os_answers where
  "demo_answers = \<lparr>oa_resolve = \<lambda>_ target. Inr [target], oa_connect = \<lambda>_ addr _. addr \<noteq> ''a:1'',
     oa_fetch = \<lambda>_ _ _ _. Inl (IoError Other [])\<rparr>"

definition demo_monitored :: ClientRuntimeConfig where
  "demo_monitored = (rc_vkey_update ''k'' ClientRuntimeConfig_default)\<lparr>rc_healths := [demo_rule]\<rparr>"

definition demo_world :: server_world where
  "demo_world = \<lparr>sw_reg = (Registry_new ServerConfig_default)\<lparr>re_clients := [(''k'', ClientRuntimeConfig_default)]\<rparr>,
     sw_target = [], sw_calls = 0, sw_hist = []\<rparr>"

theorem removed_targets_exact_witness:
  "let m = start_health_monitor (server_network (\<lambda>_. demo_env) ''10.0.0.9:1'' demo_answers) demo_monitored
             [0, secs 1] (monitor_new demo_world)
   in ''a:1'' \<in> set (removed_targets ''k'' (sw_reg (mo_world m)))"
proof -
  let ?m = "start_health_monitor (server_network (\<lambda>_. demo_env) ''10.0.0.9:1'' demo_answers) demo_monitored
             [0, secs 1] (monitor_new demo_world)"
  have k: "cc_vkey (rc_common demo_monitored) = ''k''" "rc_healths demo_monitored = [demo_rule]" by code_simp+
  have w: "fst (validate_client_handshake 0 ''k'' ''10.0.0.9:1'' False (sw_reg demo_world)) = Inr ()"
    "\<not> sc_ip_limit (re_server (sw_reg demo_world))" "sw_hist demo_world = []" "removed_targets ''k'' (sw_reg demo_world) = []"
    by code_simp+
  then have w': "admits ''k'' ''10.0.0.9:1'' demo_world" by (simp add: admits_def)
  have "trim ''a:1'' \<noteq> []" "trim ''b:2'' \<noteq> []" by code_simp+
  then have r: "rules_ok [demo_rule]" "rule_active demo_rule" "''a:1'' \<in> set (hc_targets demo_rule)"
    by (simp_all add: rules_ok_def rule_active_def demo_rule_def)
  have "sw_hist (mo_world ?m) = [(''b:2'', True), (''a:1'', False), (''b:2'', True), (''a:1'', False)]"
    by code_simp
  then have "unat (hc_max_failed demo_rule) \<le> failure_streak ''a:1'' (sw_hist (mo_world ?m))"
    by (simp add: demo_rule_def failure_streak_def)
  then show ?thesis
    using removed_targets_exact [of demo_monitored "''10.0.0.9:1''" demo_world demo_rule "''a:1''" "\<lambda>_. demo_env"
        demo_answers "[0, secs 1]", unfolded k, OF w' w(3,4) r(1) _ r(2,3)] by simp
qed

end
