(* ===== verification/Client.thy ===== *)
theory Client
  imports Health Links
begin

text \<open>
  The client program (\<open>src/client.rs\<close>): the command line, the choice of the mode, the
  dialogues with the server, the control loop and the opening of data links.  Like in
  \<open>Health\<close>, calls of the network act on a state of the world; the record is extended by the
  operations on multiplexed sessions, which are named by numbers.
\<close>

section \<open>Command line\<close>

record Args =
  ar_server :: string
  ar_vkey :: string
  ar_config :: string
  ar_conn_type :: string
  ar_password :: string
  ar_target :: string
  ar_local_port :: u16
  ar_local_type :: string
  ar_register_hours :: u32
  ar_command :: string
  ar_tls_enable :: bool
  ar_console_log_level :: string
  ar_log_path :: string

definition value_of :: "string \<Rightarrow> string \<Rightarrow> string option" where
  "value_of item name = strip_prefix (name @ ''='') item"

definition assign_arg :: "string \<Rightarrow> string \<Rightarrow> string \<Rightarrow> string \<Rightarrow> string" where
  "assign_arg item name nxt slot =
     (case value_of item name of
        Some value \<Rightarrow> value
      | None \<Rightarrow> if item = name then nxt else slot)"

definition parse_bool :: "string \<Rightarrow> bool" where
  "parse_bool v = (to_ascii_lowercase v \<in> {''1'', ''true'', ''yes'', ''on''})"

definition first_value :: "string \<Rightarrow> string \<Rightarrow> string \<Rightarrow> string option" where
  "first_value item a b = (case value_of item a of Some v \<Rightarrow> Some v | None \<Rightarrow> value_of item b)"

definition assign_two :: "string \<Rightarrow> string \<Rightarrow> string \<Rightarrow> string \<Rightarrow> string \<Rightarrow> string" where
  "assign_two item a b nxt slot = assign_arg item b nxt (assign_arg item a nxt slot)"

definition or_keep :: "'a option \<Rightarrow> 'a \<Rightarrow> 'a" where
  "or_keep v old = (case v of Some x \<Rightarrow> x | None \<Rightarrow> old)"

definition flag_given :: "string \<Rightarrow> bool" where
  "flag_given nxt = (nxt = [] \<or> prefix ''-'' nxt \<or> parse_bool nxt)"

text \<open>One round of the loop over the arguments; \<open>nxt\<close> is the argument after \<open>item\<close>.\<close>

definition parse_item :: "string \<Rightarrow> string \<Rightarrow> Args \<Rightarrow> Args" where
  "parse_item item nxt a0 =
     (let a1 = a0\<lparr>ar_server := assign_two item ''-server'' ''--server'' nxt (ar_server a0),
                  ar_vkey := assign_two item ''-vkey'' ''--vkey'' nxt (ar_vkey a0),
                  ar_config := assign_two item ''-config'' ''--config'' nxt (ar_config a0),
                  ar_conn_type := assign_two item ''-type'' ''--type'' nxt (ar_conn_type a0),
                  ar_password := assign_two item ''-password'' ''--password'' nxt (ar_password a0),
                  ar_target := assign_two item ''-target'' ''--target'' nxt (ar_target a0),
                  ar_local_type := assign_two item ''-local_type'' ''--local-type'' nxt (ar_local_type a0),
                  ar_console_log_level :=
                    assign_two item ''-log_level'' ''--log-level'' nxt
                      (assign_two item ''-console_log_level'' ''--console-log-level'' nxt (ar_console_log_level a0)),
                  ar_log_path := assign_two item ''-log_path'' ''--log-path'' nxt (ar_log_path a0)\<rparr>;
          a2 = a1\<lparr>ar_local_port := (case first_value item ''-local_port'' ''--local-port'' of
                     Some v \<Rightarrow> or_keep (parse_u16 v) (ar_local_port a1) | None \<Rightarrow> ar_local_port a1)\<rparr>;
          a3 = (if item \<in> {''-local_port'', ''--local-port''}
                then a2\<lparr>ar_local_port := or_keep (parse_u16 nxt) (ar_local_port a2)\<rparr> else a2);
          a4 = a3\<lparr>ar_register_hours := (case first_value item ''-time'' ''--time'' of
                     Some v \<Rightarrow> or_keep (parse_u32 v) (ar_register_hours a3) | None \<Rightarrow> ar_register_hours a3)\<rparr>;
          a5 = (if item \<in> {''-time'', ''--time''}
                then a4\<lparr>ar_register_hours := or_keep (parse_u32 nxt) (ar_register_hours a4)\<rparr> else a4);
          a6 = (case first_value item ''-tls_enable'' ''--tls-enable'' of
                  Some v \<Rightarrow> a5\<lparr>ar_tls_enable := parse_bool v\<rparr> | None \<Rightarrow> a5);
          a7 = (if item \<in> {''-tls_enable'', ''--tls-enable''} then a6\<lparr>ar_tls_enable := flag_given nxt\<rparr> else a6);
          a8 = (if item \<in> {''-debug'', ''--debug''}
                then a7\<lparr>ar_console_log_level := (if flag_given nxt then ''debug'' else ''info'')\<rparr> else a7)
      in (case first_value item ''-debug'' ''--debug'' of
            Some v \<Rightarrow> a8\<lparr>ar_console_log_level := (if parse_bool v then ''debug'' else ''info'')\<rparr>
          | None \<Rightarrow> a8))"

fun parse_items :: "string list \<Rightarrow> Args \<Rightarrow> Args" where
  "parse_items [] a = a"
| "parse_items (item # raw) a = parse_items raw (parse_item item (case raw of [] \<Rightarrow> [] | n # _ \<Rightarrow> n) a)"

definition Args_default :: Args where
  "Args_default =
     \<lparr>ar_server = [], ar_vkey = [], ar_config = [], ar_conn_type = ''tcp'', ar_password = [], ar_target = [],
      ar_local_port = 2000, ar_local_type = ''p2p'', ar_register_hours = 2, ar_command = [], ar_tls_enable = False,
      ar_console_log_level = ''info'', ar_log_path = []\<rparr>"

definition parse_args :: "string list \<Rightarrow> Args" where
  "parse_args raw =
     (if list_ex (\<lambda>a. a \<in> {''-h'', ''--help'', ''help''}) raw then Args_default\<lparr>ar_command := ''help''\<rparr>
      else if list_ex (\<lambda>a. a \<in> {''-version'', ''--version''}) raw then Args_default\<lparr>ar_command := ''version''\<rparr>
      else parse_items raw
        (case raw of
           [] \<Rightarrow> Args_default
         | first # _ \<Rightarrow>
             if first \<in> {''register'', ''status'', ''nat''} then Args_default\<lparr>ar_command := first\<rparr> else Args_default))"

section \<open>The mode of operation\<close>

definition normalized_bridge_conn_type :: "string \<Rightarrow> string \<times> bool" where
  "normalized_bridge_conn_type conn_type =
     (let normalized = to_ascii_lowercase (trim conn_type)
      in if normalized \<in> {[], ''tcp''} then (''tcp'', False)
         else if normalized = ''kcp'' then (''kcp'', False)
         else (''tcp'', True))"

definition apply_bridge_conn_type :: "ClientRuntimeConfig \<Rightarrow> ClientRuntimeConfig" where
  "apply_bridge_conn_type config =
     config\<lparr>rc_common := (rc_common config)
       \<lparr>cc_conn_type := fst (normalized_bridge_conn_type (cc_conn_type (rc_common config)))\<rparr>\<rparr>"

definition default_client_conf :: "(string \<Rightarrow> bool) \<Rightarrow> string" where
  "default_client_conf exists =
     (case find exists [''conf/npc.conf'', ''../nps/conf/npc.conf'', ''nps/conf/npc.conf''] of
        Some c \<Rightarrow> c | None \<Rightarrow> ''conf/npc.conf'')"

datatype client_mode =
    ShowHelp
  | ShowVersion
  | RegisterIp
  | LocalVisitor LocalServer
  | FromFile ClientRuntimeConfig
  | FromArgs ClientRuntimeConfig

text \<open>\<open>entry\<close> and \<open>run\<close> up to the first connection; \<open>load\<close> reads a configuration file.\<close>

definition run_mode :: "(string \<Rightarrow> bool) \<Rightarrow> (string \<Rightarrow> ClientRuntimeConfig io_result) \<Rightarrow> Args \<Rightarrow> client_mode io_result" where
  "run_mode exists load args =
     (if ar_password args \<noteq> []
      then Inr (LocalVisitor \<lparr>ls_kind = (if ar_local_type args = [] then ''p2p'' else ar_local_type args),
             ls_ip = ''127.0.0.1'', ls_port = ar_local_port args, ls_password = ar_password args,
             ls_target = ar_target args\<rparr>)
      else
      (let path = (if ar_config args = [] then default_client_conf exists else ar_config args)
       in if (ar_config args \<noteq> [] \<or> ar_server args = [] \<or> ar_vkey args = []) \<and> exists path
          then (case load path of Inl e \<Rightarrow> Inl e | Inr config \<Rightarrow> Inr (FromFile (apply_bridge_conn_type config)))
          else if ar_server args = [] \<or> ar_vkey args = []
          then Inl (IoError InvalidInput ''missing -server/-vkey or -config'')
          else Inr (FromArgs (apply_bridge_conn_type (ClientRuntimeConfig_default
                 \<lparr>rc_common := CommonConfig_default
                    \<lparr>cc_server_addr := ar_server args, cc_vkey := ar_vkey args,
                     cc_conn_type := (if ar_conn_type args = [] then ''tcp'' else ar_conn_type args),
                     cc_tls_enable := ar_tls_enable args,
                     cc_client := ClientInfo_default\<lparr>ci_verify_key := ar_vkey args\<rparr>\<rparr>\<rparr>)))))"

definition entry :: "(string \<Rightarrow> bool) \<Rightarrow> (string \<Rightarrow> ClientRuntimeConfig io_result) \<Rightarrow> string list \<Rightarrow> client_mode io_result" where
  "entry exists load raw =
     (let args = parse_args raw
      in if ar_command args = ''help'' then Inr ShowHelp
         else if ar_command args = ''version'' then Inr ShowVersion
         else if ar_command args = ''register'' then Inr RegisterIp
         else if ar_command args \<in> {''status'', ''nat''}
         then Inl (IoError Unsupported (''npc '' @ ar_command args
                @ '' is not implemented in RustNps yet; run npc --help for supported commands''))
         else run_mode exists load args)"

section \<open>Dialogues\<close>

definition zh_invalid_key :: string where
  "zh_invalid_key = map char_of [0xE5, 0xAF, 0x86, 0xE9, 0x92, 0xA5, 0xE9, 0x94, 0x99, 0xE8, 0xAF, 0xAF :: nat]"

definition is_invalid_vkey_message :: "string \<Rightarrow> bool" where
  "is_invalid_vkey_message message =
     (let lower = to_ascii_lowercase message
      in str_contains lower ''invalid verification key'' \<or> str_contains lower ''validation key''
         \<or> str_contains lower ''key incorrect'' \<or> str_contains message zh_invalid_key)"

definition is_fatal_server_message :: "string \<Rightarrow> bool" where
  "is_fatal_server_message message =
     (let lower = to_ascii_lowercase message
      in is_invalid_vkey_message message \<or> str_contains lower ''client disabled''
         \<or> str_contains lower ''client deleted'' \<or> str_contains lower ''config connection is disabled'')"

definition classify_server_error :: "string \<Rightarrow> io_error" where
  "classify_server_error message =
     (if is_invalid_vkey_message message
      then IoError PermissionDenied ''Invalid verification key, connection failed, please reconfigure the vkey parameter.''
      else if is_fatal_server_message message then IoError PermissionDenied message
      else IoError Other message)"

definition mode_of :: "ClientRuntimeConfig \<Rightarrow> BridgeMode" where
  "mode_of config = BridgeMode_from_text (cc_conn_type (rc_common config))"

definition send_config :: "('w, 'z) network_scheme \<Rightarrow> ClientRuntimeConfig \<Rightarrow> 'w \<Rightarrow> string io_result \<times> 'w" where
  "send_config nw config w =
     (case nw_dial nw (cc_server_addr (rc_common config)) (mode_of config)
             (HelloConfig (cc_vkey (rc_common config)) VERSION CORE_VERSION config) w of
        (answer, w') \<Rightarrow> (expect_ok (nw_show nw) classify_server_error ''config'' answer, w'))"

text \<open>The line the client logs when the server refuses its configuration.\<close>

definition config_mode_server_error :: "string \<Rightarrow> string" where
  "config_mode_server_error message =
     (let lower = to_ascii_lowercase message
      in if str_contains lower ''web_user'' \<and> str_contains lower ''occupied''
         then ''the web_user may have been occupied!''
         else if list_ex (str_contains lower) [''occupied'', ''already in use'', ''not allowed'', ''validation list'', ''allow'']
         then ''The server returned an error, which port or host may have been occupied or not allowed to open.''
         else message)"

definition register_ip :: "('w, 'z) network_scheme \<Rightarrow> Args \<Rightarrow> 'w \<Rightarrow> string io_result \<times> 'w" where
  "register_ip nw args w =
     (case nw_dial nw (ar_server args) (BridgeMode_from_text (ar_conn_type args))
             (HelloRegisterIp (ar_vkey args) (ar_register_hours args)) w of
        (answer, w') \<Rightarrow> (expect_ok (nw_show nw) (IoError Other) ''register'' answer, w'))"

definition empty_to :: "string \<Rightarrow> string \<Rightarrow> string" where
  "empty_to value fallback = (if trim value = [] then fallback else value)"

text \<open>Whether a local server is started, and the address it listens on.\<close>

definition start_local_server :: "LocalServer \<Rightarrow> string option" where
  "start_local_server srv =
     (if ls_port srv = 0 \<or> ls_password srv = [] then None
      else Some (empty_to (ls_ip srv) ''127.0.0.1'' @ '':'' @ show_nat (unat (ls_port srv))))"

definition connect_secret_visitor ::
  "('w, 'z) network_scheme \<Rightarrow> string \<Rightarrow> string \<Rightarrow> LocalServer \<Rightarrow> 'w \<Rightarrow> string io_result \<times> 'w" where
  "connect_secret_visitor nw server_addr conn_type srv w =
     (let hello = (if eq_ignore_ascii_case (ls_kind srv) ''p2p''
                   then HelloP2pVisitor (ls_password srv) (ls_target srv)
                   else HelloSecretVisitor (ls_password srv) (ls_target srv))
      in case nw_dial nw server_addr (BridgeMode_from_text conn_type) hello w of
           (answer, w') \<Rightarrow> (expect_ok (nw_show nw) (IoError Other) ''visitor'' answer, w'))"

section \<open>Multiplexed sessions\<close>

record 'w client_network = "'w network" +
  nw_is_closed :: "nat \<Rightarrow> 'w \<Rightarrow> bool"
  nw_new_session :: "'w \<Rightarrow> nat io_result \<times> 'w"
  nw_open_stream :: "nat \<Rightarrow> u64 \<Rightarrow> 'w \<Rightarrow> nat io_result \<times> 'w"

text \<open>The value of the environment variable \<open>RUSTNPS_DISABLE_MUX\<close>.\<close>

definition mux_disabled :: "string option \<Rightarrow> bool" where
  "mux_disabled var =
     (case var of
        None \<Rightarrow> False
      | Some value \<Rightarrow> to_ascii_lowercase (trim value) \<in> {''1'', ''true'', ''yes'', ''on''})"

definition ensure_mux_session ::
  "'w client_network \<Rightarrow> bool \<Rightarrow> ClientRuntimeConfig \<Rightarrow> nat option \<Rightarrow> 'w \<Rightarrow> nat io_result \<times> nat option \<times> 'w" where
  "ensure_mux_session nw disabled config holder w =
     (let connect =
        (case nw_dial nw (cc_server_addr (rc_common config)) (mode_of config)
                (HelloMux (cc_vkey (rc_common config)) VERSION CORE_VERSION) w of
           (answer, w1) \<Rightarrow>
             (case expect_ok (nw_show nw) (IoError Other) ''mux'' answer of
                Inl e \<Rightarrow> (Inl e, holder, w1)
              | Inr _ \<Rightarrow>
                  (case nw_new_session nw w1 of
                     (Inl e, w2) \<Rightarrow> (Inl e, holder, w2)
                   | (Inr session, w2) \<Rightarrow> (Inr session, Some session, w2))))
      in if disabled then (Inl (IoError Other ''mux disabled by RUSTNPS_DISABLE_MUX''), holder, w)
         else (case holder of
                 Some session \<Rightarrow> if nw_is_closed nw session w then connect else (Inr session, holder, w)
               | None \<Rightarrow> connect))"

definition open_mux_stream ::
  "'w client_network \<Rightarrow> bool \<Rightarrow> ClientRuntimeConfig \<Rightarrow> u64 \<Rightarrow> nat option \<Rightarrow> 'w \<Rightarrow> nat io_result \<times> nat option \<times> 'w" where
  "open_mux_stream nw disabled config link_id holder w =
     (case ensure_mux_session nw disabled config holder w of
        (Inl e, holder', w1) \<Rightarrow> (Inl e, holder', w1)
      | (Inr session, holder', w1) \<Rightarrow>
          (case nw_open_stream nw session link_id w1 of
             (Inl e, w2) \<Rightarrow> (Inl e, None, w2)
           | (Inr stream, w2) \<Rightarrow> (Inr stream, holder', w2)))"

section \<open>Data links\<close>

datatype link_stream = MuxLink nat | DataLink

text \<open>
  The stream a link is served on: a stream of the session, else a connection of its own,
  which is always a TCP connection.
\<close>

definition open_link ::
  "'w client_network \<Rightarrow> bool \<Rightarrow> ClientRuntimeConfig \<Rightarrow> u64 \<Rightarrow> nat option \<Rightarrow> 'w \<Rightarrow> link_stream io_result \<times> nat option \<times> 'w" where
  "open_link nw disabled config link_id holder w =
     (case open_mux_stream nw disabled config link_id holder w of
        (Inr stream, holder', w1) \<Rightarrow> (Inr (MuxLink stream), holder', w1)
      | (Inl _, holder', w1) \<Rightarrow>
          (case nw_dial nw (cc_server_addr (rc_common config)) BridgeTcp
                  (HelloData (cc_vkey (rc_common config)) link_id) w1 of
             (answer, w2) \<Rightarrow>
               (map_sum id (\<lambda>_. DataLink) (expect_ok (nw_show nw) (IoError Other) ''data'' answer), holder', w2)))"

text \<open>\<open>content\<close> gives the bytes that a stream will carry.\<close>

definition handle_open ::
  "'w client_network \<Rightarrow> link_env \<Rightarrow> (link_stream \<Rightarrow> bytes) \<Rightarrow> bool \<Rightarrow> ClientRuntimeConfig \<Rightarrow> u64 \<Rightarrow> Link \<Rightarrow>
   nat option \<Rightarrow> 'w \<Rightarrow> link_served io_result \<times> nat option \<times> 'w" where
  "handle_open nw env content disabled config link_id link holder w =
     (case open_link nw disabled config link_id holder w of
        (Inl e, holder', w') \<Rightarrow> (Inl e, holder', w')
      | (Inr stream, holder', w') \<Rightarrow> (serve_link env (content stream) link, holder', w'))"

section \<open>The control connection\<close>

datatype client_action = OpenLink u64 Link | SentOk string

text \<open>
  The loop over the messages of the server, given the results of the reads.  The error with
  which it ends is \<open>None\<close> while it still waits for a message.
\<close>

fun control_messages ::
  "(ServerMessage \<Rightarrow> unit io_result) \<Rightarrow> ServerMessage io_result list \<Rightarrow> client_action list \<times> io_error option" where
  "control_messages wr [] = ([], None)"
| "control_messages wr (Inl e # _) = ([], Some e)"
| "control_messages wr (Inr msg # reads) =
     (case msg of
        MsgOpen link_id link \<Rightarrow>
          (case control_messages wr reads of (actions, res) \<Rightarrow> (OpenLink link_id link # actions, res))
      | MsgPing \<Rightarrow>
          (case wr (msg_ok ''pong'') of
             Inl e \<Rightarrow> ([], Some e)
           | Inr _ \<Rightarrow> (case control_messages wr reads of (actions, res) \<Rightarrow> (SentOk ''pong'' # actions, res)))
      | MsgStop reason \<Rightarrow> ([], Some (classify_server_error reason))
      | _ \<Rightarrow> control_messages wr reads)"

definition control_loop ::
  "'w client_network \<Rightarrow> bool \<Rightarrow> (ServerMessage \<Rightarrow> unit io_result) \<Rightarrow> ServerMessage io_result list \<Rightarrow>
   ClientRuntimeConfig \<Rightarrow> 'w \<Rightarrow> (client_action list \<times> io_error option) \<times> nat option \<times> 'w" where
  "control_loop nw disabled wr reads config w =
     (case nw_dial nw (cc_server_addr (rc_common config)) (mode_of config)
             (HelloControl (cc_vkey (rc_common config)) VERSION CORE_VERSION) w of
        (answer, w1) \<Rightarrow>
          (case expect_ok (nw_show nw) classify_server_error ''control'' answer of
             Inl e \<Rightarrow> (([], Some e), None, w1)
           | Inr _ \<Rightarrow>
               (case (if disabled then (None, w1) else snd (ensure_mux_session nw disabled config None w1)) of
                  (holder, w2) \<Rightarrow> (control_messages wr reads, holder, w2))))"

text \<open>
  The results of the successive runs of \<open>control_loop\<close>; \<open>None\<close> while the client still runs.
  A run never ends with success.
\<close>

fun control_loop_with_reconnect :: "bool \<Rightarrow> io_error list \<Rightarrow> unit io_result option" where
  "control_loop_with_reconnect auto_reconnection [] = None"
| "control_loop_with_reconnect auto_reconnection (err # runs) =
     (if \<not> auto_reconnection then Some (Inl err)
      else control_loop_with_reconnect auto_reconnection runs)"

section \<open>Facts\<close>

text \<open>
  With \<open>auto_reconnection\<close> the client runs forever, whatever ended its connections: the
  distinction of fatal errors that \<open>classify_server_error\<close> draws is not consulted.
\<close>

lemma reconnects_forever: "control_loop_with_reconnect True runs = None"
  by (induction runs) simp_all

lemma control_messages_opens:
  assumes "\<forall>m. wr m = Inr ()" "list_all (\<lambda>m. \<not> (\<exists>reason. m = MsgStop reason)) msgs"
  shows "control_messages wr (map Inr msgs) =
     (concat (map (\<lambda>m. case m of MsgOpen link_id link \<Rightarrow> [OpenLink link_id link] | MsgPing \<Rightarrow> [SentOk ''pong''] | _ \<Rightarrow> []) msgs), None)"
  using assms(2) by (induction msgs) (auto simp: assms(1) split: ServerMessage.splits)

text \<open>A parsed option: where an argument is \<open>name=value\<close>, the value is taken as it is.\<close>

lemma assign_arg_value: "assign_arg (name @ ''='' @ v) name nxt slot = v"
  by (simp add: assign_arg_def value_of_def strip_prefix_def)

section \<open>Client and server\<close>

text \<open>The server of \<open>Health\<close> as the network of the whole client, without multiplexed sessions.\<close>

definition plain_network :: "(nat \<Rightarrow> hello_env) \<Rightarrow> string \<Rightarrow> os_answers \<Rightarrow> server_world client_network" where
  "plain_network env remote oa =
     network.extend (server_network env remote oa)
       (client_network.fields (\<lambda>_ _. True) (\<lambda>w. (Inl (IoError Other ''no session''), w))
         (\<lambda>_ _ w. (Inl (IoError Other ''no session''), w)))"

lemma plain_network_dial [simp]:
  "nw_dial (plain_network env remote oa) addr mode hello w = server_dial env remote hello w"
  by (simp add: plain_network_def network.defs client_network.defs server_network_def)

lemma server_dial_data:
  "server_dial env remote (HelloData vkey link_id) w =
     (Inr (case hm_get (re_pending (sw_reg w)) link_id of None \<Rightarrow> MsgError ''unknown link id'' | Some _ \<Rightarrow> MsgOk ''data accepted''),
      w\<lparr>sw_reg := forget_pending link_id (sw_reg w), sw_calls := Suc (sw_calls w)\<rparr>)"
  by (auto simp: server_dial_def handle_bridge_conn_def hello_data_def reply_def finish_def msg_ok_def msg_error_def
      Let_def split: option.splits)

lemma open_link_plain:
  "open_link (plain_network env remote oa) True config link_id holder w =
     (if hm_get (re_pending (sw_reg w)) link_id = None then Inl (IoError Other ''unknown link id'') else Inr DataLink,
      holder, w\<lparr>sw_reg := forget_pending link_id (sw_reg w), sw_calls := Suc (sw_calls w)\<rparr>)"
  by (auto simp: open_link_def open_mux_stream_def ensure_mux_session_def server_dial_data expect_ok_def
      split: option.splits)

section \<open>Properties\<close>



text \<open>
  Registration of an address, both programs together.  With a key that is the public key
  or that of a client, the client's \<open>register\<close> command succeeds and the server authorises
  the client's address for the hours asked for; with any other key the command fails,
  with the error of a closed connection instead of a reason, and the server is unchanged.
\<close>

lemma register_dialogue:
  "let known = trim (ar_vkey args) \<noteq> []
         \<and> (ar_vkey args = sc_public_vkey (re_server (sw_reg w)) \<or> hm_contains (re_clients (sw_reg w)) (ar_vkey args));
       (res, w') = register_ip (server_network env remote oa) args w
   in res = (if known then Inr ''ip registered'' else Inl (IoError UnexpectedEof ''failed to fill whole buffer''))
      \<and> sw_reg w' = (if known then authorize_ip (he_now (env (sw_calls w))) remote (ar_register_hours args) (sw_reg w) else sw_reg w)"
  by (simp add: register_ip_def server_network_def server_dial_def handle_bridge_conn_def hello_register_ip_def
      ensure_ip_registration_vkey_def reply_def finish_def msg_ok_def expect_ok_def Let_def)

end
