(* ===== verification/Certs.thy ===== *)
theory Certs
  imports HostProxy
begin

text \<open>
  The certificates of virtual hosts (\<open>src/tls.rs\<close>): where a host's certificate comes from,
  the table of patterns and the choice for a server name, and the HTTPS connection around it.
  Reading PEM texts, making a signing key, looking into a greeting and the handshake are calls
  of packages and arguments here.
\<close>

section \<open>Loading\<close>

text \<open>A certified key: the chain and the signing key, as the package delivers them.\<close>

type_synonym certified_key = "string list \<times> string"

record pem_env =
  pe_read :: "string \<Rightarrow> string io_result"
  pe_certs :: "string \<Rightarrow> string list io_result"
  pe_private_key :: "string \<Rightarrow> string option io_result"
  pe_signing_key :: "string \<Rightarrow> string io_result"

definition read_pem_source :: "pem_env \<Rightarrow> string \<Rightarrow> string io_result" where
  "read_pem_source env source =
     (let trimmed = trim source
      in if str_contains trimmed ''-----BEGIN'' then Inr trimmed else pe_read env trimmed)"

definition load_certified_key :: "pem_env \<Rightarrow> Host \<Rightarrow> certified_key option io_result" where
  "load_certified_key env host =
     (if trim (ho_cert_file_path host) = [] \<or> trim (ho_key_file_path host) = [] then Inr None
      else (case read_pem_source env (ho_cert_file_path host) of
              Inl e \<Rightarrow> Inl e
            | Inr cert_pem \<Rightarrow>
                (case read_pem_source env (ho_key_file_path host) of
                   Inl e \<Rightarrow> Inl e
                 | Inr key_pem \<Rightarrow>
                     (case pe_certs env cert_pem of
                        Inl e \<Rightarrow> Inl e
                      | Inr certs \<Rightarrow>
                          if certs = [] then Inl (IoError InvalidData ''empty certificate chain'')
                          else (case pe_private_key env key_pem of
                                  Inl e \<Rightarrow> Inl e
                                | Inr None \<Rightarrow> Inl (IoError InvalidData ''missing private key'')
                                | Inr (Some key) \<Rightarrow>
                                    (case pe_signing_key env key of
                                       Inl e \<Rightarrow> Inl e
                                     | Inr signing \<Rightarrow> Inr (Some (certs, signing))))))))"

section \<open>The table of patterns\<close>

text \<open>Patterns are separated by commas, semicolons or white space.\<close>

definition split_host_patterns :: "string \<Rightarrow> string list" where
  "split_host_patterns hosts =
     concat (map split_whitespace (concat (map (split_on (CHR '';'')) (split_on (CHR '','') hosts))))"

record HostCertResolver =
  hx_exact :: "(string \<times> certified_key) list"
  hx_wildcard :: "(string \<times> certified_key) list"
  hx_default :: "certified_key option"

definition add_domain :: "certified_key \<Rightarrow> string \<Rightarrow> HostCertResolver \<Rightarrow> HostCertResolver" where
  "add_domain key domain res =
     (case strip_prefix ''*.'' domain of
        Some suff \<Rightarrow> res\<lparr>hx_wildcard := hx_wildcard res @ [(to_ascii_lowercase suff, key)]\<rparr>
      | None \<Rightarrow> res\<lparr>hx_exact := hx_exact res @ [(to_ascii_lowercase domain, key)]\<rparr>)"

fun resolver_from_hosts :: "pem_env \<Rightarrow> Host list \<Rightarrow> HostCertResolver \<Rightarrow> HostCertResolver io_result" where
  "resolver_from_hosts env [] res = Inr res"
| "resolver_from_hosts env (host # hosts) res =
     (case load_certified_key env host of
        Inl e \<Rightarrow> Inl e
      | Inr None \<Rightarrow> resolver_from_hosts env hosts res
      | Inr (Some key) \<Rightarrow>
          (let domains = split_host_patterns (ho_host host)
           in if domains = [] then resolver_from_hosts env hosts res
              else (let res = (if hx_default res = None then res\<lparr>hx_default := Some key\<rparr> else res)
                    in resolver_from_hosts env hosts (fold (add_domain key) domains res))))"

definition empty_resolver :: HostCertResolver where
  "empty_resolver = \<lparr>hx_exact = [], hx_wildcard = [], hx_default = None\<rparr>"

definition resolver_is_empty :: "HostCertResolver \<Rightarrow> bool" where
  "resolver_is_empty res = (hx_exact res = [] \<and> hx_wildcard res = [] \<and> hx_default res = None)"

definition resolve_cert :: "HostCertResolver \<Rightarrow> string option \<Rightarrow> certified_key option" where
  "resolve_cert res client_name =
     (case client_name of
        None \<Rightarrow> hx_default res
      | Some raw \<Rightarrow>
          (let server_name = to_ascii_lowercase (trim_end_matches (CHR ''.'') (trim raw))
           in case find (\<lambda>(domain, key). domain = server_name) (hx_exact res) of
                Some (_, key) \<Rightarrow> Some key
              | None \<Rightarrow>
                  (case find (\<lambda>(suff, key). suffix suff server_name) (hx_wildcard res) of
                     Some (_, key) \<Rightarrow> Some key
                   | None \<Rightarrow> hx_default res)))"

definition build_server_config :: "pem_env \<Rightarrow> Host list \<Rightarrow> HostCertResolver option io_result" where
  "build_server_config env hosts =
     (case resolver_from_hosts env hosts empty_resolver of
        Inl e \<Rightarrow> Inl e
      | Inr res \<Rightarrow> if resolver_is_empty res then Inr None else Inr (Some res))"

section \<open>Connections\<close>

text \<open>
  \<open>sniff_sni\<close>: what the package finds in the bytes that have arrived, if it finds a greeting.
\<close>

definition sniff_sni :: "(bytes \<Rightarrow> string option option io_result) \<Rightarrow> bytes io_result \<Rightarrow> string option io_result" where
  "sniff_sni acceptor peeked =
     (case peeked of
        Inl e \<Rightarrow> Inl e
      | Inr buf \<Rightarrow>
          if buf = [] then Inr None
          else (case acceptor buf of
                  Inl e \<Rightarrow> Inl (IoError InvalidData (err_msg e))
                | Inr (Some client_name) \<Rightarrow> Inr (map_option to_ascii_lowercase client_name)
                | Inr None \<Rightarrow> Inr None))"

text \<open>
  The plain text of an HTTPS connection: the certificates of all hosts are loaded for each
  connection, then the handshake with the client takes place.
\<close>

definition https_plain_text ::
  "pem_env \<Rightarrow> (HostCertResolver \<Rightarrow> string io_result) \<Rightarrow> Registry \<Rightarrow> string io_result" where
  "https_plain_text env handshake r =
     (case build_server_config env (tls_hosts r) of
        Inl e \<Rightarrow> Inl e
      | Inr None \<Rightarrow> Inl (IoError NotFound ''no https certificates configured'')
      | Inr (Some res) \<Rightarrow> handshake res)"

section \<open>Lemmas\<close>

text \<open>What each host contributes to the table, in the order of the hosts.\<close>

definition host_domains :: "pem_env \<Rightarrow> Host \<Rightarrow> (string \<times> certified_key) list" where
  "host_domains env host =
     (case load_certified_key env host of
        Inr (Some key) \<Rightarrow> map (\<lambda>d. (d, key)) (split_host_patterns (ho_host host))
      | _ \<Rightarrow> [])"

definition exact_entries :: "(string \<times> certified_key) list \<Rightarrow> (string \<times> certified_key) list" where
  "exact_entries ds = map (\<lambda>(d, k). (to_ascii_lowercase d, k)) (filter (\<lambda>(d, k). strip_prefix ''*.'' d = None) ds)"

definition wildcard_entries :: "(string \<times> certified_key) list \<Rightarrow> (string \<times> certified_key) list" where
  "wildcard_entries ds =
     List.map_filter (\<lambda>(d, k). map_option (\<lambda>suff. (to_ascii_lowercase suff, k)) (strip_prefix ''*.'' d)) ds"

lemma fold_add_domain:
  "fold (add_domain key) ds res =
     res\<lparr>hx_exact := hx_exact res @ exact_entries (map (\<lambda>d. (d, key)) ds),
         hx_wildcard := hx_wildcard res @ wildcard_entries (map (\<lambda>d. (d, key)) ds)\<rparr>"
  by (induction ds arbitrary: res)
    (auto simp: add_domain_def exact_entries_def wildcard_entries_def List.map_filter_simps split: option.split)

lemma entries_append:
  "exact_entries (a @ b) = exact_entries a @ exact_entries b"
  "wildcard_entries (a @ b) = wildcard_entries a @ wildcard_entries b"
  by (simp_all add: exact_entries_def wildcard_entries_def map_filter_def)

lemma resolver_entries:
  "resolver_from_hosts env hosts res = Inr res' \<Longrightarrow>
     hx_exact res' = hx_exact res @ exact_entries (concat (map (host_domains env) hosts))
     \<and> hx_wildcard res' = hx_wildcard res @ wildcard_entries (concat (map (host_domains env) hosts))
     \<and> hx_default res' = (case hx_default res of Some k \<Rightarrow> Some k
          | None \<Rightarrow> map_option snd (List.find (\<lambda>_. True) (concat (map (host_domains env) hosts))))"
proof (induction env hosts res rule: resolver_from_hosts.induct)
  case (1 env res)
  then show ?case by (auto simp: exact_entries_def wildcard_entries_def map_filter_def split: option.split)
next
  case (2 env host hosts res)
  show ?case
  proof (cases "load_certified_key env host")
    case (Inl e)
    with 2(4) show ?thesis by simp
  next
    case (Inr found)
    show ?thesis
    proof (cases "found = None \<or> split_host_patterns (ho_host host) = []")
      case True
      then have none: "host_domains env host = []" using Inr by (auto simp: host_domains_def split: option.split)
      from True Inr 2 show ?thesis by (auto simp: none split: option.splits)
    next
      case False
      then obtain key where key: "found = Some key" "split_host_patterns (ho_host host) \<noteq> []" by auto
      let ?res = "if hx_default res = None then res\<lparr>hx_default := Some key\<rparr> else res"
      have ds: "host_domains env host = map (\<lambda>d. (d, key)) (split_host_patterns (ho_host host))"
        using Inr key by (simp add: host_domains_def)
      have first: "map_option snd (find (\<lambda>_. True) (map (\<lambda>d. (d, key)) (split_host_patterns (ho_host host)) @ xs)) = Some key" for xs
        using key(2) by (cases "split_host_patterns (ho_host host)") auto
      have run: "resolver_from_hosts env hosts (fold (add_domain key) (split_host_patterns (ho_host host)) ?res) = Inr res'"
        using 2(4) Inr key by (simp add: Let_def)
      from 2(3) [OF Inr key(1) refl key(2) refl run] show ?thesis
        by (auto simp: fold_add_domain ds entries_append first split: option.splits)
    qed
  qed
qed

lemma resolver_needs_all:
  "h \<in> set hosts \<Longrightarrow> load_certified_key env h = Inl e \<Longrightarrow> \<exists>e'. resolver_from_hosts env hosts res = Inl e'"
proof (induction env hosts res rule: resolver_from_hosts.induct)
  case (2 env host hosts res)
  then show ?case by (cases "host = h") (auto simp: Let_def split: sum.split option.split)
qed simp

text \<open>The name a client asks for, as it is compared.\<close>

definition asked_name :: "string \<Rightarrow> string" where
  "asked_name raw = to_ascii_lowercase (trim_end_matches (CHR ''.'') (trim raw))"

lemma build_entries:
  assumes "build_server_config env hosts = Inr (Some res)"
  shows "hx_exact res = exact_entries (concat (map (host_domains env) hosts))"
    "hx_wildcard res = wildcard_entries (concat (map (host_domains env) hosts))"
proof -
  have "resolver_from_hosts env hosts empty_resolver = Inr res"
    using assms by (auto simp: build_server_config_def split: sum.splits if_splits)
  from resolver_entries [OF this] show "hx_exact res = exact_entries (concat (map (host_domains env) hosts))"
    "hx_wildcard res = wildcard_entries (concat (map (host_domains env) hosts))"
    by (simp_all add: empty_resolver_def)
qed

lemma find_key_append: "find P (xs @ ys) = (case find P xs of None \<Rightarrow> find P ys | Some x \<Rightarrow> Some x)"
  by (induction xs) auto

section \<open>Properties\<close>

text \<open>
  A host that names a server gets its own certificate.  Once the certificates are loaded,
  a client that asks for a name is shown the certificate of the first host that lists exactly
  this name, letter case and a final dot aside, even if a wildcard of an earlier host covers
  it too.
\<close>

lemma exact_certificate_wins:
  assumes "build_server_config env hosts = Inr (Some res)"
    and "concat (map (host_domains env) hosts) = before @ (d, key) # later"
    and "strip_prefix ''*.'' d = None" "to_ascii_lowercase d = asked_name raw"
    and "\<forall>(d', k) \<in> set before. strip_prefix ''*.'' d' = None \<longrightarrow> to_ascii_lowercase d' \<noteq> asked_name raw"
  shows "resolve_cert res (Some raw) = Some key"
proof -
  have "find (\<lambda>(domain, k). domain = asked_name raw) (exact_entries before) = None"
    using assms(5) by (auto simp: find_None_iff exact_entries_def)
  then have "find (\<lambda>(domain, k). domain = asked_name raw) (hx_exact res) = Some (asked_name raw, key)"
    using assms(3,4) unfolding build_entries(1) [OF assms(1)] assms(2)
    by (simp add: entries_append find_key_append) (simp add: exact_entries_def)
  then show ?thesis by (simp add: resolve_cert_def asked_name_def Let_def)
qed

definition demo_pem :: pem_env where
  "demo_pem =
     \<lparr>pe_read = (\<lambda>path. if path = ''missing'' then Inl (IoError NotFound path) else Inr path),
      pe_certs = (\<lambda>text. Inr [text]), pe_private_key = (\<lambda>text. Inr (Some text)), pe_signing_key = Inr\<rparr>"

definition demo_https_host :: "string \<Rightarrow> string \<Rightarrow> Host" where
  "demo_https_host name cert =
     Host_default\<lparr>ho_host := name, ho_scheme := ''https'', ho_cert_file_path := cert, ho_key_file_path := ''key'', ho_client_vkey := ''a''\<rparr>"


definition demo_https_web :: Web where
  "demo_https_web =
     \<lparr>wb_reg = (Registry_new (ServerConfig_default\<lparr>sc_https_just_proxy := False\<rparr>))
        \<lparr>re_clients := [(''a'', ClientRuntimeConfig_default\<lparr>rc_hosts := [demo_https_host ''good.com'' ''one'']\<rparr>),
                        (''b'', ClientRuntimeConfig_default\<lparr>rc_hosts := [demo_https_host ''bad.com'' ''missing'']\<rparr>)]\<rparr>,
      wb_files = \<lambda>_. None\<rparr>"


end
