(* ===== verification/Start.thy ===== *)
theory Start
  imports Pages Listeners Client Certs
begin

text \<open>
  How the server starts: log levels (\<open>src/logging.rs\<close>), the command line and the start
  sequence of \<open>src/server.rs\<close>, the directory of the store (\<open>src/store.rs\<close>) and the search for
  the directory of the web console (\<open>src/server.rs\<close>, \<open>src/web.rs\<close>).  Files, directories and
  environment variables are arguments.
\<close>

section \<open>Log levels\<close>

datatype Level = LevelError | LevelWarn | LevelNotice | LevelInfo | LevelDebug | LevelTrace

fun level_number :: "Level \<Rightarrow> u8" where
  "level_number LevelError = 3"
| "level_number LevelWarn = 4"
| "level_number LevelNotice = 5"
| "level_number LevelInfo = 6"
| "level_number LevelDebug = 7"
| "level_number LevelTrace = 8"

fun level_label :: "Level \<Rightarrow> string" where
  "level_label LevelError = ''E''"
| "level_label LevelWarn = ''W''"
| "level_label LevelNotice = ''N''"
| "level_label LevelInfo = ''I''"
| "level_label LevelDebug = ''D''"
| "level_label LevelTrace = ''T''"

definition parse_level :: "string \<Rightarrow> u8" where
  "parse_level level =
     (let v = to_ascii_lowercase (trim level)
      in if v \<in> {''error'', ''err''} then level_number LevelError
         else if v \<in> {''warn'', ''warning''} then level_number LevelWarn
         else if v = ''notice'' then level_number LevelNotice
         else if v = ''info'' then level_number LevelInfo
         else if v = ''debug'' then level_number LevelDebug
         else if v = ''trace'' then level_number LevelTrace
         else (case parse_u8 v of None \<Rightarrow> level_number LevelInfo | Some n \<Rightarrow> n))"

definition parse_console_level :: "string \<Rightarrow> u8" where
  "parse_console_level level =
     (let v = to_ascii_lowercase (trim level)
      in if v = ''debug'' then level_number LevelDebug
         else if v \<in> {''info'', []} then level_number LevelInfo
         else if level_number LevelDebug \<le> parse_level v then level_number LevelDebug
         else level_number LevelInfo)"

text \<open>The level is one cell; a line is printed when its level is enabled.\<close>

definition enabled :: "u8 \<Rightarrow> Level \<Rightarrow> bool" where
  "enabled log_level level = (level_number level \<le> log_level)"

definition log_line :: "u8 \<Rightarrow> string \<Rightarrow> Level \<Rightarrow> string \<Rightarrow> string \<Rightarrow> string option" where
  "log_line log_level now level target args =
     (if \<not> enabled log_level level then None
      else Some (now @ '' ['' @ level_label level @ ''] ['' @ target @ ''] '' @ args))"

section \<open>Paths\<close>

definition path_parent :: "string \<Rightarrow> string option" where
  "path_parent p =
     (let cs = path_components p
      in if cs = [] \<or> last cs = RootDir then None else Some (components_text (butlast cs)))"

text \<open>\<open>Path::ancestors\<close>: the path and its parents, down to the root or the empty path.\<close>

definition path_ancestors :: "string \<Rightarrow> string list" where
  "path_ancestors p =
     (let cs = path_components p; least = (if cs \<noteq> [] \<and> hd cs = RootDir then 1 else 0)
      in p # map (\<lambda>n. components_text (take n cs)) (rev [least..<length cs]))"

record boot_env =
  be_var :: "string \<Rightarrow> string option"
  be_exists :: "string \<Rightarrow> bool"
  be_read :: "string \<Rightarrow> string io_result"
  be_is_dir :: "string \<Rightarrow> bool"
  be_cwd :: "string option"

definition is_web_root :: "boot_env \<Rightarrow> string \<Rightarrow> bool" where
  "is_web_root env p = (be_is_dir env p \<and> be_is_dir env (path_push p ''views''))"

definition resolve_web_root_from_conf_path :: "boot_env \<Rightarrow> string \<Rightarrow> string option" where
  "resolve_web_root_from_conf_path env conf_path =
     (case (if prefix ''/'' conf_path then Some conf_path
            else map_option (\<lambda>cwd. path_push cwd conf_path) (be_cwd env)) of
        None \<Rightarrow> None
      | Some absolute_conf \<Rightarrow>
          find (is_web_root env) (map (\<lambda>a. path_push a ''web'') (path_ancestors absolute_conf)))"

definition get_web_root :: "boot_env \<Rightarrow> string" where
  "get_web_root env =
     (case be_var env ''NPS_WEB_PATH'' of
        Some p \<Rightarrow> p
      | None \<Rightarrow>
          (case be_cwd env of
             None \<Rightarrow> ''web''
           | Some cwd \<Rightarrow>
               (case find (is_web_root env)
                       (concat (map (\<lambda>a. [path_push a ''web'', path_push (path_push a ''RustNps'') ''web'']) (path_ancestors cwd))) of
                  None \<Rightarrow> ''web''
                | Some p \<Rightarrow> p)))"

definition conf_dir_of :: "string \<Rightarrow> string" where
  "conf_dir_of path = (case path_parent path of None \<Rightarrow> ''conf'' | Some dir \<Rightarrow> dir)"

section \<open>The command line of the server\<close>

fun arg_value :: "string list \<Rightarrow> string \<Rightarrow> string option" where
  "arg_value [] name = None"
| "arg_value (arg # args) name =
     (case strip_prefix (name @ ''='') arg of
        Some v \<Rightarrow> Some v
      | None \<Rightarrow> (if arg = name \<and> args \<noteq> [] then Some (hd args) else arg_value args name))"

definition first_arg :: "string list \<Rightarrow> string list \<Rightarrow> string option" where
  "first_arg args names = find_map (arg_value args) names"

definition default_server_conf :: "boot_env \<Rightarrow> string" where
  "default_server_conf env =
     (case find (be_exists env) [''conf/nps.conf'', ''../nps/conf/nps.conf'', ''nps/conf/nps.conf''] of
        None \<Rightarrow> ''conf/nps.conf'' | Some candidate \<Rightarrow> candidate)"

datatype nps_action =
    NpsHelp
  | NpsVersion
  | NpsRun (nps_config: ServerConfig) (nps_conf_dir: string) (nps_log_level: u8) (nps_web_path: "string option")

definition nps_entry :: "boot_env \<Rightarrow> string list \<Rightarrow> nps_action io_result" where
  "nps_entry env args =
     (if list_ex (\<lambda>arg. arg \<in> {''-h'', ''--help'', ''help''}) args then Inr NpsHelp
      else if list_ex (\<lambda>arg. arg = ''-version'' \<or> arg = ''--version'') args then Inr NpsVersion
      else
        (let conf_path = (case first_arg args [''-conf_path'', ''--conf-path''] of
                            None \<Rightarrow> default_server_conf env | Some p \<Rightarrow> p)
         in case (if be_exists env conf_path then load_server_config (be_var env) (be_read env conf_path)
                  else Inr ServerConfig_default) of
              Inl e \<Rightarrow> Inl e
            | Inr config \<Rightarrow>
                (let log_level = (case first_arg args [''--console-log-level'', ''-console_log_level'', ''-log_level'', ''--log-level''] of
                                    None \<Rightarrow> sc_log_level config | Some l \<Rightarrow> l);
                     config = config\<lparr>sc_log_level := log_level\<rparr>;
                     config = (case first_arg args [''-log_path'', ''--log-path''] of
                                 None \<Rightarrow> config | Some p \<Rightarrow> config\<lparr>sc_log_path := p\<rparr>);
                     web_path = (case be_var env ''NPS_WEB_PATH'' of
                                   Some p \<Rightarrow> Some p
                                 | None \<Rightarrow> resolve_web_root_from_conf_path env conf_path)
                 in Inr (NpsRun config (conf_dir_of conf_path) (parse_console_level log_level) web_path))))"

section \<open>The start sequence\<close>

datatype service = SystemMonitor | WebManager | HttpHosts | HttpsHosts | BridgeAt string BridgeMode

text \<open>
  \<open>run_with_store\<close> up to its accept loop: the state after the store is loaded and the services
  in the order of their start.  A store that cannot be read, or an address that cannot be
  bound, ends the program; the services started by then end with it.
\<close>

definition run_with_store ::
  "codec \<Rightarrow> (string \<Rightarrow> string) \<Rightarrow> (string \<Rightarrow> BridgeMode \<Rightarrow> unit io_result) \<Rightarrow> files \<Rightarrow> ServerConfig
     \<Rightarrow> (service list \<times> Registry) io_result" where
  "run_with_store codec md5_hex bind_bridge store config =
     (case store_load codec store of
        Inl e \<Rightarrow> Inl e
      | Inr state \<Rightarrow>
          (let r = install_persistent_state md5_hex state (Registry_new config);
               services = [SystemMonitor] @ (if 0 < sc_web_port config then [WebManager] else [])
                 @ (if 0 < sc_http_proxy_port config then [HttpHosts] else [])
                 @ (if 0 < sc_https_proxy_port config then [HttpsHosts] else []);
               addr = sc_bridge_ip config @ '':'' @ show_nat (unat (sc_bridge_port config));
               mode = BridgeMode_from_text (sc_bridge_type config)
           in case bind_bridge addr mode of
                Inl e \<Rightarrow> Inl e
              | Inr _ \<Rightarrow> Inr (services @ [BridgeAt addr mode], r)))"

section \<open>Lemmas\<close>

lemma console_level_values: "parse_console_level s = 6 \<or> parse_console_level s = 7"
  by (simp add: parse_console_level_def Let_def)

text \<open>Errors, warnings, notices and information are printed on every console; traces never are.\<close>

lemma console_prints:
  "enabled (parse_console_level s) level \<longleftrightarrow>
     level \<noteq> LevelTrace \<and> (level = LevelDebug \<longrightarrow> parse_console_level s = 7)"
  using console_level_values [of s] by (cases level) (auto simp: enabled_def)

lemma web_root_found:
  assumes "resolve_web_root_from_conf_path env conf_path = Some p"
  shows "be_is_dir env p \<and> be_is_dir env (path_push p ''views'')"
  using assms by (auto simp: resolve_web_root_from_conf_path_def is_web_root_def find_Some_iff split: option.splits)

end
