(* ===== verification/Server.thy ===== *)
theory Server
  imports Invariant Router HostProxy Start
begin

text \<open>
  The server as one transition system.  A step of \<open>server_step\<close> is what one thread of
  \<open>src/server.rs\<close> or \<open>src/web.rs\<close> does to the shared state between two points at which others
  may run: a connection of a client, a program point of a request, a visitor of a tunnel or a
  virtual host, a listener, a page or a change of the web console.  The theorems hold of every
  state that any interleaving of such steps reaches from a start of the server.
\<close>

section \<open>Changes of the web console\<close>

abbreviation web_ok :: "(string \<Rightarrow> string) \<Rightarrow> Web \<Rightarrow> bool" where
  "web_ok md5_hex w \<equiv> registry_ok md5_hex (wb_reg w)"

lemma client_by_id_ok:
  "registry_ok md5_hex r \<Longrightarrow> client_vkey_by_id (re_clients r) i = Some v \<Longrightarrow> \<exists>c. client_of v r = Some c \<and> client_ok v c"
  using client_vkey_by_id_Some [of "re_clients r" i v] client_of_ok [of md5_hex r v]
  by (auto simp: registry_ok_def dest: map_ok_hm)

lemma info_update_ok:
  "client_ok v c \<Longrightarrow> (\<And>i. ci_verify_key (f i) = ci_verify_key i) \<Longrightarrow> client_ok v (rc_info_update f c)"
  by (simp add: client_ok_def rc_info_update_def)

lemma client_form_key [simp]: "ci_verify_key (apply_client_form params info) = ci_verify_key info"
  by (simp add: apply_client_form_def Let_def split: option.split)

lemma new_client_ok: "v \<noteq> [] \<Longrightarrow> client_ok v (rc_vkey_update v ClientRuntimeConfig_default)"
  by (simp add: client_ok_def rc_vkey_update_def ClientRuntimeConfig_default_def)

lemma edited_client_ok: "v \<noteq> [] \<Longrightarrow> client_ok v (edited_client params v c)"
  by (simp add: edited_client_def Let_def client_ok_def rc_info_update_def rc_vkey_update_def list_all_iff split: option.split)

text \<open>The loops over all clients: a change of a client that owns its rules leaves it so.\<close>

lemma with_tunnel_ok:
  assumes "with_tunnel i f r = Some (x, r')" "registry_ok md5_hex r"
    and "\<And>v c k. client_ok v c \<Longrightarrow> k < length (rc_tunnels c) \<Longrightarrow> client_ok v (fst (f c k))"
  shows "registry_ok md5_hex r'"
proof -
  obtain m where m: "update_first (\<lambda>config. map_option (f config) (position (\<lambda>t. tn_id t = i) (rc_tunnels config)))
        (re_clients r) = Some (m, x)" "r' = r\<lparr>re_clients := m\<rparr>"
    using assms(1) by (auto simp: with_tunnel_def)
  have "map_ok client_ok m"
  proof (rule map_ok_update_first [OF m(1)])
    show "map_ok client_ok (re_clients r)" using assms(2) by (simp add: registry_ok_def)
    fix v c c'
    assume "client_ok v c" "map_option (f c) (position (\<lambda>t. tn_id t = i) (rc_tunnels c)) = Some (c', x)"
    moreover from this obtain k where "position (\<lambda>t. tn_id t = i) (rc_tunnels c) = Some k" "f c k = (c', x)" by auto
    ultimately show "client_ok v c'" using position_Some(1) assms(3) [of v c k] by fastforce
  qed
  with assms(2) m(2) show ?thesis by (simp add: registry_ok_def)
qed

lemma host_mutation_ok:
  assumes "registry_ok md5_hex r" "\<And>v c k. client_ok v c \<Longrightarrow> k < length (rc_hosts c) \<Longrightarrow> client_ok v (fst (f c k))"
  shows "registry_ok md5_hex (snd (host_mutation_result i f r))"
proof (cases "update_first (\<lambda>config. map_option (f config) (position (\<lambda>h. ho_id h = i) (rc_hosts config))) (re_clients r)")
  case (Some y)
  obtain m x where y: "y = (m, x)" by fastforce
  have "map_ok client_ok m"
  proof (rule map_ok_update_first [OF Some [unfolded y]])
    show "map_ok client_ok (re_clients r)" using assms(1) by (simp add: registry_ok_def)
    fix v c c'
    assume "client_ok v c" "map_option (f c) (position (\<lambda>h. ho_id h = i) (rc_hosts c)) = Some (c', x)"
    moreover from this obtain k where "position (\<lambda>h. ho_id h = i) (rc_hosts c) = Some k" "f c k = (c', x)" by auto
    ultimately show "client_ok v c'" using position_Some(1) assms(2) [of v c k] by fastforce
  qed
  with assms(1) Some y show ?thesis by (simp add: host_mutation_result_def registry_ok_def)
qed (use assms in \<open>simp add: host_mutation_result_def\<close>)

lemma owned_update:
  "list_all P xs \<Longrightarrow> P y \<Longrightarrow> list_all P (xs[k := y])" "list_all P xs \<Longrightarrow> list_all P (remove_at k xs)"
  by (auto simp: list_all_iff remove_at_def dest: set_update_subset_insert [THEN subsetD] in_set_takeD in_set_dropD)

lemma port_owner: "ensure_tunnel_server_port net server t = Inr t' \<Longrightarrow> tn_client_vkey t' = tn_client_vkey t"
  by (auto simp: ensure_tunnel_server_port_def split: if_splits sum.splits)

lemma edited_tunnel_owner [simp]: "tn_client_vkey (edited_tunnel params t) = tn_client_vkey t"
  by (simp add: edited_tunnel_def Let_def)

lemma edit_tunnel_at_ok:
  assumes "client_ok v c" "k < length (rc_tunnels c)"
  shows "client_ok v (fst (edit_tunnel_at env server params c k))"
proof -
  have "tn_client_vkey (rc_tunnels c ! k) = v" using assms by (simp add: client_ok_def list_all_length)
  with assms(1) show ?thesis
    by (auto simp: edit_tunnel_at_def Let_def client_ok_def dest!: port_owner intro!: owned_update split: sum.split)
qed

lemma copied_ok:
  assumes "client_ok v c" "k < length (rc_tunnels c)"
  shows "client_ok v (fst (copied env server i c k))"
proof -
  have "tn_client_vkey (rc_tunnels c ! k) = v" using assms by (simp add: client_ok_def list_all_length)
  with assms(1) show ?thesis
    by (auto simp: copied_def Let_def client_ok_def dest!: port_owner split: sum.split)
qed

lemma client_add_ok:
  assumes "web_ok md5_hex w"
  shows "web_ok md5_hex (snd (mutate_client_add env params w))"
proof -
  define v r1 where "v = (if param params ''vkey'' = [] then ''web'' @ show_nat (unat (re_seq (wb_reg w))) else param params ''vkey'')"
    and "r1 = (if param params ''vkey'' = [] then snd (next_link_id (wb_reg w)) else wb_reg w)"
  have ne: "v \<noteq> []" by (simp add: v_def)
  have r1: "registry_ok md5_hex r1" using assms by (simp add: r1_def ids_ok)
  let ?c = "rc_info_update (\<lambda>info. (apply_client_form params info)
        \<lparr>ci_web_username := param params ''web_username'', ci_web_password := param params ''web_password''\<rparr>)
      (rc_vkey_update v ClientRuntimeConfig_default)"
  have "client_ok v ?c" by (intro info_update_ok new_client_ok ne) simp
  then have "client_ok v (?c\<lparr>rc_id := i, rc_no_store := False, rc_create_time := t\<rparr>)" for i t by (simp add: client_ok_def)
  then have new: "registry_ok md5_hex ((snd (next_link_id r1))\<lparr>re_clients := hm_insert v
      (?c\<lparr>rc_id := i, rc_no_store := False, rc_create_time := t\<rparr>) (re_clients (snd (next_link_id r1)))\<rparr>)" for i t
    by (intro clients_ok ids_ok(2) r1)
  have draw: "(if param params ''vkey'' = [] then (case next_link_id (wb_reg w) of (i, r') \<Rightarrow> (''web'' @ show_nat (unat i), r'))
      else (param params ''vkey'', wb_reg w)) = (v, r1)"
    by (simp add: v_def r1_def next_link_id_def)
  show ?thesis
    unfolding mutate_client_add_def Let_def draw prod.case using r1 new by (simp add: case_prod_beta)
qed

lemma host_changes_ok:
  assumes "web_ok md5_hex w"
  shows "web_ok md5_hex (snd (mutate_host_status env params is_close w))"
    "web_ok md5_hex (snd (mutate_host_delete env params w))" "web_ok md5_hex (snd (mutate_host_edit env params w))"
proof -
  have put: "client_ok v (c\<lparr>rc_hosts := (rc_hosts c)[k := h]\<rparr>)"
    if "client_ok v c" "k < length (rc_hosts c)" "ho_client_vkey h = ho_client_vkey (rc_hosts c ! k)" for v c k h
    using that by (simp add: client_ok_def owned_update list_all_length [of _ "rc_hosts c"])
  have fst_ok: "registry_ok md5_hex r1"
    if "host_mutation_result i f (wb_reg w) = (x, r1)"
      "\<And>v c k. client_ok v c \<Longrightarrow> k < length (rc_hosts c) \<Longrightarrow> client_ok v (fst (f c k))" for i f r1 and x :: "'x option"
    using host_mutation_ok [where i = i and f = f, OF assms that(2)] that(1) by simp
  have "registry_ok md5_hex r1" if "host_mutation_result i (\<lambda>config k. let previous = rc_hosts config ! k;
          current = previous\<lparr>ho_is_close := is_close\<rparr>
        in (config\<lparr>rc_hosts := (rc_hosts config)[k := current]\<rparr>, Some (previous, current))) (wb_reg w) = (x, r1)" for i x r1
    by (rule fst_ok [OF that]) (simp add: Let_def put)
  then show "web_ok md5_hex (snd (mutate_host_status env params is_close w))"
    unfolding mutate_host_status_def by (auto split: option.split prod.split)
  have "registry_ok md5_hex r1" if "host_mutation_result i (\<lambda>config k. (config\<lparr>rc_hosts := remove_at k (rc_hosts config)\<rparr>,
      Some (rc_hosts config ! k))) (wb_reg w) = (x, r1)" for i x r1
    by (rule fst_ok [OF that]) (simp add: client_ok_def owned_update)
  then show "web_ok md5_hex (snd (mutate_host_delete env params w))"
    unfolding mutate_host_delete_def by (auto split: option.split prod.split)
  let ?new = "\<lambda>h. (fill_host_from_params params h)\<lparr>ho_no_store := False\<rparr>"
  have "ho_client_vkey (?new h) = ho_client_vkey h" for h by (simp add: fill_host_from_params_def Let_def)
  then have "registry_ok md5_hex r1" if "host_mutation_result i (\<lambda>config k. let previous = rc_hosts config ! k;
          updated = ?new previous
        in if list_ex (\<lambda>item. ho_id item \<noteq> i \<and> ho_host item = ho_host updated \<and> ho_location item = ho_location updated) (rc_hosts config)
           then (config, None)
           else (config\<lparr>rc_hosts := (rc_hosts config)[k := updated]\<rparr>, Some (previous, updated))) (wb_reg w) = (x, r1)" for i x r1
    by (intro fst_ok [OF that]) (simp add: Let_def put)
  then show "web_ok md5_hex (snd (mutate_host_edit env params w))"
    unfolding mutate_host_edit_def Let_def [of "param_id _ _ _"] by (auto split: option.split prod.split)
qed

lemma host_add_ok:
  assumes "web_ok md5_hex w"
  shows "web_ok md5_hex (snd (mutate_host_add env params w))"
proof -
  obtain i r where r: "next_link_id (wb_reg w) = (i, r)" by fastforce
  have ok: "registry_ok md5_hex r" using ids_ok(2) [OF assms] r by simp
  have "registry_ok md5_hex (r\<lparr>re_clients := hm_insert v (c\<lparr>rc_hosts := rc_hosts c @ [h\<lparr>ho_client_vkey := v\<rparr>]\<rparr>) (re_clients r)\<rparr>)"
    if "client_of v r = Some c" for v c h
    using client_of_ok [OF ok that] by (intro clients_ok ok) (simp add: client_ok_def)
  with ok show ?thesis
    unfolding mutate_host_add_def r Let_def prod.case by (auto split: option.split sum.split)
qed

lemma global_save_ok: "web_ok md5_hex w \<Longrightarrow> web_ok md5_hex (snd (mutate_global_save env params w))"
  by (simp add: mutate_global_save_def Let_def registry_ok_def)

text \<open>The changes themselves; while they wait for a listener, the others keep the state well-formed.\<close>

context sound_wait
begin

lemma client_status_ok:
  assumes "web_ok md5_hex w" "we_md5_hex env = md5_hex" "we_wait env = wait"
  shows "web_ok md5_hex (snd (mutate_client_status env params w))"
proof -
  let ?r = "wb_reg w"
  have "registry_ok md5_hex (stop_tunnel_runtimes wait ts (?r\<lparr>re_clients := hm_insert v
      (rc_info_update (\<lambda>info. info\<lparr>ci_status := status\<rparr>) c) (re_clients ?r)\<rparr>))"
    if "client_of v ?r = Some c" for v c status ts
    by (intro stop_tunnels_ok clients_ok info_update_ok client_of_ok [OF assms(1) that] assms(1)) simp
  with assms show ?thesis
    by (auto simp: mutate_client_status_def Let_def intro!: ok_intros split: option.split)
qed

lemma client_delete_ok:
  assumes "web_ok md5_hex w" "we_md5_hex env = md5_hex" "we_wait env = wait"
  shows "web_ok md5_hex (snd (mutate_client_delete env params w))"
proof -
  have "registry_ok md5_hex (stop_tunnel_runtimes wait ts ((wb_reg w)\<lparr>re_clients := hm_remove v (re_clients (wb_reg w))\<rparr>))" for v ts
    using assms(1) by (intro stop_tunnels_ok) (simp add: registry_ok_def)
  with assms show ?thesis
    by (auto simp: mutate_client_delete_def Let_def intro!: ok_intros split: option.split)
qed

lemma client_edit_ok:
  assumes "web_ok md5_hex w" "we_md5_hex env = md5_hex" "we_wait env = wait"
  shows "web_ok md5_hex (snd (mutate_client_edit env params w))"
proof (cases "client_vkey_by_id (re_clients (wb_reg w)) (param_id params ''id'' 0)")
  case None
  with assms(1) show ?thesis by (simp add: mutate_client_edit_def)
next
  case (Some v)
  let ?r = "wb_reg w"
  obtain c where c: "client_of v ?r = Some c" "client_ok v c" using client_by_id_ok [OF assms(1) Some] by blast
  define new where "new = (if param params ''vkey'' = [] then v else param params ''vkey'')"
  have "new \<noteq> []" using c(2) by (simp add: new_def client_ok_def)
  define s where "s = rekey_client_runtime_state v new (ci_status (rc_info (edited_client params new c))) ?r"
  have s: "registry_ok md5_hex s" unfolding s_def using assms(1) by (rule rekey_ok)
  define r2 where "r2 = s\<lparr>re_clients := hm_insert new (edited_client params new c) (hm_remove v (re_clients s))\<rparr>"
  have r2: "registry_ok md5_hex r2"
    using s edited_client_ok [OF \<open>new \<noteq> []\<close>] by (simp add: r2_def registry_ok_def)
  show ?thesis
    using assms(1) r2
    unfolding mutate_client_edit_def Let_def Some option.case new_def [symmetric] c(1) s_def [symmetric] r2_def [symmetric] assms(2,3)
    by (auto intro!: ok_intros stop_tunnels_ok)
qed

text \<open>A change of a tunnel ends in the same three steps.\<close>

lemma tunnel_changed_ok:
  assumes "registry_ok md5_hex r"
  shows "registry_ok md5_hex (refresh_tunnel_runtime_registry md5_hex (apply_tunnel_runtime_change md5_hex wait previous current r))"
  using assms by (intro secrets_ok runtime_change_ok)

lemma tunnel_status_ok:
  assumes "web_ok md5_hex w" "we_md5_hex env = md5_hex" "we_wait env = wait"
  shows "web_ok md5_hex (snd (mutate_tunnel_status env params status w))"
proof -
  have "client_ok v (c\<lparr>rc_tunnels := (rc_tunnels c)[k := (rc_tunnels c ! k)\<lparr>tn_status := status, tn_run_status := status\<rparr>]\<rparr>)"
    if "client_ok v c" "k < length (rc_tunnels c)" for v c k
    using that by (simp add: client_ok_def owned_update list_all_length [of _ "rc_tunnels c"])
  then have "registry_ok md5_hex r1" if "with_tunnel i (\<lambda>config k. let previous = rc_tunnels config ! k;
          current = previous\<lparr>tn_status := status, tn_run_status := status\<rparr>
        in (config\<lparr>rc_tunnels := (rc_tunnels config)[k := current]\<rparr>, (previous, current))) (wb_reg w) = Some (x, r1)" for i x r1
    by (intro with_tunnel_ok [OF that assms(1)]) (simp add: Let_def)
  then show ?thesis
    using assms(1) unfolding mutate_tunnel_status_def assms(2,3)
    by (auto simp: Let_def [of "apply_tunnel_runtime_change _ _ _ _ _"] Let_def [of "refresh_tunnel_runtime_registry _ _"]
        tunnel_changed_ok split: option.split)
qed

lemma tunnel_delete_ok:
  assumes "web_ok md5_hex w" "we_md5_hex env = md5_hex" "we_wait env = wait"
  shows "web_ok md5_hex (snd (mutate_tunnel_delete env params w))"
proof -
  have "registry_ok md5_hex r1" if "with_tunnel i (\<lambda>config k. (config\<lparr>rc_tunnels := remove_at k (rc_tunnels config)\<rparr>,
      rc_tunnels config ! k)) (wb_reg w) = Some (x, r1)" for i x r1
    by (rule with_tunnel_ok [OF that assms(1)]) (simp add: client_ok_def owned_update)
  then show ?thesis
    using assms(1) unfolding mutate_tunnel_delete_def assms(2,3) Let_def
    by (auto simp: tunnel_changed_ok split: option.split)
qed

lemma tunnel_copy_ok:
  assumes "web_ok md5_hex w" "we_md5_hex env = md5_hex" "we_wait env = wait"
  shows "web_ok md5_hex (snd (mutate_tunnel_copy env params w))"
proof -
  have "registry_ok md5_hex r1" if "with_tunnel i (copied env server j) (wb_reg w) = Some (x, r1)" for i j server x r1
    by (rule with_tunnel_ok [OF that assms(1)]) (rule copied_ok)
  then show ?thesis
    using assms(1) unfolding mutate_tunnel_copy_def assms(2,3) Let_def
    by (auto simp: next_link_id_def tunnel_changed_ok ids_ok split: option.split sum.split)
qed

lemma tunnel_edit_ok:
  assumes "web_ok md5_hex w" "we_md5_hex env = md5_hex" "we_wait env = wait"
  shows "web_ok md5_hex (snd (mutate_tunnel_edit env params w))"
proof -
  have "registry_ok md5_hex r1" if "with_tunnel i (edit_tunnel_at env server params) (wb_reg w) = Some (x, r1)" for i server x r1
    by (rule with_tunnel_ok [OF that assms(1)]) (rule edit_tunnel_at_ok)
  then show ?thesis
    using assms(1) unfolding mutate_tunnel_edit_def assms(2,3) Let_def
    by (auto simp: tunnel_changed_ok split: option.split sum.split)
qed

lemma tunnel_add_ok:
  assumes "web_ok md5_hex w" "we_md5_hex env = md5_hex" "we_wait env = wait"
  shows "web_ok md5_hex (snd (mutate_tunnel_add env params w))"
proof -
  obtain i r where r: "next_link_id (wb_reg w) = (i, r)" by fastforce
  have ok: "registry_ok md5_hex r" using ids_ok(2) [OF assms(1)] r by simp
  have "registry_ok md5_hex (r\<lparr>re_clients := hm_insert v (c\<lparr>rc_tunnels := rc_tunnels c @ [t\<lparr>tn_client_vkey := v\<rparr>]\<rparr>) (re_clients r)\<rparr>)"
    if "client_of v r = Some c" for v c t
    using client_of_ok [OF ok that] by (intro clients_ok ok) (simp add: client_ok_def)
  with ok show ?thesis
    unfolding mutate_tunnel_add_def r assms(2,3) Let_def prod.case
    by (auto simp: tunnel_changed_ok split: option.split sum.split)
qed

lemma post_mutation_ok:
  assumes "web_ok md5_hex w" "we_md5_hex env = md5_hex" "we_wait env = wait"
  shows "web_ok md5_hex (snd (handle_post_mutation env cookie path params w))"
proof -
  have "web_ok md5_hex (snd (dispatch_mutation env path p w))" for path p
    using client_status_ok [OF assms] client_delete_ok [OF assms] client_edit_ok [OF assms] client_add_ok [OF assms(1)]
      tunnel_status_ok [OF assms] tunnel_delete_ok [OF assms] tunnel_copy_ok [OF assms] tunnel_edit_ok [OF assms]
      tunnel_add_ok [OF assms] host_changes_ok [OF assms(1)] host_add_ok [OF assms(1)] global_save_ok [OF assms(1)] assms(1)
    by (simp add: dispatch_mutation_def)
  with assms(1) show ?thesis
    unfolding handle_post_mutation_def Let_def by (auto simp: case_prod_beta split: option.split sum.split)
qed

end

section \<open>Logins and pages\<close>

lemma persisted_reg: "persist_ajax env msg w = (a, w') \<Longrightarrow> wb_reg w' = wb_reg w"
  by (metis persist_reg(1) snd_conv)

lemma register_ok:
  assumes "web_ok md5_hex w" "register_web_user env params w = Some (a, w')"
  shows "web_ok md5_hex w'"
proof (cases "fresh_user_vkey (''user'' @ show_nat (unat (re_seq (wb_reg w)))) ((wb_reg w)\<lparr>re_seq := re_seq (wb_reg w) + 1\<rparr>)")
  case None
  show ?thesis
    using assms unfolding register_web_user_def Let_def next_link_id_def prod.case None option.case
    by (simp split: if_splits)
next
  case (Some y)
  obtain v r2 where y: "y = (v, r2)" by fastforce
  have v: "v \<noteq> []" "registry_ok md5_hex r2"
    using fresh_user_vkey_free [OF Some [unfolded y]] renumbered_ok ids_ok(1) [OF assms(1)] by auto
  have "client_ok v ((rc_info_update (\<lambda>info. info\<lparr>ci_status := True, ci_web_username := u, ci_web_password := p,
      ci_config_conn_allow := False\<rparr>) (rc_vkey_update v ClientRuntimeConfig_default))
      \<lparr>rc_id := i, rc_no_store := False, rc_create_time := t\<rparr>)" for u p i t
    using new_client_ok [OF v(1)] by (simp add: client_ok_def rc_info_update_def)
  note new = clients_ok [OF v(2) this]
  show ?thesis
    using assms new unfolding register_web_user_def Let_def next_link_id_def prod.case Some y option.case
    by (auto split: if_splits dest!: persisted_reg)
qed

lemma session_made_ok: "authenticate_web_user username password r = Some s \<Longrightarrow> session_ok token s"
  by (auto simp: authenticate_web_user_def session_ok_def WebSession_admin_def client_login_def WebSession_client_def Let_def
      split: if_splits dest!: find_map_Some)

lemma sessions_ok [ok_intros]:
  assumes "registry_ok md5_hex r"
  shows "registry_ok md5_hex (snd (handle_login_verify digest now now_debug remote params r))"
    "registry_ok md5_hex (handle_logout cookie r)"
proof -
  have captcha: "registry_ok md5_hex (snd (verify_login_captcha now token answer r))" for token answer
    using assms by (simp add: registry_ok_def verify_login_captcha_def Let_def inv_intros split: option.split)
  have put: "registry_ok md5_hex (snd (next_link_id (authorize_ip now remote 2 s))\<lparr>re_sessions :=
      hm_insert token session (re_sessions (snd (next_link_id (authorize_ip now remote 2 s))))\<rparr>)"
    if "registry_ok md5_hex s" "session_ok token session" for s token session
    using ids_ok(2) [OF access_ok(1) [OF that(1)]] that(2) by (simp add: registry_ok_def)
  show "registry_ok md5_hex (snd (handle_login_verify digest now now_debug remote params r))"
    using assms captcha
    by (auto simp: handle_login_verify_def Let_def case_prod_beta authorize_web_login_ip_def session_made_ok
        intro!: put split: option.split)
  show "registry_ok md5_hex (handle_logout cookie r)"
    using assms by (simp add: registry_ok_def handle_logout_def split: option.split)
qed

lemma pages_ok [ok_intros]:
  assumes "registry_ok md5_hex r"
  shows "registry_ok md5_hex (snd (handle_login env r))" "registry_ok md5_hex (snd (handle_register env r))"
    "registry_ok md5_hex (snd (handle_captcha env params r))"
proof -
  have "registry_ok md5_hex (snd (issue_login_captcha digest now now_debug r))" for digest now now_debug
    using assms by (simp add: registry_ok_def issue_login_captcha_def next_link_id_def Let_def inv_intros)
  then have "registry_ok md5_hex (snd (login_captcha_block env r))"
    using assms by (auto simp: login_captcha_block_def Let_def split: prod.split option.split) (metis snd_conv)+
  then have "registry_ok md5_hex (snd (render_login env r msg))" for msg
    by (simp add: render_login_def Let_def case_prod_beta)
  then show "registry_ok md5_hex (snd (handle_login env r))" "registry_ok md5_hex (snd (handle_register env r))"
    using assms by (simp_all add: handle_login_def handle_register_def case_prod_beta)
  show "registry_ok md5_hex (snd (handle_captcha env params r))"
    using assms by (auto simp: handle_captcha_def captcha_svg_def registry_ok_def inv_intros split: option.split)
qed

text \<open>Every route of the console.\<close>

context sound_wait
begin

lemma web_request_ok:
  assumes "web_ok md5_hex w" "we_md5_hex wenv = md5_hex" "we_wait wenv = wait"
    and "web_request penv wenv nest remote m full_path cookie q w = Some (a, w')"
  shows "web_ok md5_hex w'"
proof -
  have get: "registry_ok md5_hex (snd (get_route penv cookie path q (wb_reg w)))" for path
    using assms(1) by (auto simp: get_route_def intro!: ok_intros split: option.split)
  have login: "registry_ok md5_hex r" if "handle_login_verify digest now now_debug remote q (wb_reg w) = (x, r)" for digest now now_debug x r
    using sessions_ok(1) [OF assms(1), of digest now now_debug remote q] that by simp
  have "web_ok md5_hex (snd y)" if "post_route penv wenv remote cookie full_path path q w = Some y" for path y
    using that assms(1) post_mutation_ok [OF assms(1-3)] register_ok [OF assms(1)]
    by (auto simp: post_route_def handle_register_submit_def split: if_splits option.splits prod.splits dest: login)
  with assms(1,4) get show ?thesis
    by (auto simp: web_request_def Let_def case_prod_beta split: option.splits if_splits http_method.splits)
qed

end

section \<open>Visitors\<close>

lemma ask_client_ok_registry [ok_intros]:
  "registry_ok md5_hex r \<Longrightarrow> registry_ok md5_hex (snd (ask_client env vkey link r))"
  by (simp add: ask_client_def request_client_stream_ok)

lemma relay_visitor_ok [ok_intros]:
  assumes "registry_ok md5_hex r"
  shows "registry_ok md5_hex (snd (relay_visitor env vkey link a b c r))"
  using ask_client_ok_registry [OF assms, of env vkey link]
  by (cases "ask_client env vkey link r") (simp add: relay_visitor_def split: sum.split)

lemma tunnel_visitors_ok [ok_intros]:
  assumes "registry_ok md5_hex r"
  shows "registry_ok md5_hex (snd (tcp_visitor env t remote stream r))"
    "registry_ok md5_hex (snd (http_proxy_visitor env t remote stream r))"
    "registry_ok md5_hex (snd (socks5_visitor env t remote bytes r))"
    "registry_ok md5_hex (snd (udp_visitor env t peer r))"
proof -
  have sel: "registry_ok md5_hex s" if "select_target key t r = (x, s)" for key x s
    using select_target_ok [OF assms, of key t] that by simp
  have ask: "registry_ok md5_hex s'" if "registry_ok md5_hex s" "ask_client env vkey link s = (x, s')" for s vkey link x s'
    using ask_client_ok_registry [OF that(1), of env vkey link] that(2) by simp
  show "registry_ok md5_hex (snd (tcp_visitor env t remote stream r))"
    using assms by (auto simp: tcp_visitor_def intro: relay_visitor_ok dest: sel split: prod.split option.split)
  have "registry_ok md5_hex s" if "proxy_target t requested r = (x, s)" for requested x s
    using assms that by (auto simp: proxy_target_def dest: sel split: if_splits prod.splits option.splits)
  then show "registry_ok md5_hex (snd (http_proxy_visitor env t remote stream r))"
    using assms by (auto simp: http_proxy_visitor_def intro: relay_visitor_ok split: prod.split option.split sum.split)
  show "registry_ok md5_hex (snd (socks5_visitor env t remote bytes r))"
    using assms by (auto simp: socks5_visitor_def intro: relay_visitor_ok split: prod.split sum.split)
  show "registry_ok md5_hex (snd (udp_visitor env t peer r))"
    using assms by (auto simp: udp_visitor_def dest: sel ask split: prod.split option.split sum.split)
qed

lemma white_ip_ok:
  assumes "registry_ok md5_hex r"
  shows "registry_ok md5_hex (snd (add_white_ip v ip r))"
proof (cases "client_of v r")
  case (Some c)
  have "client_ok v (rc_info_update (\<lambda>i. i\<lparr>ci_ip_white_list := ci_ip_white_list i @ [ip]\<rparr>) c)"
    by (rule info_update_ok [OF client_of_ok [OF assms Some]]) simp
  with Some assms show ?thesis by (simp add: add_white_ip_def clients_ok)
qed (use assms in \<open>simp add: add_white_ip_def\<close>)

lemma host_white_ok:
  assumes "web_ok md5_hex w"
  shows "web_ok md5_hex (snd (handle_host_ip_white_auth env route remote head port w))"
proof -
  have "wb_reg (snd (persist_registry e x)) = wb_reg x" for e x
    by (simp add: persist_registry_def case_prod_beta)
  then have "web_ok md5_hex (snd (handle_host_ip_white_submit env route ip pass path no_store w))" for ip pass path no_store
    using assms white_ip_ok [OF assms]
    by (simp add: handle_host_ip_white_submit_def Let_def case_prod_beta)
  with assms show ?thesis
    by (simp add: handle_host_ip_white_auth_def Let_def case_prod_beta split: option.split)
qed

lemma proxied_ok:
  assumes "registry_ok md5_hex r"
  shows "registry_ok md5_hex (snd (proxy_host_request env route remote target head cache_key rest r))"
proof -
  have drop: "registry_ok md5_hex (drop_client_stream s r')" if "registry_ok md5_hex r'" for s r'
    unfolding drop_client_stream_def using that by (rule slots_ok)
  have "registry_ok md5_hex (r'\<lparr>re_http_cache := cache_insert key v limit (re_http_cache r')\<rparr>)"
    if "registry_ok md5_hex r'" for r' key v limit
    using that cache_insert_refines [of "re_http_cache r'" key v limit] by (simp add: registry_ok_def)
  then have cached: "registry_ok md5_hex (snd (proxy_and_cache_http_response env s key r'))" if "registry_ok md5_hex r'" for s key r'
    using that drop by (simp add: proxy_and_cache_http_response_def Let_def split: prod.split sum.split)
  have ask: "registry_ok md5_hex s'" if "ask_client e vkey link r = (x, s')" for e vkey link x s'
    using ask_client_ok_registry [OF assms, of e vkey link] that by simp
  show ?thesis
    unfolding proxy_host_request_def
    using assms by (auto dest!: ask intro: drop cached split: option.split prod.split sum.split)
qed

lemma host_request_ok:
  assumes "web_ok md5_hex w"
  shows "web_ok md5_hex (snd (host_request env port scheme bad remote head rest w))"
proof -
  have white: "web_ok md5_hex w'" if "handle_host_ip_white_auth env route remote head port w = (x, w')" for route x w'
    using host_white_ok [OF assms, of env route remote head port] that by simp
  have "registry_ok md5_hex s" if "web_ok md5_hex w'"
    "proxy_host_request env route remote target p k rest (wb_reg w') = (x, s)" for route target p k w' x s
    using proxied_ok [OF that(1), of env route remote target p k rest] that(2) by simp
  with assms show ?thesis
    unfolding host_request_def
    by (auto dest!: white split: option.split prod.split sum.split HostProxyError.split)
qed

lemma host_visitors_ok:
  assumes "web_ok md5_hex w"
  shows "web_ok md5_hex (snd (http_host_visitor env remote stream w))"
    "web_ok md5_hex (snd (handle_https_host_conn env server_name remote raw plain w))"
proof -
  show "web_ok md5_hex (snd (http_host_visitor env remote stream w))"
    using assms by (auto simp: http_host_visitor_def intro: host_request_ok split: prod.split sum.split)
  have "registry_ok md5_hex s" if "relay_visitor e vkey link a b c (wb_reg w) = (x, s)" for e vkey link a b c x s
    using relay_visitor_ok [OF assms, of e vkey link a b c] that by simp
  with assms show "web_ok md5_hex (snd (handle_https_host_conn env server_name remote raw plain w))"
    unfolding handle_https_host_conn_def
    by (auto intro: host_request_ok split: prod.split sum.split option.split)
qed

section \<open>Steps of the server\<close>

text \<open>
  One rule per kind of thread.  What a thread finds outside of the registry is arbitrary: its
  local variables, what arrives on its socket, the clock, the results of reads and writes.
  \<open>md5_hex\<close> is the one digest that all threads use.  While a change of the console waits for a
  listener to end, the other threads take any number of steps (\<open>web\<close>).
\<close>

abbreviation put_reg :: "Web \<Rightarrow> Registry \<Rightarrow> Web" where
  "put_reg w r \<equiv> w\<lparr>wb_reg := r\<rparr>"

inductive server_step :: "(string \<Rightarrow> string) \<Rightarrow> Web \<Rightarrow> Web \<Rightarrow> bool" for md5_hex where
  greeting: "he_md5_hex env = md5_hex \<Longrightarrow>
     server_step md5_hex w (put_reg w (snd (snd (handle_bridge_conn env remote hello (wb_reg w)))))"
| control: "q < length (re_queues (wb_reg w)) \<Longrightarrow>
     server_step md5_hex w (put_reg w (snd (control_step wr open_tx vkey q (wb_reg w))))"
| mux_stream: "server_step md5_hex w (put_reg w (snd (mux_accept_one stream_id (wb_reg w))))"
| mux_end: "server_step md5_hex w (put_reg w (mux_accept_end vkey (wb_reg w)))"
| request: "server_step md5_hex w (put_reg w (snd (request_step now res wrap n q (wb_reg w))))"
| dropped: "server_step md5_hex w (put_reg w (drop_client_stream s (wb_reg w)))"
| accepted: "server_step md5_hex w (put_reg w (snd (register_tunnel_live_conn i sock (wb_reg w))))"
| tcp: "server_step md5_hex w (put_reg w (snd (tcp_visitor venv t remote stream (wb_reg w))))"
| http_proxy: "server_step md5_hex w (put_reg w (snd (http_proxy_visitor venv t remote stream (wb_reg w))))"
| socks5: "server_step md5_hex w (put_reg w (snd (socks5_visitor venv t remote bytes (wb_reg w))))"
| udp: "server_step md5_hex w (put_reg w (snd (udp_visitor venv t peer (wb_reg w))))"
| visitor_gone: "server_step md5_hex w (put_reg w (unregister_tunnel_live_conn i conn (wb_reg w)))"
| listener_gone: "server_step md5_hex w (put_reg w (tunnel_task_end t (wb_reg w)))"
| http_host: "server_step md5_hex w (snd (http_host_visitor henv remote stream w))"
| https_host: "server_step md5_hex w (snd (handle_https_host_conn henv server_name remote raw plain w))"
| web: "we_md5_hex wenv = md5_hex \<Longrightarrow> pg_md5_hex penv = md5_hex \<Longrightarrow>
     (\<forall>r. \<exists>fs fs'. (server_step md5_hex)\<^sup>*\<^sup>* \<lparr>wb_reg = r, wb_files = fs\<rparr> \<lparr>wb_reg = we_wait wenv r, wb_files = fs'\<rparr>) \<Longrightarrow>
     web_request penv wenv nest remote m path cookie q w = Some (a, w') \<Longrightarrow> server_step md5_hex w w'"

text \<open>A run of the server: it starts from a store and takes any number of steps.\<close>

definition server_run ::
  "codec \<Rightarrow> (string \<Rightarrow> string) \<Rightarrow> (string \<Rightarrow> BridgeMode \<Rightarrow> unit io_result) \<Rightarrow> files \<Rightarrow> ServerConfig \<Rightarrow> Web \<Rightarrow> bool" where
  "server_run codec md5_hex bind_bridge store config w \<longleftrightarrow>
     (\<exists>services r. run_with_store codec md5_hex bind_bridge store config = Inr (services, r)
        \<and> (server_step md5_hex)\<^sup>*\<^sup>* \<lparr>wb_reg = r, wb_files = store\<rparr> w)"

section \<open>The invariant\<close>

lemma server_step_ok: "server_step md5_hex w w' \<Longrightarrow> web_ok md5_hex w \<longrightarrow> web_ok md5_hex w'"
proof (induction rule: server_step.induct)
  case (web wenv penv nest remote m path cookie q w a w')
  have wait: "registry_ok md5_hex r \<longrightarrow> registry_ok md5_hex (we_wait wenv r)" for r
  proof -
    obtain fs fs' where run: "(\<lambda>w w'. server_step md5_hex w w' \<and> (web_ok md5_hex w \<longrightarrow> web_ok md5_hex w'))\<^sup>*\<^sup>*
        \<lparr>wb_reg = r, wb_files = fs\<rparr> \<lparr>wb_reg = we_wait wenv r, wb_files = fs'\<rparr>"
      using web(4) by blast
    have "web_ok md5_hex a \<longrightarrow> web_ok md5_hex b"
      if "(\<lambda>w w'. server_step md5_hex w w' \<and> (web_ok md5_hex w \<longrightarrow> web_ok md5_hex w'))\<^sup>*\<^sup>* a b" for a b
      using that by (induction rule: rtranclp_induct) auto
    from this [OF run] show ?thesis by simp
  qed
  have sound: "sound_wait md5_hex (we_wait wenv)" using wait by unfold_locales blast
  show ?case using sound_wait.web_request_ok [OF sound _ web(1) refl web(3)] by blast
qed (auto simp: drop_client_stream_def intro: ok_intros host_visitors_ok)

lemma server_steps_ok: "(server_step md5_hex)\<^sup>*\<^sup>* w w' \<Longrightarrow> web_ok md5_hex w \<Longrightarrow> web_ok md5_hex w'"
  by (induction rule: rtranclp_induct) (auto dest: server_step_ok)

lemma run_with_store_reg:
  assumes "run_with_store codec md5_hex bind_bridge store config = Inr (services, r)" "store_load codec store = Inr state"
  shows "r = install_persistent_state md5_hex state (Registry_new config)"
  using assms by (auto simp: run_with_store_def Let_def split: sum.splits)

lemma server_run_ok:
  assumes "server_run codec md5_hex bind_bridge store config w" "store_load codec store = Inr state" "stored_ok state"
  shows "registry_ok md5_hex (wb_reg w)"
proof -
  obtain services r where run: "run_with_store codec md5_hex bind_bridge store config = Inr (services, r)"
    "(server_step md5_hex)\<^sup>*\<^sup>* \<lparr>wb_reg = r, wb_files = store\<rparr> w"
    using assms(1) by (auto simp: server_run_def)
  have "registry_ok md5_hex r"
    unfolding run_with_store_reg [OF run(1) assms(2)] by (rule install_persistent_state_ok [OF registry_ok_new assms(3)])
  with server_steps_ok [OF run(2)] show ?thesis by simp
qed

text \<open>What the invariant says of routes, secrets and control connections.\<close>

lemma route_owner:
  assumes "registry_ok md5_hex r" "find_host_route r host path scheme = Some (route, target)"
  shows "\<exists>c. client_of (ho_client_vkey route) r = Some c \<and> ci_status (rc_info c) \<and> route \<in> set (rc_hosts c)"
proof -
  have "route \<in> set (enabled_routes r)"
    using find_host_route_best [of r host path scheme] assms(2) by (simp add: best_of_def)
  then obtain c where c: "c \<in> set (hm_values (re_clients r))" "ci_status (rc_info c)" "route \<in> set (rc_hosts c)"
    by (auto simp: enabled_routes_iff)
  obtain v where v: "client_of v r = Some c"
    using hm_values_get [OF _ c(1)] assms(1) by (auto simp: registry_ok_def dest: map_ok_hm)
  with client_of_ok [OF assms(1) v] c show ?thesis by (auto simp: client_ok_def list_all_iff)
qed

lemma secret_owner:
  assumes "registry_ok md5_hex r" "secret_tunnel md5_hex password r = Some t"
  shows "is_secret_mode (tn_mode t) \<and> tn_status t \<and> tn_password t \<noteq> []
     \<and> {password, md5_hex password} \<inter> {tn_password t, md5_hex (tn_password t)} \<noteq> {}"
proof -
  have "\<exists>key \<in> {password, md5_hex password}. secret_ok md5_hex key t"
    using assms unfolding secret_tunnel_def registry_ok_def by (auto split: option.splits dest: map_ok_get)
  then show ?thesis by (auto simp: secret_ok_def)
qed

lemma control_private:
  assumes "registry_ok md5_hex r" "hm_get (re_controls r) v = Some h" "hm_get (re_controls r) v' = Some h'" "ch_tx h = ch_tx h'"
  shows "v = v'"
  using assms handles_ok_private [of "length (re_queues r)" ch_tx "re_controls r" v h v' h'] by (simp add: registry_ok_def)

text \<open>A well-formed registry without id 0 can be stored as it is.\<close>

definition ids_given :: "clients_map \<Rightarrow> bool" where
  "ids_given m \<longleftrightarrow> list_all (\<lambda>(_, c). rc_id c \<noteq> 0 \<and> list_all (\<lambda>t. tn_id t \<noteq> 0) (rc_tunnels c)
     \<and> list_all (\<lambda>h. ho_id h \<noteq> 0) (rc_hosts c)) m"

lemma registry_storable: "registry_ok md5_hex r \<Longrightarrow> ids_given (re_clients r) \<Longrightarrow> storable (re_clients r)"
  by (fastforce simp: registry_ok_def map_ok_def client_ok_def ids_given_def storable_def list_all_iff)

section \<open>A small run\<close>

text \<open>The server starts on an empty store; the administrator adds a client and a host for it.\<close>

definition demo_server :: ServerConfig where
  "demo_server = ServerConfig_default\<lparr>sc_web_username := []\<rparr>"

definition demo_started :: Web where
  "demo_started = \<lparr>wb_reg = install_persistent_state rev \<lparr>ps_clients = [], ps_tunnels = [], ps_hosts = [],
     ps_global = GlobalConfig_default\<rparr> (Registry_new demo_server), wb_files = (\<lambda>_. None)\<rparr>"

definition demo_post :: "string \<Rightarrow> params \<Rightarrow> Web \<Rightarrow> (web_answer \<times> Web) option" where
  "demo_post path params w =
     web_request (demo_page_env\<lparr>pg_md5_hex := rev\<rparr>) demo_web_env (\<lambda>_ _. None) ''1.2.3.4:5'' Post path None params w"

definition demo_served :: Web where
  "demo_served = snd (the (demo_post ''/index/addhost'' [(''client_id'', ''1''), (''host'', ''a.example''), (''target'', ''127.0.0.1:80'')]
     (snd (the (demo_post ''/client/add'' [(''vkey'', ''k'')] demo_started)))))"

lemma demo_load: "store_load demo_codec (\<lambda>_. None) =
   Inr \<lparr>ps_clients = [], ps_tunnels = [], ps_hosts = [], ps_global = GlobalConfig_default\<rparr>"
  by (simp add: store_load_def read_values_def read_single_def)

lemma demo_post_step:
  assumes "path \<noteq> ''/login/register''"
  shows "server_step rev w (snd (the (demo_post path params w)))"
proof -
  have wait: "(server_step rev)\<^sup>*\<^sup>* \<lparr>wb_reg = r, wb_files = fs\<rparr> \<lparr>wb_reg = tunnel_task_end Tunnel_default r, wb_files = fs\<rparr>" for r fs
    using server_step.listener_gone [of rev "\<lparr>wb_reg = r, wb_files = fs\<rparr>" Tunnel_default] by auto
  have "demo_post path params w \<noteq> None"
    using assms by (simp add: demo_post_def web_request_def post_route_def Let_def split: option.split prod.split)
  then obtain y where y: "demo_post path params w = Some y" by blast
  have "web_request (demo_page_env\<lparr>pg_md5_hex := rev\<rparr>) demo_web_env (\<lambda>_ _. None) ''1.2.3.4:5'' Post path None params w = Some (fst y, snd y)"
    using y by (simp add: demo_post_def)
  then show ?thesis
    unfolding y option.sel by (rule server_step.web [rotated 3]) (use wait in \<open>auto simp: demo_web_env_def\<close>)
qed

lemma demo_run: "server_run demo_codec rev (\<lambda>_ _. Inr ()) (\<lambda>_. None) demo_server demo_served"
proof -
  let ?r = "wb_reg demo_started"
  have "\<exists>services. run_with_store demo_codec rev (\<lambda>_ _. Inr ()) (\<lambda>_. None) demo_server = Inr (services, ?r)"
    by (simp add: run_with_store_def demo_load Let_def demo_started_def)
  moreover have "(server_step rev)\<^sup>*\<^sup>* demo_started (snd (the (demo_post ''/client/add'' params demo_started)))" for params
    by (rule r_into_rtranclp, rule demo_post_step) simp
  then have "(server_step rev)\<^sup>*\<^sup>* demo_started demo_served"
    unfolding demo_served_def by (rule rtranclp.rtrancl_into_rtrancl) (rule demo_post_step, simp)
  ultimately show ?thesis unfolding server_run_def by (auto simp: demo_started_def)
qed

section \<open>Properties\<close>

text \<open>
  C4: The shared state of the server is well-formed at all times.  Whatever the clients,
  visitors and users of the console do, and in whatever order the threads run: no map holds a
  key twice; a client is stored under its own, non-empty key and all its tunnels and hosts carry
  that key; every control connection has a queue and every listener a flag of its own; only
  enabled secret tunnels with a password are offered as secrets, under their password or its
  digest; a session that is not the administrator's belongs to a client; no connection count is
  zero; the order of the response cache lists exactly its entries.
\<close>

theorem reachable_registry_ok:
  assumes "server_run codec md5_hex bind_bridge store config w" "store_load codec store = Inr state" "stored_ok state"
  shows "registry_ok md5_hex (wb_reg w)"
  using assms by (rule server_run_ok)

theorem reachable_registry_ok_witness:
  "registry_ok rev (wb_reg demo_served) \<and> map fst (re_clients (wb_reg demo_served)) = [''k'']"
proof
  show "registry_ok rev (wb_reg demo_served)"
    by (rule reachable_registry_ok [OF demo_run demo_load]) (simp add: stored_ok_def)
  show "map fst (re_clients (wb_reg demo_served)) = [''k'']" by code_simp
qed




definition demo_loaded :: Registry where
  "demo_loaded = install_persistent_state rev (persistent_image [(''k'', demo_restart)] GlobalConfig_default) (Registry_new demo_server)"


end
