(* ===== verification/TlsRelay.thy ===== *)
theory TlsRelay
  imports Streams Traffic
begin

text \<open>
  The transport layers of \<open>src/relay.rs\<close>: the choice between plain, TLS and Snappy streams
  and the TLS stream, which drives a connection of the \<open>rustls\<close> package over a relay stream.
  The package is a parameter, one function per call the code makes; the wire is a reader and
  a writer as in \<open>Streams\<close>.  The locks around the connection, the reader and the writer are
  each taken for one call, which is one step here.

  Every loop is \<open>None\<close> when it does not return.  The theorems: the reading half hands over
  exactly the plain text of what is on the wire, so the relay copies it, and what becomes of
  the bytes a connection does not take.
\<close>

section \<open>Choice of the transport\<close>

datatype TransportSide = ClientSide | ServerSide

datatype transport = PlainTransport | TlsTransport TransportSide | SnappyTransport

definition wrap_transport_stream :: "bool \<Rightarrow> bool \<Rightarrow> TransportSide \<Rightarrow> transport" where
  "wrap_transport_stream crypt compress side =
     (if crypt then TlsTransport side else if compress then SnappyTransport else PlainTransport)"

definition wrap_client_transport :: "bool \<Rightarrow> bool \<Rightarrow> transport" where
  "wrap_client_transport crypt compress = wrap_transport_stream crypt compress ClientSide"

text \<open>The server also meters the stream, unless the policy has nothing to count or limit.\<close>

definition wrap_server_transport :: "bool \<Rightarrow> bool \<Rightarrow> RelayPolicy \<Rightarrow> transport \<times> RelayPolicy option" where
  "wrap_server_transport crypt compress policy =
     (wrap_transport_stream crypt compress ServerSide,
      if rp_rate_limit_kb policy = 0 \<and> rp_flow_limit_mb policy = 0 \<and> rp_flow_counter policy = None
      then None else Some policy)"

section \<open>The connection\<close>

record 'c TlsConnection =
  tc_is_handshaking :: "'c \<Rightarrow> bool"
  tc_wants_write :: "'c \<Rightarrow> bool"
  tc_write_tls :: "'c \<Rightarrow> bytes io_result \<times> 'c"
  tc_read_tls :: "bytes \<Rightarrow> 'c \<Rightarrow> nat io_result \<times> 'c"
  tc_process_new_packets :: "'c \<Rightarrow> unit io_result \<times> 'c"
  tc_read_plaintext :: "nat \<Rightarrow> 'c \<Rightarrow> bytes io_result \<times> 'c"
  tc_write_plaintext :: "bytes \<Rightarrow> 'c \<Rightarrow> nat io_result \<times> 'c"
  tc_send_close_notify :: "'c \<Rightarrow> 'c"

record ('c, 'r, 'w) TlsSharedState =
  ts_conn :: 'c
  ts_reader :: 'r
  ts_writer :: 'w

section \<open>Sending and receiving records\<close>

text \<open>The inner loop of \<open>flush_pending_tls\<close> collects what the connection wants to send.\<close>

partial_function (option) drain_tls :: "'c TlsConnection \<Rightarrow> 'c \<Rightarrow> bytes \<Rightarrow> (bytes io_result \<times> 'c) option" where
  "drain_tls ops conn out =
     (if tc_wants_write ops conn
      then (case tc_write_tls ops conn of
              (Inl e, conn') \<Rightarrow> Some (Inl e, conn')
            | (Inr wrote, conn') \<Rightarrow>
                if wrote = [] then Some (Inr out, conn') else drain_tls ops conn' (out @ wrote))
      else Some (Inr out, conn))"

declare drain_tls.simps [code]

partial_function (option) flush_pending_tls ::
  "'c TlsConnection \<Rightarrow> 'w write_op \<Rightarrow> ('c, 'r, 'w) TlsSharedState \<Rightarrow> (unit io_result \<times> ('c, 'r, 'w) TlsSharedState) option" where
  "flush_pending_tls ops wr s =
     (if \<not> tc_wants_write ops (ts_conn s) then Some (Inr (), s)
      else Option.bind (drain_tls ops (ts_conn s) []) (\<lambda>(res, conn).
        let s = s\<lparr>ts_conn := conn\<rparr>
        in case res of
             Inl e \<Rightarrow> Some (Inl e, s)
           | Inr out \<Rightarrow>
               if out = [] then Some (Inr (), s)
               else (case wr out (ts_writer s) of
                       (Inl e, w) \<Rightarrow> Some (Inl e, s\<lparr>ts_writer := w\<rparr>)
                     | (Inr _, w) \<Rightarrow> flush_pending_tls ops wr (s\<lparr>ts_writer := w\<rparr>))))"

declare flush_pending_tls.simps [code]

text \<open>
  \<open>feed_tls_from_wire\<close>: one read from the wire, offered to the connection once.  The number
  of bytes the connection took is not looked at.
\<close>

definition feed_tls_from_wire ::
  "'c TlsConnection \<Rightarrow> 'r read_op \<Rightarrow> 'w write_op \<Rightarrow> ('c, 'r, 'w) TlsSharedState
     \<Rightarrow> (nat io_result \<times> ('c, 'r, 'w) TlsSharedState) option" where
  "feed_tls_from_wire ops rd wr s =
     Option.bind (rd (16 * 1024) (ts_reader s)) (\<lambda>(res, reader).
       let s = s\<lparr>ts_reader := reader\<rparr>
       in case res of
            Inl e \<Rightarrow> Some (Inl e, s)
          | Inr buf \<Rightarrow>
              if buf = [] then Some (Inr 0, s)
              else (case tc_read_tls ops buf (ts_conn s) of
                      (Inl e, conn) \<Rightarrow> Some (Inl e, s\<lparr>ts_conn := conn\<rparr>)
                    | (Inr _, conn) \<Rightarrow>
                        (case tc_process_new_packets ops conn of
                           (Inl e, conn) \<Rightarrow> Some (Inl e, s\<lparr>ts_conn := conn\<rparr>)
                         | (Inr _, conn) \<Rightarrow>
                             Option.bind (flush_pending_tls ops wr (s\<lparr>ts_conn := conn\<rparr>)) (\<lambda>(res, s).
                               case res of
                                 Inl e \<Rightarrow> Some (Inl e, s)
                               | Inr _ \<Rightarrow> Some (Inr (length buf), s)))))"

partial_function (option) complete_tls_handshake ::
  "'c TlsConnection \<Rightarrow> 'r read_op \<Rightarrow> 'w write_op \<Rightarrow> ('c, 'r, 'w) TlsSharedState
     \<Rightarrow> (unit io_result \<times> ('c, 'r, 'w) TlsSharedState) option" where
  "complete_tls_handshake ops rd wr s =
     Option.bind (flush_pending_tls ops wr s) (\<lambda>(res, s).
       case res of
         Inl e \<Rightarrow> Some (Inl e, s)
       | Inr _ \<Rightarrow>
           if \<not> tc_is_handshaking ops (ts_conn s) then Some (Inr (), s)
           else Option.bind (feed_tls_from_wire ops rd wr s) (\<lambda>(res, s).
             case res of
               Inl e \<Rightarrow> Some (Inl e, s)
             | Inr n \<Rightarrow>
                 if n = 0 then Some (Inl (IoError UnexpectedEof ''tls handshake closed''), s)
                 else complete_tls_handshake ops rd wr s))"

declare complete_tls_handshake.simps [code]

section \<open>The two halves\<close>

definition has_result :: "bytes io_result \<Rightarrow> bool" where
  "has_result res = (case res of Inr out \<Rightarrow> out \<noteq> [] | Inl e \<Rightarrow> err_kind e \<noteq> WouldBlock)"

partial_function (option) tls_read ::
  "'c TlsConnection \<Rightarrow> 'r read_op \<Rightarrow> 'w write_op \<Rightarrow> nat \<Rightarrow> ('c, 'r, 'w) TlsSharedState
     \<Rightarrow> (bytes io_result \<times> ('c, 'r, 'w) TlsSharedState) option" where
  "tls_read ops rd wr n s =
     (case tc_read_plaintext ops n (ts_conn s) of
        (res, conn) \<Rightarrow>
          (let s = s\<lparr>ts_conn := conn\<rparr>
           in if has_result res then Some (res, s)
              else Option.bind (feed_tls_from_wire ops rd wr s) (\<lambda>(fed, s).
                case fed of
                  Inl e \<Rightarrow> Some (Inl e, s)
                | Inr k \<Rightarrow> if k = 0 then Some (Inr [], s) else tls_read ops rd wr n s)))"

declare tls_read.simps [code]

definition tls_write ::
  "'c TlsConnection \<Rightarrow> 'w write_op \<Rightarrow> bytes \<Rightarrow> ('c, 'r, 'w) TlsSharedState
     \<Rightarrow> (nat io_result \<times> ('c, 'r, 'w) TlsSharedState) option" where
  "tls_write ops wr buf s =
     (case tc_write_plaintext ops buf (ts_conn s) of
        (Inl e, conn) \<Rightarrow> Some (Inl e, s\<lparr>ts_conn := conn\<rparr>)
      | (Inr n, conn) \<Rightarrow>
          Option.bind (flush_pending_tls ops wr (s\<lparr>ts_conn := conn\<rparr>)) (\<lambda>(res, s).
            case res of Inl e \<Rightarrow> Some (Inl e, s) | Inr _ \<Rightarrow> Some (Inr n, s)))"

definition tls_shutdown_write ::
  "'c TlsConnection \<Rightarrow> 'w write_op \<Rightarrow> ('w \<Rightarrow> unit io_result \<times> 'w) \<Rightarrow> ('c, 'r, 'w) TlsSharedState
     \<Rightarrow> (unit io_result \<times> ('c, 'r, 'w) TlsSharedState) option" where
  "tls_shutdown_write ops wr shut s =
     Option.bind (flush_pending_tls ops wr (s\<lparr>ts_conn := tc_send_close_notify ops (ts_conn s)\<rparr>)) (\<lambda>(res, s).
       case res of
         Inl e \<Rightarrow> Some (Inl e, s)
       | Inr _ \<Rightarrow> (case shut (ts_writer s) of (res, w) \<Rightarrow> Some (res, s\<lparr>ts_writer := w\<rparr>)))"

text \<open>\<open>TlsRelayStream::new\<close>; making a connection of the package may fail.\<close>

definition tls_relay_new ::
  "'c TlsConnection \<Rightarrow> 'r read_op \<Rightarrow> 'w write_op \<Rightarrow> 'c io_result \<Rightarrow> 'r \<Rightarrow> 'w
     \<Rightarrow> (('c, 'r, 'w) TlsSharedState io_result) option" where
  "tls_relay_new ops rd wr made reader writer =
     (case made of
        Inl e \<Rightarrow> Some (Inl e)
      | Inr conn \<Rightarrow>
          Option.bind (complete_tls_handshake ops rd wr \<lparr>ts_conn = conn, ts_reader = reader, ts_writer = writer\<rparr>) (\<lambda>(res, s).
            case res of Inl e \<Rightarrow> Some (Inl e) | Inr _ \<Rightarrow> Some (Inr s)))"

section \<open>What the package promises\<close>

text \<open>
  A connection is seen through four functions: the records it has queued for sending, the
  bytes it has taken from the wire, the plain text it has handed out and, for the bytes on
  the wire, the plain text they stand for.  \<open>kept\<close> is the part of the state sending leaves
  alone.
\<close>

definition tls_sends :: "'c TlsConnection \<Rightarrow> ('c \<Rightarrow> bytes) \<Rightarrow> ('c \<Rightarrow> 'k) \<Rightarrow> bool" where
  "tls_sends ops queued kept \<longleftrightarrow>
     (\<forall>c. tc_wants_write ops c = (queued c \<noteq> []))
     \<and> (\<forall>c. queued c \<noteq> [] \<longrightarrow>
          (\<exists>b c'. tc_write_tls ops c = (Inr b, c') \<and> b \<noteq> [] \<and> queued c = b @ queued c' \<and> kept c' = kept c))"

text \<open>
  Of the bytes offered the connection takes \<open>took\<close> many; it fails only on bytes that are not
  \<open>authentic\<close>.
\<close>

definition tls_receives ::
  "'c TlsConnection \<Rightarrow> (bytes \<Rightarrow> bool) \<Rightarrow> (bytes \<Rightarrow> bytes) \<Rightarrow> (bytes \<Rightarrow> nat) \<Rightarrow> ('c \<Rightarrow> bytes \<times> bytes) \<Rightarrow> bool" where
  "tls_receives ops authentic plain took kept \<longleftrightarrow>
     (\<forall>a b. authentic (a @ b) \<longrightarrow> authentic a) \<and> (\<forall>a b. prefix (plain a) (plain (a @ b)))
     \<and> (\<forall>c buf. buf \<noteq> [] \<and> authentic (fst (kept c) @ buf) \<longrightarrow>
          (\<exists>c1 c2. tc_read_tls ops buf c = (Inr (took buf), c1) \<and> tc_process_new_packets ops c1 = (Inr (), c2)
             \<and> kept c2 = (fst (kept c) @ take (took buf) buf, snd (kept c))))
     \<and> (\<forall>c n. 0 < n \<and> prefix (snd (kept c)) (plain (fst (kept c))) \<longrightarrow>
          (\<exists>res c'. tc_read_plaintext ops n c = (res, c')
             \<and> (if plain (fst (kept c)) = snd (kept c) then \<not> has_result res \<and> kept c' = kept c
                else \<exists>out. res = Inr out \<and> out \<noteq> [] \<and> length out \<le> n
                       \<and> prefix (snd (kept c) @ out) (plain (fst (kept c)))
                       \<and> kept c' = (fst (kept c), snd (kept c) @ out))))"

definition writer_accepts :: "'w write_op \<Rightarrow> ('w \<Rightarrow> bytes) \<Rightarrow> bool" where
  "writer_accepts wr sent \<longleftrightarrow> (\<forall>b w. \<exists>w'. wr b w = (Inr (), w') \<and> sent w' = sent w @ b)"

section \<open>Lemmas\<close>

lemma drain_tls_all:
  assumes "tls_sends ops queued kept"
  shows "\<exists>c'. drain_tls ops c out = Some (Inr (out @ queued c), c') \<and> queued c' = [] \<and> kept c' = kept c"
proof (induction "length (queued c)" arbitrary: c out rule: less_induct)
  case less
  show ?case
  proof (cases "queued c = []")
    case True
    then show ?thesis using assms by (subst drain_tls.simps) (simp add: tls_sends_def)
  next
    case False
    with assms obtain b c1 where b: "tc_write_tls ops c = (Inr b, c1)" "b \<noteq> []" "queued c = b @ queued c1" "kept c1 = kept c"
      unfolding tls_sends_def by blast
    then have "length (queued c1) < length (queued c)" by simp
    from less [OF this, of "out @ b"] obtain c' where
      "drain_tls ops c1 (out @ b) = Some (Inr (out @ queued c), c')" "queued c' = []" "kept c' = kept c"
      using b by auto
    with False b(1,2) assms show ?thesis by (subst drain_tls.simps) (simp add: tls_sends_def)
  qed
qed

lemma flush_pending_all:
  assumes sends: "tls_sends ops queued kept" and writer: "writer_accepts wr sent"
  shows "\<exists>s'. flush_pending_tls ops wr s = Some (Inr (), s') \<and> queued (ts_conn s') = [] \<and> kept (ts_conn s') = kept (ts_conn s)
     \<and> ts_reader s' = ts_reader s \<and> sent (ts_writer s') = sent (ts_writer s) @ queued (ts_conn s)"
proof (cases "queued (ts_conn s) = []")
  case True
  then show ?thesis using sends by (subst flush_pending_tls.simps) (simp add: tls_sends_def)
next
  case False
  obtain c where c: "drain_tls ops (ts_conn s) [] = Some (Inr (queued (ts_conn s)), c)" "queued c = []" "kept c = kept (ts_conn s)"
    using drain_tls_all [OF sends, of "ts_conn s" "[]"] by auto
  obtain w where w: "wr (queued (ts_conn s)) (ts_writer s) = (Inr (), w)" "sent w = sent (ts_writer s) @ queued (ts_conn s)"
    using writer unfolding writer_accepts_def by blast
  have idle: "flush_pending_tls ops wr s1 = Some (Inr (), s1)" if "ts_conn s1 = c" for s1
    using that c(2) sends by (subst flush_pending_tls.simps) (simp add: tls_sends_def)
  show ?thesis
    using False c w sends by (subst flush_pending_tls.simps) (simp add: tls_sends_def idle)
qed

text \<open>What one read from the wire brings: the connection takes the first \<open>took\<close> of the bytes.\<close>

lemma feed_tls_takes:
  assumes sends: "tls_sends ops queued kept" and recv: "tls_receives ops authentic plain took kept"
    and writer: "writer_accepts wr sent"
    and rd: "rd (16 * 1024) (ts_reader s) = Some (Inr buf, reader)" "buf \<noteq> []"
    and auth: "authentic (fst (kept (ts_conn s)) @ buf)"
  shows "\<exists>s'. feed_tls_from_wire ops rd wr s = Some (Inr (length buf), s') \<and> ts_reader s' = reader
     \<and> kept (ts_conn s') = (fst (kept (ts_conn s)) @ take (took buf) buf, snd (kept (ts_conn s)))"
proof -
  obtain c1 c2 where c: "tc_read_tls ops buf (ts_conn s) = (Inr (took buf), c1)" "tc_process_new_packets ops c1 = (Inr (), c2)"
    "kept c2 = (fst (kept (ts_conn s)) @ take (took buf) buf, snd (kept (ts_conn s)))"
    using recv rd(2) auth unfolding tls_receives_def by blast
  obtain s' where s': "flush_pending_tls ops wr (s\<lparr>ts_reader := reader, ts_conn := c2\<rparr>) = Some (Inr (), s')"
    "kept (ts_conn s') = kept c2" "ts_reader s' = reader"
    using flush_pending_all [OF sends writer, of "s\<lparr>ts_reader := reader, ts_conn := c2\<rparr>"] by auto
  then show ?thesis using rd c by (simp add: feed_tls_from_wire_def Let_def)
qed

text \<open>
  A stream in good order: its bytes, on the wire and already taken, are authentic, and it
  handed out a prefix of their plain text.  What it still has to hand out is the rest.
\<close>

definition tls_ok ::
  "(bytes \<Rightarrow> bool) \<Rightarrow> (bytes \<Rightarrow> bytes) \<Rightarrow> ('c \<Rightarrow> bytes \<times> bytes) \<Rightarrow> ('r \<Rightarrow> bytes) \<Rightarrow> ('c, 'r, 'w) TlsSharedState \<Rightarrow> bool" where
  "tls_ok authentic plain kept pending s \<longleftrightarrow>
     authentic (fst (kept (ts_conn s)) @ pending (ts_reader s)) \<and> prefix (snd (kept (ts_conn s))) (plain (fst (kept (ts_conn s))))"

definition tls_pending ::
  "(bytes \<Rightarrow> bytes) \<Rightarrow> ('c \<Rightarrow> bytes \<times> bytes) \<Rightarrow> ('r \<Rightarrow> bytes) \<Rightarrow> ('c, 'r, 'w) TlsSharedState \<Rightarrow> bytes" where
  "tls_pending plain kept pending s =
     drop (length (snd (kept (ts_conn s)))) (plain (fst (kept (ts_conn s)) @ pending (ts_reader s)))"

text \<open>A read hands out plain text that is there, or finds the end, or takes more from the wire.\<close>

lemma tls_read_ready:
  assumes recv: "tls_receives ops authentic plain took kept" and n: "0 < n"
    and ok: "tls_ok authentic plain kept pending s" and ready: "plain (fst (kept (ts_conn s))) \<noteq> snd (kept (ts_conn s))"
  shows "\<exists>out s'. tls_read ops rd wr n s = Some (Inr out, s') \<and> out \<noteq> [] \<and> length out \<le> n
     \<and> tls_ok authentic plain kept pending s' \<and> ts_reader s' = ts_reader s
     \<and> tls_pending plain kept pending s = out @ tls_pending plain kept pending s'"
proof -
  let ?t = "fst (kept (ts_conn s))" and ?g = "snd (kept (ts_conn s))" and ?p = "pending (ts_reader s)"
  have "prefix ?g (plain ?t)" using ok by (simp add: tls_ok_def)
  then obtain c out where c: "tc_read_plaintext ops n (ts_conn s) = (Inr out, c)"
    and out: "out \<noteq> []" "length out \<le> n" "prefix (?g @ out) (plain ?t)" "kept c = (?t, ?g @ out)"
    using recv n ready unfolding tls_receives_def by metis
  have "prefix (plain ?t) (plain (?t @ ?p))" using recv by (simp add: tls_receives_def)
  with out(3) obtain z where z: "plain (?t @ ?p) = ?g @ out @ z" unfolding prefix_def by (metis append.assoc)
  have "tls_read ops rd wr n s = Some (Inr out, s\<lparr>ts_conn := c\<rparr>)"
    using c out(1) by (subst tls_read.simps) (simp add: has_result_def)
  moreover have "tls_ok authentic plain kept pending (s\<lparr>ts_conn := c\<rparr>)" using ok out(3,4) by (simp add: tls_ok_def)
  moreover have "tls_pending plain kept pending s = out @ tls_pending plain kept pending (s\<lparr>ts_conn := c\<rparr>)"
    using z out(4) by (simp add: tls_pending_def)
  ultimately show ?thesis using out(1,2) by auto
qed

lemma tls_read_waits:
  assumes recv: "tls_receives ops authentic plain took kept" and n: "0 < n"
    and ok: "tls_ok authentic plain kept pending s" and none: "plain (fst (kept (ts_conn s))) = snd (kept (ts_conn s))"
  obtains res c where "tc_read_plaintext ops n (ts_conn s) = (res, c)" "\<not> has_result res" "kept c = kept (ts_conn s)"
  using recv n none unfolding tls_receives_def by (metis prefix_order.refl)

lemma tls_read_end:
  assumes recv: "tls_receives ops authentic plain took kept" and n: "0 < n"
    and wire: "byte_reader rd pending ended" "pending (ts_reader s) = []" "ended (ts_reader s)"
    and ok: "tls_ok authentic plain kept pending s" and none: "plain (fst (kept (ts_conn s))) = snd (kept (ts_conn s))"
  shows "\<exists>s'. tls_read ops rd wr n s = Some (Inr [], s') \<and> tls_ok authentic plain kept pending s'
     \<and> ended (ts_reader s') \<and> tls_pending plain kept pending s = [] \<and> tls_pending plain kept pending s' = []"
proof -
  obtain res c where c: "tc_read_plaintext ops n (ts_conn s) = (res, c)" "\<not> has_result res" "kept c = kept (ts_conn s)"
    using tls_read_waits [OF recv n ok none] .
  from byte_reader.rd_end [OF wire(1) _ wire(2,3), of "16 * 1024"] obtain r' where
    r': "rd (16 * 1024) (ts_reader s) = Some (Inr [], r')" "pending r' = []" "ended r'" by auto
  have "tls_read ops rd wr n s = Some (Inr [], s\<lparr>ts_conn := c, ts_reader := r'\<rparr>)"
    using c r'(1) by (subst tls_read.simps) (simp add: feed_tls_from_wire_def Let_def)
  then show ?thesis using ok none wire(2) r'(2,3) c(3) by (simp add: tls_ok_def tls_pending_def)
qed

lemma tls_read_feeds:
  assumes sends: "tls_sends ops queued kept" and recv: "tls_receives ops authentic plain took kept"
    and whole: "\<And>buf. took buf = length buf" and writer: "writer_accepts wr sent"
    and wire: "byte_reader rd pending ended" "pending (ts_reader s) \<noteq> []" and n: "0 < n"
    and ok: "tls_ok authentic plain kept pending s" and none: "plain (fst (kept (ts_conn s))) = snd (kept (ts_conn s))"
  obtains s1 where "tls_read ops rd wr n s = tls_read ops rd wr n s1" "tls_ok authentic plain kept pending s1"
    "ended (ts_reader s1) = ended (ts_reader s)" "tls_pending plain kept pending s1 = tls_pending plain kept pending s"
    "length (pending (ts_reader s1)) < length (pending (ts_reader s))"
proof -
  let ?t = "fst (kept (ts_conn s))" and ?g = "snd (kept (ts_conn s))" and ?p = "pending (ts_reader s)"
  obtain res c where c: "tc_read_plaintext ops n (ts_conn s) = (res, c)" "\<not> has_result res" "kept c = kept (ts_conn s)"
    using tls_read_waits [OF recv n ok none] .
  from byte_reader.rd_data [OF wire(1) _ wire(2), of "16 * 1024"] obtain buf r' where
    buf: "rd (16 * 1024) (ts_reader s) = Some (Inr buf, r')" "buf \<noteq> []" "?p = buf @ pending r'" "ended r' = ended (ts_reader s)" by auto
  have auth: "authentic (?t @ buf @ pending r')" using ok buf(3) by (simp add: tls_ok_def)
  then have "authentic (?t @ buf)" using recv unfolding tls_receives_def by (metis append.assoc)
  then obtain s1 where s1: "feed_tls_from_wire ops rd wr (s\<lparr>ts_conn := c\<rparr>) = Some (Inr (length buf), s1)" "ts_reader s1 = r'"
    "kept (ts_conn s1) = (?t @ buf, ?g)"
    using feed_tls_takes [OF sends recv writer, of rd "s\<lparr>ts_conn := c\<rparr>" buf r'] buf(1,2) c(3) whole by auto
  have "prefix (plain ?t) (plain (?t @ buf))" using recv by (simp add: tls_receives_def)
  then have "tls_ok authentic plain kept pending s1" using auth none s1(2,3) by (simp add: tls_ok_def)
  moreover have "tls_read ops rd wr n s = tls_read ops rd wr n s1"
    using c(1,2) s1(1) buf(2) by (subst tls_read.simps) simp
  ultimately show thesis using that s1(2,3) buf(2-4) by (simp add: tls_pending_def)
qed

lemma tls_read_result:
  assumes sends: "tls_sends ops queued kept" and recv: "tls_receives ops authentic plain took kept"
    and whole: "\<And>buf. took buf = length buf" and writer: "writer_accepts wr sent"
    and wire: "byte_reader rd pending ended" and n: "0 < n"
    and ok: "tls_ok authentic plain kept pending s"
    and more: "tls_pending plain kept pending s \<noteq> [] \<or> ended (ts_reader s)"
  shows "\<exists>out s'. tls_read ops rd wr n s = Some (Inr out, s') \<and> length out \<le> n
     \<and> tls_ok authentic plain kept pending s' \<and> ended (ts_reader s') = ended (ts_reader s)
     \<and> tls_pending plain kept pending s = out @ tls_pending plain kept pending s'
     \<and> (out = [] \<longrightarrow> tls_pending plain kept pending s = [])"
  using ok more
proof (induction "length (pending (ts_reader s))" arbitrary: s rule: less_induct)
  case less
  consider (ready) "plain (fst (kept (ts_conn s))) \<noteq> snd (kept (ts_conn s))"
    | (over) "plain (fst (kept (ts_conn s))) = snd (kept (ts_conn s))" "pending (ts_reader s) = []"
    | (wait) "plain (fst (kept (ts_conn s))) = snd (kept (ts_conn s))" "pending (ts_reader s) \<noteq> []"
    by blast
  then show ?case
  proof cases
    case ready
    from tls_read_ready [OF recv n less.prems(1) this, of rd wr] show ?thesis by auto
  next
    case over
    then have "tls_pending plain kept pending s = []" by (simp add: tls_pending_def)
    then have "ended (ts_reader s)" using less.prems(2) by simp
    from tls_read_end [OF recv n wire over(2) this less.prems(1) over(1), of wr] \<open>ended (ts_reader s)\<close> show ?thesis by auto
  next
    case wait
    obtain s1 where s1: "tls_read ops rd wr n s = tls_read ops rd wr n s1" "tls_ok authentic plain kept pending s1"
      "ended (ts_reader s1) = ended (ts_reader s)" "tls_pending plain kept pending s1 = tls_pending plain kept pending s"
      "length (pending (ts_reader s1)) < length (pending (ts_reader s))"
      using tls_read_feeds [OF sends recv whole writer wire wait(2) n less.prems(1) wait(1)] .
    from less.hyps [OF s1(5,2)] less.prems(2) show ?thesis unfolding s1 by auto
  qed
qed

text \<open>The reading half is a reader in the sense of \<open>Streams\<close>.\<close>

definition tls_rest where
  "tls_rest authentic plain kept pending s =
     (if tls_ok authentic plain kept pending s then tls_pending plain kept pending s else [])"

definition tls_ended where
  "tls_ended authentic plain kept pending ended s \<longleftrightarrow> tls_ok authentic plain kept pending s \<and> ended (ts_reader s)"

lemma tls_byte_reader:
  assumes "tls_sends ops queued kept" "tls_receives ops authentic plain took kept" "\<And>buf. took buf = length buf"
    and "writer_accepts wr sent" "byte_reader rd pending ended"
  shows "byte_reader (tls_read ops rd wr) (tls_rest authentic plain kept pending) (tls_ended authentic plain kept pending ended)"
proof
  fix n :: nat and s assume n: "0 < n"
  note result = tls_read_result [OF assms n]
  show "\<exists>out s'. tls_read ops rd wr n s = Some (Inr out, s') \<and> out \<noteq> [] \<and> length out \<le> n
      \<and> tls_rest authentic plain kept pending s = out @ tls_rest authentic plain kept pending s'
      \<and> tls_ended authentic plain kept pending ended s' = tls_ended authentic plain kept pending ended s"
    if rest: "tls_rest authentic plain kept pending s \<noteq> []"
  proof -
    have ok: "tls_ok authentic plain kept pending s" "tls_pending plain kept pending s \<noteq> []"
      using rest by (auto simp: tls_rest_def split: if_splits)
    from result [OF ok(1)] ok(2) obtain out s' where "tls_read ops rd wr n s = Some (Inr out, s')" "length out \<le> n"
      "tls_ok authentic plain kept pending s'" "ended (ts_reader s') = ended (ts_reader s)" "out \<noteq> []"
      "tls_pending plain kept pending s = out @ tls_pending plain kept pending s'" by blast
    then show ?thesis using ok by (intro exI [of _ out] exI [of _ s']) (simp add: tls_rest_def tls_ended_def)
  qed
  show "\<exists>s'. tls_read ops rd wr n s = Some (Inr [], s') \<and> tls_rest authentic plain kept pending s' = []
      \<and> tls_ended authentic plain kept pending ended s'"
    if rest: "tls_rest authentic plain kept pending s = []" and end_: "tls_ended authentic plain kept pending ended s"
  proof -
    have ok: "tls_ok authentic plain kept pending s" "ended (ts_reader s)" "tls_pending plain kept pending s = []"
      using rest end_ by (simp_all add: tls_rest_def tls_ended_def)
    from result [OF ok(1)] ok(2) obtain out s' where "tls_read ops rd wr n s = Some (Inr out, s')"
      "tls_ok authentic plain kept pending s'" "ended (ts_reader s') = ended (ts_reader s)"
      "tls_pending plain kept pending s = out @ tls_pending plain kept pending s'" by blast
    then show ?thesis using ok by (intro exI [of _ s']) (simp add: tls_rest_def tls_ended_def)
  qed
qed

text \<open>
  The handshake returns: on a wire that ends, it ends with a connection that is ready or with
  the error that the peer closed, in which case the whole wire was read, and no byte is lost.
\<close>

lemma tls_handshake_returns:
  assumes sends: "tls_sends ops queued kept" and recv: "tls_receives ops authentic plain took kept"
    and whole: "\<And>buf. took buf = length buf" and writer: "writer_accepts wr sent"
    and wire: "byte_reader rd pending ended" and end_: "ended (ts_reader s)"
    and auth: "authentic (fst (kept (ts_conn s)) @ pending (ts_reader s))"
  shows "\<exists>res s'. complete_tls_handshake ops rd wr s = Some (res, s')
     \<and> (case res of Inr _ \<Rightarrow> \<not> tc_is_handshaking ops (ts_conn s')
          | Inl e \<Rightarrow> err_kind e = UnexpectedEof \<and> pending (ts_reader s') = [])
     \<and> fst (kept (ts_conn s')) @ pending (ts_reader s') = fst (kept (ts_conn s)) @ pending (ts_reader s)"
  using end_ auth
proof (induction "length (pending (ts_reader s))" arbitrary: s rule: less_induct)
  case less
  obtain s1 where s1: "flush_pending_tls ops wr s = Some (Inr (), s1)" "kept (ts_conn s1) = kept (ts_conn s)" "ts_reader s1 = ts_reader s"
    using flush_pending_all [OF sends writer, of s] by auto
  show ?case
  proof (cases "tc_is_handshaking ops (ts_conn s1)")
    case False
    with s1 show ?thesis by (subst complete_tls_handshake.simps) simp
  next
    case busy: True
    show ?thesis
    proof (cases "pending (ts_reader s) = []")
      case True
      from byte_reader.rd_end [OF wire _ True less.prems(1), of "16 * 1024"] obtain r' where
        "rd (16 * 1024) (ts_reader s) = Some (Inr [], r')" "pending r' = []" by auto
      then have "feed_tls_from_wire ops rd wr s1 = Some (Inr 0, s1\<lparr>ts_reader := r'\<rparr>)"
        using s1(3) by (simp add: feed_tls_from_wire_def)
      with busy s1 \<open>pending r' = []\<close> True show ?thesis by (subst complete_tls_handshake.simps) simp
    next
      case False
      from byte_reader.rd_data [OF wire _ False, of "16 * 1024"] obtain buf r' where
        buf: "rd (16 * 1024) (ts_reader s) = Some (Inr buf, r')" "buf \<noteq> []" "pending (ts_reader s) = buf @ pending r'"
        "ended r' = ended (ts_reader s)" by auto
      have "authentic (fst (kept (ts_conn s)) @ buf)"
        using less.prems(2) buf(3) recv unfolding tls_receives_def by (metis append.assoc)
      then obtain s2 where s2: "feed_tls_from_wire ops rd wr s1 = Some (Inr (length buf), s2)" "ts_reader s2 = r'"
        "fst (kept (ts_conn s2)) = fst (kept (ts_conn s)) @ buf"
        using feed_tls_takes [OF sends recv writer, of rd s1 buf r'] buf(1,2) s1(2,3) whole by auto
      have "complete_tls_handshake ops rd wr s = complete_tls_handshake ops rd wr s2"
        using busy s1 s2(1) buf(2) by (subst complete_tls_handshake.simps) simp
      moreover have "length (pending (ts_reader s2)) < length (pending (ts_reader s))" using s2(2) buf(2,3) by simp
      ultimately show ?thesis
        using less.hyps [of s2] less.prems s2(2,3) buf(3,4) by simp
    qed
  qed
qed

text \<open>A write reaches the wire before it returns.\<close>

lemma tls_write_sends:
  assumes "tls_sends ops queued kept" "writer_accepts wr sent" "tc_write_plaintext ops buf (ts_conn s) = (Inr n, conn)"
  shows "\<exists>s'. tls_write ops wr buf s = Some (Inr n, s') \<and> queued (ts_conn s') = []
     \<and> sent (ts_writer s') = sent (ts_writer s) @ queued conn"
  using flush_pending_all [OF assms(1,2), of "s\<lparr>ts_conn := conn\<rparr>"] assms(3) by (auto simp: tls_write_def)

section \<open>A connection for examples\<close>

text \<open>Plain text on the wire, one byte of it being sent back for each piece taken.\<close>

record demo_conn =
  dc_taken :: bytes
  dc_given :: bytes
  dc_queued :: bytes

definition demo_tls :: "(bytes \<Rightarrow> nat) \<Rightarrow> demo_conn TlsConnection" where
  "demo_tls took =
     \<lparr>tc_is_handshaking = (\<lambda>c. dc_taken c = []), tc_wants_write = (\<lambda>c. dc_queued c \<noteq> []),
      tc_write_tls = (\<lambda>c. (Inr (take 1 (dc_queued c)), c\<lparr>dc_queued := drop 1 (dc_queued c)\<rparr>)),
      tc_read_tls = (\<lambda>buf c. (Inr (took buf), c\<lparr>dc_taken := dc_taken c @ take (took buf) buf\<rparr>)),
      tc_process_new_packets = (\<lambda>c. (Inr (), c\<lparr>dc_queued := dc_queued c @ [1]\<rparr>)),
      tc_read_plaintext = (\<lambda>n c. let out = take n (drop (length (dc_given c)) (dc_taken c))
                                  in (Inr out, c\<lparr>dc_given := dc_given c @ out\<rparr>)),
      tc_write_plaintext = (\<lambda>buf c. (Inr (length buf), c\<lparr>dc_queued := dc_queued c @ buf\<rparr>)),
      tc_send_close_notify = (\<lambda>c. c)\<rparr>"

abbreviation demo_kept :: "demo_conn \<Rightarrow> bytes \<times> bytes" where
  "demo_kept c \<equiv> (dc_taken c, dc_given c)"

definition list_read :: "bytes read_op" where
  "list_read n s = Some (Inr (take n s), drop n s)"

definition list_write :: "bytes write_op" where
  "list_write b w = (Inr (), w @ b)"

definition demo_stream :: "bytes \<Rightarrow> (demo_conn, bytes, bytes) TlsSharedState" where
  "demo_stream wire = \<lparr>ts_conn = \<lparr>dc_taken = [], dc_given = [], dc_queued = []\<rparr>, ts_reader = wire, ts_writer = []\<rparr>"

lemma list_reader: "byte_reader list_read (\<lambda>s. s) (\<lambda>_. True)"
  by unfold_locales (auto simp: list_read_def)

lemma list_sink: "byte_sink list_write (\<lambda>w. w) (\<lambda>_. True)"
  by unfold_locales (auto simp: list_write_def)

lemma list_accepts: "writer_accepts list_write (\<lambda>w. w)"
  by (simp add: writer_accepts_def list_write_def)

lemma demo_sends: "tls_sends (demo_tls took) dc_queued demo_kept"
  by (auto simp: tls_sends_def demo_tls_def neq_Nil_conv)

lemma demo_receives: "tls_receives (demo_tls took) (\<lambda>_. True) (\<lambda>b. b) took demo_kept"
  by (auto simp: tls_receives_def demo_tls_def has_result_def Let_def prefix_def) (metis append_take_drop_id)

section \<open>Properties\<close>



text \<open>
  Bytes a connection does not take are lost.  A connection may take fewer bytes than it is
  offered and tells how many; the code offers each piece once.  The bytes after the first
  ones taken are then neither in the connection nor on the wire, and the read reports all of
  them as received.
\<close>

lemma tls_unread_bytes_lost:
  assumes "tls_sends ops queued kept" "tls_receives ops authentic plain took kept" "writer_accepts wr sent"
    and "rd (16 * 1024) (ts_reader s) = Some (Inr buf, reader)" "took buf < length buf"
    and "authentic (fst (kept (ts_conn s)) @ buf)"
  shows "\<exists>s'. feed_tls_from_wire ops rd wr s = Some (Inr (length buf), s') \<and> ts_reader s' = reader
     \<and> fst (kept (ts_conn s')) = fst (kept (ts_conn s)) @ take (took buf) buf
     \<and> length (fst (kept (ts_conn s'))) < length (fst (kept (ts_conn s)) @ buf)"
proof -
  have "buf \<noteq> []" using assms(5) by auto
  from feed_tls_takes [where rd = rd and s = s, OF assms(1-4) this assms(6)] assms(5) show ?thesis by fastforce
qed

end
