(* ===== verification/Relays.thy ===== *)
theory Relays
  imports Bridge TlsRelay
begin

text \<open>
  The relay between a visitor and the stream of a client: \<open>copy_bidirectional\<close> with its two
  threads, the halves of a metered stream, which share a flow counter and a rate limiter
  (\<open>src/relay.rs\<close>), and the guard of the connection slot, which the halves of a counted
  stream share (\<open>src/server.rs\<close>).

  A thread is cut at its reads and writes; a relay takes turns, in any order, of its two
  threads and of the other streams of the client, which count on the same counter.  A turn of a
  thread that has ended, or whose read would wait, changes nothing.
\<close>

section \<open>Metered halves\<close>

text \<open>One call of \<open>write\<close>, which may take only a part of the bytes.\<close>

type_synonym 'w piece_op = "bytes \<Rightarrow> 'w \<Rightarrow> usize io_result \<times> 'w"
type_synonym 'w flush_op = "'w \<Rightarrow> unit io_result \<times> 'w"

definition metered_half_count :: "u64 \<Rightarrow> u64 \<Rightarrow> usize \<Rightarrow> rat \<Rightarrow> metered \<Rightarrow> unit io_result \<times> metered" where
  "metered_half_count inlet export n now m =
     (case record_flow_counter (me_flow_counter m, me_flow_limit_bytes m) inlet export of
        (Inl e, _) \<Rightarrow> (Inl e, m)
      | (Inr _, flow_counter, _) \<Rightarrow>
          (Inr (), m\<lparr>me_flow_counter := flow_counter,
                     me_limiter := snd (limit_rate (me_limiter m) (of_nat n) now)\<rparr>))"

definition MeteredReaderHalf_read ::
  "'s read_op \<Rightarrow> rat \<Rightarrow> usize \<Rightarrow> 's \<Rightarrow> metered \<Rightarrow> (bytes io_result \<times> 's \<times> metered) option" where
  "MeteredReaderHalf_read rd now max_len reader m =
     (case rd max_len reader of
        None \<Rightarrow> None
      | Some (Inl e, reader') \<Rightarrow> Some (Inl e, reader', m)
      | Some (Inr buf, reader') \<Rightarrow>
          if buf = [] then Some (Inr buf, reader', m)
          else (case metered_half_count 0 (of_nat (length buf)) (length buf) now m of
                  (Inl e, m') \<Rightarrow> Some (Inl e, reader', m')
                | (Inr _, m') \<Rightarrow> Some (Inr buf, reader', m')))"

definition MeteredWriterHalf_write ::
  "'w piece_op \<Rightarrow> rat \<Rightarrow> bytes \<Rightarrow> 'w \<Rightarrow> metered \<Rightarrow> usize io_result \<times> 'w \<times> metered" where
  "MeteredWriterHalf_write wr now buf writer m =
     (case wr buf writer of
        (Inl e, writer') \<Rightarrow> (Inl e, writer', m)
      | (Inr n, writer') \<Rightarrow>
          if n = 0 then (Inr n, writer', m)
          else (case metered_half_count (of_nat n) 0 n now m of
                  (Inl e, m') \<Rightarrow> (Inl e, writer', m')
                | (Inr _, m') \<Rightarrow> (Inr n, writer', m')))"

section \<open>A copying thread\<close>

text \<open>
  \<open>copy_one_way\<close>, one read or write at a time: \<open>write_all\<close> repeats \<open>write\<close> with the bytes
  that are left, and is followed by \<open>flush\<close>.
\<close>

datatype copy_point = CopyReading | CopyWriting bytes | CopyEnded "unit io_result"

record ('s, 'w) copier =
  cp_point :: copy_point
  cp_reader :: 's
  cp_writer :: 'w

definition write_zero :: io_error where
  "write_zero = IoError WriteZero ''failed to write whole buffer''"

definition copy_step ::
  "('s \<Rightarrow> 'm \<Rightarrow> (bytes io_result \<times> 's \<times> 'm) option) \<Rightarrow> (bytes \<Rightarrow> 'w \<Rightarrow> 'm \<Rightarrow> usize io_result \<times> 'w \<times> 'm)
     \<Rightarrow> 'w flush_op \<Rightarrow> ('w \<Rightarrow> 'w) \<Rightarrow> ('s, 'w) copier \<Rightarrow> 'm \<Rightarrow> (('s, 'w) copier \<times> 'm) option" where
  "copy_step rd wr fl shut c m =
     (case cp_point c of
        CopyReading \<Rightarrow>
          (case rd (cp_reader c) m of
             None \<Rightarrow> None
           | Some (Inl e, reader, m') \<Rightarrow> Some (c\<lparr>cp_point := CopyEnded (Inl e), cp_reader := reader\<rparr>, m')
           | Some (Inr buf, reader, m') \<Rightarrow>
               if buf = [] then Some (c\<lparr>cp_point := CopyEnded (Inr ()), cp_reader := reader, cp_writer := shut (cp_writer c)\<rparr>, m')
               else Some (c\<lparr>cp_point := CopyWriting buf, cp_reader := reader\<rparr>, m'))
      | CopyWriting buf \<Rightarrow>
          (case wr buf (cp_writer c) m of
             (Inl e, writer, m') \<Rightarrow> Some (c\<lparr>cp_point := CopyEnded (Inl e), cp_writer := writer\<rparr>, m')
           | (Inr n, writer, m') \<Rightarrow>
               if n = 0 then Some (c\<lparr>cp_point := CopyEnded (Inl write_zero), cp_writer := writer\<rparr>, m')
               else if n < length buf then Some (c\<lparr>cp_point := CopyWriting (drop n buf), cp_writer := writer\<rparr>, m')
               else (case fl writer of
                       (Inl e, writer') \<Rightarrow> Some (c\<lparr>cp_point := CopyEnded (Inl e), cp_writer := writer'\<rparr>, m')
                     | (Inr _, writer') \<Rightarrow> Some (c\<lparr>cp_point := CopyReading, cp_writer := writer'\<rparr>, m')))
      | CopyEnded _ \<Rightarrow> None)"

definition copy_has_ended :: "('s, 'w) copier \<Rightarrow> bool" where
  "copy_has_ended c = (case cp_point c of CopyEnded _ \<Rightarrow> True | _ \<Rightarrow> False)"

section \<open>The relay\<close>

text \<open>The operations of the visitor's connection and of the stream inside the metered one.\<close>

record ('s, 'w, 't, 'v) relay_ops =
  ro_visitor_read :: "'s read_op"
  ro_visitor_write :: "'v piece_op"
  ro_visitor_flush :: "'v flush_op"
  ro_visitor_shutdown :: "'v \<Rightarrow> 'v"
  ro_client_read :: "'t read_op"
  ro_client_write :: "'w piece_op"
  ro_client_flush :: "'w flush_op"
  ro_client_shutdown :: "'w \<Rightarrow> 'w"

text \<open>
  Both threads, what their metered halves share, how many halves of the counted stream are
  alive, and the registry.
\<close>

record ('s, 'w, 't, 'v) relay =
  rl_to_client :: "('s, 'w) copier"
  rl_to_visitor :: "('t, 'v) copier"
  rl_meter :: metered
  rl_guards :: nat
  rl_reg :: Registry

text \<open>Splitting the counted stream gives each half a share of the guard.\<close>

definition relay_start :: "'s \<Rightarrow> 'v \<Rightarrow> 't \<Rightarrow> 'w \<Rightarrow> metered \<Rightarrow> Registry \<Rightarrow> ('s, 'w, 't, 'v) relay" where
  "relay_start left_reader left_writer right_reader right_writer m r =
     \<lparr>rl_to_client = \<lparr>cp_point = CopyReading, cp_reader = left_reader, cp_writer = right_writer\<rparr>,
      rl_to_visitor = \<lparr>cp_point = CopyReading, cp_reader = right_reader, cp_writer = left_writer\<rparr>,
      rl_meter = m, rl_guards = 2, rl_reg = r\<rparr>"

text \<open>A thread that ends drops its halves; the last share of the guard gives back the slot.\<close>

definition drop_guard :: "string \<Rightarrow> ('s, 'w, 't, 'v) relay \<Rightarrow> ('s, 'w, 't, 'v) relay" where
  "drop_guard vkey ry =
     ry\<lparr>rl_guards := rl_guards ry - 1,
        rl_reg := (if rl_guards ry = 1 then release_client_connection_slot vkey (rl_reg ry) else rl_reg ry)\<rparr>"

definition to_client_turn ::
  "('s, 'w, 't, 'v) relay_ops \<Rightarrow> string \<Rightarrow> rat \<Rightarrow> ('s, 'w, 't, 'v) relay \<Rightarrow> ('s, 'w, 't, 'v) relay" where
  "to_client_turn ops vkey now ry =
     (case copy_step (\<lambda>s m. map_option (\<lambda>(res, s'). (res, s', m)) (ro_visitor_read ops COPY_BUF s))
             (MeteredWriterHalf_write (ro_client_write ops) now) (ro_client_flush ops) (ro_client_shutdown ops)
             (rl_to_client ry) (rl_meter ry) of
        None \<Rightarrow> ry
      | Some (c, m) \<Rightarrow>
          (let ry' = ry\<lparr>rl_to_client := c, rl_meter := m\<rparr> in if copy_has_ended c then drop_guard vkey ry' else ry'))"

definition to_visitor_turn ::
  "('s, 'w, 't, 'v) relay_ops \<Rightarrow> string \<Rightarrow> rat \<Rightarrow> ('s, 'w, 't, 'v) relay \<Rightarrow> ('s, 'w, 't, 'v) relay" where
  "to_visitor_turn ops vkey now ry =
     (case copy_step (MeteredReaderHalf_read (ro_client_read ops) now COPY_BUF)
             (\<lambda>buf w m. case ro_visitor_write ops buf w of (res, w') \<Rightarrow> (res, w', m))
             (ro_visitor_flush ops) (ro_visitor_shutdown ops) (rl_to_visitor ry) (rl_meter ry) of
        None \<Rightarrow> ry
      | Some (c, m) \<Rightarrow>
          (let ry' = ry\<lparr>rl_to_visitor := c, rl_meter := m\<rparr> in if copy_has_ended c then drop_guard vkey ry' else ry'))"

datatype relay_turn = ToClient rat | ToVisitor rat | OtherStreams u64 u64

fun relay_step :: "('s, 'w, 't, 'v) relay_ops \<Rightarrow> string \<Rightarrow> relay_turn \<Rightarrow> ('s, 'w, 't, 'v) relay \<Rightarrow> ('s, 'w, 't, 'v) relay" where
  "relay_step ops vkey (ToClient now) ry = to_client_turn ops vkey now ry"
| "relay_step ops vkey (ToVisitor now) ry = to_visitor_turn ops vkey now ry"
| "relay_step ops vkey (OtherStreams inlet export) ry =
     ry\<lparr>rl_meter := (rl_meter ry)\<lparr>me_flow_counter := map_option (\<lambda>c. flow_add c inlet export) (me_flow_counter (rl_meter ry))\<rparr>\<rparr>"

text \<open>\<open>copy_bidirectional\<close> returns when both threads have been joined.\<close>

definition copy_bidirectional ::
  "('s, 'w, 't, 'v) relay_ops \<Rightarrow> string \<Rightarrow> relay_turn list \<Rightarrow> ('s, 'w, 't, 'v) relay \<Rightarrow> ('s, 'w, 't, 'v) relay \<times> bool" where
  "copy_bidirectional ops vkey turns ry =
     (let ry' = fold (relay_step ops vkey) turns ry
      in (ry', copy_has_ended (rl_to_client ry') \<and> copy_has_ended (rl_to_visitor ry')))"

section \<open>The copy loop and its steps\<close>

text \<open>\<open>write_all\<close> and \<open>flush\<close> as the one operation over which \<open>copy_one_way\<close> is defined.\<close>

function write_all :: "'w piece_op \<Rightarrow> bytes \<Rightarrow> 'w \<Rightarrow> unit io_result \<times> 'w" where
  "write_all wr buf w =
     (if buf = [] then (Inr (), w)
      else (case wr buf w of
              (Inl e, w') \<Rightarrow> (Inl e, w')
            | (Inr n, w') \<Rightarrow> if n = 0 then (Inl write_zero, w') else write_all wr (drop n buf) w'))"
  by pat_completeness auto
termination by (relation "measure (\<lambda>(_, buf, _). length buf)") (auto simp: neq_Nil_conv)

declare write_all.simps [simp del]

definition write_flush :: "'w piece_op \<Rightarrow> 'w flush_op \<Rightarrow> 'w write_op" where
  "write_flush wr fl buf w = (case write_all wr buf w of (Inl e, w') \<Rightarrow> (Inl e, w') | (Inr _, w') \<Rightarrow> fl w')"

text \<open>One step of a thread over unmetered halves.\<close>

definition copy_next :: "'s read_op \<Rightarrow> 'w piece_op \<Rightarrow> 'w flush_op \<Rightarrow> ('w \<Rightarrow> 'w) \<Rightarrow> ('s, 'w) copier \<Rightarrow> ('s, 'w) copier \<Rightarrow> bool" where
  "copy_next rd wr fl shut c c' \<longleftrightarrow>
     copy_step (\<lambda>s m. map_option (\<lambda>(res, s'). (res, s', m)) (rd COPY_BUF s)) (\<lambda>buf w m. case wr buf w of (res, w') \<Rightarrow> (res, w', m))
       fl shut c () = Some (c', ())"

abbreviation copier_at :: "copy_point \<Rightarrow> 's \<Rightarrow> 'w \<Rightarrow> ('s, 'w) copier" where
  "copier_at p s w \<equiv> \<lparr>cp_point = p, cp_reader = s, cp_writer = w\<rparr>"

text \<open>What the loop returns from where a thread is.\<close>

definition copy_rest :: "'s read_op \<Rightarrow> 'w piece_op \<Rightarrow> 'w flush_op \<Rightarrow> ('w \<Rightarrow> 'w) \<Rightarrow> ('s, 'w) copier \<Rightarrow> (unit io_result \<times> 's \<times> 'w) option" where
  "copy_rest rd wr fl shut c =
     (case cp_point c of
        CopyReading \<Rightarrow> copy_one_way rd (write_flush wr fl) shut (cp_reader c) (cp_writer c)
      | CopyWriting buf \<Rightarrow>
          (case write_flush wr fl buf (cp_writer c) of
             (Inl e, w') \<Rightarrow> Some (Inl e, cp_reader c, w')
           | (Inr _, w') \<Rightarrow> copy_one_way rd (write_flush wr fl) shut (cp_reader c) w')
      | CopyEnded res \<Rightarrow> Some (res, cp_reader c, cp_writer c))"

definition writes_something :: "('s, 'w) copier \<Rightarrow> bool" where
  "writes_something c \<longleftrightarrow> cp_point c \<noteq> CopyWriting []"

lemma copy_next_rest:
  assumes "copy_next rd wr fl shut c c'" "writes_something c"
  shows "copy_rest rd wr fl shut c' = copy_rest rd wr fl shut c \<and> writes_something c'"
proof (cases "cp_point c")
  case CopyReading
  then show ?thesis
    using assms copy_one_way.simps [of rd "write_flush wr fl" shut "cp_reader c" "cp_writer c"]
    by (auto simp: copy_next_def copy_step_def copy_rest_def writes_something_def split: option.splits sum.splits if_splits prod.splits)
next
  case (CopyWriting buf)
  then show ?thesis
    using assms write_all.simps [of wr buf "cp_writer c"] write_all.simps [of wr "[]"]
    by (auto simp: copy_next_def copy_step_def copy_rest_def writes_something_def write_flush_def split: sum.splits if_splits prod.splits)
next
  case (CopyEnded res)
  then show ?thesis using assms by (simp add: copy_next_def copy_step_def)
qed

lemma write_flush_steps:
  assumes "buf \<noteq> []"
  shows "(copy_next rd wr fl shut)\<^sup>*\<^sup>* (copier_at (CopyWriting buf) s w)
     (case write_flush wr fl buf w of (Inl e, w') \<Rightarrow> copier_at (CopyEnded (Inl e)) s w' | (Inr _, w') \<Rightarrow> copier_at CopyReading s w')"
  using assms
proof (induction wr buf w rule: write_all.induct)
  case (1 wr buf w)
  let ?goal = "\<lambda>b x. case write_flush wr fl b x of (Inl e, w') \<Rightarrow> copier_at (CopyEnded (Inl e)) s w' | (Inr _, w') \<Rightarrow> copier_at CopyReading s w'"
  show ?case
  proof (cases "\<exists>n w'. wr buf w = (Inr n, w') \<and> 0 < n \<and> n < length buf")
    case True
    then obtain n w' where n: "wr buf w = (Inr n, w')" "0 < n" "n < length buf" by blast
    have "copy_next rd wr fl shut (copier_at (CopyWriting buf) s w) (copier_at (CopyWriting (drop n buf)) s w')"
      using n by (simp add: copy_next_def copy_step_def)
    moreover have "(copy_next rd wr fl shut)\<^sup>*\<^sup>* (copier_at (CopyWriting (drop n buf)) s w') (?goal (drop n buf) w')"
      using 1 n by auto
    moreover have "write_flush wr fl buf w = write_flush wr fl (drop n buf) w'"
      using n 1(2) by (simp add: write_flush_def write_all.simps [of wr buf])
    ultimately show ?thesis by (simp add: converse_rtranclp_into_rtranclp)
  next
    case False
    then have "copy_next rd wr fl shut (copier_at (CopyWriting buf) s w) (?goal buf w)"
      using 1(2) by (auto simp: copy_next_def copy_step_def write_flush_def write_all.simps [of wr buf] write_all.simps [of wr "[]"]
          split: sum.splits prod.splits)
    then show ?thesis by blast
  qed
qed

lemma copy_read_steps:
  assumes "rd COPY_BUF s = Some (res, s')"
  shows "copy_next rd wr fl shut (copier_at CopyReading s w)
     (case res of
        Inl e \<Rightarrow> copier_at (CopyEnded (Inl e)) s' w
      | Inr buf \<Rightarrow> if buf = [] then copier_at (CopyEnded (Inr ())) s' (shut w) else copier_at (CopyWriting buf) s' w)"
  using assms by (auto simp: copy_next_def copy_step_def split: sum.split)

lemma copy_one_way_steps:
  assumes "copy_one_way rd (write_flush wr fl) shut s w = Some (res, s', w')"
  shows "(copy_next rd wr fl shut)\<^sup>*\<^sup>* (copier_at CopyReading s w) (copier_at (CopyEnded res) s' w')"
proof -
  let ?P = "\<lambda>rd wo shut s w out. wo = write_flush wr fl \<longrightarrow>
    (copy_next rd wr fl shut)\<^sup>*\<^sup>* (copier_at CopyReading s w) (copier_at (CopyEnded (fst out)) (fst (snd out)) (snd (snd out)))"
  have "?P rd (write_flush wr fl) shut s w (res, s', w')"
  proof (rule copy_one_way.raw_induct [where P = ?P, OF _ assms], rule impI)
    fix copy rd wo shut s w out
    assume IH: "\<And>rd wo shut s w y. copy rd wo shut s w = Some y \<Longrightarrow> ?P rd wo shut s w y"
      and eq: "Option.bind (rd COPY_BUF s) (\<lambda>(res, s'). case res of Inl e \<Rightarrow> Some (Inl e, s', w)
         | Inr buf \<Rightarrow> if buf = [] then Some (Inr (), s', shut w)
             else (case wo buf w of (Inl e, w') \<Rightarrow> Some (Inl e, s', w') | (Inr _, w') \<Rightarrow> copy rd wo shut s' w')) = Some out"
      and wo: "wo = write_flush wr fl"
    obtain res s' where rd: "rd COPY_BUF s = Some (res, s')" using eq by (auto simp: bind_eq_Some_conv)
    note first = copy_read_steps [where rd = rd and s = s, OF rd, of wr fl shut w]
    show "(copy_next rd wr fl shut)\<^sup>*\<^sup>* (copier_at CopyReading s w) (copier_at (CopyEnded (fst out)) (fst (snd out)) (snd (snd out)))"
    proof (cases "\<exists>buf. res = Inr buf \<and> buf \<noteq> []")
      case True
      then obtain buf where buf: "res = Inr buf" "buf \<noteq> []" by blast
      have "(copy_next rd wr fl shut)\<^sup>*\<^sup>* (copier_at CopyReading s w) (copier_at (CopyWriting buf) s' w)"
        using first buf by auto
      also note write_flush_steps [OF buf(2), of rd wr fl shut s' w]
      also have "(copy_next rd wr fl shut)\<^sup>*\<^sup>*
          (case write_flush wr fl buf w of (Inl e, w') \<Rightarrow> copier_at (CopyEnded (Inl e)) s' w' | (Inr _, w') \<Rightarrow> copier_at CopyReading s' w')
          (copier_at (CopyEnded (fst out)) (fst (snd out)) (snd (snd out)))"
        using eq rd buf wo IH by (auto split: prod.splits sum.splits)
      finally show ?thesis .
    next
      case False
      then show ?thesis using first eq rd by (auto split: sum.splits)
    qed
  qed
  then show ?thesis by simp
qed

lemma copy_steps_rest:
  assumes "(copy_next rd wr fl shut)\<^sup>*\<^sup>* c c'" "writes_something c"
  shows "copy_rest rd wr fl shut c' = copy_rest rd wr fl shut c \<and> writes_something c'"
  using assms by (induction rule: rtranclp_induct) (auto dest: copy_next_rest)

section \<open>What a thread keeps\<close>

text \<open>
  The operations of a thread on its halves and on a shared value of type \<open>'m\<close>.  \<open>keeps r w m\<close>
  is a relation between the bytes the thread has read, the bytes whose writing it knows of and
  the shared value, which every operation keeps; \<open>fails\<close> tells whether operations may fail.
\<close>

definition reads_from ::
  "bool \<Rightarrow> (nat \<Rightarrow> nat \<Rightarrow> 'm \<Rightarrow> bool) \<Rightarrow> ('s \<Rightarrow> 'm \<Rightarrow> (bytes io_result \<times> 's \<times> 'm) option) \<Rightarrow> ('s \<Rightarrow> bytes) \<Rightarrow> ('s \<Rightarrow> bool) \<Rightarrow> bool" where
  "reads_from fails keeps rd pending ended \<longleftrightarrow>
     (\<forall>s m r w. ended s \<longrightarrow> keeps r w m \<longrightarrow>
        (\<exists>res s' m'. rd s m = Some (res, s', m') \<and> ended s' \<and>
           (case res of
              Inl _ \<Rightarrow> fails \<and> keeps r w m'
            | Inr buf \<Rightarrow> length buf \<le> COPY_BUF \<and> pending s = buf @ pending s' \<and> (buf = [] \<longrightarrow> pending s = [])
                \<and> keeps (r + length buf) w m')))"

definition writes_to ::
  "bool \<Rightarrow> (nat \<Rightarrow> nat \<Rightarrow> 'm \<Rightarrow> bool) \<Rightarrow> (bytes \<Rightarrow> 'w \<Rightarrow> 'm \<Rightarrow> usize io_result \<times> 'w \<times> 'm) \<Rightarrow> ('w \<Rightarrow> bytes) \<Rightarrow> ('w \<Rightarrow> bool) \<Rightarrow> bool" where
  "writes_to fails keeps wr contents fine \<longleftrightarrow>
     (\<forall>buf x m r w. fine x \<longrightarrow> buf \<noteq> [] \<longrightarrow> length buf \<le> COPY_BUF \<longrightarrow> keeps r w m \<longrightarrow>
        (\<exists>res x' m' n. wr buf x m = (res, x', m') \<and> fine x' \<and> 0 < n \<and> n \<le> length buf \<and> contents x' = contents x @ take n buf \<and>
           (case res of Inl _ \<Rightarrow> fails \<and> keeps r w m' | Inr k \<Rightarrow> k = n \<and> keeps r (w + n) m')))"

text \<open>\<open>flush\<close> succeeds, and neither it nor \<open>shutdown_write\<close> touches the bytes.\<close>

definition closes :: "'w flush_op \<Rightarrow> ('w \<Rightarrow> 'w) \<Rightarrow> ('w \<Rightarrow> bytes) \<Rightarrow> ('w \<Rightarrow> bool) \<Rightarrow> bool" where
  "closes fl shut contents fine \<longleftrightarrow>
     (\<forall>x. fine x \<longrightarrow> (\<exists>x'. fl x = (Inr (), x') \<and> fine x' \<and> contents x' = contents x)
        \<and> fine (shut x) \<and> contents (shut x) = contents x)"

text \<open>
  A thread has passed on \<open>x\<close> of its input: \<open>r\<close> bytes are read, and of those written all but a
  buffer are known to be.  When it has ended well, all are written and its writer is shut down.
\<close>

definition has_copied ::
  "bool \<Rightarrow> ('s \<Rightarrow> bytes) \<Rightarrow> ('w \<Rightarrow> bytes) \<Rightarrow> ('w \<Rightarrow> 'w) \<Rightarrow> bytes \<Rightarrow> bytes \<Rightarrow> nat \<Rightarrow> nat \<Rightarrow> ('s, 'w) copier \<Rightarrow> bytes \<Rightarrow> bool" where
  "has_copied fails pending contents shut before input r w c x \<longleftrightarrow>
     contents (cp_writer c) = before @ x \<and>
     (case cp_point c of
        CopyReading \<Rightarrow> x @ pending (cp_reader c) = input \<and> r = length x \<and> w = length x
      | CopyWriting buf \<Rightarrow> buf \<noteq> [] \<and> length buf \<le> COPY_BUF \<and> x @ buf @ pending (cp_reader c) = input
          \<and> r = length x + length buf \<and> w = length x
      | CopyEnded (Inr _) \<Rightarrow> x = input \<and> r = length x \<and> w = length x \<and> (\<exists>v. cp_writer c = shut v)
      | CopyEnded (Inl _) \<Rightarrow> fails \<and> prefix x input \<and> length x \<le> r \<and> length x \<le> w + COPY_BUF)"

definition copy_work :: "('s \<Rightarrow> bytes) \<Rightarrow> ('s, 'w) copier \<Rightarrow> nat" where
  "copy_work pending c =
     (case cp_point c of
        CopyReading \<Rightarrow> 2 * length (pending (cp_reader c)) + 1
      | CopyWriting buf \<Rightarrow> 2 * (length buf + length (pending (cp_reader c)))
      | CopyEnded _ \<Rightarrow> 0)"

text \<open>A step leads to such a state again, and less is left to do.\<close>

definition step_kept ::
  "bool \<Rightarrow> (nat \<Rightarrow> nat \<Rightarrow> 'm \<Rightarrow> bool) \<Rightarrow> ('s \<Rightarrow> bytes) \<Rightarrow> ('s \<Rightarrow> bool) \<Rightarrow> ('w \<Rightarrow> bytes) \<Rightarrow> ('w \<Rightarrow> bool) \<Rightarrow> ('w \<Rightarrow> 'w)
     \<Rightarrow> bytes \<Rightarrow> bytes \<Rightarrow> ('s, 'w) copier \<Rightarrow> (('s, 'w) copier \<times> 'm) option \<Rightarrow> bool" where
  "step_kept fails keeps pending ended contents fine shut before input c out \<longleftrightarrow>
     (\<exists>c' m' r w x. out = Some (c', m') \<and> has_copied fails pending contents shut before input r w c' x
        \<and> ended (cp_reader c') \<and> fine (cp_writer c') \<and> keeps r w m' \<and> copy_work pending c' < copy_work pending c)"

lemma step_keptI:
  assumes "out = Some (c', m')" "has_copied fails pending contents shut before input r w c' x"
    and "ended (cp_reader c')" "fine (cp_writer c')" "keeps r w m'" "copy_work pending c' < copy_work pending c"
  shows "step_kept fails keeps pending ended contents fine shut before input c out"
  using assms unfolding step_kept_def by blast

lemma copy_reading_kept:
  assumes "reads_from fails keeps rd pending ended" "closes fl shut contents fine" "cp_point c = CopyReading"
    and "has_copied fails pending contents shut before input r w c x" "ended (cp_reader c)" "fine (cp_writer c)" "keeps r w m"
  shows "step_kept fails keeps pending ended contents fine shut before input c (copy_step rd wr fl shut c m)"
proof -
  have x: "contents (cp_writer c) = before @ x" "x @ pending (cp_reader c) = input" "r = length x" "w = length x"
    using assms(3,4) by (auto simp: has_copied_def)
  obtain res s' m' where rd: "rd (cp_reader c) m = Some (res, s', m')" "ended s'"
    "case res of Inl _ \<Rightarrow> fails \<and> keeps r w m' | Inr buf \<Rightarrow> length buf \<le> COPY_BUF \<and> pending (cp_reader c) = buf @ pending s'
       \<and> (buf = [] \<longrightarrow> pending (cp_reader c) = []) \<and> keeps (r + length buf) w m'"
    using assms(1,5,7) unfolding reads_from_def by blast
  show ?thesis
  proof (cases "\<exists>buf. res = Inr buf \<and> buf \<noteq> []")
    case True
    then obtain buf where buf: "res = Inr buf" "buf \<noteq> []" by blast
    show ?thesis
      by (rule step_keptI [of _ "c\<lparr>cp_point := CopyWriting buf, cp_reader := s'\<rparr>" m' _ _ _ _ _ _ "r + length buf" w x])
        (use rd x assms(3,6) buf in \<open>auto simp: copy_step_def has_copied_def copy_work_def\<close>)
  next
    case False
    show ?thesis
      by (rule step_keptI [of _ "case res of Inl e \<Rightarrow> c\<lparr>cp_point := CopyEnded (Inl e), cp_reader := s'\<rparr>
            | Inr _ \<Rightarrow> c\<lparr>cp_point := CopyEnded (Inr ()), cp_reader := s', cp_writer := shut (cp_writer c)\<rparr>" m' _ _ _ _ _ _ r w x])
        (use rd x assms(2,3,6) False in \<open>auto simp: copy_step_def has_copied_def copy_work_def closes_def split: sum.splits\<close>)
  qed
qed

lemma copy_writing_kept:
  assumes "writes_to fails keeps wr contents fine" "closes fl shut contents fine" "cp_point c = CopyWriting buf"
    and "has_copied fails pending contents shut before input r w c x" "ended (cp_reader c)" "fine (cp_writer c)" "keeps r w m"
  shows "step_kept fails keeps pending ended contents fine shut before input c (copy_step rd wr fl shut c m)"
proof -
  have x: "contents (cp_writer c) = before @ x" "buf \<noteq> []" "length buf \<le> COPY_BUF" "x @ buf @ pending (cp_reader c) = input"
    "r = length x + length buf" "w = length x"
    using assms(3,4) by (auto simp: has_copied_def)
  obtain res v m' n where wr: "wr buf (cp_writer c) m = (res, v, m')" "fine v" "0 < n" "n \<le> length buf"
    "contents v = contents (cp_writer c) @ take n buf"
    "case res of Inl _ \<Rightarrow> fails \<and> keeps r w m' | Inr k \<Rightarrow> k = n \<and> keeps r (w + n) m'"
    using assms(1,6,7) x(2,3) unfolding writes_to_def by blast
  have split: "x @ take n buf @ drop n buf @ pending (cp_reader c) = input"
    using x(4) by (metis append.assoc append_take_drop_id)
  then have pre: "prefix (x @ take n buf) input" by (metis append.assoc prefixI)
  obtain v' where fl: "fl v = (Inr (), v')" "fine v'" "contents v' = contents v"
    using assms(2) wr(2) unfolding closes_def by blast
  consider e where "res = Inl e" | "res = Inr n" "n < length buf" | "res = Inr n" "n = length buf" "Suc 0 < 2 * length buf"
    using wr(4,6) x(2) by (cases res; cases buf) fastforce+
  then show ?thesis
  proof cases
    case 1
    show ?thesis
      by (rule step_keptI [of _ "c\<lparr>cp_point := CopyEnded (Inl e), cp_writer := v\<rparr>" m' _ _ _ _ _ _ r w "x @ take n buf"])
        (use wr x pre assms(3,5) 1 in \<open>auto simp: copy_step_def has_copied_def copy_work_def\<close>)
  next
    case 2
    show ?thesis
      by (rule step_keptI [of _ "c\<lparr>cp_point := CopyWriting (drop n buf), cp_writer := v\<rparr>" m' _ _ _ _ _ _ r "w + n" "x @ take n buf"])
        (use wr x split assms(3,5) 2 in \<open>auto simp: copy_step_def has_copied_def copy_work_def\<close>)
  next
    case 3
    show ?thesis
      by (rule step_keptI [of _ "c\<lparr>cp_point := CopyReading, cp_writer := v'\<rparr>" m' _ _ _ _ _ _ r "w + n" "x @ buf"])
        (use wr x fl assms(3,5) 3 in \<open>auto simp: copy_step_def has_copied_def copy_work_def\<close>)
  qed
qed

lemma copy_step_copied:
  assumes "reads_from fails keeps rd pending ended" "writes_to fails keeps wr contents fine" "closes fl shut contents fine"
    and "has_copied fails pending contents shut before input r w c x" "ended (cp_reader c)" "fine (cp_writer c)" "keeps r w m"
    and "\<not> copy_has_ended c"
  obtains c' m' r' w' x' where "copy_step rd wr fl shut c m = Some (c', m')" "has_copied fails pending contents shut before input r' w' c' x'"
    "ended (cp_reader c')" "fine (cp_writer c')" "keeps r' w' m'" "copy_work pending c' < copy_work pending c"
proof -
  have "step_kept fails keeps pending ended contents fine shut before input c (copy_step rd wr fl shut c m)"
    using copy_reading_kept [where c = c and ended = ended, OF assms(1,3) _ assms(4-7)]
      copy_writing_kept [where c = c and ended = ended, OF assms(2,3) _ assms(4-7)] assms(8)
    by (cases "cp_point c") (simp_all add: copy_has_ended_def)
  then show thesis using that unfolding step_kept_def by blast
qed

lemma copied_prefix: "has_copied fails pending contents shut before input r w c x \<Longrightarrow> prefix x input"
  by (auto simp: has_copied_def split: copy_point.splits sum.splits)

lemma copied_counts:
  assumes "has_copied fails pending contents shut before input r w c x"
  shows "length x \<le> r" "length x \<le> w + COPY_BUF"
  using assms by (auto simp: has_copied_def split: copy_point.splits sum.splits)

section \<open>What a relay keeps\<close>

text \<open>A connection takes a part of every piece.\<close>

definition takes_pieces :: "'w piece_op \<Rightarrow> ('w \<Rightarrow> bytes) \<Rightarrow> ('w \<Rightarrow> bool) \<Rightarrow> bool" where
  "takes_pieces wr contents fine \<longleftrightarrow>
     (\<forall>buf x. fine x \<longrightarrow> buf \<noteq> [] \<longrightarrow>
        (\<exists>x' n. wr buf x = (Inr n, x') \<and> fine x' \<and> 0 < n \<and> n \<le> length buf \<and> contents x' = contents x @ take n buf))"

text \<open>\<open>keeps a b m\<close>: the halves have counted \<open>a\<close> bytes to the client and \<open>b\<close> bytes from it.\<close>

definition meter_keeps :: "bool \<Rightarrow> (nat \<Rightarrow> nat \<Rightarrow> metered \<Rightarrow> bool) \<Rightarrow> bool" where
  "meter_keeps fails keeps \<longleftrightarrow>
     (\<forall>a b m n now. keeps a b m \<longrightarrow> 0 < n \<longrightarrow> n \<le> COPY_BUF \<longrightarrow>
        (case metered_half_count (of_nat n) 0 n now m of (Inl _, m') \<Rightarrow> fails \<and> keeps a b m' | (Inr _, m') \<Rightarrow> keeps (a + n) b m') \<and>
        (case metered_half_count 0 (of_nat n) n now m of (Inl _, m') \<Rightarrow> fails \<and> keeps a b m' | (Inr _, m') \<Rightarrow> keeps a (b + n) m')) \<and>
     (\<forall>a b m i e. keeps a b m \<longrightarrow>
        keeps a b (m\<lparr>me_flow_counter := map_option (\<lambda>c. flow_add c i e) (me_flow_counter m)\<rparr>))"

lemma byte_reader_read:
  assumes "byte_reader rd pending ended" "ended s"
  obtains buf s' where "rd COPY_BUF s = Some (Inr buf, s')" "ended s'" "length buf \<le> COPY_BUF"
    "pending s = buf @ pending s'" "buf = [] \<longrightarrow> pending s = []"
proof (cases "pending s = []")
  case True
  with byte_reader.rd_end [OF assms(1), of COPY_BUF s] assms(2) that [of "[]"] show thesis by (auto simp: COPY_BUF_def)
next
  case False
  with byte_reader.rd_data [OF assms(1), of COPY_BUF s] assms(2) that show thesis by (auto simp: COPY_BUF_def)
qed

lemma plain_reads:
  assumes "byte_reader rd pending ended"
  shows "reads_from fails (\<lambda>r w m. keeps w m) (\<lambda>s m. map_option (\<lambda>(res, s'). (res, s', m)) (rd COPY_BUF s)) pending ended"
  unfolding reads_from_def
proof (intro allI impI)
  fix s m and r w :: nat
  assume "ended s" "keeps w m"
  moreover obtain buf s' where "rd COPY_BUF s = Some (Inr buf, s')" "ended s'" "length buf \<le> COPY_BUF"
    "pending s = buf @ pending s'" "buf = [] \<longrightarrow> pending s = []"
    using byte_reader_read [OF assms \<open>ended s\<close>] .
  ultimately show "\<exists>res s' m'. map_option (\<lambda>(res, s'). (res, s', m)) (rd COPY_BUF s) = Some (res, s', m') \<and> ended s' \<and>
      (case res of Inl _ \<Rightarrow> fails \<and> keeps w m'
       | Inr buf \<Rightarrow> length buf \<le> COPY_BUF \<and> pending s = buf @ pending s' \<and> (buf = [] \<longrightarrow> pending s = []) \<and> keeps w m')"
    by simp
qed

lemma metered_reads:
  assumes "byte_reader rd pending ended" "meter_keeps fails keeps"
  shows "reads_from fails (\<lambda>r w m. keeps a r m) (MeteredReaderHalf_read rd now COPY_BUF) pending ended"
  unfolding reads_from_def
proof (intro allI impI)
  fix s m r w
  assume "ended s" and k: "keeps a r m"
  obtain buf s' where rd: "rd COPY_BUF s = Some (Inr buf, s')" "ended s'" "length buf \<le> COPY_BUF"
    "pending s = buf @ pending s'" "buf = [] \<longrightarrow> pending s = []"
    using byte_reader_read [OF assms(1) \<open>ended s\<close>] .
  have c: "case metered_half_count 0 (of_nat (length buf)) (length buf) now m of
      (Inl _, m') \<Rightarrow> fails \<and> keeps a r m' | (Inr _, m') \<Rightarrow> keeps a (r + length buf) m'" if "buf \<noteq> []"
    using assms(2) k rd(3) that unfolding meter_keeps_def by simp
  show "\<exists>res s' m'. MeteredReaderHalf_read rd now COPY_BUF s m = Some (res, s', m') \<and> ended s' \<and>
      (case res of Inl _ \<Rightarrow> fails \<and> keeps a r m'
       | Inr buf \<Rightarrow> length buf \<le> COPY_BUF \<and> pending s = buf @ pending s' \<and> (buf = [] \<longrightarrow> pending s = []) \<and> keeps a (r + length buf) m')"
    using rd k c by (auto simp: MeteredReaderHalf_read_def split: prod.splits sum.splits)
qed

lemma plain_writes:
  assumes "takes_pieces wr contents fine"
  shows "writes_to fails (\<lambda>r w m. keeps r m) (\<lambda>buf x m. case wr buf x of (res, x') \<Rightarrow> (res, x', m)) contents fine"
  using assms unfolding takes_pieces_def writes_to_def by (fastforce split: prod.splits)

lemma metered_writes:
  assumes "takes_pieces wr contents fine" "meter_keeps fails keeps"
  shows "writes_to fails (\<lambda>r w m. keeps w b m) (MeteredWriterHalf_write wr now) contents fine"
  unfolding writes_to_def
proof (intro allI impI)
  fix buf :: bytes and x m and r w :: nat
  assume h: "fine x" "buf \<noteq> []" "length buf \<le> COPY_BUF" "keeps w b m"
  obtain x' n where wr: "wr buf x = (Inr n, x')" "fine x'" "0 < n" "n \<le> length buf" "contents x' = contents x @ take n buf"
    using assms(1) h(1,2) unfolding takes_pieces_def by blast
  have "case metered_half_count (of_nat n) 0 n now m of (Inl _, m') \<Rightarrow> fails \<and> keeps w b m' | (Inr _, m') \<Rightarrow> keeps (w + n) b m'"
    using assms(2) h(3,4) wr(3,4) unfolding meter_keeps_def by simp
  then show "\<exists>res x' m' n. MeteredWriterHalf_write wr now buf x m = (res, x', m') \<and> fine x' \<and> 0 < n \<and> n \<le> length buf
      \<and> contents x' = contents x @ take n buf \<and> (case res of Inl _ \<Rightarrow> fails \<and> keeps w b m' | Inr k \<Rightarrow> k = n \<and> keeps (w + n) b m')"
    using wr by (auto simp: MeteredWriterHalf_write_def split: prod.splits sum.splits)
qed

text \<open>
  What the relay relies on of the two connections: \<open>vw_left_in\<close> and \<open>vw_right_in\<close> are the bytes
  that visitor and client have yet to send, \<open>vw_visitor\<close> and \<open>vw_client\<close> those they received.
\<close>

record ('s, 'w, 't, 'v) relay_view =
  vw_left_in :: "'s \<Rightarrow> bytes"
  vw_left_ended :: "'s \<Rightarrow> bool"
  vw_right_in :: "'t \<Rightarrow> bytes"
  vw_right_ended :: "'t \<Rightarrow> bool"
  vw_client :: "'w \<Rightarrow> bytes"
  vw_client_fine :: "'w \<Rightarrow> bool"
  vw_visitor :: "'v \<Rightarrow> bytes"
  vw_visitor_fine :: "'v \<Rightarrow> bool"

definition relay_env :: "('s, 'w, 't, 'v) relay_ops \<Rightarrow> ('s, 'w, 't, 'v) relay_view \<Rightarrow> bool" where
  "relay_env ops vw \<longleftrightarrow>
     byte_reader (ro_visitor_read ops) (vw_left_in vw) (vw_left_ended vw)
     \<and> byte_reader (ro_client_read ops) (vw_right_in vw) (vw_right_ended vw)
     \<and> takes_pieces (ro_client_write ops) (vw_client vw) (vw_client_fine vw)
     \<and> takes_pieces (ro_visitor_write ops) (vw_visitor vw) (vw_visitor_fine vw)
     \<and> closes (ro_client_flush ops) (ro_client_shutdown ops) (vw_client vw) (vw_client_fine vw)
     \<and> closes (ro_visitor_flush ops) (ro_visitor_shutdown ops) (vw_visitor vw) (vw_visitor_fine vw)"

definition relay_ready :: "('s, 'w, 't, 'v) relay_view \<Rightarrow> ('s, 'w, 't, 'v) relay \<Rightarrow> bool" where
  "relay_ready vw ry \<longleftrightarrow>
     vw_left_ended vw (cp_reader (rl_to_client ry)) \<and> vw_right_ended vw (cp_reader (rl_to_visitor ry))
     \<and> vw_client_fine vw (cp_writer (rl_to_client ry)) \<and> vw_visitor_fine vw (cp_writer (rl_to_visitor ry))"

definition guards_kept :: "string \<Rightarrow> Registry \<Rightarrow> ('s, 'w, 't, 'v) relay \<Rightarrow> bool" where
  "guards_kept vkey r ry \<longleftrightarrow>
     rl_guards ry = (if copy_has_ended (rl_to_client ry) then 0 else 1) + (if copy_has_ended (rl_to_visitor ry) then 0 else 1)
     \<and> rl_reg ry = (if copy_has_ended (rl_to_client ry) \<and> copy_has_ended (rl_to_visitor ry)
                    then release_client_connection_slot vkey r else r)"

definition relay_kept ::
  "bool \<Rightarrow> (nat \<Rightarrow> nat \<Rightarrow> metered \<Rightarrow> bool) \<Rightarrow> ('s, 'w, 't, 'v) relay_ops \<Rightarrow> ('s, 'w, 't, 'v) relay_view
     \<Rightarrow> ('s, 'w, 't, 'v) relay \<Rightarrow> ('s, 'w, 't, 'v) relay
     \<Rightarrow> bytes \<Rightarrow> bytes \<Rightarrow> bool" where
  "relay_kept fails keeps ops vw ry0 ry x y \<longleftrightarrow>
     (\<exists>ra wa rb wb.
        has_copied fails (vw_left_in vw) (vw_client vw) (ro_client_shutdown ops) (vw_client vw (cp_writer (rl_to_client ry0)))
          (vw_left_in vw (cp_reader (rl_to_client ry0))) ra wa (rl_to_client ry) x
        \<and> has_copied fails (vw_right_in vw) (vw_visitor vw) (ro_visitor_shutdown ops) (vw_visitor vw (cp_writer (rl_to_visitor ry0)))
          (vw_right_in vw (cp_reader (rl_to_visitor ry0))) rb wb (rl_to_visitor ry) y
        \<and> keeps wa rb (rl_meter ry))
     \<and> relay_ready vw ry"

definition turns_left :: "('s, 'w, 't, 'v) relay_view \<Rightarrow> ('s, 'w, 't, 'v) relay \<Rightarrow> nat \<times> nat" where
  "turns_left vw ry = (copy_work (vw_left_in vw) (rl_to_client ry), copy_work (vw_right_in vw) (rl_to_visitor ry))"

lemma drop_guard_fields [simp]:
  "rl_to_client (drop_guard vkey ry) = rl_to_client ry" "rl_to_visitor (drop_guard vkey ry) = rl_to_visitor ry"
  "rl_meter (drop_guard vkey ry) = rl_meter ry"
  by (simp_all add: drop_guard_def)

lemma copy_step_ended: "copy_has_ended c \<Longrightarrow> copy_step rd wr fl shut c m = None"
  by (auto simp: copy_has_ended_def copy_step_def split: copy_point.splits)

lemma to_client_turn_kept:
  assumes "relay_env ops vw" "meter_keeps fails keeps" "relay_kept fails keeps ops vw ry0 ry x y" "guards_kept vkey r ry"
  obtains x' where "relay_kept fails keeps ops vw ry0 (to_client_turn ops vkey now ry) x' y" "guards_kept vkey r (to_client_turn ops vkey now ry)"
    "fst (turns_left vw (to_client_turn ops vkey now ry)) \<le> fst (turns_left vw ry) - 1"
    "snd (turns_left vw (to_client_turn ops vkey now ry)) = snd (turns_left vw ry)"
proof (cases "copy_has_ended (rl_to_client ry)")
  case True
  then have "to_client_turn ops vkey now ry = ry" by (simp add: to_client_turn_def copy_step_ended)
  moreover have "fst (turns_left vw ry) = 0"
    using assms(3) True by (auto simp: turns_left_def relay_kept_def copy_work_def copy_has_ended_def split: copy_point.splits)
  ultimately show thesis using that [of x] assms(3,4) by simp
next
  case False
  obtain ra wa rb wb where kept:
    "has_copied fails (vw_left_in vw) (vw_client vw) (ro_client_shutdown ops) (vw_client vw (cp_writer (rl_to_client ry0)))
       (vw_left_in vw (cp_reader (rl_to_client ry0))) ra wa (rl_to_client ry) x"
    "has_copied fails (vw_right_in vw) (vw_visitor vw) (ro_visitor_shutdown ops) (vw_visitor vw (cp_writer (rl_to_visitor ry0)))
       (vw_right_in vw (cp_reader (rl_to_visitor ry0))) rb wb (rl_to_visitor ry) y"
    "keeps wa rb (rl_meter ry)" "relay_ready vw ry"
    using assms(3) unfolding relay_kept_def by blast
  have ops: "reads_from fails (\<lambda>r w m. keeps w rb m) (\<lambda>s m. map_option (\<lambda>(res, s'). (res, s', m)) (ro_visitor_read ops COPY_BUF s))
      (vw_left_in vw) (vw_left_ended vw)"
    "writes_to fails (\<lambda>r w m. keeps w rb m) (MeteredWriterHalf_write (ro_client_write ops) now) (vw_client vw) (vw_client_fine vw)"
    "closes (ro_client_flush ops) (ro_client_shutdown ops) (vw_client vw) (vw_client_fine vw)"
    using assms(1) by (auto simp: relay_env_def intro!: plain_reads metered_writes assms(2))
  obtain c m r' w' x' where step:
    "copy_step (\<lambda>s m. map_option (\<lambda>(res, s'). (res, s', m)) (ro_visitor_read ops COPY_BUF s))
       (MeteredWriterHalf_write (ro_client_write ops) now) (ro_client_flush ops) (ro_client_shutdown ops)
       (rl_to_client ry) (rl_meter ry) = Some (c, m)"
    "has_copied fails (vw_left_in vw) (vw_client vw) (ro_client_shutdown ops) (vw_client vw (cp_writer (rl_to_client ry0)))
       (vw_left_in vw (cp_reader (rl_to_client ry0))) r' w' c x'"
    "vw_left_ended vw (cp_reader c)" "vw_client_fine vw (cp_writer c)" "keeps w' rb m"
    "copy_work (vw_left_in vw) c < copy_work (vw_left_in vw) (rl_to_client ry)"
    by (rule copy_step_copied [OF ops kept(1) _ _ kept(3) False]) (use kept(4) in \<open>auto simp: relay_ready_def\<close>)
  show thesis
    by (rule that [of x'])
      (use step kept assms(4) False in \<open>auto simp: to_client_turn_def relay_kept_def relay_ready_def turns_left_def guards_kept_def
         drop_guard_def Let_def\<close>)
qed

lemma to_visitor_turn_kept:
  assumes "relay_env ops vw" "meter_keeps fails keeps" "relay_kept fails keeps ops vw ry0 ry x y" "guards_kept vkey r ry"
  obtains y' where "relay_kept fails keeps ops vw ry0 (to_visitor_turn ops vkey now ry) x y'" "guards_kept vkey r (to_visitor_turn ops vkey now ry)"
    "fst (turns_left vw (to_visitor_turn ops vkey now ry)) = fst (turns_left vw ry)"
    "snd (turns_left vw (to_visitor_turn ops vkey now ry)) \<le> snd (turns_left vw ry) - 1"
proof (cases "copy_has_ended (rl_to_visitor ry)")
  case True
  then have "to_visitor_turn ops vkey now ry = ry" by (simp add: to_visitor_turn_def copy_step_ended)
  moreover have "snd (turns_left vw ry) = 0"
    using True by (auto simp: turns_left_def copy_work_def copy_has_ended_def split: copy_point.splits)
  ultimately show thesis using that [of y] assms(3,4) by simp
next
  case False
  obtain ra wa rb wb where kept:
    "has_copied fails (vw_left_in vw) (vw_client vw) (ro_client_shutdown ops) (vw_client vw (cp_writer (rl_to_client ry0)))
       (vw_left_in vw (cp_reader (rl_to_client ry0))) ra wa (rl_to_client ry) x"
    "has_copied fails (vw_right_in vw) (vw_visitor vw) (ro_visitor_shutdown ops) (vw_visitor vw (cp_writer (rl_to_visitor ry0)))
       (vw_right_in vw (cp_reader (rl_to_visitor ry0))) rb wb (rl_to_visitor ry) y"
    "keeps wa rb (rl_meter ry)" "relay_ready vw ry"
    using assms(3) unfolding relay_kept_def by blast
  have ops: "reads_from fails (\<lambda>r w m. keeps wa r m) (MeteredReaderHalf_read (ro_client_read ops) now COPY_BUF)
      (vw_right_in vw) (vw_right_ended vw)"
    "writes_to fails (\<lambda>r w m. keeps wa r m) (\<lambda>buf w m. case ro_visitor_write ops buf w of (res, w') \<Rightarrow> (res, w', m))
      (vw_visitor vw) (vw_visitor_fine vw)"
    "closes (ro_visitor_flush ops) (ro_visitor_shutdown ops) (vw_visitor vw) (vw_visitor_fine vw)"
    using assms(1) by (auto simp: relay_env_def intro!: metered_reads plain_writes assms(2))
  obtain c m r' w' y' where step:
    "copy_step (MeteredReaderHalf_read (ro_client_read ops) now COPY_BUF)
       (\<lambda>buf w m. case ro_visitor_write ops buf w of (res, w') \<Rightarrow> (res, w', m)) (ro_visitor_flush ops) (ro_visitor_shutdown ops)
       (rl_to_visitor ry) (rl_meter ry) = Some (c, m)"
    "has_copied fails (vw_right_in vw) (vw_visitor vw) (ro_visitor_shutdown ops) (vw_visitor vw (cp_writer (rl_to_visitor ry0)))
       (vw_right_in vw (cp_reader (rl_to_visitor ry0))) r' w' c y'"
    "vw_right_ended vw (cp_reader c)" "vw_visitor_fine vw (cp_writer c)" "keeps wa r' m"
    "copy_work (vw_right_in vw) c < copy_work (vw_right_in vw) (rl_to_visitor ry)"
    by (rule copy_step_copied [OF ops kept(2) _ _ kept(3) False]) (use kept(4) in \<open>auto simp: relay_ready_def\<close>)
  show thesis
    by (rule that [of y'])
      (use step kept assms(4) False in \<open>auto simp: to_visitor_turn_def relay_kept_def relay_ready_def turns_left_def guards_kept_def
         drop_guard_def Let_def\<close>)
qed

text \<open>How many of the turns belong to each thread.\<close>

definition client_turns :: "relay_turn list \<Rightarrow> nat" where
  "client_turns turns = length (filter (\<lambda>t. case t of ToClient _ \<Rightarrow> True | _ \<Rightarrow> False) turns)"

definition visitor_turns :: "relay_turn list \<Rightarrow> nat" where
  "visitor_turns turns = length (filter (\<lambda>t. case t of ToVisitor _ \<Rightarrow> True | _ \<Rightarrow> False) turns)"

lemma relay_run_kept:
  assumes "relay_env ops vw" "meter_keeps fails keeps" "relay_kept fails keeps ops vw ry0 ry x y" "guards_kept vkey r ry"
  shows "\<exists>x' y'. relay_kept fails keeps ops vw ry0 (fold (relay_step ops vkey) turns ry) x' y'
     \<and> guards_kept vkey r (fold (relay_step ops vkey) turns ry)
     \<and> fst (turns_left vw (fold (relay_step ops vkey) turns ry)) \<le> fst (turns_left vw ry) - client_turns turns
     \<and> snd (turns_left vw (fold (relay_step ops vkey) turns ry)) \<le> snd (turns_left vw ry) - visitor_turns turns"
  using assms(3,4)
proof (induction turns arbitrary: ry x y)
  case Nil
  then show ?case by (auto simp: client_turns_def visitor_turns_def)
next
  case (Cons turn turns)
  show ?case
  proof (cases turn)
    case (ToClient now)
    obtain x' where "relay_kept fails keeps ops vw ry0 (to_client_turn ops vkey now ry) x' y" "guards_kept vkey r (to_client_turn ops vkey now ry)"
      and left: "fst (turns_left vw (to_client_turn ops vkey now ry)) \<le> fst (turns_left vw ry) - 1"
        "snd (turns_left vw (to_client_turn ops vkey now ry)) = snd (turns_left vw ry)"
      by (rule to_client_turn_kept [OF assms(1,2) Cons.prems])
    from Cons.IH [OF this(1,2)] left show ?thesis
      by (fastforce simp: ToClient client_turns_def visitor_turns_def)
  next
    case (ToVisitor now)
    obtain y' where "relay_kept fails keeps ops vw ry0 (to_visitor_turn ops vkey now ry) x y'" "guards_kept vkey r (to_visitor_turn ops vkey now ry)"
      and left: "fst (turns_left vw (to_visitor_turn ops vkey now ry)) = fst (turns_left vw ry)"
        "snd (turns_left vw (to_visitor_turn ops vkey now ry)) \<le> snd (turns_left vw ry) - 1"
      by (rule to_visitor_turn_kept [OF assms(1,2) Cons.prems])
    from Cons.IH [OF this(1,2)] left show ?thesis
      by (fastforce simp: ToVisitor client_turns_def visitor_turns_def)
  next
    case (OtherStreams i e)
    have "keeps a b ((rl_meter ry)\<lparr>me_flow_counter := map_option (\<lambda>c. flow_add c i e) (me_flow_counter (rl_meter ry))\<rparr>)"
      if "keeps a b (rl_meter ry)" for a b
      using assms(2) that unfolding meter_keeps_def by blast
    then have "relay_kept fails keeps ops vw ry0 (relay_step ops vkey turn ry) x y" "guards_kept vkey r (relay_step ops vkey turn ry)"
      using Cons.prems by (simp_all add: OtherStreams relay_kept_def relay_ready_def guards_kept_def) blast
    from Cons.IH [OF this] show ?thesis
      by (simp add: OtherStreams client_turns_def visitor_turns_def turns_left_def)
  qed
qed

lemma relay_start_kept:
  assumes "keeps 0 0 m" "relay_ready vw (relay_start s v t w m r)"
  shows "relay_kept fails keeps ops vw (relay_start s v t w m r) (relay_start s v t w m r) [] []"
    "guards_kept vkey r (relay_start s v t w m r)"
  using assms by (auto simp: relay_kept_def relay_start_def has_copied_def guards_kept_def copy_has_ended_def)

section \<open>Meters\<close>

text \<open>Without a limit no operation of a meter fails.\<close>

definition unlimited :: "metered \<Rightarrow> bool" where
  "unlimited m \<longleftrightarrow> me_flow_counter m = None \<or> me_flow_limit_bytes m = 0"

lemma unlimited_keeps: "meter_keeps False (\<lambda>a b m. unlimited m)"
  by (auto simp: meter_keeps_def unlimited_def metered_half_count_def record_flow_counter_def Let_def split: option.splits)

text \<open>
  With a limit the bytes counted stay within it, whatever other streams add to the counter
  meanwhile: \<open>i\<close> and \<open>e\<close> are the counts at the start.
\<close>

definition counted_in_budget :: "u64 \<Rightarrow> nat \<Rightarrow> nat \<Rightarrow> nat \<Rightarrow> nat \<Rightarrow> metered \<Rightarrow> bool" where
  "counted_in_budget limit i e a b m \<longleftrightarrow>
     me_flow_limit_bytes m = limit \<and>
     (\<exists>c. me_flow_counter m = Some c \<and> min (i + a) (2 ^ 64 - 1) \<le> unat (fc_inlet_flow c)
        \<and> min (e + b) (2 ^ 64 - 1) \<le> unat (fc_export_flow c)) \<and>
     (a + b = 0 \<or> i + e + a + b \<le> unat limit)"

lemma unat_copy_buf: "n \<le> COPY_BUF \<Longrightarrow> unat (of_nat n :: u64) = n"
  by (simp add: COPY_BUF_def unat_of_nat)

lemma half_count_cases:
  assumes "me_flow_counter m = Some c" "0 < me_flow_limit_bytes m"
  shows "metered_half_count inlet export n now m =
     (if me_flow_limit_bytes m < flow_total (flow_add c inlet export) then (Inl traffic_exceeded, m)
      else (Inr (), m\<lparr>me_flow_counter := Some (flow_add c inlet export),
                      me_limiter := snd (limit_rate (me_limiter m) (of_nat n) now)\<rparr>))"
  using assms by (simp add: metered_half_count_def record_flow_counter_def flow_defs)

lemma budget_add:
  fixes p q limit :: u64
  assumes "min x (2 ^ 64 - 1) \<le> unat p" "min y (2 ^ 64 - 1) \<le> unat q" "saturating_add p q \<le> limit" "limit < - 1"
  shows "x + y \<le> unat limit"
proof -
  have "unat limit < 2 ^ 64 - 1" using assms(4) by (simp add: word_less_nat_alt unat_max_u64 [simplified])
  moreover have "min (unat p + unat q) (2 ^ 64 - 1) \<le> unat limit"
    using assms(3) by (simp add: word_le_nat_alt unat_saturating_add)
  ultimately show ?thesis using assms(1,2) by linarith
qed

lemma saturating_count:
  assumes "min x (2 ^ 64 - 1) \<le> unat (p :: u64)"
  shows "min (x + unat n) (2 ^ 64 - 1) \<le> unat (saturating_add p n)"
  using assms by (simp add: unat_saturating_add)

lemma budget_keeps:
  assumes "0 < limit" "limit < - 1"
  shows "meter_keeps True (counted_in_budget limit i e)"
proof -
  have count: "case metered_half_count x y n now m of (Inl _, m') \<Rightarrow> counted_in_budget limit i e a b m'
      | (Inr _, m') \<Rightarrow> counted_in_budget limit i e (a + unat x) (b + unat y) m'"
    if kept: "counted_in_budget limit i e a b m" for x y n now m a b
  proof -
    obtain c where c: "me_flow_counter m = Some c" "min (i + a) (2 ^ 64 - 1) \<le> unat (fc_inlet_flow c)"
      "min (e + b) (2 ^ 64 - 1) \<le> unat (fc_export_flow c)" "me_flow_limit_bytes m = limit"
      using kept by (auto simp: counted_in_budget_def)
    note more = saturating_count [OF c(2), of x] saturating_count [OF c(3), of y]
    have "i + e + (a + unat x) + (b + unat y) \<le> unat limit" if "\<not> limit < flow_total (flow_add c x y)"
      using budget_add [OF more _ assms(2)] that by (simp add: flow_total_def flow_add_def algebra_simps)
    then show ?thesis
      using kept more c assms(1) by (auto simp: half_count_cases counted_in_budget_def flow_add_def add.assoc)
  qed
  have others: "counted_in_budget limit i e a b (m\<lparr>me_flow_counter := map_option (\<lambda>c. flow_add c x y) (me_flow_counter m)\<rparr>)"
    if "counted_in_budget limit i e a b m" for a b m x y
    using that by (auto simp: counted_in_budget_def flow_add_def unat_saturating_add)
  show ?thesis
    unfolding meter_keeps_def
  proof (intro conjI allI impI)
    fix a b m n now
    assume "counted_in_budget limit i e a b m" "0 < n" "n \<le> COPY_BUF"
    note h = count [OF this(1)] and n = unat_copy_buf [OF this(3)]
    show "case metered_half_count (of_nat n) 0 n now m of (Inl _, m') \<Rightarrow> True \<and> counted_in_budget limit i e a b m'
        | (Inr _, m') \<Rightarrow> counted_in_budget limit i e (a + n) b m'"
      using h [of "of_nat n" 0 n now] unfolding n unat_0 add_0_right simp_thms .
    show "case metered_half_count 0 (of_nat n) n now m of (Inl _, m') \<Rightarrow> True \<and> counted_in_budget limit i e a b m'
        | (Inr _, m') \<Rightarrow> counted_in_budget limit i e a (b + n) m'"
      using h [of 0 "of_nat n" n now] unfolding n unat_0 add_0_right simp_thms .
  qed (rule others)
qed

section \<open>Connections for examples\<close>

text \<open>A writer that takes two bytes at a time and remembers whether it was shut down.\<close>

definition piece_write :: "(bytes \<times> bool) piece_op" where
  "piece_write buf w = (Inr (min 2 (length buf)), fst w @ take 2 buf, snd w)"

definition demo_relay_ops :: "(bytes, bytes \<times> bool, bytes, bytes \<times> bool) relay_ops" where
  "demo_relay_ops =
     \<lparr>ro_visitor_read = list_read, ro_visitor_write = piece_write, ro_visitor_flush = (\<lambda>w. (Inr (), w)),
      ro_visitor_shutdown = (\<lambda>w. (fst w, True)), ro_client_read = list_read, ro_client_write = piece_write,
      ro_client_flush = (\<lambda>w. (Inr (), w)), ro_client_shutdown = (\<lambda>w. (fst w, True))\<rparr>"

definition demo_relay_view :: "(bytes, bytes \<times> bool, bytes, bytes \<times> bool) relay_view" where
  "demo_relay_view =
     \<lparr>vw_left_in = (\<lambda>s. s), vw_left_ended = (\<lambda>_. True), vw_right_in = (\<lambda>s. s), vw_right_ended = (\<lambda>_. True),
      vw_client = fst, vw_client_fine = (\<lambda>_. True), vw_visitor = fst, vw_visitor_fine = (\<lambda>_. True)\<rparr>"

lemma demo_relay_env: "relay_env demo_relay_ops demo_relay_view"
  using list_reader
  by (auto simp: relay_env_def demo_relay_ops_def demo_relay_view_def takes_pieces_def closes_def piece_write_def min_def)

section \<open>Properties\<close>




text \<open>
  C19: A relay stays within its flow limit but for one buffer.  At every moment, in every
  interleaving with other streams that count on the same counter, what each side has received is
  a prefix of what the other sent; both together are at most the bytes that were left of the
  limit at the start and one buffer of 16 KiB, because a write is counted after it is made; and
  the connection slot is held until both threads have ended.
\<close>

theorem relay_flow_bounded:
  assumes "relay_env ops vw" "relay_ready vw (relay_start s v t w m r)"
    and "me_flow_counter m = Some c" "0 < me_flow_limit_bytes m" "me_flow_limit_bytes m < - 1"
  shows "\<exists>ry ended x y. copy_bidirectional ops vkey turns (relay_start s v t w m r) = (ry, ended)
     \<and> vw_client vw (cp_writer (rl_to_client ry)) = vw_client vw w @ x \<and> prefix x (vw_left_in vw s)
     \<and> vw_visitor vw (cp_writer (rl_to_visitor ry)) = vw_visitor vw v @ y \<and> prefix y (vw_right_in vw t)
     \<and> length x + length y \<le> unat (me_flow_limit_bytes m) - (unat (fc_inlet_flow c) + unat (fc_export_flow c)) + COPY_BUF
     \<and> rl_reg ry = (if ended then release_client_connection_slot vkey r else r)"
proof -
  let ?s = "relay_start s v t w m r"
  let ?ry = "fold (relay_step ops vkey) turns ?s"
  let ?keeps = "counted_in_budget (me_flow_limit_bytes m) (unat (fc_inlet_flow c)) (unat (fc_export_flow c))"
  have "?keeps 0 0 m" using assms(3) by (simp add: counted_in_budget_def)
  from relay_run_kept [OF assms(1) budget_keeps [OF assms(4,5)] relay_start_kept [where keeps = ?keeps, OF this assms(2)], of vkey turns]
  obtain x y where kept: "relay_kept True ?keeps ops vw ?s ?ry x y" "guards_kept vkey r ?ry" by blast
  then obtain ra wa rb wb where d:
    "has_copied True (vw_left_in vw) (vw_client vw) (ro_client_shutdown ops) (vw_client vw w) (vw_left_in vw s) ra wa (rl_to_client ?ry) x"
    "has_copied True (vw_right_in vw) (vw_visitor vw) (ro_visitor_shutdown ops) (vw_visitor vw v) (vw_right_in vw t) rb wb (rl_to_visitor ?ry) y"
    "?keeps wa rb (rl_meter ?ry)"
    unfolding relay_kept_def by (auto simp: relay_start_def)
  have "length x + length y \<le> unat (me_flow_limit_bytes m) - (unat (fc_inlet_flow c) + unat (fc_export_flow c)) + COPY_BUF"
    using copied_counts [OF d(1)] copied_counts [OF d(2)] d(3) by (auto simp: counted_in_budget_def)
  then show ?thesis
    using copied_prefix [OF d(1)] copied_prefix [OF d(2)] d(1,2) kept(2)
    by (auto simp: copy_bidirectional_def Let_def has_copied_def guards_kept_def)
qed

theorem relay_flow_bounded_witness:
  "\<exists>ry ended x. copy_bidirectional demo_relay_ops ''k'' (replicate 5 (ToClient 0))
       (relay_start [5, 6, 7] ([], False) [1, 2] ([], False)
          \<lparr>me_limiter = None, me_flow_counter = Some FlowCounter_default, me_flow_limit_bytes = 1\<rparr> (Registry_new ServerConfig_default))
     = (ry, ended) \<and> fst (cp_writer (rl_to_client ry)) = x \<and> prefix x [5, 6, 7] \<and> length x \<le> 1 + COPY_BUF"
proof -
  let ?m = "\<lparr>me_limiter = None, me_flow_counter = Some FlowCounter_default, me_flow_limit_bytes = 1\<rparr>"
  let ?start = "relay_start [5, 6, 7] ([], False) [1, 2] ([], False) ?m (Registry_new ServerConfig_default)"
  have h: "relay_ready demo_relay_view ?start" "me_flow_counter ?m = Some FlowCounter_default" "0 < me_flow_limit_bytes ?m"
    "me_flow_limit_bytes ?m < - 1"
    by (simp_all add: relay_ready_def demo_relay_view_def word_less_nat_alt unat_max_u64 [simplified])
  from relay_flow_bounded [OF demo_relay_env h, of "''k''" "replicate 5 (ToClient 0)"] show ?thesis
    by (auto simp: demo_relay_view_def FlowCounter_default_def)
qed

end
