(* ===== verification/Snappy.thy ===== *)
theory Snappy
  imports Relays
begin

text \<open>
  The compressed transport of \<open>src/relay.rs\<close>: \<open>SnappyRelayStream\<close> and its halves around an
  encoder and a decoder of the \<open>snap\<close> package, which are arguments.  The encoder keeps bytes
  until it is flushed; the theorem shows that the relay never leaves any behind.
\<close>

section \<open>The stream\<close>

text \<open>
  \<open>FrameDecoder\<close> and \<open>FrameEncoder\<close>: made around a reader and a writer, read, written and
  flushed; \<open>sn_get_mut\<close> applies an operation to the writer inside.
\<close>

record ('d, 'e, 'r, 'w) snap_ops =
  sn_decoder :: "'r \<Rightarrow> 'd"
  sn_read :: "'d read_op"
  sn_encoder :: "'w \<Rightarrow> 'e"
  sn_write :: "'e piece_op"
  sn_flush :: "'e flush_op"
  sn_get_mut :: "'w flush_op \<Rightarrow> 'e flush_op"

record ('d, 'e) SnappyRelayStream =
  sr_reader :: "'d option"
  sr_writer :: "'e option"

definition SnappyRelayStream_new ::
  "('d, 'e, 'r, 'w) snap_ops \<Rightarrow> ('r \<times> 'w) io_result \<Rightarrow> ('d, 'e) SnappyRelayStream io_result" where
  "SnappyRelayStream_new ops halves =
     (case halves of
        Inl e \<Rightarrow> Inl e
      | Inr (reader, writer) \<Rightarrow>
          Inr \<lparr>sr_reader = Some (sn_decoder ops reader), sr_writer = Some (sn_encoder ops writer)\<rparr>)"

text \<open>A stream without its half panics, so that the call has no result.\<close>

definition SnappyRelayStream_read ::
  "('d, 'e, 'r, 'w) snap_ops \<Rightarrow> ('d, 'e) SnappyRelayStream read_op" where
  "SnappyRelayStream_read ops n s =
     (case sr_reader s of
        None \<Rightarrow> None
      | Some d \<Rightarrow> map_option (\<lambda>(res, d'). (res, s\<lparr>sr_reader := Some d'\<rparr>)) (sn_read ops n d))"

definition SnappyRelayStream_write ::
  "('d, 'e, 'r, 'w) snap_ops \<Rightarrow> bytes \<Rightarrow> ('d, 'e) SnappyRelayStream \<Rightarrow> (usize io_result \<times> ('d, 'e) SnappyRelayStream) option" where
  "SnappyRelayStream_write ops buf s =
     map_option (\<lambda>e. case sn_write ops buf e of (res, e') \<Rightarrow> (res, s\<lparr>sr_writer := Some e'\<rparr>)) (sr_writer s)"

definition SnappyRelayStream_flush ::
  "('d, 'e, 'r, 'w) snap_ops \<Rightarrow> ('d, 'e) SnappyRelayStream \<Rightarrow> (unit io_result \<times> ('d, 'e) SnappyRelayStream) option" where
  "SnappyRelayStream_flush ops s =
     map_option (\<lambda>e. case sn_flush ops e of (res, e') \<Rightarrow> (res, s\<lparr>sr_writer := Some e'\<rparr>)) (sr_writer s)"

definition snappy_into_io_halves :: "('d, 'e) SnappyRelayStream \<Rightarrow> ('d \<times> 'e) io_result" where
  "snappy_into_io_halves s =
     (case sr_reader s of
        None \<Rightarrow> Inl (IoError BrokenPipe ''snappy reader unavailable'')
      | Some d \<Rightarrow>
          (case sr_writer s of
             None \<Rightarrow> Inl (IoError BrokenPipe ''snappy writer unavailable'')
           | Some e \<Rightarrow> Inr (d, e)))"

text \<open>The halves hand reads, writes and flushes on; \<open>shutdown_write\<close> flushes first.\<close>

definition SnappyWriteHalf_shutdown_write :: "('d, 'e, 'r, 'w) snap_ops \<Rightarrow> 'w flush_op \<Rightarrow> 'e flush_op" where
  "SnappyWriteHalf_shutdown_write ops shut e =
     (case sn_flush ops e of
        (Inl err, e') \<Rightarrow> (Inl err, e')
      | (Inr _, e') \<Rightarrow> sn_get_mut ops shut e')"

section \<open>What the package promises\<close>

text \<open>
  \<open>taken e\<close> are the bytes the encoder was given, \<open>on_wire w\<close> those its writer has got, and
  \<open>unframe\<close> is the format: what a decoder makes of a sequence of frames.  A write takes some
  of the bytes; after a flush the frames on the wire stand for everything taken.
\<close>

definition snap_encodes ::
  "('d, 'e, 'r, 'w) snap_ops \<Rightarrow> ('e \<Rightarrow> 'w) \<Rightarrow> ('e \<Rightarrow> bytes) \<Rightarrow> ('e \<Rightarrow> bool) \<Rightarrow> ('w \<Rightarrow> bytes) \<Rightarrow> (bytes \<Rightarrow> bytes) \<Rightarrow> bool" where
  "snap_encodes ops inner taken fine on_wire unframe \<longleftrightarrow>
     (\<forall>w. on_wire w = [] \<longrightarrow> fine (sn_encoder ops w) \<and> taken (sn_encoder ops w) = [])
   \<and> takes_pieces (sn_write ops) taken fine
   \<and> (\<forall>e. fine e \<longrightarrow> (\<exists>e'. sn_flush ops e = (Inr (), e') \<and> fine e' \<and> taken e' = taken e
        \<and> unframe (on_wire (inner e')) = taken e'))
   \<and> (\<forall>f e. inner (snd (sn_get_mut ops f e)) = snd (f (inner e)))"

definition snap_decodes ::
  "('d, 'e, 'r, 'w) snap_ops \<Rightarrow> ('r \<Rightarrow> bytes) \<Rightarrow> ('r \<Rightarrow> bool) \<Rightarrow> ('d \<Rightarrow> bytes) \<Rightarrow> ('d \<Rightarrow> bool) \<Rightarrow> (bytes \<Rightarrow> bytes) \<Rightarrow> bool" where
  "snap_decodes ops pending ended plain_rest plain_ended unframe \<longleftrightarrow>
     byte_reader (sn_read ops) plain_rest plain_ended
   \<and> (\<forall>r. ended r \<longrightarrow> plain_ended (sn_decoder ops r) \<and> plain_rest (sn_decoder ops r) = unframe (pending r))"

section \<open>Lemmas\<close>

lemma write_all_takes:
  assumes "takes_pieces wr contents fine" "fine w"
  shows "\<exists>w'. write_all wr buf w = (Inr (), w') \<and> fine w' \<and> contents w' = contents w @ buf"
  using assms(2)
proof (induction "length buf" arbitrary: buf w rule: less_induct)
  case less
  show ?case
  proof (cases "buf = []")
    case True
    with less.prems show ?thesis by (simp add: write_all.simps)
  next
    case False
    from assms(1) less.prems False obtain w' n where n: "wr buf w = (Inr n, w')" "fine w'" "0 < n" "n \<le> length buf"
      "contents w' = contents w @ take n buf"
      unfolding takes_pieces_def by blast
    from less.hyps [of "drop n buf" w'] n False obtain w2 where
      "write_all wr (drop n buf) w' = (Inr (), w2)" "fine w2" "contents w2 = contents w' @ drop n buf"
      by auto
    with n False show ?thesis by (subst write_all.simps) simp
  qed
qed

text \<open>Every piece that the copying thread writes is on the wire when the write returns.\<close>

lemma snappy_sink:
  assumes "snap_encodes ops inner taken fine on_wire unframe"
  shows "byte_sink (write_flush (sn_write ops) (sn_flush ops)) (\<lambda>e. unframe (on_wire (inner e)))
     (\<lambda>e. fine e \<and> unframe (on_wire (inner e)) = taken e)"
proof
  fix e and b :: bytes
  assume e: "fine e \<and> unframe (on_wire (inner e)) = taken e"
  have "takes_pieces (sn_write ops) taken fine" using assms by (simp add: snap_encodes_def)
  from write_all_takes [OF this] e obtain e1 where e1: "write_all (sn_write ops) b e = (Inr (), e1)" "fine e1" "taken e1 = taken e @ b"
    by blast
  from assms e1(2) obtain e2 where "sn_flush ops e1 = (Inr (), e2)" "fine e2" "taken e2 = taken e1" "unframe (on_wire (inner e2)) = taken e2"
    unfolding snap_encodes_def by blast
  with e e1 show "\<exists>e'. write_flush (sn_write ops) (sn_flush ops) b e = (Inr (), e') \<and> (fine e' \<and> unframe (on_wire (inner e')) = taken e')
      \<and> unframe (on_wire (inner e')) = unframe (on_wire (inner e)) @ b"
    by (auto simp: write_flush_def)
qed

lemma snappy_shutdown:
  assumes "snap_encodes ops inner taken fine on_wire unframe" "fine e" "\<And>w. on_wire (snd (shut w)) = on_wire w"
  shows "unframe (on_wire (inner (snd (SnappyWriteHalf_shutdown_write ops shut e)))) = taken e"
proof -
  from assms(1,2) obtain e' where "sn_flush ops e = (Inr (), e')" "taken e' = taken e" "unframe (on_wire (inner e')) = taken e'"
    unfolding snap_encodes_def by blast
  moreover have "inner (snd (sn_get_mut ops shut e')) = snd (shut (inner e'))" using assms(1) by (simp add: snap_encodes_def)
  ultimately show ?thesis using assms(3) by (simp add: SnappyWriteHalf_shutdown_write_def)
qed

section \<open>A package for examples\<close>

text \<open>Frames without compression: the encoder keeps the bytes and takes two at a time.\<close>

definition demo_snap :: "(bytes, bytes \<times> bytes, bytes, bytes) snap_ops" where
  "demo_snap =
     \<lparr>sn_decoder = (\<lambda>r. r), sn_read = list_read, sn_encoder = (\<lambda>w. ([], w)),
      sn_write = (\<lambda>buf e. (Inr (min 2 (length buf)), (fst e @ take 2 buf, snd e))),
      sn_flush = (\<lambda>e. (Inr (), ([], snd e @ fst e))),
      sn_get_mut = (\<lambda>f e. case f (snd e) of (res, w) \<Rightarrow> (res, (fst e, w)))\<rparr>"

lemma demo_snap_encodes: "snap_encodes demo_snap snd (\<lambda>e. snd e @ fst e) (\<lambda>_. True) (\<lambda>w. w) (\<lambda>b. b)"
  by (auto simp: snap_encodes_def demo_snap_def takes_pieces_def min_def case_prod_beta)

lemma demo_snap_decodes: "snap_decodes demo_snap (\<lambda>r. r) (\<lambda>_. True) (\<lambda>d. d) (\<lambda>_. True) (\<lambda>b. b)"
  by (simp add: snap_decodes_def demo_snap_def list_reader)

section \<open>Properties\<close>

text \<open>
  C18: A compressed link carries exactly what was sent.  One side copies a source that has
  ended into a new Snappy stream and shuts it down; the other side reads the frames that
  arrived on the wire through a new Snappy stream and copies them on: both threads return
  without an error, and what comes out is what went in.  No byte stays in the encoder.
\<close>

theorem snappy_link_round_trip:
  assumes "snap_encodes ops inner taken fine on_wire unframe" "snap_decodes ops pending ended plain_rest plain_ended unframe"
    and "byte_reader rd source source_ended" "source_ended s" "byte_sink wr contents sink_ok" "sink_ok v"
    and "on_wire w = []" "unframe [] = []" "\<forall>w. on_wire (snd (shut w)) = on_wire w" "inner (sn_encoder ops w) = w"
    and "SnappyRelayStream_new ops (Inr (r0, w)) = Inr near"
    and "snappy_into_io_halves near = Inr (d0, e)"
  shows "\<exists>s' e'. copy_one_way rd (write_flush (sn_write ops) (sn_flush ops)) (\<lambda>e. snd (SnappyWriteHalf_shutdown_write ops shut e)) s e
         = Some (Inr (), s', e')
     \<and> (\<forall>r. ended r \<and> pending r = on_wire (inner e') \<longrightarrow>
          (\<exists>d' v'. copy_one_way (sn_read ops) wr shut2 (sn_decoder ops r) v = Some (Inr (), d', shut2 v')
             \<and> contents v' = contents v @ source s))"
proof -
  have e: "e = sn_encoder ops w" using assms(11,12) by (auto simp: SnappyRelayStream_new_def snappy_into_io_halves_def)
  have start: "fine e" "taken e = []" using assms(1,7) by (auto simp: e snap_encodes_def)
  then have ok: "fine e \<and> unframe (on_wire (inner e)) = taken e" using assms(7,8,10) by (simp add: e)
  let ?sink = "write_flush (sn_write ops) (sn_flush ops)"
  let ?shut = "\<lambda>e. snd (SnappyWriteHalf_shutdown_write ops shut e)"
  have "relay_pair rd source source_ended ?sink (\<lambda>e. unframe (on_wire (inner e))) (\<lambda>e. fine e \<and> unframe (on_wire (inner e)) = taken e)"
    using assms(3) snappy_sink [OF assms(1)] by (rule relay_pair.intro)
  from relay_pair.copy_all [OF this assms(4) ok, of ?shut] obtain s' e1 where
    copied: "copy_one_way rd ?sink ?shut s e = Some (Inr (), s', ?shut e1)" "fine e1" "taken e1 = source s"
    using ok start by auto
  have sent: "unframe (on_wire (inner (?shut e1))) = source s"
    using snappy_shutdown [OF assms(1) copied(2), of shut] assms(9) copied(3) by simp
  have dec: "byte_reader (sn_read ops) plain_rest plain_ended" using assms(2) by (simp add: snap_decodes_def)
  have "\<exists>d' v'. copy_one_way (sn_read ops) wr shut2 (sn_decoder ops r) v = Some (Inr (), d', shut2 v')
      \<and> contents v' = contents v @ source s" if "ended r" "pending r = on_wire (inner (?shut e1))" for r
  proof -
    have "plain_ended (sn_decoder ops r)" "plain_rest (sn_decoder ops r) = source s"
      using assms(2) that sent by (simp_all add: snap_decodes_def)
    with relay_pair.copy_all [OF relay_pair.intro [OF dec assms(5)] _ assms(6), of "sn_decoder ops r" shut2] show ?thesis
      by auto
  qed
  with copied(1) show ?thesis by blast
qed

theorem snappy_link_round_trip_witness:
  "\<exists>s' e' d' v'. copy_one_way list_read (write_flush (sn_write demo_snap) (sn_flush demo_snap))
        (\<lambda>e. snd (SnappyWriteHalf_shutdown_write demo_snap (\<lambda>w. (Inr (), w)) e)) [1, 2, 3] ([], []) = Some (Inr (), s', e')
     \<and> copy_one_way (sn_read demo_snap) list_write (\<lambda>v. v) (sn_decoder demo_snap (snd e')) [] = Some (Inr (), d', v')
     \<and> v' = [1, 2, 3]"
proof -
  have "SnappyRelayStream_new demo_snap (Inr ([], [])) = Inr \<lparr>sr_reader = Some [], sr_writer = Some ([], [])\<rparr>"
    "snappy_into_io_halves \<lparr>sr_reader = Some [], sr_writer = Some ([], [])\<rparr> = Inr ([], ([], []))"
    by (simp_all add: SnappyRelayStream_new_def snappy_into_io_halves_def demo_snap_def)
  from snappy_link_round_trip [OF demo_snap_encodes demo_snap_decodes list_reader _ list_sink _ _ _ _ _ this,
      where s = "[1, 2, 3]" and v = "[]" and shut = "\<lambda>w. (Inr (), w)" and ?shut2.0 = "\<lambda>v. v"]
  show ?thesis by (force simp: demo_snap_def)
qed

end
