(* ===== verification/TlsSetup.thy ===== *)
theory TlsSetup
  imports Certs TlsRelay
begin

text \<open>
  How encrypted connections come about (\<open>src/tls.rs\<close>, \<open>src/relay.rs\<close>): the handshake of an HTTPS
  visitor and the halves of its connection, and the two configurations of the encrypted
  transport between server and client, which are made once and kept.  The TLS package, the
  generation of certificates and the PEM reader are arguments.
\<close>

section \<open>Visitors over HTTPS\<close>

definition tls_invalid_data :: "io_error \<Rightarrow> io_error" where
  "tls_invalid_data err = IoError InvalidData (err_msg err)"

text \<open>The loop over \<open>complete_io\<close>, which is \<open>None\<close> when it waits forever.\<close>

partial_function (option) handshake_rounds ::
  "('c \<Rightarrow> bool) \<Rightarrow> ('c \<Rightarrow> 's \<Rightarrow> (unit io_result \<times> 'c \<times> 's) option) \<Rightarrow> 'c \<Rightarrow> 's \<Rightarrow> ('c \<times> 's) io_result option" where
  "handshake_rounds is_handshaking complete_io conn sock =
     (if \<not> is_handshaking conn then Some (Inr (conn, sock))
      else Option.bind (complete_io conn sock) (\<lambda>(res, conn, sock).
        case res of
          Inl e \<Rightarrow> Some (Inl e)
        | Inr _ \<Rightarrow> handshake_rounds is_handshaking complete_io conn sock))"

declare handshake_rounds.simps [code]

definition handshake ::
  "'c io_result \<Rightarrow> ('c \<Rightarrow> bool) \<Rightarrow> ('c \<Rightarrow> 's \<Rightarrow> (unit io_result \<times> 'c \<times> 's) option) \<Rightarrow> 's \<Rightarrow> ('c \<times> 's) io_result option" where
  "handshake made is_handshaking complete_io sock =
     (case made of
        Inl e \<Rightarrow> Some (Inl (tls_invalid_data e))
      | Inr conn \<Rightarrow> handshake_rounds is_handshaking complete_io conn sock)"

text \<open>
  \<open>into_io_halves\<close> of the stream: both halves share the connection, the clone of the socket is
  the reader, and what the connection has queued is sent.
\<close>

definition server_tls_halves ::
  "'c TlsConnection \<Rightarrow> 'w write_op \<Rightarrow> 'r io_result \<Rightarrow> 'c \<Rightarrow> 'w \<Rightarrow> ('c, 'r, 'w) TlsSharedState io_result option" where
  "server_tls_halves ops wr cloned conn sock =
     (case cloned of
        Inl e \<Rightarrow> Some (Inl e)
      | Inr reader \<Rightarrow>
          Option.bind (flush_pending_tls ops wr \<lparr>ts_conn = conn, ts_reader = reader, ts_writer = sock\<rparr>) (\<lambda>(res, s).
            case res of Inl e \<Rightarrow> Some (Inl e) | Inr _ \<Rightarrow> Some (Inr s)))"

section \<open>The encrypted transport\<close>

definition transport_name :: string where
  "transport_name = ''rustnps-bridge''"

record 'cfg transport_env =
  tv_generate :: "string list \<Rightarrow> (string \<times> string) io_result"
  tv_single_cert :: "string list \<Rightarrow> string \<Rightarrow> 'cfg io_result"

text \<open>A self-signed certificate for the name of the transport, and a configuration with it.\<close>

definition make_server_config :: "pem_env \<Rightarrow> 'cfg transport_env \<Rightarrow> 'cfg io_result" where
  "make_server_config pem env =
     (case tv_generate env [transport_name] of
        Inl e \<Rightarrow> Inl (tls_invalid_data e)
      | Inr (cert_pem, key_pem) \<Rightarrow>
          (case pe_certs pem cert_pem of
             Inl e \<Rightarrow> Inl e
           | Inr certs \<Rightarrow>
               (case pe_private_key pem key_pem of
                  Inl e \<Rightarrow> Inl e
                | Inr None \<Rightarrow> Inl (IoError InvalidData ''missing transport private key'')
                | Inr (Some key) \<Rightarrow> map_sum tls_invalid_data id (tv_single_cert env certs key))))"

text \<open>
  The cell \<open>TRANSPORT_SERVER_CONFIG\<close>: \<open>get\<close>, then the work, then \<open>set\<close>, which keeps a value that
  is there already.  Other threads may run in between (\<open>others\<close>).
\<close>

definition once_set :: "'a \<Rightarrow> 'a option \<Rightarrow> 'a option" where
  "once_set v cell = (case cell of None \<Rightarrow> Some v | Some old \<Rightarrow> Some old)"

definition transport_server_config ::
  "pem_env \<Rightarrow> 'cfg transport_env \<Rightarrow> ('cfg option \<Rightarrow> 'cfg option) \<Rightarrow> 'cfg option \<Rightarrow> 'cfg io_result \<times> 'cfg option" where
  "transport_server_config pem env others cell =
     (case cell of
        Some config \<Rightarrow> (Inr config, cell)
      | None \<Rightarrow>
          (case make_server_config pem env of
             Inl e \<Rightarrow> (Inl e, others cell)
           | Inr config \<Rightarrow> (Inr config, once_set config (others cell))))"

text \<open>
  The verifier of the client.  It accepts every certificate; the signatures of the handshake
  are checked by the package with the algorithms of the provider.
\<close>

record 'p NoCertificateVerification =
  nv_provider :: 'p

definition verify_server_cert ::
  "'p NoCertificateVerification \<Rightarrow> string \<Rightarrow> string list \<Rightarrow> string \<Rightarrow> bytes \<Rightarrow> time \<Rightarrow> string + unit" where
  "verify_server_cert verifier end_entity intermediates server_name ocsp_response now = Inr ()"

definition verify_signature ::
  "(bytes \<Rightarrow> string \<Rightarrow> bytes \<Rightarrow> 'p \<Rightarrow> string + unit) \<Rightarrow> 'p NoCertificateVerification \<Rightarrow> bytes \<Rightarrow> string \<Rightarrow> bytes \<Rightarrow> string + unit" where
  "verify_signature check verifier message cert dss = check message cert dss (nv_provider verifier)"

definition supported_verify_schemes :: "('p \<Rightarrow> 'a list) \<Rightarrow> 'p NoCertificateVerification \<Rightarrow> 'a list" where
  "supported_verify_schemes schemes verifier = schemes (nv_provider verifier)"

definition NoCertificateVerification_default :: "'p \<Rightarrow> 'p NoCertificateVerification" where
  "NoCertificateVerification_default provider = \<lparr>nv_provider = provider\<rparr>"

text \<open>\<open>get_or_init\<close>: the configuration is its verifier; there is no client certificate.\<close>

definition transport_client_config ::
  "'p \<Rightarrow> 'p NoCertificateVerification option \<Rightarrow> 'p NoCertificateVerification \<times> 'p NoCertificateVerification option" where
  "transport_client_config provider cell =
     (case cell of
        Some config \<Rightarrow> (config, cell)
      | None \<Rightarrow> (let config = NoCertificateVerification_default provider in (config, Some config)))"

section \<open>Facts\<close>

text \<open>A handshake that succeeds has ended.\<close>

lemma handshake_ended:
  fixes conn :: 'c and sock :: 's
  assumes "handshake_rounds is_handshaking complete_io conn sock = Some (Inr (conn', sock'))"
  shows "\<not> is_handshaking conn'"
proof -
  let ?P = "\<lambda>b (cio :: 'c \<Rightarrow> 's \<Rightarrow> (unit io_result \<times> 'c \<times> 's) option) (conn :: 'c) (sock :: 's) (res :: ('c \<times> 's) io_result).
     \<forall>c. res = Inr c \<longrightarrow> \<not> b (fst c)"
  have "?P is_handshaking complete_io conn sock (Inr (conn', sock'))"
  proof (rule handshake_rounds.raw_induct [where P = ?P, OF _ assms])
    fix f b cio conn sock res
    assume IH: "\<And>b cio conn sock res. f b cio conn sock = Some res \<Longrightarrow> ?P b cio conn sock res"
      and res: "(if \<not> b conn then Some (Inr (conn, sock))
         else Option.bind (cio conn sock) (\<lambda>(res, conn, sock).
           case res of Inl e \<Rightarrow> Some (Inl e) | Inr _ \<Rightarrow> f b cio conn sock)) = Some res"
    show "?P b cio conn sock res"
    proof (cases "b conn")
      case True
      then obtain r conn1 sock1 where "cio conn sock = Some (r, conn1, sock1)"
        "(case r of Inl e \<Rightarrow> Some (Inl e) | Inr _ \<Rightarrow> f b cio conn1 sock1) = Some res"
        using res by (auto simp: bind_eq_Some_conv)
      then show ?thesis using IH [of b cio conn1 sock1 res] by (cases r) auto
    qed (use res in auto)
  qed
  then show ?thesis by simp
qed

text \<open>The halves lose nothing: what was received is kept and what was queued is sent.\<close>

lemma server_halves_complete:
  assumes "tls_sends ops queued kept" "writer_accepts wr sent"
  shows "\<exists>s. server_tls_halves ops wr (Inr reader) conn sock = Some (Inr s) \<and> kept (ts_conn s) = kept conn
     \<and> ts_reader s = reader \<and> queued (ts_conn s) = [] \<and> sent (ts_writer s) = sent sock @ queued conn"
  using flush_pending_all [OF assms, of "\<lparr>ts_conn = conn, ts_reader = reader, ts_writer = sock\<rparr>"]
  by (auto simp: server_tls_halves_def)

text \<open>
  Once a call has returned a configuration and no other thread came in between, all later calls
  return that one: every encrypted link of the server shows the same certificate.
\<close>

lemma transport_config_kept:
  assumes "transport_server_config pem env (\<lambda>c. c) cell = (Inr config, cell')"
  shows "transport_server_config pem' env' others cell' = (Inr config, cell')"
  using assms by (auto simp: transport_server_config_def once_set_def split: option.splits sum.splits)

lemma client_config_kept:
  "transport_client_config provider cell = (config, cell') \<Longrightarrow> transport_client_config p cell' = (config, cell')"
  by (auto simp: transport_client_config_def Let_def split: option.splits)

end
