(* ===== verification/Transports.thy ===== *)
theory Transports
  imports Relays Health
begin

text \<open>
  The connections of the bridge, \<open>src/bridge_transport.rs\<close>: dialling, listening and accepting
  over TCP or KCP, and the operations of the connection with its two halves.  What the sockets,
  the KCP package and its runtime do is an argument; the runtime is only there to wait for a
  call of the package.
\<close>

section \<open>Opening connections\<close>

datatype ('t, 'k) BridgeConn = ConnTcp 't | ConnKcp 'k

datatype ('l, 'm) BridgeListener = ListenTcp 'l | ListenKcp 'm

record ('t, 'k, 'l, 'm) bridge_env =
  te_tcp_connect :: "string \<Rightarrow> 't io_result"
  te_tcp_bind :: "string \<Rightarrow> 'l io_result"
  te_tcp_accept :: "'l \<Rightarrow> ('t \<times> string) io_result \<times> 'l"
  te_kcp_connect :: "string \<Rightarrow> 'k io_result"
  te_kcp_bind :: "string \<Rightarrow> 'm io_result"
  te_kcp_accept :: "'m \<Rightarrow> ('k \<times> string) io_result \<times> 'm"
  te_runtime :: "unit io_result"
  te_resolve :: "string \<Rightarrow> string list io_result"

definition kcp_error :: "io_error \<Rightarrow> io_error" where
  "kcp_error err = IoError Other (err_msg err)"

definition map_err :: "(io_error \<Rightarrow> io_error) \<Rightarrow> 'a io_result \<Rightarrow> 'a io_result" where
  "map_err f res = map_sum f id res"

definition new_runtime :: "('t, 'k, 'l, 'm) bridge_env \<Rightarrow> unit io_result" where
  "new_runtime env = map_err (\<lambda>err. IoError Other (err_msg err)) (te_runtime env)"

definition resolve_socket_addr :: "('t, 'k, 'l, 'm) bridge_env \<Rightarrow> string \<Rightarrow> string io_result" where
  "resolve_socket_addr env addr =
     (case te_resolve env addr of
        Inl e \<Rightarrow> Inl e
      | Inr [] \<Rightarrow> Inl (IoError InvalidInput (''invalid socket address: '' @ addr))
      | Inr (resolved # _) \<Rightarrow> Inr resolved)"

text \<open>A call of the KCP package for a new connection: first a runtime, then the address.\<close>

definition kcp_open :: "('t, 'k, 'l, 'm) bridge_env \<Rightarrow> (string \<Rightarrow> 'a io_result) \<Rightarrow> string \<Rightarrow> 'a io_result" where
  "kcp_open env call addr =
     (case new_runtime env of
        Inl e \<Rightarrow> Inl e
      | Inr _ \<Rightarrow>
          (case resolve_socket_addr env addr of
             Inl e \<Rightarrow> Inl e
           | Inr resolved \<Rightarrow> map_err kcp_error (call resolved)))"

definition connect_bridge_stream :: "('t, 'k, 'l, 'm) bridge_env \<Rightarrow> string \<Rightarrow> BridgeMode \<Rightarrow> ('t, 'k) BridgeConn io_result" where
  "connect_bridge_stream env addr mode =
     (case mode of
        BridgeTcp \<Rightarrow> map_sum id ConnTcp (te_tcp_connect env addr)
      | BridgeKcp \<Rightarrow> map_sum id ConnKcp (kcp_open env (te_kcp_connect env) addr))"

definition BridgeListener_bind :: "('t, 'k, 'l, 'm) bridge_env \<Rightarrow> string \<Rightarrow> BridgeMode \<Rightarrow> ('l, 'm) BridgeListener io_result" where
  "BridgeListener_bind env addr mode =
     (case mode of
        BridgeTcp \<Rightarrow> map_sum id ListenTcp (te_tcp_bind env addr)
      | BridgeKcp \<Rightarrow> map_sum id ListenKcp (kcp_open env (te_kcp_bind env) addr))"

definition BridgeListener_accept ::
  "('t, 'k, 'l, 'm) bridge_env \<Rightarrow> ('l, 'm) BridgeListener \<Rightarrow> (('t, 'k) BridgeConn \<times> string) io_result \<times> ('l, 'm) BridgeListener" where
  "BridgeListener_accept env listener =
     (case listener of
        ListenTcp l \<Rightarrow>
          (case te_tcp_accept env l of
             (Inl e, l') \<Rightarrow> (Inl e, ListenTcp l')
           | (Inr (stream, peer), l') \<Rightarrow> (Inr (ConnTcp stream, peer), ListenTcp l'))
      | ListenKcp l \<Rightarrow>
          (case te_kcp_accept env l of
             (Inl e, l') \<Rightarrow> (Inl (kcp_error e), ListenKcp l')
           | (Inr (stream, peer), l') \<Rightarrow>
               (case new_runtime env of
                  Inl e \<Rightarrow> (Inl e, ListenKcp l')
                | Inr _ \<Rightarrow> (Inr (ConnKcp stream, peer), ListenKcp l'))))"

section \<open>Operations\<close>

definition BridgeConn_read :: "'t read_op \<Rightarrow> 'k read_op \<Rightarrow> ('t, 'k) BridgeConn read_op" where
  "BridgeConn_read tcp kcp n conn =
     (case conn of
        ConnTcp s \<Rightarrow> map_option (\<lambda>(res, s'). (res, ConnTcp s')) (tcp n s)
      | ConnKcp s \<Rightarrow> map_option (\<lambda>(res, s'). (map_err kcp_error res, ConnKcp s')) (kcp n s))"

definition BridgeConn_write :: "'t piece_op \<Rightarrow> 'k piece_op \<Rightarrow> ('t, 'k) BridgeConn piece_op" where
  "BridgeConn_write tcp kcp buf conn =
     (case conn of
        ConnTcp s \<Rightarrow> (case tcp buf s of (res, s') \<Rightarrow> (res, ConnTcp s'))
      | ConnKcp s \<Rightarrow> (case kcp buf s of (res, s') \<Rightarrow> (map_err kcp_error res, ConnKcp s')))"

definition BridgeConn_flush :: "'t flush_op \<Rightarrow> ('k \<Rightarrow> 'k) \<Rightarrow> ('t, 'k) BridgeConn flush_op" where
  "BridgeConn_flush tcp kcp conn =
     (case conn of
        ConnTcp s \<Rightarrow> (case tcp s of (res, s') \<Rightarrow> (res, ConnTcp s'))
      | ConnKcp s \<Rightarrow> (Inr (), ConnKcp (kcp s)))"

text \<open>\<open>shutdown_write\<close> of a half: the KCP half has the one of the trait, which does nothing.\<close>

definition BridgeConn_shutdown_write :: "('t \<Rightarrow> 't) \<Rightarrow> ('t, 'k) BridgeConn \<Rightarrow> ('t, 'k) BridgeConn" where
  "BridgeConn_shutdown_write tcp conn = (case conn of ConnTcp s \<Rightarrow> ConnTcp (tcp s) | ConnKcp s \<Rightarrow> ConnKcp s)"

text \<open>
  \<open>into_io_halves\<close>: a socket is cloned for the reader; a KCP connection is split and each half
  gets a runtime.
\<close>

definition BridgeConn_into_io_halves ::
  "('t, 'k, 'l, 'm) bridge_env \<Rightarrow> ('t \<Rightarrow> 't io_result) \<Rightarrow> ('k \<Rightarrow> 'k \<times> 'k) \<Rightarrow> ('t, 'k) BridgeConn
     \<Rightarrow> (('t, 'k) BridgeConn \<times> ('t, 'k) BridgeConn) io_result" where
  "BridgeConn_into_io_halves env try_clone into_split conn =
     (case conn of
        ConnTcp stream \<Rightarrow> map_sum id (\<lambda>reader. (ConnTcp reader, ConnTcp stream)) (try_clone stream)
      | ConnKcp stream \<Rightarrow>
          (case into_split stream of
             (reader, writer) \<Rightarrow> map_sum id (\<lambda>_. (ConnKcp reader, ConnKcp writer)) (new_runtime env)))"

section \<open>The relay over either transport\<close>

definition on_conn :: "('t \<Rightarrow> 'a) \<Rightarrow> ('k \<Rightarrow> 'a) \<Rightarrow> ('t, 'k) BridgeConn \<Rightarrow> 'a" where
  "on_conn f g conn = (case conn of ConnTcp s \<Rightarrow> f s | ConnKcp s \<Rightarrow> g s)"

text \<open>What the relay relies on holds of the connection if it holds of socket and package.\<close>

lemma bridge_conn_reader:
  assumes "byte_reader tcp pending ended" "byte_reader kcp pending' ended'"
  shows "byte_reader (BridgeConn_read tcp kcp) (on_conn pending pending') (on_conn ended ended')"
proof
  fix n :: nat and s
  assume n: "0 < n"
  show "\<exists>out s'. BridgeConn_read tcp kcp n s = Some (Inr out, s') \<and> out \<noteq> [] \<and> length out \<le> n
      \<and> on_conn pending pending' s = out @ on_conn pending pending' s' \<and> on_conn ended ended' s' = on_conn ended ended' s"
    if "on_conn pending pending' s \<noteq> []"
    using that byte_reader.rd_data [OF assms(1) n] byte_reader.rd_data [OF assms(2) n]
    by (cases s) (fastforce simp: BridgeConn_read_def on_conn_def map_err_def)+
  show "\<exists>s'. BridgeConn_read tcp kcp n s = Some (Inr [], s') \<and> on_conn pending pending' s' = [] \<and> on_conn ended ended' s'"
    if "on_conn pending pending' s = []" "on_conn ended ended' s"
    using that byte_reader.rd_end [OF assms(1) n] byte_reader.rd_end [OF assms(2) n]
    by (cases s) (fastforce simp: BridgeConn_read_def on_conn_def map_err_def)+
qed

lemma bridge_conn_pieces:
  assumes "takes_pieces tcp contents fine" "takes_pieces kcp contents' fine'"
  shows "takes_pieces (BridgeConn_write tcp kcp) (on_conn contents contents') (on_conn fine fine')"
  unfolding takes_pieces_def
proof (intro allI impI)
  fix buf :: bytes and x
  assume "on_conn fine fine' x" "buf \<noteq> []"
  then show "\<exists>x' n. BridgeConn_write tcp kcp buf x = (Inr n, x') \<and> on_conn fine fine' x' \<and> 0 < n \<and> n \<le> length buf
      \<and> on_conn contents contents' x' = on_conn contents contents' x @ take n buf"
    using assms unfolding takes_pieces_def by (cases x) (fastforce simp: BridgeConn_write_def on_conn_def map_err_def)+
qed

text \<open>
  Over KCP the end of a stream is not passed on: a thread that ends well leaves the connection
  as if it went on writing.
\<close>

lemma kcp_end_not_signalled:
  assumes "rd COPY_BUF s = Some (Inr [], s')"
  shows "copy_one_way rd wr (BridgeConn_shutdown_write tcp) s (ConnKcp w) = Some (Inr (), s', ConnKcp w)"
    "copy_one_way rd wr (BridgeConn_shutdown_write tcp) s (ConnTcp v) = Some (Inr (), s', ConnTcp (tcp v))"
  using assms by (simp_all add: copy_one_way.simps BridgeConn_shutdown_write_def)

text \<open>A failure of the package keeps its text and loses its kind.\<close>

lemma map_err_Inl: "map_err f res = Inl e \<longleftrightarrow> (\<exists>e'. res = Inl e' \<and> e = f e')"
  by (cases res) (auto simp: map_err_def)

lemma kcp_read_error: "BridgeConn_read tcp kcp n (ConnKcp s) = Some (Inl e, c) \<Longrightarrow> err_kind e = Other"
  by (auto simp: BridgeConn_read_def map_err_Inl kcp_error_def)

end
